(* ===== verification/Wustite_Prelude.thy ===== *)
theory Wustite_Prelude
  imports Main "HOL-Library.Word"
begin

text \<open>
  Shared vocabulary of the development: Rust's \<open>Result\<close> as the sum type with the error on
  the left, the control operators the sources use on it (the \<open>?\<close> operator, \<open>map_err\<close>,
  \<open>ok_or\<close>, collecting a fallible iterator, a loop of checks), the fixed-width integers and
  their checked, saturating and Euclidean operations, and generic facts on lists.
\<close>

named_theorems result_elims \<open>destruction of successful results\<close>
named_theorems i64_simps \<open>signed 64-bit arithmetic\<close>

section \<open>Fixed-width integers\<close>

type_synonym u16 = "16 word"
type_synonym u32 = "32 word"
type_synonym u64 = "64 word"
type_synonym i64 = "64 word"

abbreviation i64_min :: int where "i64_min \<equiv> - (2 ^ 63)"
abbreviation i64_max :: int where "i64_max \<equiv> 2 ^ 63 - 1"

definition in_i64 :: "int \<Rightarrow> bool" where
  "in_i64 n \<longleftrightarrow> i64_min \<le> n \<and> n \<le> i64_max"

definition to_i64 :: "int \<Rightarrow> i64 option" where
  "to_i64 n = (if in_i64 n then Some (word_of_int n) else None)"

definition checked_add_i64 :: "i64 \<Rightarrow> i64 \<Rightarrow> i64 option" where
  "checked_add_i64 a b = (if in_i64 (sint a + sint b) then Some (a + b) else None)"

definition checked_sub_i64 :: "i64 \<Rightarrow> i64 \<Rightarrow> i64 option" where
  "checked_sub_i64 a b = (if in_i64 (sint a - sint b) then Some (a - b) else None)"

definition checked_mul_i64 :: "i64 \<Rightarrow> i64 \<Rightarrow> i64 option" where
  "checked_mul_i64 a b = (if in_i64 (sint a * sint b) then Some (a * b) else None)"

definition checked_neg_i64 :: "i64 \<Rightarrow> i64 option" where
  "checked_neg_i64 a = (if in_i64 (- sint a) then Some (- a) else None)"

text \<open>Rust's \<open>div_euclid\<close>: the quotient whose remainder lies in \<open>0..|b|\<close>.\<close>

definition div_euclid :: "int \<Rightarrow> int \<Rightarrow> int" where
  "div_euclid a b = (if 0 < b then a div b else - (a div (- b)))"

definition checked_div_euclid_i64 :: "i64 \<Rightarrow> i64 \<Rightarrow> i64 option" where
  "checked_div_euclid_i64 a b =
     (if sint b = 0 \<or> \<not> in_i64 (div_euclid (sint a) (sint b)) then None
      else Some (word_of_int (div_euclid (sint a) (sint b))))"

text \<open>Truncating quotient and remainder, as Rust's \<open>/\<close> and \<open>%\<close> on signed integers.\<close>

definition quot_trunc :: "int \<Rightarrow> int \<Rightarrow> int" where
  "quot_trunc a b = sgn a * sgn b * (\<bar>a\<bar> div \<bar>b\<bar>)"

definition rem_trunc :: "int \<Rightarrow> int \<Rightarrow> int" where
  "rem_trunc a b = sgn a * (\<bar>a\<bar> mod \<bar>b\<bar>)"

definition saturate_i64 :: "int \<Rightarrow> int" where
  "saturate_i64 n = max i64_min (min i64_max n)"

definition saturating_add_i64 :: "int \<Rightarrow> int \<Rightarrow> int" where
  "saturating_add_i64 a b = saturate_i64 (a + b)"

definition saturating_sub_i64 :: "int \<Rightarrow> int \<Rightarrow> int" where
  "saturating_sub_i64 a b = saturate_i64 (a - b)"

definition clamp_int :: "int \<Rightarrow> int \<Rightarrow> int \<Rightarrow> int" where
  "clamp_int lo hi x = max lo (min hi x)"

definition saturating_inc :: "('a :: len) word \<Rightarrow> 'a word" where
  "saturating_inc w = (if w = - 1 then - 1 else w + 1)"

definition checked_inc :: "('a :: len) word \<Rightarrow> 'a word option" where
  "checked_inc w = (if w = - 1 then None else Some (w + 1))"

lemma in_i64_sint [simp, intro!]: "in_i64 (sint (w :: i64))"
  using sint_greater_eq [of w] sint_less [of w] by (simp add: in_i64_def)

lemma sint_word_of_int_i64 [simp]: "in_i64 n \<Longrightarrow> sint (word_of_int n :: i64) = n"
  by (simp add: in_i64_def signed_take_bit_int_eq_self sint_sbintrunc')

lemma sint_to_i64 [i64_simps]: "to_i64 n = Some w \<Longrightarrow> sint w = n"
  by (auto simp: to_i64_def split: if_splits)

lemma to_i64_Some_iff: "to_i64 n = Some w \<longleftrightarrow> sint w = n"
proof
  assume "sint w = n"
  then have "in_i64 n" and "word_of_int n = w" using in_i64_sint [of w] by auto
  then show "to_i64 n = Some w" by (simp add: to_i64_def)
qed (rule sint_to_i64)

lemma to_i64_None_iff: "to_i64 n = None \<longleftrightarrow> \<not> in_i64 n"
  by (simp add: to_i64_def)

text \<open>The checked operations return the exact integer result exactly when it is representable.\<close>

lemma checked_add_i64_to: "checked_add_i64 a b = to_i64 (sint a + sint b)"
  by (simp add: checked_add_i64_def to_i64_def)

lemma checked_sub_i64_to: "checked_sub_i64 a b = to_i64 (sint a - sint b)"
  by (simp add: checked_sub_i64_def to_i64_def)

lemma checked_mul_i64_to: "checked_mul_i64 a b = to_i64 (sint a * sint b)"
  by (simp add: checked_mul_i64_def to_i64_def)

lemma checked_neg_i64_to: "checked_neg_i64 a = to_i64 (- sint a)"
  by (simp add: checked_neg_i64_def to_i64_def)

lemma checked_div_euclid_i64_to:
  "checked_div_euclid_i64 a b = (if sint b = 0 then None else to_i64 (div_euclid (sint a) (sint b)))"
  by (simp add: checked_div_euclid_i64_def to_i64_def)

lemmas checked_i64_to = checked_add_i64_to checked_sub_i64_to checked_mul_i64_to
  checked_neg_i64_to checked_div_euclid_i64_to

lemma div_euclid_pos: "0 < b \<Longrightarrow> div_euclid a b = a div b"
  by (simp add: div_euclid_def)

lemma div_euclid_exact: "b dvd a \<Longrightarrow> div_euclid a b = a div b"
  by (cases "0 < b") (auto simp: div_euclid_def dvd_neg_div div_minus_right)

lemma div_euclid_neg:
  assumes "b < 0" and "\<not> b dvd a"
  shows "div_euclid a b = a div b + 1"
proof -
  have "a div (- b) = - (a div b) - 1"
    using assms by (simp add: div_minus_right zdiv_zminus1_eq_if dvd_eq_mod_eq_0)
  then show ?thesis using assms by (simp add: div_euclid_def)
qed


text \<open>Saturating and checked increments.\<close>

lemma unat_max_u64: "unat (- 1 :: u64) = 2 ^ 64 - 1"
  by (simp add: unsigned_minus_1_eq_mask mask_eq_exp_minus_1)

lemma unat_saturating_inc: "w \<noteq> - 1 \<Longrightarrow> unat (saturating_inc w) = Suc (unat w)"
  using unatSuc [of w] by (auto simp: saturating_inc_def add.commute add_eq_0_iff)

text \<open>The conversion \<open>u32::try_from\<close> of an index or a length.\<close>

definition u32_of_len :: "nat \<Rightarrow> u32 option" where
  "u32_of_len n = (if n < 2 ^ 32 then Some (word_of_nat n) else None)"

lemma u32_of_len_Some: "u32_of_len n = Some w \<Longrightarrow> unat w = n \<and> n < 2 ^ 32"
  by (auto simp: u32_of_len_def unsigned_of_nat take_bit_nat_eq_self split: if_splits)

section \<open>Results\<close>

type_synonym ('e, 'a) result = "'e + 'a"

text \<open>The \<open>?\<close> operator: continue with the value, or return the error at once.\<close>

fun and_then :: "'e + 'a \<Rightarrow> ('a \<Rightarrow> 'e + 'b) \<Rightarrow> 'e + 'b" where
  "and_then (Inl e) f = Inl e"
| "and_then (Inr x) f = f x"

fun map_err :: "('e \<Rightarrow> 'f) \<Rightarrow> 'e + 'a \<Rightarrow> 'f + 'a" where
  "map_err g (Inl e) = Inl (g e)"
| "map_err g (Inr x) = Inr x"

fun map_ok :: "('a \<Rightarrow> 'b) \<Rightarrow> 'e + 'a \<Rightarrow> 'e + 'b" where
  "map_ok g (Inl e) = Inl e"
| "map_ok g (Inr x) = Inr (g x)"

fun ok_or :: "'a option \<Rightarrow> 'e \<Rightarrow> 'e + 'a" where
  "ok_or None e = Inl e"
| "ok_or (Some x) e = Inr x"

definition ensure :: "bool \<Rightarrow> 'e \<Rightarrow> 'e + unit" where
  "ensure b e = (if b then Inr () else Inl e)"

text \<open>A loop whose body may fail, and the collection of a fallible map.\<close>

fun try_all :: "('a \<Rightarrow> 'e + unit) \<Rightarrow> 'a list \<Rightarrow> 'e + unit" where
  "try_all f [] = Inr ()"
| "try_all f (x # xs) = and_then (f x) (\<lambda>_. try_all f xs)"

fun try_map :: "('a \<Rightarrow> 'e + 'b) \<Rightarrow> 'a list \<Rightarrow> 'e + 'b list" where
  "try_map f [] = Inr []"
| "try_map f (x # xs) = and_then (f x) (\<lambda>y. and_then (try_map f xs) (\<lambda>ys. Inr (y # ys)))"

fun try_opt :: "('a \<Rightarrow> 'e + 'b) \<Rightarrow> 'a option \<Rightarrow> 'e + 'b option" where
  "try_opt f None = Inr None"
| "try_opt f (Some x) = map_ok Some (f x)"

text \<open>A loop that threads an accumulator and may fail.\<close>

fun try_fold :: "('s \<Rightarrow> 'a \<Rightarrow> 'e + 's) \<Rightarrow> 's \<Rightarrow> 'a list \<Rightarrow> 'e + 's" where
  "try_fold f s [] = Inr s"
| "try_fold f s (x # xs) = and_then (f s x) (\<lambda>t. try_fold f t xs)"

lemma and_then_Inr_iff: "and_then m f = Inr y \<longleftrightarrow> (\<exists>x. m = Inr x \<and> f x = Inr y)"
  by (cases m) auto

lemma and_then_InrE [result_elims]:
  "and_then m f = Inr y \<Longrightarrow> (\<And>x. m = Inr x \<Longrightarrow> f x = Inr y \<Longrightarrow> P) \<Longrightarrow> P"
  by (cases m) auto

lemma and_then_Inl_iff: "and_then m f = Inl e \<longleftrightarrow> m = Inl e \<or> (\<exists>x. m = Inr x \<and> f x = Inl e)"
  by (cases m) auto

lemma map_err_Inr_iff [simp]: "map_err g m = Inr x \<longleftrightarrow> m = Inr x"
  by (cases m) auto

lemma map_err_Inl_iff: "map_err g m = Inl e \<longleftrightarrow> (\<exists>d. m = Inl d \<and> e = g d)"
  by (cases m) auto

lemma map_ok_Inr_iff: "map_ok g m = Inr y \<longleftrightarrow> (\<exists>x. m = Inr x \<and> y = g x)"
  by (cases m) auto

lemma map_ok_Inl_iff [simp]: "map_ok g m = Inl e \<longleftrightarrow> m = Inl e"
  by (cases m) auto

lemma ok_or_Inr_iff [simp]: "ok_or m e = Inr x \<longleftrightarrow> m = Some x"
  by (cases m) auto

lemma ok_or_Inl_iff [simp]: "ok_or m e = Inl d \<longleftrightarrow> m = None \<and> d = e"
  by (cases m) auto

lemma ensure_Inr_iff [simp]: "ensure b e = Inr u \<longleftrightarrow> b"
  by (simp add: ensure_def)

lemma ensure_Inl_iff [simp]: "ensure b e = Inl d \<longleftrightarrow> \<not> b \<and> d = e"
  by (auto simp: ensure_def)

lemma try_all_Inr_iff: "try_all f xs = Inr u \<longleftrightarrow> (\<forall>x \<in> set xs. f x = Inr ())"
  by (induction xs) (auto simp: and_then_Inr_iff)

lemma try_all_Inl: "try_all f xs = Inl e \<Longrightarrow> \<exists>x \<in> set xs. f x = Inl e"
  by (induction xs) (auto simp: and_then_Inl_iff)

lemma try_map_Inr_iff: "try_map f xs = Inr ys \<longleftrightarrow> list_all2 (\<lambda>x y. f x = Inr y) xs ys"
  by (induction xs arbitrary: ys) (auto simp: and_then_Inr_iff list_all2_Cons1)

lemma try_map_total: "\<forall>x \<in> set xs. \<exists>y. f x = Inr y \<Longrightarrow> \<exists>ys. try_map f xs = Inr ys"
  by (induction xs) (auto simp: and_then_Inr_iff)

lemma try_map_Inl: "try_map f xs = Inl e \<Longrightarrow> \<exists>x \<in> set xs. f x = Inl e"
  by (induction xs) (auto simp: and_then_Inl_iff)

lemma try_fold_inv:
  assumes "try_fold f s xs = Inr t" and "P s"
    and "\<And>u v x. x \<in> set xs \<Longrightarrow> P u \<Longrightarrow> f u x = Inr v \<Longrightarrow> P v"
  shows "P t"
  using assms by (induction xs arbitrary: s) (auto simp: and_then_Inr_iff)

lemmas result_iffs = and_then_Inr_iff map_ok_Inr_iff try_all_Inr_iff try_map_Inr_iff

section \<open>Lists\<close>

lemma bex_enumerate: "(\<exists>x \<in> set (List.enumerate 0 xs). P x) \<longleftrightarrow> (\<exists>k < length xs. P (k, xs ! k))"
proof -
  have "x \<in> set (List.enumerate 0 xs) \<longleftrightarrow> fst x < length xs \<and> snd x = xs ! fst x" for x
    by (auto simp: in_set_enumerate_eq)
  then show ?thesis by auto
qed


lemma list_all2_right: "list_all2 P xs ys \<Longrightarrow> y \<in> set ys \<Longrightarrow> \<exists>x. P x y"
  by (metis in_set_conv_nth list_all2_conv_all_nth)

text \<open>Rust's \<open>iter().position\<close> and \<open>slice::get\<close>.\<close>

fun position :: "('a \<Rightarrow> bool) \<Rightarrow> 'a list \<Rightarrow> nat option" where
  "position p [] = None"
| "position p (x # xs) = (if p x then Some 0 else map_option Suc (position p xs))"

definition get_at :: "'a list \<Rightarrow> nat \<Rightarrow> 'a option" where
  "get_at xs i = (if i < length xs then Some (xs ! i) else None)"

definition insert_at :: "nat \<Rightarrow> 'a \<Rightarrow> 'a list \<Rightarrow> 'a list" where
  "insert_at i x xs = take i xs @ x # drop i xs"

definition remove_at :: "nat \<Rightarrow> 'a list \<Rightarrow> 'a list" where
  "remove_at i xs = take i xs @ drop (Suc i) xs"

definition splice_range :: "nat \<Rightarrow> nat \<Rightarrow> 'a list \<Rightarrow> 'a list \<Rightarrow> 'a list" where
  "splice_range start stop new xs = take start xs @ new @ drop stop xs"

lemma get_at_Some_iff [simp]: "get_at xs i = Some x \<longleftrightarrow> i < length xs \<and> xs ! i = x"
  by (auto simp: get_at_def)

lemma get_at_None_iff [simp]: "get_at xs i = None \<longleftrightarrow> length xs \<le> i"
  by (auto simp: get_at_def)

lemma get_at_Some_sym [simp]: "Some x = get_at xs i \<longleftrightarrow> i < length xs \<and> xs ! i = x"
  by (auto simp: get_at_def)

lemma get_at_None_sym [simp]: "None = get_at xs i \<longleftrightarrow> length xs \<le> i"
  by (auto simp: get_at_def)

lemma get_at_map: "get_at (map f xs) i = map_option f (get_at xs i)"
  by (simp add: get_at_def)

lemma get_at_in_set: "get_at xs i = Some x \<Longrightarrow> x \<in> set xs"
  by auto

lemma position_Some: "position p xs = Some i \<Longrightarrow> i < length xs \<and> p (xs ! i) \<and> (\<forall>j < i. \<not> p (xs ! j))"
proof (induction xs arbitrary: i)
  case (Cons x xs)
  show ?case
  proof (cases "p x")
    case False
    with Cons.prems obtain j where j: "position p xs = Some j" and i: "i = Suc j" by auto
    have "\<forall>k < Suc j. \<not> p ((x # xs) ! k)"
      using Cons.IH [OF j] False by (auto simp: less_Suc_eq_0_disj)
    then show ?thesis using Cons.IH [OF j] i by auto
  qed (use Cons.prems in auto)
qed simp

lemma position_None: "position p xs = None \<longleftrightarrow> (\<forall>x \<in> set xs. \<not> p x)"
  by (induction xs) auto

lemma length_insert_at [simp]: "i \<le> length xs \<Longrightarrow> length (insert_at i x xs) = Suc (length xs)"
  by (simp add: insert_at_def)

lemma length_remove_at [simp]: "i < length xs \<Longrightarrow> length (remove_at i xs) = length xs - 1"
  by (simp add: remove_at_def)

lemma set_insert_at [simp]: "i \<le> length xs \<Longrightarrow> set (insert_at i x xs) = insert x (set xs)"
proof -
  have "set xs = set (take i xs) \<union> set (drop i xs)" by (metis append_take_drop_id set_append)
  then show ?thesis by (auto simp: insert_at_def)
qed

lemma set_remove_at: "set (remove_at i xs) \<subseteq> set xs"
  by (auto simp: remove_at_def dest: in_set_takeD in_set_dropD)

lemma map_insert_at: "map f (insert_at i x xs) = insert_at i (f x) (map f xs)"
  by (simp add: insert_at_def take_map drop_map)

lemma map_remove_at: "map f (remove_at i xs) = remove_at i (map f xs)"
  by (simp add: remove_at_def take_map drop_map)

lemma remove_at_Nil [simp]: "remove_at i [] = []"
  by (simp add: remove_at_def)

lemma insert_at_Nil [simp]: "insert_at i x [] = [x]"
  by (simp add: insert_at_def)

lemma insert_at_length: "insert_at (length xs) x xs = xs @ [x]"
  by (simp add: insert_at_def)

section \<open>Worklists\<close>

text \<open>A visit shrinks the items still to be met of a worklist; a repeated item shrinks the queue.\<close>

lemma visit_decreases:
  assumes "finite U" "h \<notin> V" "set new \<subseteq> U"
  shows "card ((U \<union> set (q @ new)) - insert h V) < card ((U \<union> set (h # q)) - V)"
  using assms by (intro psubset_card_mono) auto

lemma skip_decreases:
  assumes "finite U" "h \<in> V"
  shows "card ((U \<union> set q) - V) \<le> card ((U \<union> set (h # q)) - V)"
  using assms by (intro card_mono) auto

end
