(* ===== verification/Float64.thy ===== *)
theory Float64
  imports Wustite_Prelude
begin

unbundle bit_operations_syntax

text \<open>
  IEEE-754 binary64 as the Rust sources use \<open>f64\<close>: a bit pattern with exact decoding and
  round-to-nearest-even encoding. A finite number is a whole number of units of \<open>2^-1074\<close>
  (the least positive subnormal), so comparison, truncation and the fractional part are exact
  integer operations. The bit pattern of an arithmetic NaN, which Rust leaves open, is the
  canonical quiet NaN here. \<open>powf\<close> and \<open>powi\<close>, whose precision the standard library
  leaves open, and the conversions of the bignum crate are parameters (record \<open>numlib\<close>).
\<close>

type_synonym f64 = "64 word"

section \<open>Decoding\<close>

definition f64_sign :: "f64 \<Rightarrow> bool" where
  "f64_sign x \<longleftrightarrow> 2 ^ 63 \<le> unat x"

definition f64_exponent :: "f64 \<Rightarrow> nat" where
  "f64_exponent x = (unat x div 2 ^ 52) mod 2 ^ 11"

definition f64_fraction :: "f64 \<Rightarrow> nat" where
  "f64_fraction x = unat x mod 2 ^ 52"

definition f64_is_nan :: "f64 \<Rightarrow> bool" where
  "f64_is_nan x \<longleftrightarrow> f64_exponent x = 2047 \<and> f64_fraction x \<noteq> 0"

definition f64_is_finite :: "f64 \<Rightarrow> bool" where
  "f64_is_finite x \<longleftrightarrow> f64_exponent x \<noteq> 2047"

definition f64_is_infinite :: "f64 \<Rightarrow> bool" where
  "f64_is_infinite x \<longleftrightarrow> f64_exponent x = 2047 \<and> f64_fraction x = 0"

definition unit_scale :: int where "unit_scale = 2 ^ 1074"

lemma unit_scale_pos [simp]: "0 < unit_scale" "unit_scale \<noteq> 0" "0 \<le> unit_scale"
  by (simp_all add: unit_scale_def)

definition f64_magnitude :: "f64 \<Rightarrow> nat" where
  "f64_magnitude x =
     (if f64_exponent x = 0 then f64_fraction x
      else (2 ^ 52 + f64_fraction x) * 2 ^ (f64_exponent x - 1))"

text \<open>The value of a finite number, in units of \<open>2^-1074\<close>.\<close>

definition f64_units :: "f64 \<Rightarrow> int" where
  "f64_units x = (if f64_sign x then - int (f64_magnitude x) else int (f64_magnitude x))"

definition f64_nan :: f64 where "f64_nan = 0x7FF8000000000000"
definition f64_infinity :: f64 where "f64_infinity = 0x7FF0000000000000"
definition f64_neg_infinity :: f64 where "f64_neg_infinity = 0xFFF0000000000000"

section \<open>Rounding\<close>

fun bit_length :: "nat \<Rightarrow> nat" where
  "bit_length n = (if n = 0 then 0 else Suc (bit_length (n div 2)))"

declare bit_length.simps [simp del]

definition round_half_even :: "nat \<Rightarrow> nat \<Rightarrow> nat" where
  "round_half_even n d =
     (let q = n div d; r = n mod d
      in if 2 * r < d \<or> (2 * r = d \<and> even q) then q else Suc q)"

text \<open>
  The double nearest to \<open>(-1)^s * (n / d)\<close> units. With \<open>k\<close> the excess of the quotient's
  length over 53 bits, the pattern is \<open>k * 2^52\<close> plus the rounded 53-bit significand: the carry
  of a significand that rounds up to \<open>2^53\<close> lands in the exponent field.
\<close>

definition f64_round :: "bool \<Rightarrow> nat \<Rightarrow> nat \<Rightarrow> f64" where
  "f64_round s n d =
     (let k = bit_length (n div d) - 53;
          bits = k * 2 ^ 52 + round_half_even n (d * 2 ^ k)
      in word_of_nat (min bits (2047 * 2 ^ 52) + (if s then 2 ^ 63 else 0)))"

section \<open>Operations\<close>

definition f64_neg :: "f64 \<Rightarrow> f64" where
  "f64_neg x = x XOR 0x8000000000000000"

definition f64_is_zero :: "f64 \<Rightarrow> bool" where
  "f64_is_zero x \<longleftrightarrow> f64_is_finite x \<and> f64_units x = 0"

definition f64_eq :: "f64 \<Rightarrow> f64 \<Rightarrow> bool" where
  "f64_eq x y \<longleftrightarrow>
     (if f64_is_nan x \<or> f64_is_nan y then False
      else if f64_is_finite x \<and> f64_is_finite y then f64_units x = f64_units y
      else x = y)"

definition f64_lt :: "f64 \<Rightarrow> f64 \<Rightarrow> bool" where
  "f64_lt x y \<longleftrightarrow>
     (if f64_is_nan x \<or> f64_is_nan y then False
      else if f64_is_finite x \<and> f64_is_finite y then f64_units x < f64_units y
      else if f64_is_finite x then \<not> f64_sign y
      else if f64_is_finite y then f64_sign x
      else f64_sign x \<and> \<not> f64_sign y)"

text \<open>Truncation towards zero and the fractional part (its sign and whether it is zero).\<close>

definition f64_trunc :: "f64 \<Rightarrow> int" where
  "f64_trunc x = quot_trunc (f64_units x) unit_scale"

definition f64_fract_units :: "f64 \<Rightarrow> int" where
  "f64_fract_units x = rem_trunc (f64_units x) unit_scale"

definition f64_of_int :: "int \<Rightarrow> f64" where
  "f64_of_int n = f64_round (n < 0) (nat (\<bar>n\<bar> * unit_scale)) 1"

definition f64_add :: "f64 \<Rightarrow> f64 \<Rightarrow> f64" where
  "f64_add x y =
     (if f64_is_nan x \<or> f64_is_nan y then f64_nan
      else if f64_is_infinite x then (if f64_is_infinite y \<and> x \<noteq> y then f64_nan else x)
      else if f64_is_infinite y then y
      else let u = f64_units x + f64_units y
           in if u = 0 then (if f64_sign x \<and> f64_sign y then f64_neg 0 else 0)
              else f64_round (u < 0) (nat \<bar>u\<bar>) 1)"

definition f64_sub :: "f64 \<Rightarrow> f64 \<Rightarrow> f64" where
  "f64_sub x y = f64_add x (f64_neg y)"

definition f64_signed :: "bool \<Rightarrow> f64 \<Rightarrow> f64" where
  "f64_signed s x = (if s then f64_neg x else x)"

definition f64_mul :: "f64 \<Rightarrow> f64 \<Rightarrow> f64" where
  "f64_mul x y =
     (let s = (f64_sign x \<noteq> f64_sign y)
      in if f64_is_nan x \<or> f64_is_nan y then f64_nan
         else if f64_is_infinite x \<or> f64_is_infinite y
         then (if f64_is_zero x \<or> f64_is_zero y then f64_nan else f64_signed s f64_infinity)
         else f64_round s (f64_magnitude x * f64_magnitude y) (2 ^ 1074))"

definition f64_div :: "f64 \<Rightarrow> f64 \<Rightarrow> f64" where
  "f64_div x y =
     (let s = (f64_sign x \<noteq> f64_sign y)
      in if f64_is_nan x \<or> f64_is_nan y then f64_nan
         else if f64_is_infinite x
         then (if f64_is_infinite y then f64_nan else f64_signed s f64_infinity)
         else if f64_is_infinite y then f64_signed s 0
         else if f64_is_zero y then (if f64_is_zero x then f64_nan else f64_signed s f64_infinity)
         else f64_round s (f64_magnitude x * 2 ^ 1074) (f64_magnitude y))"

definition f64_floor :: "f64 \<Rightarrow> f64" where
  "f64_floor x =
     (if \<not> f64_is_finite x \<or> f64_fract_units x = 0 then x
      else let n = f64_units x div unit_scale
           in f64_signed (f64_sign x) (f64_round False (nat (\<bar>n\<bar> * unit_scale)) 1))"

text \<open>Number conversions of the bignum crate and the inexact functions of the standard library.\<close>

record numlib =
  nl_from_f64 :: "f64 \<Rightarrow> int option"
  nl_to_f64 :: "int \<Rightarrow> f64 option"
  nl_powf :: "f64 \<Rightarrow> f64 \<Rightarrow> f64"
  nl_powi :: "f64 \<Rightarrow> int \<Rightarrow> f64"

text \<open>The documented contract of \<open>BigInt::from_f64\<close>: truncation of every finite number.\<close>

definition numlib_truncates :: "numlib \<Rightarrow> bool" where
  "numlib_truncates L \<longleftrightarrow> (\<forall>x. f64_is_finite x \<longrightarrow> nl_from_f64 L x = Some (f64_trunc x))"

text \<open>A concrete instance, used where a closed example needs one.\<close>

definition sample_numlib :: numlib where
  "sample_numlib =
     \<lparr>nl_from_f64 = (\<lambda>x. if f64_is_finite x then Some (f64_trunc x) else None),
      nl_to_f64 = (\<lambda>n. Some (f64_of_int n)),
      nl_powf = (\<lambda>x y. f64_nan),
      nl_powi = (\<lambda>x n. f64_nan)\<rparr>"

lemma sample_numlib_truncates: "numlib_truncates sample_numlib"
  by (simp add: numlib_truncates_def sample_numlib_def)

section \<open>Facts\<close>

lemma f64_nan_not_finite: "f64_is_nan x \<Longrightarrow> \<not> f64_is_finite x"
  by (simp add: f64_is_nan_def f64_is_finite_def)

lemma f64_eq_sym: "f64_eq x y = f64_eq y x"
  by (auto simp: f64_eq_def)

lemma f64_eq_refl_iff: "f64_eq x x \<longleftrightarrow> \<not> f64_is_nan x"
  by (simp add: f64_eq_def)

lemma f64_eq_trans: "f64_eq x y \<Longrightarrow> f64_eq y z \<Longrightarrow> f64_eq x z"
  by (auto simp: f64_eq_def split: if_splits)

lemma sgn_mult_abs_int: "sgn (u :: int) * \<bar>u\<bar> = u"
  by (simp add: sgn_if)

lemma quot_rem_trunc: "0 < b \<Longrightarrow> quot_trunc a b * b + rem_trunc a b = a"
proof -
  assume b: "0 < b"
  have "quot_trunc a b * b + rem_trunc a b = sgn a * (\<bar>a\<bar> div b * b) + sgn a * (\<bar>a\<bar> mod b)"
    using b by (simp add: quot_trunc_def rem_trunc_def)
  also have "\<dots> = sgn a * \<bar>a\<bar>" by (simp only: distrib_left [symmetric] div_mult_mod_eq)
  finally show ?thesis by (simp only: sgn_mult_abs_int)
qed

lemma f64_units_split: "f64_trunc x * unit_scale + f64_fract_units x = f64_units x"
  unfolding f64_trunc_def f64_fract_units_def by (rule quot_rem_trunc) simp

lemma rem_trunc_bound: "0 < b \<Longrightarrow> \<bar>rem_trunc a b\<bar> < b"
  by (simp add: rem_trunc_def abs_mult sgn_if)

lemma f64_fract_bound: "\<bar>f64_fract_units x\<bar> < unit_scale"
  by (simp add: f64_fract_units_def rem_trunc_bound)

text \<open>Comparing an integer with the truncation and then the fraction is the exact comparison.\<close>

lemma int_less_units:
  "n * unit_scale < f64_units x \<longleftrightarrow> n < f64_trunc x \<or> (n = f64_trunc x \<and> 0 < f64_fract_units x)"
  (is "?L \<longleftrightarrow> ?R")
proof -
  define t f where "t = f64_trunc x" and "f = f64_fract_units x"
  have u: "f64_units x = t * unit_scale + f" by (simp add: t_def f_def f64_units_split)
  have f: "\<bar>f\<bar> < unit_scale" by (simp add: f_def f64_fract_bound)
  have sgn: "0 \<le> f \<or> t \<le> 0" "f \<le> 0 \<or> 0 \<le> t"
    by (auto simp: t_def f_def f64_trunc_def f64_fract_units_def quot_trunc_def rem_trunc_def
        sgn_if mult_le_0_iff zero_le_mult_iff pos_imp_zdiv_nonneg_iff split: if_splits)
  consider "n < t" | "n = t" | "t < n" by linarith
  then show ?thesis
  proof cases
    case 1
    then have "(t - n) * unit_scale \<ge> 1 * unit_scale" by (intro mult_right_mono) auto
    then have "n * unit_scale < f64_units x" using u f by (simp add: algebra_simps)
    with 1 show ?thesis by (simp add: t_def)
  next
    case 2
    then show ?thesis using u by (simp add: t_def f_def)
  next
    case 3
    then have "(n - t) * unit_scale \<ge> 1 * unit_scale" by (intro mult_right_mono) auto
    then have "\<not> n * unit_scale < f64_units x" using u f by (simp add: algebra_simps)
    with 3 show ?thesis by (simp add: t_def)
  qed
qed

lemma int_eq_units: "n * unit_scale = f64_units x \<longleftrightarrow> n = f64_trunc x \<and> f64_fract_units x = 0"
proof
  assume eq: "n * unit_scale = f64_units x"
  have q: "quot_trunc (n * unit_scale) unit_scale = n"
    by (simp add: quot_trunc_def abs_mult sgn_mult sgn_mult_abs_int)
  then have "f64_trunc x = n" by (simp add: f64_trunc_def flip: eq)
  then show "n = f64_trunc x \<and> f64_fract_units x = 0" using f64_units_split [of x] eq by simp
qed (use f64_units_split [of x] in auto)

end
