(* ===== verification/Bytecode.thy ===== *)
theory Bytecode
  imports Float64
begin

text \<open>
  The register bytecode of the Wustite virtual machine (\<open>bytecode.rs\<close>): operators,
  instructions and functions. A register is 16 bits wide; a program counter, a jump target and
  a constant index are \<open>usize\<close> and appear as natural numbers.
\<close>

type_synonym register = u16

datatype operation_site_id = OperationSiteId u32
datatype constant_id = ConstantId nat

datatype binary_operator = Add | Subtract | Multiply | Divide | FloorDivide | Power
datatype compare_operator = CmpEq | CmpNotEq | CmpLt | CmpLe | CmpGt | CmpGe
datatype unary_operator = Negate | LogicalNot
datatype boolean_operator = BoolAnd | BoolOr

datatype instruction =
    ConstSmallInt register i64
  | ConstFloat register f64
  | ConstBool register bool
  | ConstNone register
  | LoadConstant register constant_id
  | ConstI64 register i64
  | BinaryOp register binary_operator register register operation_site_id
  | CompareOp register compare_operator register register operation_site_id
  | UnaryOp register unary_operator register
  | BooleanOp register boolean_operator register register
  | BuildTuple register "register list"
  | BuildList register "register list"
  | BuildDict register "(register \<times> register) list"
  | GetItem register register register
  | GetAttr register register string
  | GetSlice register register "register option" "register option" "register option"
  | SetItem register register register
  | SetAttr register string register
  | SetSlice register "register option" "register option" "register option" register
  | ListAppend register register
  | ListInsert register register register
  | ListPop register register register
  | Length register register
  | LoadCurrentFunction register
  | Call register register "register list"
  | CallMethod register register string "register list"
  | AddI64 register register register
  | LtI64 register register register
  | Jump nat
  | Branch register nat nat
  | Return register
  | Move register register

record wfunction =
  code :: "instruction list"
  register_count :: nat

section \<open>Control flow\<close>

text \<open>
  Where control may go after an instruction that completes: the fall-through, the jump target,
  both branch targets, or nowhere after a return. The specification of control flow that the
  verifier, the control-flow graph and the interpreter are compared with.
\<close>

fun successors :: "instruction \<Rightarrow> nat \<Rightarrow> nat list" where
  "successors (Jump target) pc = [target]"
| "successors (Branch cond yes no) pc = [yes, no]"
| "successors (Return src) pc = []"
| "successors _ pc = [Suc pc]"

end
