(* ===== verification/Structure_Facts.thy ===== *)
theory Structure_Facts
  imports Bytecode
begin

text \<open>
  The data of the structure map (\<open>structure_map/facts.rs\<close>, \<open>facts/sequence.rs\<close>,
  \<open>region.rs\<close>, \<open>structure_map.rs\<close>): facts of graded certainty, basic blocks, regions and
  value facts, the lookups on a finished map, the identity chain of aliases, and the recording
  operations of the builder. Rust's \<open>Fact::Unknown\<close>, \<open>IdentityFact::Unknown\<close> and the like
  carry a prefix, since HOL constructors share one name space.
\<close>

datatype object_kind =
    KString | KTuple | KBigInt | KList | KDict | KFunction | KClass | KInstance | KBoundMethod

datatype sequence_strategy = StratEmpty | StratBool | StratI64 | StratF64 | StratObject

datatype slot_type = SlotSmallInt | SlotFloat | SlotBool | SlotObject object_kind | SlotAny

datatype 'a fact = Proven 'a | Guardable 'a | Unknown

fun proven :: "'a fact \<Rightarrow> 'a option" where
  "proven (Proven x) = Some x"
| "proven (Guardable x) = None"
| "proven Unknown = None"

fun candidate :: "'a fact \<Rightarrow> 'a option" where
  "candidate (Proven x) = Some x"
| "candidate (Guardable x) = Some x"
| "candidate Unknown = None"

type_synonym type_fact = "slot_type fact"

datatype value_id = ValueId u32
datatype block_id = BlockId u32
datatype region_id = RegionId nat

primrec value_index :: "value_id \<Rightarrow> nat" where "value_index (ValueId w) = unat w"
primrec block_index :: "block_id \<Rightarrow> nat" where "block_index (BlockId w) = unat w"
primrec site_index :: "operation_site_id \<Rightarrow> nat" where "site_index (OperationSiteId w) = unat w"
primrec region_index :: "region_id \<Rightarrow> nat" where "region_index (RegionId n) = n"

record operation_site =
  site_pc :: nat
  site_lhs :: type_fact
  site_rhs :: type_fact
  site_result :: type_fact

record value_use =
  use_register :: register
  use_value :: "value_id option"

datatype value_origin =
    OriginParameter nat string
  | OriginImmediate nat
  | OriginConstantPool nat nat "object_kind option"
  | OriginCurrentFunction nat
  | OriginAllocation nat object_kind
  | OriginOperation nat
  | OriginProjection nat value_use
  | OriginCall nat value_use
  | OriginAlias nat value_use
  | OriginUnknown nat

datatype value_composition =
    CompositionNone
  | CompositionSequence "value_use list"
  | CompositionMapping "(value_use \<times> value_use) list"

datatype identity_fact = Fresh | AliasOf value_id | IdentityUnknown

datatype escape_state = EscLocal | EscRegion | EscFunction | EscUnknown

datatype failure_kind =
    FailArithmetic | FailDivisionByZero | FailType | FailIndex | FailKey | FailValue | FailCall
  | FailAllocation

record effect_summary =
  may_mutate :: bool
  may_allocate :: bool
  may_call_unknown :: bool
  may_access_global_state :: bool

definition no_effects :: effect_summary where
  "no_effects = \<lparr>may_mutate = False, may_allocate = False, may_call_unknown = False,
     may_access_global_state = False\<rparr>"

definition is_pure :: "effect_summary \<Rightarrow> bool" where
  "is_pure e \<longleftrightarrow> \<not> may_mutate e \<and> \<not> may_allocate e \<and> \<not> may_call_unknown e
     \<and> \<not> may_access_global_state e"

definition include_effects :: "effect_summary \<Rightarrow> effect_summary \<Rightarrow> effect_summary" where
  "include_effects e d =
     \<lparr>may_mutate = (may_mutate e \<or> may_mutate d),
      may_allocate = (may_allocate e \<or> may_allocate d),
      may_call_unknown = (may_call_unknown e \<or> may_call_unknown d),
      may_access_global_state = (may_access_global_state e \<or> may_access_global_state d)\<rparr>"

datatype sequence_kind = SeqList | SeqTuple
datatype sequence_mutability = SeqMutable | SeqImmutable

record sequence_facts =
  sf_kind :: "sequence_kind fact"
  sf_strategy :: "sequence_strategy fact"
  sf_element_type :: type_fact
  sf_exact_length :: "nat fact"
  sf_mutability :: "sequence_mutability fact"
  sf_layout_stable :: "bool fact"

definition sequence_unknown :: sequence_facts where
  "sequence_unknown = \<lparr>sf_kind = Unknown, sf_strategy = Unknown, sf_element_type = Unknown,
     sf_exact_length = Unknown, sf_mutability = Unknown, sf_layout_stable = Unknown\<rparr>"

datatype mutation_kind = MutContent | MutLayout | MutUnknown

record mutation_effect =
  mut_identity_root :: value_id
  mut_kind :: mutation_kind

datatype guard_placement = RegionEntry | BlockEntry block_id | AccessSite nat

record control_dependency =
  dep_branch_pc :: nat
  dep_condition :: value_use
  dep_expected :: bool
  dep_hoistable :: "bool fact"

record value_fact =
  vf_id :: value_id
  vf_register :: register
  vf_defined_at :: "nat option"
  vf_origin :: "value_origin fact"
  vf_ty :: type_fact
  vf_identity :: "identity_fact fact"
  vf_composition :: "value_composition fact"
  vf_escape :: "escape_state fact"
  vf_sequence :: sequence_facts

definition is_virtualizable :: "value_fact \<Rightarrow> bool" where
  "is_virtualizable v \<longleftrightarrow>
     (case vf_origin v of Proven (OriginAllocation _ _) \<Rightarrow> True | _ \<Rightarrow> False)
     \<and> vf_escape v = Proven EscLocal"

record instruction_fact =
  if_pc :: nat
  if_inputs :: "value_use list"
  if_output :: "value_id option"
  if_effects :: "effect_summary fact"
  if_mutated_values :: "value_id list fact"
  if_mutations :: "mutation_effect list fact"
  if_failures :: "failure_kind list fact"
  if_guard_placement :: "guard_placement fact"
  if_control_dependencies :: "control_dependency list"

section \<open>Blocks and regions\<close>

record state_slot =
  slot_register :: register
  slot_ty :: slot_type

record region_exit =
  exit_target :: nat

datatype edge_kind = EdgeFallthrough | EdgeJump | EdgeBranchTrue | EdgeBranchFalse

record block_edge =
  edge_target :: block_id
  edge_kind :: edge_kind

record basic_block =
  bb_id :: block_id
  start_pc :: nat
  end_pc :: nat
  bb_successors :: "block_edge list"
  bb_predecessors :: "block_id list"

datatype region_kind = LoopRegion nat | BranchRegion

record region_summary =
  instruction_count :: nat
  block_count :: nat
  operation_count :: nat
  call_count :: nat
  rs_effects :: "effect_summary fact"
  escaping_allocation_count :: nat
  virtualizable_allocation_count :: nat
  failure_site_count :: nat
  guardable_fact_count :: nat

definition default_summary :: region_summary where
  "default_summary = \<lparr>instruction_count = 0, block_count = 0, operation_count = 0, call_count = 0,
     rs_effects = Proven no_effects, escaping_allocation_count = 0,
     virtualizable_allocation_count = 0, failure_site_count = 0, guardable_fact_count = 0\<rparr>"

text \<open>\<open>usize\<close> addition that saturates; the counts are \<open>usize\<close>.\<close>

definition usize_max :: nat where "usize_max = 2 ^ 64 - 1"

definition saturating_add_usize :: "nat \<Rightarrow> nat \<Rightarrow> nat" where
  "saturating_add_usize a b = min usize_max (a + b)"

definition optimization_penalty :: "region_summary \<Rightarrow> nat" where
  "optimization_penalty s =
     (let certainty = (case rs_effects s of Proven _ \<Rightarrow> 0 | Guardable _ \<Rightarrow> 32 | Unknown \<Rightarrow> 64);
          e = (case candidate (rs_effects s) of None \<Rightarrow> no_effects | Some e \<Rightarrow> e)
      in foldl saturating_add_usize certainty
           [of_bool (may_mutate e) * 4, of_bool (may_allocate e) * 2,
            of_bool (may_call_unknown e) * 16, of_bool (may_access_global_state e) * 8,
            escaping_allocation_count s * 8, failure_site_count s, guardable_fact_count s * 2])"

definition is_compiler_usable :: "region_summary \<Rightarrow> bool" where
  "is_compiler_usable s \<longleftrightarrow> rs_effects s \<noteq> Unknown"

record region =
  region_kind :: region_kind
  region_entry :: nat
  region_blocks :: "block_id list"
  region_exits :: "region_exit list"
  entry_summary :: "state_slot list"
  region_summary :: region_summary

record region_draft =
  draft_entry :: nat
  draft_entry_summary :: "state_slot list"
  draft_completion :: "(region_kind \<times> region_exit list) option"

section \<open>The finished map and its lookups\<close>

record structure_map =
  sm_blocks :: "basic_block list"
  sm_regions :: "region list"
  sm_operation_sites :: "operation_site list"
  sm_values :: "value_fact list"
  sm_instructions :: "instruction_fact list"
  sm_block_by_pc :: "block_id list"
  sm_region_by_entry_pc :: "region_id option list"

definition empty_structure_map :: structure_map where
  "empty_structure_map = \<lparr>sm_blocks = [], sm_regions = [], sm_operation_sites = [],
     sm_values = [], sm_instructions = [], sm_block_by_pc = [], sm_region_by_entry_pc = []\<rparr>"

definition sm_block :: "structure_map \<Rightarrow> block_id \<Rightarrow> basic_block option" where
  "sm_block m i = get_at (sm_blocks m) (block_index i)"

definition sm_region :: "structure_map \<Rightarrow> region_id \<Rightarrow> region option" where
  "sm_region m i = get_at (sm_regions m) (region_index i)"

definition sm_operation_site :: "structure_map \<Rightarrow> operation_site_id \<Rightarrow> operation_site option" where
  "sm_operation_site m i = get_at (sm_operation_sites m) (site_index i)"

definition sm_value :: "structure_map \<Rightarrow> value_id \<Rightarrow> value_fact option" where
  "sm_value m i = get_at (sm_values m) (value_index i)"

definition sm_block_at_pc :: "structure_map \<Rightarrow> nat \<Rightarrow> basic_block option" where
  "sm_block_at_pc m pc = Option.bind (get_at (sm_block_by_pc m) pc) (sm_block m)"

definition sm_region_at_pc :: "structure_map \<Rightarrow> nat \<Rightarrow> region_id option" where
  "sm_region_at_pc m pc = Option.bind (get_at (sm_region_by_entry_pc m) pc) id"

definition loop_regions :: "structure_map \<Rightarrow> (nat \<times> region) list" where
  "loop_regions m =
     filter (\<lambda>(i, r). case region_kind r of LoopRegion _ \<Rightarrow> True | BranchRegion \<Rightarrow> False)
       (List.enumerate 0 (sm_regions m))"

text \<open>
  \<open>identity_root\<close> follows proven aliases for at most one step more than there are values;
  running out is the answer for a cyclic chain.
\<close>

fun identity_walk :: "nat \<Rightarrow> structure_map \<Rightarrow> value_id \<Rightarrow> value_id option" where
  "identity_walk 0 m i = None"
| "identity_walk (Suc n) m i =
     (case sm_value m i of
        None \<Rightarrow> None
      | Some v \<Rightarrow>
          (case vf_identity v of
             Proven (AliasOf source) \<Rightarrow> identity_walk n m source
           | _ \<Rightarrow> Some i))"

definition identity_root :: "structure_map \<Rightarrow> value_id \<Rightarrow> value_id option" where
  "identity_root m i = identity_walk (Suc (length (sm_values m))) m i"

definition same_identity :: "structure_map \<Rightarrow> value_id \<Rightarrow> value_id \<Rightarrow> bool" where
  "same_identity m i j =
     (case (identity_root m i, identity_root m j) of
        (Some a, Some b) \<Rightarrow> a = b
      | _ \<Rightarrow> False)"

section \<open>The recording operations of the builder\<close>

record parameter_seed =
  ps_register :: register
  ps_index :: nat
  ps_name :: string
  ps_ty :: slot_type

record constant_seed =
  cs_index :: nat
  cs_kind :: object_kind

record structure_map_builder =
  smb_operation_sites :: "operation_site list"
  smb_regions :: "region_draft list"
  smb_parameters :: "parameter_seed list"
  smb_constants :: "constant_seed list"

datatype builder_error =
    TooManyOperationSites
  | DuplicateParameterOrigin nat register
  | DuplicateConstantOrigin nat
  | UnknownRegion nat
  | RegionAlreadyFinished nat
  | RegionInvalidRegister nat register
  | RegionUnfinished nat
  | TargetOutOfRange nat nat
  | TooManyBlocks
  | TooManyValues
  | ParameterInvalidRegister nat register
  | WritesInvalidRegister nat register

definition builder_new :: structure_map_builder where
  "builder_new = \<lparr>smb_operation_sites = [], smb_regions = [], smb_parameters = [],
     smb_constants = []\<rparr>"

definition record_operation ::
  "structure_map_builder \<Rightarrow> nat \<Rightarrow> type_fact \<Rightarrow> type_fact \<Rightarrow> type_fact
    \<Rightarrow> builder_error + structure_map_builder \<times> operation_site_id" where
  "record_operation b pc lhs rhs result =
     and_then (ok_or (u32_of_len (length (smb_operation_sites b))) TooManyOperationSites)
       (\<lambda>n. Inr (b\<lparr>smb_operation_sites := smb_operation_sites b
            @ [\<lparr>site_pc = pc, site_lhs = lhs, site_rhs = rhs, site_result = result\<rparr>]\<rparr>,
          OperationSiteId n))"

definition record_parameter ::
  "structure_map_builder \<Rightarrow> register \<Rightarrow> nat \<Rightarrow> string \<Rightarrow> slot_type
    \<Rightarrow> builder_error + structure_map_builder" where
  "record_parameter b r index name ty =
     (if \<exists>p \<in> set (smb_parameters b). ps_register p = r \<or> ps_index p = index
      then Inl (DuplicateParameterOrigin index r)
      else Inr (b\<lparr>smb_parameters := smb_parameters b
             @ [\<lparr>ps_register = r, ps_index = index, ps_name = name, ps_ty = ty\<rparr>]\<rparr>))"

definition record_constant ::
  "structure_map_builder \<Rightarrow> nat \<Rightarrow> object_kind \<Rightarrow> builder_error + structure_map_builder" where
  "record_constant b index kind =
     (if \<exists>c \<in> set (smb_constants b). cs_index c = index
      then Inl (DuplicateConstantOrigin index)
      else Inr (b\<lparr>smb_constants := smb_constants b @ [\<lparr>cs_index = index, cs_kind = kind\<rparr>]\<rparr>))"

definition begin_region ::
  "structure_map_builder \<Rightarrow> nat \<Rightarrow> state_slot list \<Rightarrow> structure_map_builder \<times> region_id" where
  "begin_region b entry summary =
     (b\<lparr>smb_regions := smb_regions b
          @ [\<lparr>draft_entry = entry, draft_entry_summary = summary, draft_completion = None\<rparr>]\<rparr>,
      RegionId (length (smb_regions b)))"

definition finish_region ::
  "structure_map_builder \<Rightarrow> region_id \<Rightarrow> region_kind \<Rightarrow> region_exit list
    \<Rightarrow> builder_error + structure_map_builder" where
  "finish_region b i kind exits =
     (case get_at (smb_regions b) (region_index i) of
        None \<Rightarrow> Inl (UnknownRegion (region_index i))
      | Some d \<Rightarrow>
          if draft_completion d \<noteq> None then Inl (RegionAlreadyFinished (region_index i))
          else Inr (b\<lparr>smb_regions := (smb_regions b)
                 [region_index i := d\<lparr>draft_completion := Some (kind, exits)\<rparr>]\<rparr>))"

definition update_region_entry_summary ::
  "structure_map_builder \<Rightarrow> region_id \<Rightarrow> state_slot list \<Rightarrow> builder_error + structure_map_builder" where
  "update_region_entry_summary b i summary =
     (case get_at (smb_regions b) (region_index i) of
        None \<Rightarrow> Inl (UnknownRegion (region_index i))
      | Some d \<Rightarrow>
          if draft_completion d \<noteq> None then Inl (RegionAlreadyFinished (region_index i))
          else Inr (b\<lparr>smb_regions := (smb_regions b)
                 [region_index i := d\<lparr>draft_entry_summary := summary\<rparr>]\<rparr>))"

end
