(* ===== verification/Runtime_Value.thy ===== *)
theory Runtime_Value
  imports Structure_Facts
begin

unbundle bit_operations_syntax

text \<open>
  Runtime values (\<open>value.rs\<close>, and \<open>ObjectRef\<close> of \<open>object.rs\<close>): immediates, object
  handles of heap id, slot and generation, and the 24-byte slot that carries a value across the
  native boundary. Decoding a slot whose tag no value has is the \<open>unreachable!\<close> of the source;
  the model answers \<open>None\<close> there.
\<close>

record object_ref =
  ref_heap_id :: u64
  ref_slot :: u32
  ref_generation :: u32

datatype wvalue =
    SmallInt i64
  | Float f64
  | Bool bool
  | ValueNone
  | ObjectValue object_ref
  | Uninitialized

text \<open>The derived \<open>PartialEq\<close>: floats compare as IEEE numbers, everything else structurally.\<close>

fun value_eq :: "wvalue \<Rightarrow> wvalue \<Rightarrow> bool" where
  "value_eq (Float x) (Float y) = f64_eq x y"
| "value_eq v w = (v = w)"

record runtime_slot =
  rs_tag :: "8 word"
  rs_padding :: "8 word list"
  rs_payload :: u64
  rs_extra :: u64

abbreviation BOOL_TAG :: "8 word" where "BOOL_TAG \<equiv> 0"
abbreviation I64_TAG :: "8 word" where "I64_TAG \<equiv> 1"
abbreviation F64_TAG :: "8 word" where "F64_TAG \<equiv> 2"
abbreviation OBJECT_TAG :: "8 word" where "OBJECT_TAG \<equiv> 3"
abbreviation UNINITIALIZED_TAG :: "8 word" where "UNINITIALIZED_TAG \<equiv> 4"
abbreviation NONE_TAG :: "8 word" where "NONE_TAG \<equiv> 5"

definition slot_of :: "8 word \<Rightarrow> u64 \<Rightarrow> u64 \<Rightarrow> runtime_slot" where
  "slot_of tag payload extra =
     \<lparr>rs_tag = tag, rs_padding = replicate 7 0, rs_payload = payload, rs_extra = extra\<rparr>"

fun slot_from_value :: "wvalue \<Rightarrow> runtime_slot" where
  "slot_from_value (Bool b) = slot_of BOOL_TAG (of_bool b) 0"
| "slot_from_value (SmallInt n) = slot_of I64_TAG n 0"
| "slot_from_value (Float x) = slot_of F64_TAG x 0"
| "slot_from_value ValueNone = slot_of NONE_TAG 0 0"
| "slot_from_value (ObjectValue r) =
     slot_of OBJECT_TAG (ref_heap_id r)
       (ucast (ref_slot r) OR push_bit 32 (ucast (ref_generation r)))"
| "slot_from_value Uninitialized = slot_of UNINITIALIZED_TAG 0 0"

definition slot_value :: "runtime_slot \<Rightarrow> wvalue option" where
  "slot_value s =
     (if rs_tag s = BOOL_TAG then Some (Bool (rs_payload s \<noteq> 0))
      else if rs_tag s = I64_TAG then Some (SmallInt (rs_payload s))
      else if rs_tag s = F64_TAG then Some (Float (rs_payload s))
      else if rs_tag s = OBJECT_TAG then
        Some (ObjectValue \<lparr>ref_heap_id = rs_payload s, ref_slot = ucast (rs_extra s),
                ref_generation = ucast (drop_bit 32 (rs_extra s))\<rparr>)
      else if rs_tag s = UNINITIALIZED_TAG then Some Uninitialized
      else if rs_tag s = NONE_TAG then Some ValueNone
      else None)"

text \<open>The two halves of the packed word are recovered exactly.\<close>

lemma packed_low: "ucast (ucast (s :: u32) OR push_bit 32 (ucast (g :: u32)) :: u64) = s"
  by (rule bit_word_eqI) (simp add: bit_simps)

lemma packed_high: "ucast (drop_bit 32 (ucast (s :: u32) OR push_bit 32 (ucast (g :: u32)) :: u64)) = g"
proof (rule bit_word_eqI)
  fix n
  assume "n < LENGTH(32)"
  moreover from this have "\<not> bit s (32 + n)" by (auto dest: bit_imp_le_length)
  ultimately show "bit (ucast (drop_bit 32 (ucast s OR push_bit 32 (ucast g) :: u64)) :: u32) n = bit g n"
    by (simp add: bit_simps)
qed

lemma slot_value_from_value [simp]: "slot_value (slot_from_value v) = Some v"
  by (cases v) (simp_all add: slot_value_def slot_of_def packed_low packed_high [simplified])

lemma slot_from_value_inj [simp]: "slot_from_value v = slot_from_value w \<longleftrightarrow> v = w"
  by (metis option.inject slot_value_from_value)

text \<open>A slot as the encoder writes it: padding and unused words zero, booleans 0 or 1.\<close>

definition slot_canonical :: "runtime_slot \<Rightarrow> bool" where
  "slot_canonical s \<longleftrightarrow>
     rs_padding s = replicate 7 0 \<and> rs_tag s \<in> {BOOL_TAG, I64_TAG, F64_TAG, OBJECT_TAG, UNINITIALIZED_TAG, NONE_TAG}
     \<and> (rs_tag s \<noteq> OBJECT_TAG \<longrightarrow> rs_extra s = 0)
     \<and> (rs_tag s = BOOL_TAG \<longrightarrow> rs_payload s \<in> {0, 1})
     \<and> (rs_tag s \<in> {UNINITIALIZED_TAG, NONE_TAG} \<longrightarrow> rs_payload s = 0)"

lemma packed_word: "(ucast (ucast (w :: u64) :: u32) :: u64) OR push_bit 32 (ucast (ucast (drop_bit 32 w) :: u32)) = w"
proof (rule bit_word_eqI)
  fix n
  assume n: "n < LENGTH(64)"
  show "bit ((ucast (ucast w :: u32) :: u64) OR push_bit 32 (ucast (ucast (drop_bit 32 w) :: u32))) n = bit w n"
    using n by (cases "n < 32") (auto simp: bit_simps)
qed

text \<open>
  C25. The native slot is a faithful encoding: a value written to a slot is read back the same,
  the encoder writes only canonical slots, and a canonical slot is the encoding of its value.
\<close>

theorem slot_round_trip:
  "slot_value (slot_from_value v) = Some v \<and> slot_canonical (slot_from_value v)
    \<and> (slot_canonical s \<longrightarrow> slot_value s = Some w \<longrightarrow> slot_from_value w = s)"
proof (intro conjI impI)
  show "slot_canonical (slot_from_value v)" by (cases v) (auto simp: slot_canonical_def slot_of_def)
  show "slot_from_value w = s" if "slot_canonical s" "slot_value s = Some w"
    using that
    by (cases s) (auto simp: slot_canonical_def slot_value_def slot_of_def packed_word split: if_splits)
qed simp

theorem slot_round_trip_witness:
  "slot_from_value (Bool True) = slot_of BOOL_TAG 1 0"
  using slot_round_trip [of ValueNone "slot_of BOOL_TAG 1 0" "Bool True"]
  by (simp add: slot_canonical_def slot_value_def slot_of_def)

definition is_object_value :: "wvalue \<Rightarrow> bool" where
  "is_object_value v \<longleftrightarrow> (\<exists>r. v = ObjectValue r)"

text \<open>\<open>EscapeState\<close> derives \<open>Ord\<close>: the order of its variants.\<close>

fun escape_rank :: "escape_state \<Rightarrow> nat" where
  "escape_rank EscLocal = 0"
| "escape_rank EscRegion = 1"
| "escape_rank EscFunction = 2"
| "escape_rank EscUnknown = 3"

lemma escape_rank_inj: "escape_rank a = escape_rank b \<Longrightarrow> a = b"
  by (cases a; cases b) auto

instantiation escape_state :: linorder
begin
definition less_eq_escape_state :: "escape_state \<Rightarrow> escape_state \<Rightarrow> bool" where
  "less_eq_escape_state a b \<longleftrightarrow> escape_rank a \<le> escape_rank b"
definition less_escape_state :: "escape_state \<Rightarrow> escape_state \<Rightarrow> bool" where
  "less_escape_state a b \<longleftrightarrow> escape_rank a < escape_rank b"
instance
  by standard (auto simp: less_eq_escape_state_def less_escape_state_def dest: escape_rank_inj)
end

end
