(* ===== verification/Sequence_Object.thy ===== *)
theory Sequence_Object
  imports Runtime_Value
begin

text \<open>
  Lists and tuples of the runtime (\<open>object/sequence.rs\<close>, \<open>object/sequence/storage.rs\<close>):
  a sequence keeps its elements in the narrowest uniform storage (empty, booleans as bytes,
  integers, floats, or tagged slots) and widens to tagged slots when a foreign value arrives. A
  layout version counts the changes that invalidate a native snapshot. The theory shows that
  every operation is the list operation on the decoded elements.
\<close>

datatype sequence_storage =
    StoreEmpty
  | StoreBool "8 word list"
  | StoreI64 "i64 list"
  | StoreF64 "f64 list"
  | StoreObject "runtime_slot list"

record sequence_object =
  seq_storage :: sequence_storage
  layout_version :: u64

section \<open>Construction and reading\<close>

fun is_bool :: "wvalue \<Rightarrow> bool" where "is_bool (Bool _) = True" | "is_bool _ = False"
fun is_small_int :: "wvalue \<Rightarrow> bool" where "is_small_int (SmallInt _) = True" | "is_small_int _ = False"
fun is_float :: "wvalue \<Rightarrow> bool" where "is_float (Float _) = True" | "is_float _ = False"

fun bool_byte :: "wvalue \<Rightarrow> 8 word" where "bool_byte (Bool b) = of_bool b" | "bool_byte _ = 0"
fun int_payload :: "wvalue \<Rightarrow> i64" where "int_payload (SmallInt n) = n" | "int_payload _ = 0"
fun float_payload :: "wvalue \<Rightarrow> f64" where "float_payload (Float x) = x" | "float_payload _ = 0"

text \<open>Re-encoding a list of values as tagged slots.\<close>

definition object_store :: "wvalue list \<Rightarrow> sequence_storage" where
  "object_store values = StoreObject (map slot_from_value values)"

definition storage_from_values :: "wvalue list \<Rightarrow> sequence_storage" where
  "storage_from_values values =
     (if values = [] then StoreEmpty
      else if list_all is_bool values then StoreBool (map bool_byte values)
      else if list_all is_small_int values then StoreI64 (map int_payload values)
      else if list_all is_float values then StoreF64 (map float_payload values)
      else object_store values)"

definition seq_from_values :: "wvalue list \<Rightarrow> sequence_object" where
  "seq_from_values values = \<lparr>seq_storage = storage_from_values values, layout_version = 0\<rparr>"

fun storage_strategy :: "sequence_storage \<Rightarrow> sequence_strategy" where
  "storage_strategy StoreEmpty = StratEmpty"
| "storage_strategy (StoreBool _) = StratBool"
| "storage_strategy (StoreI64 _) = StratI64"
| "storage_strategy (StoreF64 _) = StratF64"
| "storage_strategy (StoreObject _) = StratObject"

definition seq_strategy :: "sequence_object \<Rightarrow> sequence_strategy" where
  "seq_strategy s = storage_strategy (seq_storage s)"

definition direct_view_allowed :: "sequence_object \<Rightarrow> bool" where
  "direct_view_allowed s \<longleftrightarrow> layout_version s \<noteq> - 1"

fun storage_len :: "sequence_storage \<Rightarrow> nat" where
  "storage_len StoreEmpty = 0"
| "storage_len (StoreBool xs) = length xs"
| "storage_len (StoreI64 xs) = length xs"
| "storage_len (StoreF64 xs) = length xs"
| "storage_len (StoreObject xs) = length xs"

definition seq_len :: "sequence_object \<Rightarrow> nat" where
  "seq_len s = storage_len (seq_storage s)"

definition seq_is_empty :: "sequence_object \<Rightarrow> bool" where
  "seq_is_empty s \<longleftrightarrow> seq_len s = 0"

definition byte_value :: "8 word \<Rightarrow> wvalue" where
  "byte_value b = Bool (b \<noteq> 0)"

fun storage_get :: "sequence_storage \<Rightarrow> nat \<Rightarrow> wvalue option" where
  "storage_get StoreEmpty i = None"
| "storage_get (StoreBool xs) i = map_option byte_value (get_at xs i)"
| "storage_get (StoreI64 xs) i = map_option SmallInt (get_at xs i)"
| "storage_get (StoreF64 xs) i = map_option Float (get_at xs i)"
| "storage_get (StoreObject xs) i = Option.bind (get_at xs i) slot_value"

definition seq_get :: "sequence_object \<Rightarrow> nat \<Rightarrow> wvalue option" where
  "seq_get s i = storage_get (seq_storage s) i"

text \<open>\<open>iter\<close> and \<open>to_vec\<close>: every index below the length, read in order.\<close>

definition seq_to_vec :: "sequence_object \<Rightarrow> wvalue list" where
  "seq_to_vec s = map (\<lambda>i. the (seq_get s i)) [0 ..< seq_len s]"

section \<open>Native snapshots\<close>

definition integer_snapshot :: "sequence_object \<Rightarrow> (i64 list \<times> u64) option" where
  "integer_snapshot s =
     (case seq_storage s of
        StoreI64 xs \<Rightarrow> Some (xs, layout_version s)
      | StoreEmpty \<Rightarrow> Some ([], layout_version s)
      | _ \<Rightarrow> None)"

definition float_snapshot :: "sequence_object \<Rightarrow> (f64 list \<times> u64) option" where
  "float_snapshot s =
     (case seq_storage s of
        StoreF64 xs \<Rightarrow> Some (xs, layout_version s)
      | StoreEmpty \<Rightarrow> Some ([], layout_version s)
      | _ \<Rightarrow> None)"

definition bump_layout :: "sequence_object \<Rightarrow> sequence_object" where
  "bump_layout s = s\<lparr>layout_version := saturating_inc (layout_version s)\<rparr>"

definition can_commit_integer_snapshot :: "sequence_object \<Rightarrow> u64 \<Rightarrow> bool" where
  "can_commit_integer_snapshot s v \<longleftrightarrow>
     layout_version s = v
     \<and> (case seq_storage s of StoreEmpty \<Rightarrow> True | StoreI64 _ \<Rightarrow> True | _ \<Rightarrow> False)"

definition apply_integer_snapshot :: "sequence_object \<Rightarrow> i64 list \<Rightarrow> sequence_object" where
  "apply_integer_snapshot s xs =
     bump_layout (s\<lparr>seq_storage := (if xs = [] then StoreEmpty else StoreI64 xs)\<rparr>)"

definition commit_integer_snapshot ::
  "sequence_object \<Rightarrow> u64 \<Rightarrow> i64 list \<Rightarrow> sequence_object \<times> bool" where
  "commit_integer_snapshot s v xs =
     (if \<not> can_commit_integer_snapshot s v then (s, False)
      else (apply_integer_snapshot s xs, True))"

definition can_commit_float_snapshot :: "sequence_object \<Rightarrow> u64 \<Rightarrow> bool" where
  "can_commit_float_snapshot s v \<longleftrightarrow>
     layout_version s = v
     \<and> (case seq_storage s of StoreEmpty \<Rightarrow> True | StoreF64 _ \<Rightarrow> True | _ \<Rightarrow> False)"

definition apply_float_snapshot :: "sequence_object \<Rightarrow> f64 list \<Rightarrow> sequence_object" where
  "apply_float_snapshot s xs =
     bump_layout (s\<lparr>seq_storage := (if xs = [] then StoreEmpty else StoreF64 xs)\<rparr>)"

definition commit_float_snapshot ::
  "sequence_object \<Rightarrow> u64 \<Rightarrow> f64 list \<Rightarrow> sequence_object \<times> bool" where
  "commit_float_snapshot s v xs =
     (if \<not> can_commit_float_snapshot s v then (s, False)
      else (apply_float_snapshot s xs, True))"

definition commit_widened_float_snapshot ::
  "sequence_object \<Rightarrow> u64 \<Rightarrow> f64 list \<Rightarrow> sequence_object \<times> bool" where
  "commit_widened_float_snapshot s v xs =
     (if layout_version s \<noteq> v
         \<or> \<not> (case seq_storage s of StoreI64 _ \<Rightarrow> True | _ \<Rightarrow> False)
      then (s, False) else (apply_float_snapshot s xs, True))"

section \<open>Updating\<close>

text \<open>\<open>set\<close> answers the previous element, or \<open>None\<close> (and no change) out of range.\<close>

definition seq_set :: "sequence_object \<Rightarrow> nat \<Rightarrow> wvalue \<Rightarrow> sequence_object \<times> wvalue option" where
  "seq_set s i v =
     (case seq_get s i of
        None \<Rightarrow> (s, None)
      | Some previous \<Rightarrow>
          ((case (seq_storage s, v) of
              (StoreBool xs, Bool b) \<Rightarrow> s\<lparr>seq_storage := StoreBool (xs[i := of_bool b])\<rparr>
            | (StoreI64 xs, SmallInt n) \<Rightarrow> s\<lparr>seq_storage := StoreI64 (xs[i := n])\<rparr>
            | (StoreF64 xs, Float x) \<Rightarrow> s\<lparr>seq_storage := StoreF64 (xs[i := x])\<rparr>
            | (StoreObject xs, _) \<Rightarrow> s\<lparr>seq_storage := StoreObject (xs[i := slot_from_value v])\<rparr>
            | _ \<Rightarrow> bump_layout (s\<lparr>seq_storage := object_store ((seq_to_vec s)[i := v])\<rparr>)),
           Some previous))"

text \<open>\<open>insert\<close> panics when the index is past the end: \<open>None\<close> here.\<close>

definition seq_insert :: "sequence_object \<Rightarrow> nat \<Rightarrow> wvalue \<Rightarrow> sequence_object option" where
  "seq_insert s i v =
     (if seq_len s < i then None
      else Some (bump_layout (s\<lparr>seq_storage :=
        (case (seq_storage s, v) of
           (StoreEmpty, _) \<Rightarrow> storage_from_values [v]
         | (StoreBool xs, Bool b) \<Rightarrow> StoreBool (insert_at i (of_bool b) xs)
         | (StoreI64 xs, SmallInt n) \<Rightarrow> StoreI64 (insert_at i n xs)
         | (StoreF64 xs, Float x) \<Rightarrow> StoreF64 (insert_at i x xs)
         | (StoreObject xs, _) \<Rightarrow> StoreObject (insert_at i (slot_from_value v) xs)
         | _ \<Rightarrow> object_store (insert_at i v (seq_to_vec s)))\<rparr>)))"

definition seq_push :: "sequence_object \<Rightarrow> wvalue \<Rightarrow> sequence_object option" where
  "seq_push s v = seq_insert s (seq_len s) v"

definition storage_remove :: "sequence_storage \<Rightarrow> nat \<Rightarrow> sequence_storage" where
  "storage_remove st i =
     (case st of
        StoreEmpty \<Rightarrow> StoreEmpty
      | StoreBool xs \<Rightarrow> StoreBool (remove_at i xs)
      | StoreI64 xs \<Rightarrow> StoreI64 (remove_at i xs)
      | StoreF64 xs \<Rightarrow> StoreF64 (remove_at i xs)
      | StoreObject xs \<Rightarrow> StoreObject (remove_at i xs))"

definition seq_remove :: "sequence_object \<Rightarrow> nat \<Rightarrow> sequence_object \<times> wvalue option" where
  "seq_remove s i =
     (case seq_get s i of
        None \<Rightarrow> (s, None)
      | Some v \<Rightarrow>
          (bump_layout (s\<lparr>seq_storage := storage_remove (seq_storage s) i\<rparr>), Some v))"

text \<open>\<open>replace_range\<close> panics, as \<open>Vec::splice\<close> does, unless \<open>start <= stop <= len\<close>.\<close>

definition seq_replace_range ::
  "sequence_object \<Rightarrow> nat \<Rightarrow> nat \<Rightarrow> wvalue list \<Rightarrow> sequence_object option" where
  "seq_replace_range s start stop new =
     (if stop < start \<or> seq_len s < stop then None
      else Some (bump_layout (s\<lparr>seq_storage :=
             storage_from_values (splice_range start stop new (seq_to_vec s))\<rparr>)))"

definition seq_reverse_prefix :: "sequence_object \<Rightarrow> nat \<Rightarrow> sequence_object \<times> bool" where
  "seq_reverse_prefix s n =
     (if seq_len s < n then (s, False)
      else let vs = seq_to_vec s
           in (bump_layout (s\<lparr>seq_storage :=
                 storage_from_values (rev (take n vs) @ drop n vs)\<rparr>), True))"

definition seq_repeated :: "sequence_object \<Rightarrow> nat \<Rightarrow> sequence_object" where
  "seq_repeated s count = seq_from_values (concat (replicate count (seq_to_vec s)))"

definition seq_eq :: "sequence_object \<Rightarrow> sequence_object \<Rightarrow> bool" where
  "seq_eq s t \<longleftrightarrow> seq_len s = seq_len t
     \<and> list_all (\<lambda>(v, w). value_eq v w) (zip (seq_to_vec s) (seq_to_vec t))"

section \<open>Representation invariant and abstraction\<close>

text \<open>
  Bytes of a boolean store are 0 or 1, and every tagged slot encodes a value: what the
  constructors of the source establish.
\<close>

fun storage_ok :: "sequence_storage \<Rightarrow> bool" where
  "storage_ok (StoreBool xs) = list_all (\<lambda>b. b = 0 \<or> b = 1) xs"
| "storage_ok (StoreObject xs) = list_all (\<lambda>s. slot_value s \<noteq> None) xs"
| "storage_ok _ = True"

definition seq_ok :: "sequence_object \<Rightarrow> bool" where
  "seq_ok s \<longleftrightarrow> storage_ok (seq_storage s)"

fun storage_values :: "sequence_storage \<Rightarrow> wvalue list" where
  "storage_values StoreEmpty = []"
| "storage_values (StoreBool xs) = map byte_value xs"
| "storage_values (StoreI64 xs) = map SmallInt xs"
| "storage_values (StoreF64 xs) = map Float xs"
| "storage_values (StoreObject xs) = map (the \<circ> slot_value) xs"

lemma length_storage_values [simp]: "length (storage_values st) = storage_len st"
  by (cases st) auto

lemma storage_get_values: "storage_ok st \<Longrightarrow> storage_get st i = get_at (storage_values st) i"
  by (cases st) (auto simp: get_at_def list_all_length)

lemma seq_to_vec_values: "seq_ok s \<Longrightarrow> seq_to_vec s = storage_values (seq_storage s)"
  by (rule nth_equalityI)
    (auto simp: seq_to_vec_def seq_ok_def seq_get_def seq_len_def storage_get_values get_at_def)

lemma map_bool_bytes: "list_all is_bool vs \<Longrightarrow> map (byte_value \<circ> bool_byte) vs = vs"
  by (induction vs) (auto simp: byte_value_def elim: is_bool.elims)

lemma map_int_payload: "list_all is_small_int vs \<Longrightarrow> map (SmallInt \<circ> int_payload) vs = vs"
  by (induction vs) (auto elim: is_small_int.elims)

lemma map_float_payload: "list_all is_float vs \<Longrightarrow> map (Float \<circ> float_payload) vs = vs"
  by (induction vs) (auto elim: is_float.elims)

lemma storage_ok_slots [simp]: "storage_ok (object_store vs)"
  by (simp add: object_store_def list_all_length)

lemma storage_values_slots [simp]: "storage_values (object_store vs) = vs"
  by (simp add: object_store_def map_idI)

lemma bool_byte_range: "bool_byte v = 0 \<or> bool_byte v = 1"
  by (cases v) auto

lemma storage_from_values_ok [simp]: "storage_ok (storage_from_values vs)"
  using bool_byte_range by (auto simp: storage_from_values_def list_all_length)

lemma storage_values_from_values [simp]: "storage_values (storage_from_values vs) = vs"
  by (auto simp: storage_from_values_def map_bool_bytes map_int_payload map_float_payload)

lemma bump_layout_storage [simp]: "seq_storage (bump_layout s) = seq_storage s"
  by (simp add: bump_layout_def)

lemma seq_ok_bump [simp]: "seq_ok (bump_layout s) = seq_ok s"
  by (simp add: seq_ok_def)


lemma list_all_update: "list_all P xs \<Longrightarrow> P x \<Longrightarrow> list_all P (xs[i := x])"
  by (auto simp: list_all_iff dest: set_update_subset_insert [THEN subsetD])

lemma list_all_insert_at: "list_all P xs \<Longrightarrow> P x \<Longrightarrow> list_all P (insert_at i x xs)"
  by (auto simp: insert_at_def list_all_iff dest: in_set_takeD in_set_dropD)

lemma list_all_remove_at: "list_all P xs \<Longrightarrow> list_all P (remove_at i xs)"
  by (auto simp: list_all_iff dest: set_remove_at [THEN subsetD])

lemmas list_all_store = list_all_update list_all_insert_at list_all_remove_at
lemmas store_maps = map_update map_insert_at map_remove_at

lemma byte_value_of_bool [simp]: "byte_value (of_bool b) = Bool b"
  by (simp add: byte_value_def)

lemma seq_len_vec: "seq_len s = length (seq_to_vec s)"
  by (simp add: seq_to_vec_def)

lemma seq_get_vec: "seq_ok s \<Longrightarrow> seq_get s i = get_at (seq_to_vec s) i"
  by (simp add: seq_to_vec_values seq_get_def storage_get_values seq_ok_def)

lemma seq_from_values_ok [simp]: "seq_ok (seq_from_values vs)"
  by (simp add: seq_ok_def seq_from_values_def)

lemma seq_to_vec_from_values [simp]: "seq_to_vec (seq_from_values vs) = vs"
  using seq_to_vec_values [OF seq_from_values_ok [of vs]] by (simp add: seq_from_values_def)

lemma seq_set_ok_vec:
  assumes ok: "seq_ok s" and set: "seq_set s i v = (t, r)"
  shows "seq_ok t \<and> seq_to_vec t = (seq_to_vec s)[i := v] \<and> r = get_at (seq_to_vec s) i"
proof (cases "seq_get s i")
  case None
  with set have "t = s" and "r = None" by (simp_all add: seq_set_def)
  moreover from None have r: "r = get_at (seq_to_vec s) i"
    using seq_get_vec [OF ok, of i] \<open>r = None\<close> by metis
  ultimately show ?thesis using ok by (simp add: list_update_beyond)
next
  case (Some p)
  with set have r: "r = Some p" by (simp add: seq_set_def)
  have "seq_ok t \<and> storage_values (seq_storage t) = (storage_values (seq_storage s))[i := v]"
    using ok set Some unfolding seq_set_def
    by (auto simp: seq_ok_def list_all_store store_maps seq_to_vec_values
        split: sequence_storage.splits wvalue.splits)
  then show ?thesis using r Some ok seq_get_vec [OF ok] by (simp add: seq_to_vec_values)
qed


lemma seq_insert_ok_vec:
  assumes ok: "seq_ok s" and i: "i \<le> seq_len s"
  shows "\<exists>t. seq_insert s i v = Some t \<and> seq_ok t \<and> seq_to_vec t = insert_at i v (seq_to_vec s)"
proof -
  from i obtain t where ins: "seq_insert s i v = Some t" by (simp add: seq_insert_def)
  moreover from this have "seq_ok t
      \<and> storage_values (seq_storage t) = insert_at i v (storage_values (seq_storage s))"
    using ok i unfolding seq_insert_def seq_len_def
    by (auto simp: seq_ok_def list_all_store store_maps seq_to_vec_values
        split: sequence_storage.splits wvalue.splits)
  ultimately show ?thesis using ok by (simp add: seq_to_vec_values)
qed

lemma storage_remove_ok_vec:
  assumes "storage_ok st"
  shows "storage_ok (storage_remove st i)"
    and "storage_values (storage_remove st i) = remove_at i (storage_values st)"
  using assms
  by (auto simp: storage_remove_def list_all_remove_at map_remove_at split: sequence_storage.splits)

lemma seq_remove_ok_vec:
  assumes ok: "seq_ok s" and rem: "seq_remove s i = (t, r)"
  shows "seq_ok t \<and> r = get_at (seq_to_vec s) i
    \<and> seq_to_vec t = (if i < seq_len s then remove_at i (seq_to_vec s) else seq_to_vec s)"
proof (cases "seq_get s i")
  case None
  with rem have "t = s" and "r = None" by (simp_all add: seq_remove_def)
  moreover from None have "r = get_at (seq_to_vec s) i"
    using seq_get_vec [OF ok, of i] \<open>r = None\<close> by metis
  ultimately show ?thesis using ok by (auto simp: seq_len_vec)
next
  case (Some p)
  then have i: "i < seq_len s" using seq_get_vec [OF ok, of i] by (auto simp: seq_len_vec)
  have t: "t = bump_layout (s\<lparr>seq_storage := storage_remove (seq_storage s) i\<rparr>)" and r: "r = Some p"
    using rem Some by (simp_all add: seq_remove_def)
  have "seq_ok t" using t storage_remove_ok_vec(1) ok by (simp add: seq_ok_def)
  then show ?thesis
    using t r i Some ok storage_remove_ok_vec(2) [of "seq_storage s" i] seq_get_vec [OF ok, of i]
    by (simp add: seq_to_vec_values seq_ok_def)
qed

lemma seq_replace_range_ok_vec:
  assumes "seq_ok s" and "start \<le> stop" and "stop \<le> seq_len s"
  shows "\<exists>t. seq_replace_range s start stop new = Some t \<and> seq_ok t
    \<and> seq_to_vec t = splice_range start stop new (seq_to_vec s)"
proof -
  define t where "t = bump_layout (s\<lparr>seq_storage :=
    storage_from_values (splice_range start stop new (seq_to_vec s))\<rparr>)"
  have "seq_replace_range s start stop new = Some t" using assms by (simp add: seq_replace_range_def t_def)
  moreover have "seq_ok t" by (simp add: t_def) (simp add: seq_ok_def)
  ultimately show ?thesis by (simp add: seq_to_vec_values) (simp add: t_def)
qed

lemma seq_reverse_prefix_ok_vec:
  assumes ok: "seq_ok s" and rev: "seq_reverse_prefix s n = (t, b)"
  shows "seq_ok t \<and> (b \<longleftrightarrow> n \<le> seq_len s)
    \<and> seq_to_vec t = (if b then rev (take n (seq_to_vec s)) @ drop n (seq_to_vec s) else seq_to_vec s)"
proof (cases "seq_len s < n")
  case True
  then show ?thesis using assms by (auto simp: seq_reverse_prefix_def)
next
  case False
  then have t: "t = bump_layout (s\<lparr>seq_storage :=
      storage_from_values (rev (take n (seq_to_vec s)) @ drop n (seq_to_vec s))\<rparr>)" and b: "b"
    using rev by (simp_all add: seq_reverse_prefix_def Let_def)
  have "seq_ok t" by (simp add: t) (simp add: seq_ok_def)
  then show ?thesis using False b by (simp add: seq_to_vec_values) (simp add: t)
qed

lemma seq_repeated_vec: "seq_to_vec (seq_repeated s n) = concat (replicate n (seq_to_vec s))"
  by (simp add: seq_repeated_def)

section \<open>The sequence interface\<close>

text \<open>
  What the object operations of the VM rely on: a store with the operations of a growable array.
  The laws describe each operation by the list operation on the decoded elements.
\<close>

locale sequence_adt =
  fixes vec :: "'s \<Rightarrow> 'v list"
    and wf :: "'s \<Rightarrow> bool"
    and len :: "'s \<Rightarrow> nat"
    and get :: "'s \<Rightarrow> nat \<Rightarrow> 'v option"
    and set_elem :: "'s \<Rightarrow> nat \<Rightarrow> 'v \<Rightarrow> 's \<times> 'v option"
    and insert_elem :: "'s \<Rightarrow> nat \<Rightarrow> 'v \<Rightarrow> 's option"
    and remove_elem :: "'s \<Rightarrow> nat \<Rightarrow> 's \<times> 'v option"
  assumes len_vec: "len s = length (vec s)"
    and get_vec: "wf s \<Longrightarrow> get s i = get_at (vec s) i"
    and set_vec: "wf s \<Longrightarrow> set_elem s i v = (t, r) \<Longrightarrow>
          wf t \<and> vec t = (vec s)[i := v] \<and> r = get_at (vec s) i"
    and insert_vec: "wf s \<Longrightarrow> i \<le> len s \<Longrightarrow>
          \<exists>t. insert_elem s i v = Some t \<and> wf t \<and> vec t = insert_at i v (vec s)"
    and insert_out: "len s < i \<Longrightarrow> insert_elem s i v = None"
    and remove_vec: "wf s \<Longrightarrow> remove_elem s i = (t, r) \<Longrightarrow>
          wf t \<and> r = get_at (vec s) i
          \<and> vec t = (if i < len s then remove_at i (vec s) else vec s)"
begin

lemma get_set_same: "wf s \<Longrightarrow> i < len s \<Longrightarrow> set_elem s i v = (t, r) \<Longrightarrow> get t i = Some v"
  using set_vec [of s i v t r] get_vec [of t i] len_vec by auto

lemma get_set_other: "wf s \<Longrightarrow> i \<noteq> j \<Longrightarrow> set_elem s i v = (t, r) \<Longrightarrow> get t j = get s j"
  using set_vec [of s i v t r] get_vec [of t j] get_vec [of s j]
  by (auto simp: get_at_def)

lemma set_len: "wf s \<Longrightarrow> set_elem s i v = (t, r) \<Longrightarrow> len t = len s"
  using set_vec [of s i v t r] len_vec by auto

lemma append_vec: "wf s \<Longrightarrow> \<exists>t. insert_elem s (len s) v = Some t \<and> wf t \<and> vec t = vec s @ [v]"
  using insert_vec [of s "len s" v] by (auto simp: len_vec insert_at_length)

lemma remove_inserted:
  assumes "wf s" and "i \<le> len s" and "insert_elem s i v = Some t" and "remove_elem t i = (u, r)"
  shows "r = Some v \<and> vec u = vec s"
proof -
  have t: "wf t \<and> vec t = insert_at i v (vec s)" using insert_vec [of s i v] assms by auto
  then have "i < len t" using assms(2) by (simp add: len_vec)
  then show ?thesis
    using remove_vec [of t i u r] t assms(2,4)
    by (auto simp: len_vec insert_at_def remove_at_def get_at_def nth_append)
qed

end

interpretation sequence: sequence_adt seq_to_vec seq_ok seq_len seq_get seq_set seq_insert seq_remove
proof unfold_locales
  show "seq_len s = length (seq_to_vec s)" for s by (rule seq_len_vec)
  show "seq_ok s \<Longrightarrow> seq_get s i = get_at (seq_to_vec s) i" for s i by (rule seq_get_vec)
  show "seq_ok s \<Longrightarrow> seq_set s i v = (t, r) \<Longrightarrow>
      seq_ok t \<and> seq_to_vec t = (seq_to_vec s)[i := v] \<and> r = get_at (seq_to_vec s) i" for s i v t r
    by (rule seq_set_ok_vec)
  show "seq_ok s \<Longrightarrow> i \<le> seq_len s \<Longrightarrow>
      \<exists>t. seq_insert s i v = Some t \<and> seq_ok t \<and> seq_to_vec t = insert_at i v (seq_to_vec s)" for s i v
    by (rule seq_insert_ok_vec)
  show "seq_len s < i \<Longrightarrow> seq_insert s i v = None" for s i v by (simp add: seq_insert_def)
  show "seq_ok s \<Longrightarrow> seq_remove s i = (t, r) \<Longrightarrow>
      seq_ok t \<and> r = get_at (seq_to_vec s) i
      \<and> seq_to_vec t = (if i < seq_len s then remove_at i (seq_to_vec s) else seq_to_vec s)" for s i t r
    by (rule seq_remove_ok_vec)
qed

section \<open>Runs of operations\<close>

text \<open>
  A program of sequence operations run on a sequence object, and the same program on a plain
  list. \<open>None\<close> is the panic of an out-of-range \<open>insert\<close> or \<open>replace_range\<close>.
\<close>

datatype seq_op =
    OpSet nat wvalue
  | OpInsert nat wvalue
  | OpRemove nat
  | OpReplace nat nat "wvalue list"
  | OpReverse nat

fun seq_apply :: "seq_op \<Rightarrow> sequence_object \<Rightarrow> sequence_object option" where
  "seq_apply (OpSet i v) s = Some (fst (seq_set s i v))"
| "seq_apply (OpInsert i v) s = seq_insert s i v"
| "seq_apply (OpRemove i) s = Some (fst (seq_remove s i))"
| "seq_apply (OpReplace start stop new) s = seq_replace_range s start stop new"
| "seq_apply (OpReverse n) s = Some (fst (seq_reverse_prefix s n))"

fun list_apply :: "seq_op \<Rightarrow> wvalue list \<Rightarrow> wvalue list option" where
  "list_apply (OpSet i v) xs = Some (xs[i := v])"
| "list_apply (OpInsert i v) xs = (if i \<le> length xs then Some (insert_at i v xs) else None)"
| "list_apply (OpRemove i) xs = Some (if i < length xs then remove_at i xs else xs)"
| "list_apply (OpReplace start stop new) xs =
     (if start \<le> stop \<and> stop \<le> length xs then Some (splice_range start stop new xs) else None)"
| "list_apply (OpReverse n) xs =
     Some (if n \<le> length xs then rev (take n xs) @ drop n xs else xs)"

fun run_ops :: "('o \<Rightarrow> 's \<Rightarrow> 's option) \<Rightarrow> 'o list \<Rightarrow> 's \<Rightarrow> 's option" where
  "run_ops f [] s = Some s"
| "run_ops f (x # xs) s = Option.bind (f x s) (run_ops f xs)"

lemma seq_apply_refines:
  assumes ok: "seq_ok s"
  shows "map_option seq_to_vec (seq_apply x s) = list_apply x (seq_to_vec s)
    \<and> (\<forall>t. seq_apply x s = Some t \<longrightarrow> seq_ok t)"
proof (cases x)
  case (OpSet i v)
  obtain t r where "seq_set s i v = (t, r)" by fastforce
  with OpSet seq_set_ok_vec [OF ok this] show ?thesis by simp
next
  case (OpInsert i v)
  show ?thesis
  proof (cases "i \<le> seq_len s")
    case True
    with seq_insert_ok_vec [OF ok this, of v] OpInsert show ?thesis by (auto simp: seq_len_vec)
  next
    case False
    with OpInsert show ?thesis by (simp add: seq_insert_def seq_len_vec)
  qed
next
  case (OpRemove i)
  obtain t r where "seq_remove s i = (t, r)" by fastforce
  with OpRemove seq_remove_ok_vec [OF ok this] show ?thesis by (simp add: seq_len_vec)
next
  case (OpReplace start stop new)
  show ?thesis
  proof (cases "start \<le> stop \<and> stop \<le> seq_len s")
    case True
    with seq_replace_range_ok_vec [OF ok, of start stop new] OpReplace show ?thesis
      by (auto simp: seq_len_vec)
  next
    case False
    with OpReplace show ?thesis by (auto simp: seq_replace_range_def seq_len_vec)
  qed
next
  case (OpReverse n)
  obtain t b where "seq_reverse_prefix s n = (t, b)" by fastforce
  with OpReverse seq_reverse_prefix_ok_vec [OF ok this] show ?thesis by (simp add: seq_len_vec)
qed

text \<open>
  C5. A sequence object behaves as a list: any program of set, insert, remove, range
  replacement and prefix reversal panics on the object exactly when it panics on the list of its
  decoded elements, and otherwise leaves an object that decodes to the list's result. The choice
  and the widening of the storage are never visible.
\<close>

theorem sequence_refines_list:
  assumes "seq_ok s"
  shows "map_option seq_to_vec (run_ops seq_apply ops s) = run_ops list_apply ops (seq_to_vec s)"
  using assms
proof (induction ops arbitrary: s)
  case (Cons x ops)
  note step = seq_apply_refines [OF Cons.prems, of x]
  show ?case
  proof (cases "seq_apply x s")
    case None
    with step show ?thesis by (simp add: eq_commute [of None])
  next
    case (Some t)
    with step have "list_apply x (seq_to_vec s) = Some (seq_to_vec t)" and "seq_ok t" by auto
    with Some Cons.IH [of t] show ?thesis by simp
  qed
qed simp

theorem sequence_refines_list_witness:
  "map_option seq_to_vec
     (run_ops seq_apply [OpInsert 1 ValueNone, OpSet 0 (Bool True)] (seq_from_values [SmallInt 7]))
   = Some [Bool True, ValueNone]"
  using sequence_refines_list [OF seq_from_values_ok [of "[SmallInt 7]"],
      of "[OpInsert 1 ValueNone, OpSet 0 (Bool True)]"]
  by (simp add: insert_at_def)

section \<open>The layout version\<close>

lemma layout_bump [simp]: "layout_version (bump_layout s) = saturating_inc (layout_version s)"
  by (simp add: bump_layout_def)

text \<open>An operation either bumps the version or keeps length and storage class.\<close>

lemma seq_apply_layout:
  assumes "seq_apply x s = Some t"
  shows "layout_version t = saturating_inc (layout_version s)
    \<or> layout_version t = layout_version s \<and> seq_len t = seq_len s \<and> seq_strategy t = seq_strategy s"
  using assms
  by (cases x)
    (auto simp: seq_set_def seq_insert_def seq_remove_def seq_replace_range_def
      seq_reverse_prefix_def seq_len_def seq_strategy_def Let_def
      split: option.splits if_splits sequence_storage.splits wvalue.splits)

lemma run_ops_layout:
  assumes "run_ops seq_apply ops s = Some t" and "unat (layout_version s) + length ops < 2 ^ 64 - 1"
  shows "unat (layout_version s) \<le> unat (layout_version t)
    \<and> unat (layout_version t) \<le> unat (layout_version s) + length ops
    \<and> (layout_version t = layout_version s \<longrightarrow>
         seq_len t = seq_len s \<and> seq_strategy t = seq_strategy s)"
  using assms
proof (induction ops arbitrary: s)
  case (Cons x ops)
  from Cons.prems obtain u where u: "seq_apply x s = Some u" and run: "run_ops seq_apply ops u = Some t"
    by (auto simp: bind_eq_Some_conv)
  have "layout_version s \<noteq> - 1" using Cons.prems(2) by (auto simp: unat_max_u64)
  then have inc: "unat (saturating_inc (layout_version s)) = Suc (unat (layout_version s))"
    by (rule unat_saturating_inc)
  have bound: "unat (layout_version u) + length ops < 2 ^ 64 - 1"
    and le: "unat (layout_version s) \<le> unat (layout_version u)"
    "unat (layout_version u) \<le> Suc (unat (layout_version s))"
    using seq_apply_layout [OF u] inc Cons.prems(2) by auto
  note IH = Cons.IH [OF run bound]
  show ?case using seq_apply_layout [OF u]
  proof
    assume "layout_version u = saturating_inc (layout_version s)"
    then have "layout_version t \<noteq> layout_version s" using IH inc by auto
    then show ?thesis using IH le by simp
  next
    assume "layout_version u = layout_version s \<and> seq_len u = seq_len s \<and> seq_strategy u = seq_strategy s"
    then show ?thesis using IH by auto
  qed
qed simp



text \<open>
  The version stops at its greatest value, where the same guard no longer separates layouts: a
  snapshot of a saturated list is committed over a later push.
\<close>

lemma saturated_commit_loses_push:
  assumes "layout_version s = - 1" and "seq_storage s = StoreI64 ys"
  shows "\<exists>t. seq_push s (SmallInt n) = Some t \<and> integer_snapshot s = Some (ys, - 1)
    \<and> snd (commit_integer_snapshot t (- 1) ys)"
  using assms
  by (auto simp: seq_push_def seq_insert_def integer_snapshot_def commit_integer_snapshot_def
      can_commit_integer_snapshot_def saturating_inc_def)

end
