(* ===== verification/Wvm_Object.thy ===== *)
theory Wvm_Object
  imports Sequence_Object
begin

text \<open>
  Executables and heap objects (\<open>executable.rs\<close>, \<open>object.rs\<close>). An executable carries its
  bytecode, structure map, host parameters and constant pool; constants may be functions and
  classes, classes hold methods, so the three types are mutually recursive. A Rust string that is
  a runtime value is a list of Unicode scalar values, an identifier is a HOL string. The
  verification cache of an executable memoises a pure function of it and is not part of the
  model; the process-wide counters that hand out executable and class ids are explicit arguments.
\<close>

type_synonym text_value = "nat list"

datatype class_id = ClassId u64
datatype shape_id = ShapeId u64
datatype executable_id = ExecutableId u64

record executable_parameter =
  param_name :: string
  param_register :: register
  param_ty :: slot_type

datatype executable =
    Executable (exec_id: executable_id) (exec_name: "string option") (exec_bytecode: wfunction)
      (exec_map: structure_map) (exec_parameters: "executable_parameter list")
      (exec_constants: "executable_constant list")
and executable_constant =
    ConstantString text_value
  | ConstantBigInt int
  | ConstantFunction executable
  | ConstantClass class_object
and class_object =
    ClassObject (class_object_id: class_id) (class_name: string)
      (class_methods: "(string \<times> executable) list")

abbreviation exec_code :: "executable \<Rightarrow> instruction list" where
  "exec_code e \<equiv> code (exec_bytecode e)"

text \<open>
  Fresh ids: the counter of executables refuses to wrap (the \<open>panic!\<close> is \<open>None\<close>), the counter
  of classes wraps.
\<close>

definition executable_new ::
  "u64 \<Rightarrow> wfunction \<Rightarrow> structure_map \<Rightarrow> executable_parameter list \<Rightarrow> executable_constant list
    \<Rightarrow> (executable \<times> u64) option" where
  "executable_new next f m ps cs =
     (case checked_inc next of
        None \<Rightarrow> None
      | Some n \<Rightarrow> Some (Executable (ExecutableId next) None f m ps cs, n))"

definition class_object_new ::
  "u64 \<Rightarrow> string \<Rightarrow> (string \<times> executable) list \<Rightarrow> class_object \<times> u64" where
  "class_object_new next name methods = (ClassObject (ClassId next) name methods, next + 1)"

definition class_method :: "class_object \<Rightarrow> string \<Rightarrow> executable option" where
  "class_method c name = map_option snd (find (\<lambda>(candidate, _). candidate = name) (class_methods c))"

record instance_object =
  inst_class :: object_ref
  inst_class_id :: class_id
  inst_shape :: shape_id
  inst_fields :: "(string \<times> wvalue) list"

record bound_method =
  bm_receiver :: object_ref
  bm_function :: executable

datatype object =
    StringObject text_value
  | TupleObject sequence_object
  | BigIntObject int
  | ListObject sequence_object
  | DictObject "(wvalue \<times> wvalue) list"
  | FunctionObject executable
  | ClassObj class_object
  | InstanceObj instance_object
  | BoundMethodObj bound_method

fun kind_of :: "object \<Rightarrow> object_kind" where
  "kind_of (StringObject _) = KString"
| "kind_of (TupleObject _) = KTuple"
| "kind_of (BigIntObject _) = KBigInt"
| "kind_of (ListObject _) = KList"
| "kind_of (DictObject _) = KDict"
| "kind_of (FunctionObject _) = KFunction"
| "kind_of (ClassObj _) = KClass"
| "kind_of (InstanceObj _) = KInstance"
| "kind_of (BoundMethodObj _) = KBoundMethod"

definition tuple_object :: "wvalue list \<Rightarrow> object" where
  "tuple_object vs = TupleObject (seq_from_values vs)"

definition list_object :: "wvalue list \<Rightarrow> object" where
  "list_object vs = ListObject (seq_from_values vs)"

text \<open>\<open>PartialEq\<close> on objects: structural on data, by identity on code, never on instances.\<close>

definition object_eq :: "object \<Rightarrow> object \<Rightarrow> bool" where
  "object_eq lhs rhs =
     (case lhs of
        StringObject a \<Rightarrow> (case rhs of StringObject b \<Rightarrow> a = b | _ \<Rightarrow> False)
      | TupleObject a \<Rightarrow> (case rhs of TupleObject b \<Rightarrow> seq_eq a b | _ \<Rightarrow> False)
      | BigIntObject a \<Rightarrow> (case rhs of BigIntObject b \<Rightarrow> a = b | _ \<Rightarrow> False)
      | ListObject a \<Rightarrow> (case rhs of ListObject b \<Rightarrow> seq_eq a b | _ \<Rightarrow> False)
      | DictObject a \<Rightarrow>
          (case rhs of
             DictObject b \<Rightarrow> list_all2 (\<lambda>(k, v) (l, w). value_eq k l \<and> value_eq v w) a b
           | _ \<Rightarrow> False)
      | FunctionObject a \<Rightarrow> (case rhs of FunctionObject b \<Rightarrow> exec_id a = exec_id b | _ \<Rightarrow> False)
      | ClassObj a \<Rightarrow> (case rhs of ClassObj b \<Rightarrow> class_object_id a = class_object_id b | _ \<Rightarrow> False)
      | InstanceObj _ \<Rightarrow> False
      | BoundMethodObj a \<Rightarrow>
          (case rhs of
             BoundMethodObj b \<Rightarrow>
               bm_receiver a = bm_receiver b \<and> exec_id (bm_function a) = exec_id (bm_function b)
           | _ \<Rightarrow> False))"

section \<open>Errors of the virtual machine\<close>

datatype object_error =
    WrongHeap u64 u64
  | InvalidSlot u32
  | StaleGeneration u32 u32 u32
  | VacantSlot u32
  | TransferTargetOccupied u32
  | SlotCapacityExhausted
  | GenerationExhausted u32
  | UninitializedValue
  | UnhashableDictionaryKey
  | DuplicateDictionaryKey
  | NotClass
  | NotInstance
  | MissingAttribute
  | KeyRecursion \<comment> \<open>not of the source: a cyclic chain of tuples, where the Rust recursion has no end\<close>

text \<open>The values an object holds directly.\<close>

fun held_values :: "object \<Rightarrow> wvalue list" where
  "held_values (TupleObject s) = seq_to_vec s"
| "held_values (ListObject s) = seq_to_vec s"
| "held_values (DictObject es) = concat (map (\<lambda>(k, v). [k, v]) es)"
| "held_values (InstanceObj i) = ObjectValue (inst_class i) # map snd (inst_fields i)"
| "held_values (BoundMethodObj m) = [ObjectValue (bm_receiver m)]"
| "held_values _ = []"

fun object_ok :: "object \<Rightarrow> bool" where
  "object_ok (TupleObject s) = seq_ok s"
| "object_ok (ListObject s) = seq_ok s"
| "object_ok _ = True"

lemma kind_of_simps [simp]: "kind_of (tuple_object vs) = KTuple" "kind_of (list_object vs) = KList"
  by (simp_all add: tuple_object_def list_object_def)

lemma held_values_fresh [simp]:
  "held_values (tuple_object vs) = vs" "held_values (list_object vs) = vs"
  by (simp_all add: tuple_object_def list_object_def)

lemma object_ok_fresh [simp]: "object_ok (tuple_object vs)" "object_ok (list_object vs)"
  by (simp_all add: tuple_object_def list_object_def)

end
