(* ===== verification/Object_Heap.thy ===== *)
theory Object_Heap
  imports Wvm_Object
begin

text \<open>
  The object heap (\<open>object/heap.rs\<close>, \<open>object/heap/invariants.rs\<close>): slots with generations, a
  stack of free slots, interned instance shapes, and the validation of objects that the host
  hands in. A heap operation that changes state answers the new heap with its result, also when
  the result is an error; a lookup through \<open>get_mut\<close> is modelled by \<open>heap_get\<close> followed by
  \<open>heap_put\<close> of the changed object.
\<close>

record heap_slot =
  slot_generation :: u32
  slot_object :: "object option"

record object_heap =
  heap_id :: u64
  slots :: "heap_slot list"
  free_slots :: "u32 list"
  shapes :: "class_id \<times> string list \<Rightarrow> shape_id option"
  next_shape :: u64

definition heap_new :: "u64 \<Rightarrow> object_heap" where
  "heap_new i = \<lparr>heap_id = i, slots = [], free_slots = [], shapes = Map.empty, next_shape = 1\<rparr>"

section \<open>Handles\<close>

definition validate_heap :: "object_heap \<Rightarrow> object_ref \<Rightarrow> object_error + unit" where
  "validate_heap h r =
     (if ref_heap_id r = heap_id h then Inr () else Inl (WrongHeap (heap_id h) (ref_heap_id r)))"

definition validate_generation :: "heap_slot \<Rightarrow> object_ref \<Rightarrow> object_error + unit" where
  "validate_generation s r =
     (if ref_generation r = slot_generation s then Inr ()
      else Inl (StaleGeneration (ref_slot r) (slot_generation s) (ref_generation r)))"

definition slot_at :: "object_heap \<Rightarrow> u32 \<Rightarrow> object_error + heap_slot" where
  "slot_at h i = ok_or (get_at (slots h) (unat i)) (InvalidSlot i)"

definition live_slot :: "object_heap \<Rightarrow> object_ref \<Rightarrow> object_error + heap_slot" where
  "live_slot h r =
     and_then (validate_heap h r) (\<lambda>_.
       and_then (slot_at h (ref_slot r)) (\<lambda>s.
         and_then (validate_generation s r) (\<lambda>_. Inr s)))"

definition heap_get :: "object_heap \<Rightarrow> object_ref \<Rightarrow> object_error + object" where
  "heap_get h r =
     and_then (live_slot h r) (\<lambda>s. ok_or (slot_object s) (VacantSlot (ref_slot r)))"

text \<open>Writing the object of a slot whose handle has been validated.\<close>

definition store_slot :: "object_heap \<Rightarrow> u32 \<Rightarrow> heap_slot \<Rightarrow> object_heap" where
  "store_slot h i s = h\<lparr>slots := (slots h)[unat i := s]\<rparr>"

definition heap_put :: "object_heap \<Rightarrow> object_ref \<Rightarrow> object \<Rightarrow> object_heap" where
  "heap_put h r obj =
     store_slot h (ref_slot r) \<lparr>slot_generation = ref_generation r, slot_object = Some obj\<rparr>"

definition heap_kind :: "object_heap \<Rightarrow> object_ref \<Rightarrow> object_error + object_kind" where
  "heap_kind h r = map_ok kind_of (heap_get h r)"

definition allocate_validated ::
  "object_heap \<Rightarrow> object \<Rightarrow> object_heap \<times> (object_error + object_ref)" where
  "allocate_validated h obj =
     (if free_slots h \<noteq> [] then
        let i = last (free_slots h); h' = h\<lparr>free_slots := butlast (free_slots h)\<rparr>
        in case slot_at h' i of
             Inl e \<Rightarrow> (h', Inl e)
           | Inr s \<Rightarrow>
               (case checked_inc (slot_generation s) of
                  None \<Rightarrow> (h', Inl (GenerationExhausted i))
                | Some g \<Rightarrow>
                    (store_slot h' i \<lparr>slot_generation = g, slot_object = Some obj\<rparr>,
                     Inr \<lparr>ref_heap_id = heap_id h, ref_slot = i, ref_generation = g\<rparr>))
      else
        case u32_of_len (length (slots h)) of
          None \<Rightarrow> (h, Inl SlotCapacityExhausted)
        | Some i \<Rightarrow>
            (h\<lparr>slots := slots h @ [\<lparr>slot_generation = 0, slot_object = Some obj\<rparr>]\<rparr>,
             Inr \<lparr>ref_heap_id = heap_id h, ref_slot = i, ref_generation = 0\<rparr>))"

definition heap_remove :: "object_heap \<Rightarrow> object_ref \<Rightarrow> object_heap \<times> (object_error + object)" where
  "heap_remove h r =
     (case live_slot h r of
        Inl e \<Rightarrow> (h, Inl e)
      | Inr s \<Rightarrow>
          (case slot_object s of
             None \<Rightarrow> (h, Inl (VacantSlot (ref_slot r)))
           | Some obj \<Rightarrow>
               ((store_slot h (ref_slot r) (s\<lparr>slot_object := None\<rparr>))
                  \<lparr>free_slots := free_slots h @ [ref_slot r]\<rparr>, Inr obj)))"

text \<open>A transfer takes the object out without freeing the slot, and puts it back later.\<close>

definition transfer_out :: "object_heap \<Rightarrow> object_ref \<Rightarrow> object_heap \<times> (object_error + object)" where
  "transfer_out h r =
     (case live_slot h r of
        Inl e \<Rightarrow> (h, Inl e)
      | Inr s \<Rightarrow>
          (case slot_object s of
             None \<Rightarrow> (h, Inl (VacantSlot (ref_slot r)))
           | Some obj \<Rightarrow> (store_slot h (ref_slot r) (s\<lparr>slot_object := None\<rparr>), Inr obj)))"

definition transfer_in ::
  "object_heap \<Rightarrow> object_ref \<Rightarrow> object \<Rightarrow> object_heap \<times> (object_error + unit)" where
  "transfer_in h r obj =
     (case live_slot h r of
        Inl e \<Rightarrow> (h, Inl e)
      | Inr s \<Rightarrow>
          if slot_object s \<noteq> None then (h, Inl (TransferTargetOccupied (ref_slot r)))
          else (store_slot h (ref_slot r) (s\<lparr>slot_object := Some obj\<rparr>), Inr ()))"

definition function_reference :: "object_heap \<Rightarrow> executable \<Rightarrow> object_ref option" where
  "function_reference h f =
     (case position (\<lambda>s. case slot_object s of
                           Some (FunctionObject g) \<Rightarrow> exec_id g = exec_id f | _ \<Rightarrow> False) (slots h) of
        None \<Rightarrow> None
      | Some i \<Rightarrow>
          map_option (\<lambda>w. \<lparr>ref_heap_id = heap_id h, ref_slot = w,
                           ref_generation = slot_generation (slots h ! i)\<rparr>) (u32_of_len i))"

section \<open>Validation of host objects\<close>

definition validate_value :: "object_heap \<Rightarrow> wvalue \<Rightarrow> object_error + unit" where
  "validate_value h v =
     (case v of
        ObjectValue r \<Rightarrow> map_ok (\<lambda>_. ()) (heap_get h r)
      | Uninitialized \<Rightarrow> Inl UninitializedValue
      | _ \<Rightarrow> Inr ())"

text \<open>
  Hashability descends through tuples. The fuel bounds the depth of the descent; a heap of \<open>n\<close>
  slots has no longer chain of distinct live tuples, so running out means a cyclic chain.
\<close>

fun hashable_key :: "nat \<Rightarrow> object_heap \<Rightarrow> wvalue \<Rightarrow> object_error + unit" where
  "hashable_key n h Uninitialized = Inl UninitializedValue"
| "hashable_key n h (ObjectValue r) =
     (case heap_get h r of
        Inl e \<Rightarrow> Inl e
      | Inr (TupleObject vs) \<Rightarrow>
          (case n of
             0 \<Rightarrow> Inl KeyRecursion
           | Suc m \<Rightarrow> try_all (hashable_key m h) (seq_to_vec vs))
      | Inr (ListObject _) \<Rightarrow> Inl UnhashableDictionaryKey
      | Inr (DictObject _) \<Rightarrow> Inl UnhashableDictionaryKey
      | Inr _ \<Rightarrow> Inr ())"
| "hashable_key n h _ = Inr ()"

definition validate_hashable_key :: "object_heap \<Rightarrow> wvalue \<Rightarrow> object_error + unit" where
  "validate_hashable_key h v = hashable_key (length (slots h)) h v"

definition integer_float_equal :: "numlib \<Rightarrow> int \<Rightarrow> f64 \<Rightarrow> bool" where
  "integer_float_equal L n x \<longleftrightarrow>
     f64_is_finite x \<and> f64_fract_units x = 0 \<and> nl_from_f64 L x = Some n"

definition object_key_matches_integer ::
  "object_heap \<Rightarrow> object_ref \<Rightarrow> int \<Rightarrow> object_error + bool" where
  "object_key_matches_integer h r n =
     map_ok (\<lambda>obj. case obj of BigIntObject m \<Rightarrow> m = n | _ \<Rightarrow> False) (heap_get h r)"

definition object_key_matches_float ::
  "numlib \<Rightarrow> object_heap \<Rightarrow> object_ref \<Rightarrow> f64 \<Rightarrow> object_error + bool" where
  "object_key_matches_float L h r x =
     map_ok (\<lambda>obj. case obj of BigIntObject m \<Rightarrow> integer_float_equal L m x | _ \<Rightarrow> False)
       (heap_get h r)"

text \<open>Element-wise comparison that stops at the first difference or error.\<close>

fun all_equal :: "('a \<Rightarrow> 'b \<Rightarrow> 'e + bool) \<Rightarrow> 'a list \<Rightarrow> 'b list \<Rightarrow> 'e + bool" where
  "all_equal eq (x # xs) (y # ys) =
     and_then (eq x y) (\<lambda>b. if b then all_equal eq xs ys else Inr False)"
| "all_equal eq _ _ = Inr True"

fun host_keys_eq :: "nat \<Rightarrow> numlib \<Rightarrow> object_heap \<Rightarrow> wvalue \<Rightarrow> wvalue \<Rightarrow> object_error + bool" where
  "host_keys_eq n L h lhs rhs =
     (case (lhs, rhs) of
        (SmallInt a, SmallInt b) \<Rightarrow> Inr (a = b)
      | (Float a, Float b) \<Rightarrow> Inr (f64_eq a b)
      | (SmallInt a, Float b) \<Rightarrow> Inr (integer_float_equal L (sint a) b)
      | (Float a, SmallInt b) \<Rightarrow> Inr (integer_float_equal L (sint b) a)
      | (Bool a, Bool b) \<Rightarrow> Inr (a = b)
      | (ValueNone, ValueNone) \<Rightarrow> Inr True
      | (ObjectValue a, ObjectValue b) \<Rightarrow>
          and_then (validate_value h lhs) (\<lambda>_. and_then (validate_value h rhs) (\<lambda>_.
            if a = b then Inr True
            else and_then (heap_get h a) (\<lambda>x. and_then (heap_get h b) (\<lambda>y.
              case (x, y) of
                (StringObject s, StringObject t) \<Rightarrow> Inr (s = t)
              | (BigIntObject s, BigIntObject t) \<Rightarrow> Inr (s = t)
              | (FunctionObject s, FunctionObject t) \<Rightarrow> Inr (exec_id s = exec_id t)
              | (TupleObject s, TupleObject t) \<Rightarrow>
                  if seq_len s \<noteq> seq_len t then Inr False
                  else (case n of
                          0 \<Rightarrow> Inl KeyRecursion
                        | Suc m \<Rightarrow> all_equal (host_keys_eq m L h) (seq_to_vec s) (seq_to_vec t))
              | _ \<Rightarrow> Inr False))))
      | (SmallInt a, ObjectValue b) \<Rightarrow> object_key_matches_integer h b (sint a)
      | (ObjectValue a, SmallInt b) \<Rightarrow> object_key_matches_integer h a (sint b)
      | (Float a, ObjectValue b) \<Rightarrow> object_key_matches_float L h b a
      | (ObjectValue a, Float b) \<Rightarrow> object_key_matches_float L h a b
      | (Uninitialized, _) \<Rightarrow> Inl UninitializedValue
      | (_, Uninitialized) \<Rightarrow> Inl UninitializedValue
      | _ \<Rightarrow> Inr False)"

declare host_keys_eq.simps [simp del]

definition host_keys_equal :: "numlib \<Rightarrow> object_heap \<Rightarrow> wvalue \<Rightarrow> wvalue \<Rightarrow> object_error + bool" where
  "host_keys_equal L h = host_keys_eq (length (slots h)) L h"

definition validate_host_dictionary ::
  "numlib \<Rightarrow> object_heap \<Rightarrow> (wvalue \<times> wvalue) list \<Rightarrow> object_error + unit" where
  "validate_host_dictionary L h entries =
     try_all (\<lambda>(i, (key, v)).
         and_then (validate_value h key) (\<lambda>_.
         and_then (validate_value h v) (\<lambda>_.
         and_then (validate_hashable_key h key) (\<lambda>_.
           try_all (\<lambda>(candidate, _).
               and_then (host_keys_equal L h candidate key) (\<lambda>b.
                 if b then Inl DuplicateDictionaryKey else Inr ()))
             (take i entries)))))
       (List.enumerate 0 entries)"

definition validate_host_object :: "numlib \<Rightarrow> object_heap \<Rightarrow> object \<Rightarrow> object_error + unit" where
  "validate_host_object L h obj =
     (case obj of
        TupleObject s \<Rightarrow> try_all (validate_value h) (seq_to_vec s)
      | ListObject s \<Rightarrow> try_all (validate_value h) (seq_to_vec s)
      | DictObject es \<Rightarrow> validate_host_dictionary L h es
      | InstanceObj i \<Rightarrow>
          and_then (validate_value h (ObjectValue (inst_class i))) (\<lambda>_.
            try_all (\<lambda>(_, v). validate_value h v) (inst_fields i))
      | BoundMethodObj m \<Rightarrow> validate_value h (ObjectValue (bm_receiver m))
      | _ \<Rightarrow> Inr ())"

definition heap_allocate ::
  "numlib \<Rightarrow> object_heap \<Rightarrow> object \<Rightarrow> object_heap \<times> (object_error + object_ref)" where
  "heap_allocate L h obj =
     (case validate_host_object L h obj of
        Inl e \<Rightarrow> (h, Inl e)
      | Inr _ \<Rightarrow> allocate_validated h obj)"

definition allocate_runtime_dict ::
  "object_heap \<Rightarrow> (wvalue \<times> wvalue) list \<Rightarrow> object_heap \<times> (object_error + object_ref)" where
  "allocate_runtime_dict h entries =
     (case try_all (\<lambda>(k, v). and_then (validate_value h k) (\<lambda>_. validate_value h v)) entries of
        Inl e \<Rightarrow> (h, Inl e)
      | Inr _ \<Rightarrow> allocate_validated h (DictObject entries))"

section \<open>Instances and shapes\<close>

definition intern_shape :: "object_heap \<Rightarrow> class_id \<Rightarrow> string list \<Rightarrow> object_heap \<times> shape_id" where
  "intern_shape h c names =
     (case shapes h (c, names) of
        Some s \<Rightarrow> (h, s)
      | None \<Rightarrow>
          (h\<lparr>next_shape := saturating_inc (next_shape h),
             shapes := (shapes h)((c, names) \<mapsto> ShapeId (next_shape h))\<rparr>, ShapeId (next_shape h)))"

definition instantiate :: "object_heap \<Rightarrow> object_ref \<Rightarrow> object_heap \<times> (object_error + object_ref)" where
  "instantiate h cls =
     (case heap_get h cls of
        Inl e \<Rightarrow> (h, Inl e)
      | Inr (ClassObj c) \<Rightarrow>
          (let (h', shape) = intern_shape h (class_object_id c) []
           in allocate_validated h' (InstanceObj \<lparr>inst_class = cls,
                inst_class_id = class_object_id c, inst_shape = shape, inst_fields = []\<rparr>))
      | Inr _ \<Rightarrow> (h, Inl NotClass))"

fun the_instance :: "object \<Rightarrow> object_error + instance_object" where
  "the_instance (InstanceObj i) = Inr i"
| "the_instance _ = Inl NotInstance"

definition get_instance :: "object_heap \<Rightarrow> object_ref \<Rightarrow> object_error + instance_object" where
  "get_instance h r = and_then (heap_get h r) the_instance"

definition find_field :: "(string \<times> wvalue) list \<Rightarrow> string \<Rightarrow> nat option" where
  "find_field fs name = position (\<lambda>(candidate, _). candidate = name) fs"

definition resolve_method :: "object_heap \<Rightarrow> object_ref \<Rightarrow> string \<Rightarrow> object_error + executable" where
  "resolve_method h cls name =
     and_then (heap_get h cls) (\<lambda>obj.
       case obj of
         ClassObj c \<Rightarrow> ok_or (class_method c name) MissingAttribute
       | _ \<Rightarrow> Inl NotClass)"

definition get_attribute ::
  "object_heap \<Rightarrow> object_ref \<Rightarrow> string \<Rightarrow> object_heap \<times> (object_error + wvalue)" where
  "get_attribute h receiver name =
     (case get_instance h receiver of
        Inl e \<Rightarrow> (h, Inl e)
      | Inr i \<Rightarrow>
          (case find_field (inst_fields i) name of
             Some n \<Rightarrow> (h, Inr (snd (inst_fields i ! n)))
           | None \<Rightarrow>
               (case resolve_method h (inst_class i) name of
                  Inl e \<Rightarrow> (h, Inl e)
                | Inr f \<Rightarrow>
                    apsnd (map_ok ObjectValue)
                      (allocate_validated h
                         (BoundMethodObj \<lparr>bm_receiver = receiver, bm_function = f\<rparr>)))))"

definition instance_shape :: "object_heap \<Rightarrow> object_ref \<Rightarrow> object_error + shape_id" where
  "instance_shape h r = map_ok inst_shape (get_instance h r)"

definition lookup_instance_field ::
  "object_heap \<Rightarrow> object_ref \<Rightarrow> string \<Rightarrow> object_error + (shape_id \<times> nat \<times> wvalue) option" where
  "lookup_instance_field h r name =
     map_ok (\<lambda>i. map_option (\<lambda>n. (inst_shape i, n, snd (inst_fields i ! n)))
                   (find_field (inst_fields i) name))
       (get_instance h r)"

definition instance_field_at ::
  "object_heap \<Rightarrow> object_ref \<Rightarrow> shape_id \<Rightarrow> nat \<Rightarrow> object_error + wvalue option" where
  "instance_field_at h r expected n =
     map_ok (\<lambda>i. if inst_shape i \<noteq> expected then None
                 else map_option snd (get_at (inst_fields i) n))
       (get_instance h r)"

definition set_attribute ::
  "object_heap \<Rightarrow> object_ref \<Rightarrow> string \<Rightarrow> wvalue \<Rightarrow> object_heap \<times> (object_error + unit)" where
  "set_attribute h receiver name v =
     (case validate_value h v of
        Inl e \<Rightarrow> (h, Inl e)
      | Inr _ \<Rightarrow>
          (case get_instance h receiver of
             Inl e \<Rightarrow> (h, Inl e)
           | Inr i \<Rightarrow>
               (case find_field (inst_fields i) name of
                  Some n \<Rightarrow>
                    (heap_put h receiver
                       (InstanceObj (i\<lparr>inst_fields := (inst_fields i)[n := (fst (inst_fields i ! n), v)]\<rparr>)),
                     Inr ())
                | None \<Rightarrow>
                    (let (h', shape) = intern_shape h (inst_class_id i)
                           (map fst (inst_fields i) @ [name])
                     in (heap_put h' receiver
                           (InstanceObj (i\<lparr>inst_shape := shape,
                              inst_fields := inst_fields i @ [(name, v)]\<rparr>)), Inr ())))))"

definition lookup_method ::
  "object_heap \<Rightarrow> object_ref \<Rightarrow> string \<Rightarrow> object_error + shape_id \<times> executable" where
  "lookup_method h receiver name =
     and_then (get_instance h receiver) (\<lambda>i.
       map_ok (\<lambda>f. (inst_shape i, f)) (resolve_method h (inst_class i) name))"

section \<open>Native snapshots of lists\<close>

definition heap_integer_snapshot ::
  "object_heap \<Rightarrow> object_ref \<Rightarrow> object_error + (i64 list \<times> u64) option" where
  "heap_integer_snapshot h r =
     map_ok (\<lambda>obj. case obj of ListObject s \<Rightarrow> integer_snapshot s | _ \<Rightarrow> None) (heap_get h r)"

definition heap_float_snapshot ::
  "object_heap \<Rightarrow> object_ref \<Rightarrow> object_error + (f64 list \<times> u64) option" where
  "heap_float_snapshot h r =
     map_ok (\<lambda>obj. case obj of ListObject s \<Rightarrow> float_snapshot s | _ \<Rightarrow> None) (heap_get h r)"

text \<open>A commit on one list: look it up, commit on the sequence, write it back.\<close>

definition commit_list ::
  "(sequence_object \<Rightarrow> sequence_object \<times> bool) \<Rightarrow> object_heap \<Rightarrow> object_ref
    \<Rightarrow> object_heap \<times> (object_error + bool)" where
  "commit_list f h r =
     (case heap_get h r of
        Inl e \<Rightarrow> (h, Inl e)
      | Inr (ListObject s) \<Rightarrow> (let (s', b) = f s in (heap_put h r (ListObject s'), Inr b))
      | Inr _ \<Rightarrow> (h, Inr False))"

definition commit_integer_sequence_snapshot ::
  "object_heap \<Rightarrow> object_ref \<Rightarrow> u64 \<Rightarrow> i64 list \<Rightarrow> object_heap \<times> (object_error + bool)" where
  "commit_integer_sequence_snapshot h r v xs =
     commit_list (\<lambda>s. commit_integer_snapshot s v xs) h r"

definition commit_float_sequence_snapshot ::
  "object_heap \<Rightarrow> object_ref \<Rightarrow> u64 \<Rightarrow> f64 list \<Rightarrow> object_heap \<times> (object_error + bool)" where
  "commit_float_sequence_snapshot h r v xs =
     commit_list (\<lambda>s. commit_float_snapshot s v xs) h r"

definition commit_widened_float_sequence_snapshot ::
  "object_heap \<Rightarrow> object_ref \<Rightarrow> u64 \<Rightarrow> f64 list \<Rightarrow> object_heap \<times> (object_error + bool)" where
  "commit_widened_float_sequence_snapshot h r v xs =
     commit_list (\<lambda>s. commit_widened_float_snapshot s v xs) h r"

text \<open>
  A set of snapshots commits as one transaction: first every member is checked (no handle twice,
  a live list, the expected version), then every member is applied. The answer of the check is
  \<open>True\<close> when the transaction may proceed.
\<close>

fun validate_snapshots ::
  "(sequence_object \<Rightarrow> u64 \<Rightarrow> bool) \<Rightarrow> object_heap \<Rightarrow> object_ref set
    \<Rightarrow> (object_ref \<times> u64 \<times> 'a list) list \<Rightarrow> object_error + bool" where
  "validate_snapshots can h seen [] = Inr True"
| "validate_snapshots can h seen ((r, v, xs) # rest) =
     (if r \<in> seen then Inr False
      else and_then (heap_get h r) (\<lambda>obj.
        if (case obj of ListObject s \<Rightarrow> can s v | _ \<Rightarrow> False)
        then validate_snapshots can h (insert r seen) rest
        else Inr False))"

text \<open>
  The second pass meets only validated lists; anything else is the \<open>unreachable!\<close> of the
  source, answered by \<open>None\<close>.
\<close>

fun apply_snapshots ::
  "(sequence_object \<Rightarrow> 'a list \<Rightarrow> sequence_object) \<Rightarrow> object_heap
    \<Rightarrow> (object_ref \<times> u64 \<times> 'a list) list \<Rightarrow> object_heap option" where
  "apply_snapshots app h [] = Some h"
| "apply_snapshots app h ((r, v, xs) # rest) =
     (case heap_get h r of
        Inr (ListObject s) \<Rightarrow> apply_snapshots app (heap_put h r (ListObject (app s xs))) rest
      | _ \<Rightarrow> None)"

definition commit_snapshots ::
  "(sequence_object \<Rightarrow> u64 \<Rightarrow> bool) \<Rightarrow> (sequence_object \<Rightarrow> 'a list \<Rightarrow> sequence_object)
    \<Rightarrow> object_heap \<Rightarrow> (object_ref \<times> u64 \<times> 'a list) list
    \<Rightarrow> (object_heap \<times> (object_error + bool)) option" where
  "commit_snapshots can app h snaps =
     (case validate_snapshots can h {} snaps of
        Inl e \<Rightarrow> Some (h, Inl e)
      | Inr False \<Rightarrow> Some (h, Inr False)
      | Inr True \<Rightarrow> map_option (\<lambda>h'. (h', Inr True)) (apply_snapshots app h snaps))"

definition commit_integer_sequence_snapshots ::
  "object_heap \<Rightarrow> (object_ref \<times> u64 \<times> i64 list) list
    \<Rightarrow> (object_heap \<times> (object_error + bool)) option" where
  "commit_integer_sequence_snapshots =
     commit_snapshots can_commit_integer_snapshot apply_integer_snapshot"

definition commit_float_sequence_snapshots ::
  "object_heap \<Rightarrow> (object_ref \<times> u64 \<times> f64 list) list
    \<Rightarrow> (object_heap \<times> (object_error + bool)) option" where
  "commit_float_sequence_snapshots =
     commit_snapshots can_commit_float_snapshot apply_float_snapshot"

end
