(* ===== verification/Heap_Laws.thy ===== *)
theory Heap_Laws
  imports Object_Heap
begin

text \<open>
  Laws of the object heap: the well-formedness that every operation keeps, the store interface
  the rest of the virtual machine relies on, handle safety over whole runs of heap operations,
  atomicity of snapshot transactions, and the shape discipline behind the inline caches.
\<close>

section \<open>Lookup\<close>

lemma nth_update_unat: "i \<noteq> j \<Longrightarrow> xs[unat j := x] ! unat i = xs ! unat i"
  by (simp add: word_unat_eq_iff)

lemma heap_get_eq:
  "heap_get h r =
     (if ref_heap_id r \<noteq> heap_id h then Inl (WrongHeap (heap_id h) (ref_heap_id r))
      else if length (slots h) \<le> unat (ref_slot r) then Inl (InvalidSlot (ref_slot r))
      else let s = slots h ! unat (ref_slot r)
           in if ref_generation r \<noteq> slot_generation s
              then Inl (StaleGeneration (ref_slot r) (slot_generation s) (ref_generation r))
              else (case slot_object s of None \<Rightarrow> Inl (VacantSlot (ref_slot r)) | Some x \<Rightarrow> Inr x))"
  by (auto simp: heap_get_def live_slot_def validate_heap_def validate_generation_def slot_at_def
      get_at_def Let_def split: option.splits)

lemma heap_get_Inr_iff:
  "heap_get h r = Inr x \<longleftrightarrow>
     ref_heap_id r = heap_id h \<and> unat (ref_slot r) < length (slots h)
     \<and> slot_generation (slots h ! unat (ref_slot r)) = ref_generation r
     \<and> slot_object (slots h ! unat (ref_slot r)) = Some x"
  by (auto simp: heap_get_eq Let_def split: option.splits if_splits)

definition live_ref :: "object_heap \<Rightarrow> object_ref \<Rightarrow> bool" where
  "live_ref h r \<longleftrightarrow> (\<exists>x. heap_get h r = Inr x)"

lemma store_slot_simps [simp]:
  "heap_id (store_slot h i s) = heap_id h" "free_slots (store_slot h i s) = free_slots h"
  "shapes (store_slot h i s) = shapes h" "next_shape (store_slot h i s) = next_shape h"
  "slots (store_slot h i s) = (slots h)[unat i := s]"
  by (simp_all add: store_slot_def)

lemma heap_put_simps [simp]:
  "heap_id (heap_put h r x) = heap_id h" "free_slots (heap_put h r x) = free_slots h"
  "shapes (heap_put h r x) = shapes h" "next_shape (heap_put h r x) = next_shape h"
  "length (slots (heap_put h r x)) = length (slots h)"
  by (simp_all add: heap_put_def)

lemma heap_get_put_same: "heap_get h r = Inr x \<Longrightarrow> heap_get (heap_put h r y) r = Inr y"
  by (simp add: heap_get_Inr_iff heap_put_def)

lemma heap_get_put_other:
  assumes "heap_get h r = Inr x" and "q \<noteq> r"
  shows "heap_get (heap_put h r y) q = heap_get h q"
proof -
  have r: "unat (ref_slot r) < length (slots h)" "ref_heap_id r = heap_id h"
    "slot_generation (slots h ! unat (ref_slot r)) = ref_generation r"
    using assms(1) by (auto simp: heap_get_Inr_iff)
  show ?thesis
  proof (cases "ref_slot q = ref_slot r \<and> ref_heap_id q = heap_id h")
    case True
    then have "ref_generation q \<noteq> ref_generation r" using assms(2) r(2) by auto
    then show ?thesis using True r by (simp add: heap_get_eq heap_put_def)
  next
    case False
    then have "ref_heap_id q \<noteq> heap_id h \<or> unat (ref_slot q) \<noteq> unat (ref_slot r)"
      by (auto simp flip: word_unat_eq_iff)
    then show ?thesis by (auto simp: heap_get_eq heap_put_def)
  qed
qed

section \<open>Well-formedness\<close>

text \<open>
  The free list holds distinct vacant slots, slot numbers fit 32 bits, and sequences are
  well-formed.
\<close>

definition free_ok :: "object_heap \<Rightarrow> bool" where
  "free_ok h \<longleftrightarrow> distinct (free_slots h)
     \<and> (\<forall>i \<in> set (free_slots h). unat i < length (slots h)
          \<and> slot_object (slots h ! unat i) = None)"

definition objects_ok :: "object_heap \<Rightarrow> bool" where
  "objects_ok h \<longleftrightarrow> (\<forall>s \<in> set (slots h). \<forall>x. slot_object s = Some x \<longrightarrow> object_ok x)"

definition heap_wf :: "object_heap \<Rightarrow> bool" where
  "heap_wf h \<longleftrightarrow> length (slots h) \<le> 2 ^ 32 \<and> free_ok h \<and> objects_ok h"

lemma heap_wf_new [simp]: "heap_wf (heap_new i)"
  by (simp add: heap_wf_def free_ok_def objects_ok_def heap_new_def)

lemma heap_get_ok: "heap_wf h \<Longrightarrow> heap_get h r = Inr x \<Longrightarrow> object_ok x"
  by (auto simp: heap_wf_def objects_ok_def heap_get_Inr_iff)

lemma live_not_free: "heap_wf h \<Longrightarrow> heap_get h r = Inr x \<Longrightarrow> ref_slot r \<notin> set (free_slots h)"
  by (auto simp: heap_wf_def free_ok_def heap_get_Inr_iff)

lemma objects_ok_update:
  "objects_ok h \<Longrightarrow> (\<And>x. slot_object s = Some x \<Longrightarrow> object_ok x) \<Longrightarrow> objects_ok (store_slot h i s)"
  by (auto simp: objects_ok_def dest!: set_update_subset_insert [THEN subsetD])

lemma free_ok_update:
  assumes "distinct fs" and "set fs \<subseteq> set (free_slots h)" and "free_ok h" and "i \<notin> set fs"
  shows "free_ok (h\<lparr>free_slots := fs, slots := (slots h)[unat i := s]\<rparr>)"
proof -
  have "slot_object ((slots h)[unat i := s] ! unat j) = None \<and> unat j < length (slots h)"
    if "j \<in> set fs" for j
  proof -
    have "j \<noteq> i" using that assms(4) by auto
    then show ?thesis using that assms(2,3) by (auto simp: nth_update_unat free_ok_def)
  qed
  then show ?thesis using assms(1) by (simp add: free_ok_def)
qed

lemma heap_put_wf:
  assumes wf: "heap_wf h" and live: "heap_get h r = Inr x" and ok: "object_ok y"
  shows "heap_wf (heap_put h r y)"
proof -
  have "objects_ok (heap_put h r y)"
    using wf ok by (auto simp: heap_put_def heap_wf_def intro!: objects_ok_update)
  moreover have "free_ok (heap_put h r y)"
    using free_ok_update [of "free_slots h" h "ref_slot r"] wf live_not_free [OF wf live]
    by (simp add: heap_wf_def heap_put_def store_slot_def free_ok_def)
  ultimately show ?thesis using wf by (simp add: heap_wf_def)
qed

lemma checked_inc_Some: "checked_inc g = Some k \<Longrightarrow> unat k = Suc (unat g)"
  using unatSuc [of g] by (auto simp: checked_inc_def add.commute add_eq_0_iff split: if_splits)

text \<open>The two ways an allocation succeeds: a reused slot, or a new one at the end.\<close>

lemma allocate_cases:
  assumes "heap_wf h" and "allocate_validated h x = (h', res)"
  obtains (failed) e where "res = Inl e" and "slots h' = slots h" and "heap_id h' = heap_id h"
      and "set (free_slots h') \<subseteq> set (free_slots h)" and "distinct (free_slots h')"
      and "shapes h' = shapes h" and "next_shape h' = next_shape h"
  | (reused) i g where "i \<in> set (free_slots h)" and "unat i < length (slots h)"
      and "slot_object (slots h ! unat i) = None"
      and "unat g = Suc (unat (slot_generation (slots h ! unat i)))"
      and "res = Inr \<lparr>ref_heap_id = heap_id h, ref_slot = i, ref_generation = g\<rparr>"
      and "h' = h\<lparr>free_slots := butlast (free_slots h),
             slots := (slots h)[unat i := \<lparr>slot_generation = g, slot_object = Some x\<rparr>]\<rparr>"
      and "i \<notin> set (butlast (free_slots h))"
  | (extended) i where "unat i = length (slots h)" and "length (slots h) < 2 ^ 32"
      and "res = Inr \<lparr>ref_heap_id = heap_id h, ref_slot = i, ref_generation = 0\<rparr>"
      and "h' = h\<lparr>slots := slots h @ [\<lparr>slot_generation = 0, slot_object = Some x\<rparr>]\<rparr>"
proof (cases "free_slots h = []")
  case True
  show thesis
  proof (cases "u32_of_len (length (slots h))")
    case None
    with True assms show thesis
      by (intro failed) (auto simp: allocate_validated_def heap_wf_def free_ok_def)
  next
    case (Some i)
    with True assms(2) u32_of_len_Some [OF Some] show thesis
      by (intro extended) (auto simp: allocate_validated_def)
  qed
next
  case False
  define i where "i = last (free_slots h)"
  have i: "i \<in> set (free_slots h)" using False by (simp add: i_def)
  have split: "free_slots h = butlast (free_slots h) @ [i]" using False by (simp add: i_def)
  have fresh: "i \<notin> set (butlast (free_slots h))" and dist: "distinct (butlast (free_slots h))"
    using assms(1) split by (metis heap_wf_def free_ok_def distinct_append disjoint_iff list.set_intros(1),
      metis heap_wf_def free_ok_def distinct_butlast)
  have slot: "unat i < length (slots h)" "slot_object (slots h ! unat i) = None"
    using assms(1) i by (auto simp: heap_wf_def free_ok_def)
  show thesis
  proof (cases "checked_inc (slot_generation (slots h ! unat i))")
    case None
    with False assms slot dist show thesis
      by (intro failed) (auto simp: allocate_validated_def slot_at_def get_at_def Let_def
          simp flip: i_def dest: in_set_butlastD)
  next
    case (Some g)
    with False assms(2) slot i fresh checked_inc_Some [OF Some] show thesis
      by (intro reused) (auto simp: allocate_validated_def slot_at_def get_at_def Let_def
          store_slot_def simp flip: i_def)
  qed
qed

lemma allocate_wf:
  assumes wf: "heap_wf h" and ok: "object_ok x" and alloc: "allocate_validated h x = (h', res)"
  shows "heap_wf h'"
  using wf alloc
proof (cases rule: allocate_cases)
  case (failed e)
  then show ?thesis using wf by (auto simp: heap_wf_def free_ok_def objects_ok_def)
next
  case (reused i g)
  have "objects_ok h'" using wf ok reused(6)
    by (auto simp: heap_wf_def objects_ok_def dest!: set_update_subset_insert [THEN subsetD])
  moreover have "free_ok h'"
    using free_ok_update [of "butlast (free_slots h)" h i] wf reused(6,7)
    by (auto simp: heap_wf_def distinct_butlast free_ok_def dest: in_set_butlastD)
  ultimately show ?thesis using wf reused(6) by (simp add: heap_wf_def)
next
  case (extended i)
  then show ?thesis using wf ok
    by (auto simp: heap_wf_def free_ok_def objects_ok_def nth_append)
qed

lemma allocate_frame:
  assumes wf: "heap_wf h" and alloc: "allocate_validated h x = (h', res)" and live: "heap_get h q = Inr y"
  shows "heap_get h' q = Inr y"
  using wf alloc
proof (cases rule: allocate_cases)
  case (failed e)
  then show ?thesis using live by (simp add: heap_get_Inr_iff)
next
  case (reused i g)
  then have "ref_slot q \<noteq> i" using live by (auto simp: heap_get_Inr_iff)
  then show ?thesis using live reused(6) by (simp add: heap_get_Inr_iff nth_update_unat)
next
  case (extended i)
  then show ?thesis using live by (simp add: heap_get_Inr_iff nth_append)
qed

lemma allocate_fresh:
  assumes wf: "heap_wf h" and alloc: "allocate_validated h x = (h', Inr r)"
  shows "heap_get h' r = Inr x \<and> \<not> live_ref h r"
  using wf alloc
proof (cases rule: allocate_cases)
  case (reused i g)
  then show ?thesis by (auto simp: heap_get_Inr_iff live_ref_def)
next
  case (extended i)
  then show ?thesis by (auto simp: heap_get_Inr_iff live_ref_def nth_append)
qed auto

section \<open>The store interface\<close>

text \<open>
  What the operations of the virtual machine use of the heap: read, overwrite a live object,
  allocate. The laws are those of a store with fresh names: an allocation answers a handle that
  was not live and leaves the live ones alone; a write changes one handle only.
\<close>

locale object_store =
  fixes wf :: "'h \<Rightarrow> bool"
    and ok :: "'o \<Rightarrow> bool"
    and get :: "'h \<Rightarrow> 'r \<Rightarrow> 'e + 'o"
    and put :: "'h \<Rightarrow> 'r \<Rightarrow> 'o \<Rightarrow> 'h"
    and alloc :: "'h \<Rightarrow> 'o \<Rightarrow> 'h \<times> ('e + 'r)"
  assumes put_wf: "wf h \<Longrightarrow> get h r = Inr x \<Longrightarrow> ok y \<Longrightarrow> wf (put h r y)"
    and put_same: "get h r = Inr x \<Longrightarrow> get (put h r y) r = Inr y"
    and put_other: "get h r = Inr x \<Longrightarrow> q \<noteq> r \<Longrightarrow> get (put h r y) q = get h q"
    and alloc_wf: "wf h \<Longrightarrow> ok x \<Longrightarrow> alloc h x = (h', res) \<Longrightarrow> wf h'"
    and alloc_frame: "wf h \<Longrightarrow> alloc h x = (h', res) \<Longrightarrow> get h q = Inr y \<Longrightarrow> get h' q = Inr y"
    and alloc_fresh: "wf h \<Longrightarrow> alloc h x = (h', Inr r) \<Longrightarrow> get h' r = Inr x \<and> (\<forall>y. get h r \<noteq> Inr y)"
begin

text \<open>Programs over the store: allocations and writes, with failed allocations ignored.\<close>

definition keeps_live :: "'h \<Rightarrow> 'h \<Rightarrow> bool" where
  "keeps_live h h' \<longleftrightarrow> (\<forall>r x. get h r = Inr x \<longrightarrow> (\<exists>y. get h' r = Inr y))"

lemma keeps_live_refl: "keeps_live h h"
  by (auto simp: keeps_live_def)

lemma keeps_live_trans: "keeps_live h g \<Longrightarrow> keeps_live g k \<Longrightarrow> keeps_live h k"
  by (fastforce simp: keeps_live_def)

lemma put_keeps_live: "get h r = Inr x \<Longrightarrow> keeps_live h (put h r y)"
  unfolding keeps_live_def by (metis put_same put_other)

lemma alloc_keeps_live: "wf h \<Longrightarrow> alloc h x = (h', res) \<Longrightarrow> keeps_live h h'"
  unfolding keeps_live_def by (metis alloc_frame)

lemma alloc_distinct:
  assumes "wf h" and "get h q = Inr y" and "alloc h x = (h', Inr r)"
  shows "q \<noteq> r"
  using alloc_fresh [OF assms(1,3)] assms(2) by auto

lemma alloc_put_commute:
  assumes "wf h" and "ok y" and "get h q = Inr z" and "alloc h x = (h', Inr r)"
  shows "get (put h' q y) r = Inr x"
proof -
  have "get h' q = Inr z" using alloc_frame assms by blast
  moreover have "r \<noteq> q" using alloc_distinct assms by blast
  ultimately show ?thesis using put_other alloc_fresh [OF assms(1,4)] by simp
qed

end

interpretation heap: object_store heap_wf object_ok heap_get heap_put allocate_validated
proof unfold_locales
  show "heap_wf h \<Longrightarrow> heap_get h r = Inr x \<Longrightarrow> object_ok y \<Longrightarrow> heap_wf (heap_put h r y)" for h r x y
    by (rule heap_put_wf)
  show "heap_get h r = Inr x \<Longrightarrow> heap_get (heap_put h r y) r = Inr y" for h r x y
    by (rule heap_get_put_same)
  show "heap_get h r = Inr x \<Longrightarrow> q \<noteq> r \<Longrightarrow> heap_get (heap_put h r y) q = heap_get h q" for h r x q y
    by (rule heap_get_put_other)
  show "heap_wf h \<Longrightarrow> object_ok x \<Longrightarrow> allocate_validated h x = (h', res) \<Longrightarrow> heap_wf h'" for h x h' res
    by (rule allocate_wf)
  show "heap_wf h \<Longrightarrow> allocate_validated h x = (h', res) \<Longrightarrow> heap_get h q = Inr y
      \<Longrightarrow> heap_get h' q = Inr y" for h x h' res q y
    by (rule allocate_frame)
  show "heap_wf h \<Longrightarrow> allocate_validated h x = (h', Inr r)
      \<Longrightarrow> heap_get h' r = Inr x \<and> (\<forall>y. heap_get h r \<noteq> Inr y)" for h x h' r
    using allocate_fresh by (auto simp: live_ref_def)
qed

section \<open>Handle safety\<close>

text \<open>
  The steps of a heap and of the set of objects transferred out of it: allocation, a write to a
  live object, removal, and the two halves of a transfer. The native tier puts back only what it
  took out.
\<close>

inductive heap_step ::
  "object_heap \<times> object_ref set \<Rightarrow> object_heap \<times> object_ref set \<Rightarrow> bool" where
  step_allocate: "object_ok x \<Longrightarrow> allocate_validated h x = (h', res) \<Longrightarrow> heap_step (h, T) (h', T)"
| step_write: "heap_get h r = Inr x \<Longrightarrow> object_ok y \<Longrightarrow> heap_step (h, T) (heap_put h r y, T)"
| step_remove: "heap_remove h r = (h', Inr x) \<Longrightarrow> heap_step (h, T) (h', T)"
| step_out: "transfer_out h r = (h', Inr x) \<Longrightarrow> heap_step (h, T) (h', insert r T)"
| step_in: "r \<in> T \<Longrightarrow> object_ok x \<Longrightarrow> transfer_in h r x = (h', res) \<Longrightarrow>
     heap_step (h, T) (h', T - {r})"

inductive_cases heap_step_cases: "heap_step (h, T) (h', T')"

text \<open>A transferred handle names its slot exactly, vacant but not free.\<close>

definition out_ok :: "object_heap \<Rightarrow> object_ref \<Rightarrow> bool" where
  "out_ok h r \<longleftrightarrow> ref_heap_id r = heap_id h \<and> unat (ref_slot r) < length (slots h)
     \<and> slot_generation (slots h ! unat (ref_slot r)) = ref_generation r
     \<and> slot_object (slots h ! unat (ref_slot r)) = None \<and> ref_slot r \<notin> set (free_slots h)"

text \<open>A removed handle: its slot has moved on, or is vacant with no transfer that would fill it.\<close>

definition dead_ref :: "object_heap \<Rightarrow> object_ref set \<Rightarrow> object_ref \<Rightarrow> bool" where
  "dead_ref h T r \<longleftrightarrow> ref_heap_id r = heap_id h \<and> unat (ref_slot r) < length (slots h)
     \<and> (let s = slots h ! unat (ref_slot r)
        in unat (ref_generation r) < unat (slot_generation s)
           \<or> ref_generation r = slot_generation s \<and> slot_object s = None \<and> r \<notin> T)"

lemma dead_not_live: "dead_ref h T r \<Longrightarrow> \<not> live_ref h r"
  by (auto simp: dead_ref_def live_ref_def heap_get_Inr_iff Let_def)

lemma slot_eq: "slot_generation s = g \<Longrightarrow> s\<lparr>slot_object := x\<rparr> = \<lparr>slot_generation = g, slot_object = x\<rparr>"
  by (cases s) simp

lemma live_slot_Inr_iff:
  "live_slot h r = Inr s \<longleftrightarrow> ref_heap_id r = heap_id h \<and> unat (ref_slot r) < length (slots h)
     \<and> slots h ! unat (ref_slot r) = s \<and> slot_generation s = ref_generation r"
  by (auto simp: live_slot_def validate_heap_def validate_generation_def slot_at_def
      and_then_Inr_iff split: if_splits)

lemma heap_remove_Inr:
  assumes "heap_remove h r = (h', Inr x)"
  shows "heap_get h r = Inr x
    \<and> h' = (store_slot h (ref_slot r) \<lparr>slot_generation = ref_generation r, slot_object = None\<rparr>)
             \<lparr>free_slots := free_slots h @ [ref_slot r]\<rparr>"
  using assms
  by (auto simp: heap_remove_def live_slot_Inr_iff slot_eq heap_get_Inr_iff split: sum.splits option.splits)

lemma transfer_out_Inr:
  assumes "transfer_out h r = (h', Inr x)"
  shows "heap_get h r = Inr x
    \<and> h' = store_slot h (ref_slot r) \<lparr>slot_generation = ref_generation r, slot_object = None\<rparr>"
  using assms
  by (auto simp: transfer_out_def live_slot_Inr_iff slot_eq heap_get_Inr_iff split: sum.splits option.splits)

lemma transfer_in_cases:
  assumes "transfer_in h r x = (h', res)" and "out_ok h r"
  shows "h' = store_slot h (ref_slot r) \<lparr>slot_generation = ref_generation r, slot_object = Some x\<rparr>"
  using assms
  by (auto simp: transfer_in_def live_slot_Inr_iff out_ok_def slot_eq live_slot_def validate_heap_def
      slot_at_def validate_generation_def get_at_def split: sum.splits option.splits if_splits)

text \<open>Overwriting one slot at its own generation: what all steps but allocation do.\<close>

lemma out_ok_store:
  assumes "out_ok h q" and "ref_slot q \<noteq> i"
  shows "out_ok (store_slot h i s) q"
  using assms by (auto simp: out_ok_def nth_update_unat)

lemma out_ok_slot_eq: "out_ok h q \<Longrightarrow> out_ok h r \<Longrightarrow> ref_slot q = ref_slot r \<Longrightarrow> q = r"
  by (auto simp: out_ok_def)

lemma out_ok_not_live: "out_ok h q \<Longrightarrow> heap_get h r = Inr x \<Longrightarrow> ref_slot q \<noteq> ref_slot r"
  by (auto simp: out_ok_def heap_get_Inr_iff)

lemma dead_store:
  assumes "dead_ref h T r" and "r \<in> S \<Longrightarrow> r \<in> T"
    and "i = ref_slot r \<Longrightarrow> slot_generation s = slot_generation (slots h ! unat i)
           \<and> (slot_generation s = ref_generation r \<longrightarrow> slot_object s = None)"
  shows "dead_ref (store_slot h i s) S r"
proof (cases "i = ref_slot r")
  case True
  with assms show ?thesis by (auto simp: dead_ref_def Let_def)
next
  case False
  then have "ref_slot r \<noteq> i" by simp
  with assms(1,2) show ?thesis by (auto simp: dead_ref_def Let_def nth_update_unat)
qed

lemma dead_free_slots [simp]: "dead_ref (h\<lparr>free_slots := fs\<rparr>) T r = dead_ref h T r"
  by (simp add: dead_ref_def)

definition heap_state_ok :: "object_heap \<times> object_ref set \<Rightarrow> bool" where
  "heap_state_ok c \<longleftrightarrow> heap_wf (fst c) \<and> (\<forall>r \<in> snd c. out_ok (fst c) r)"

lemma heap_wf_store:
  assumes "heap_wf h" and "i \<notin> set (free_slots h)"
    and "\<And>x. slot_object s = Some x \<Longrightarrow> object_ok x"
  shows "heap_wf (store_slot h i s)"
proof -
  have "objects_ok (store_slot h i s)" using assms(1,3) by (auto simp: heap_wf_def intro: objects_ok_update)
  moreover have "free_ok (store_slot h i s)"
    using free_ok_update [of "free_slots h" h i s] assms(1,2)
    by (simp add: heap_wf_def store_slot_def free_ok_def)
  ultimately show ?thesis using assms(1) by (simp add: heap_wf_def)
qed

lemma heap_remove_wf:
  assumes wf: "heap_wf h" and rem: "heap_remove h r = (h', Inr x)"
  shows "heap_wf h'"
proof -
  note r = heap_remove_Inr [OF rem]
  have live: "heap_get h r = Inr x" using r by simp
  have fresh: "ref_slot r \<notin> set (free_slots h)" using live_not_free [OF wf live] .
  have wf': "heap_wf (store_slot h (ref_slot r) \<lparr>slot_generation = ref_generation r, slot_object = None\<rparr>)"
    by (rule heap_wf_store [OF wf fresh]) simp
  moreover have "unat (ref_slot r) < length (slots h)" using live by (simp add: heap_get_Inr_iff)
  ultimately show ?thesis using r fresh by (auto simp: heap_wf_def free_ok_def objects_ok_def)
qed

lemma heap_remove_dead:
  assumes "heap_remove h r = (h', Inr x)" and "r \<notin> T"
  shows "dead_ref h' T r"
  using heap_remove_Inr [OF assms(1)] assms(2) by (auto simp: dead_ref_def heap_get_Inr_iff)

lemma out_ok_allocate:
  assumes wf: "heap_wf h" and alloc: "allocate_validated h x = (h', res)" and out: "out_ok h q"
  shows "out_ok h' q"
  using wf alloc
proof (cases rule: allocate_cases)
  case (failed e)
  then show ?thesis using out by (auto simp: out_ok_def)
next
  case (reused i g)
  then have "ref_slot q \<noteq> i" using out by (auto simp: out_ok_def)
  then show ?thesis using out reused(6)
    by (auto simp: out_ok_def nth_update_unat dest: in_set_butlastD)
next
  case (extended i)
  then show ?thesis using out by (auto simp: out_ok_def nth_append)
qed

lemma dead_allocate:
  assumes wf: "heap_wf h" and alloc: "allocate_validated h x = (h', res)" and dead: "dead_ref h T q"
  shows "dead_ref h' T q"
  using wf alloc
proof (cases rule: allocate_cases)
  case (failed e)
  then show ?thesis using dead by (auto simp: dead_ref_def)
next
  case (reused i g)
  show ?thesis
  proof (cases "ref_slot q = i")
    case True
    then show ?thesis using dead reused(2,4,6) by (auto simp: dead_ref_def Let_def)
  next
    case False
    then show ?thesis using dead reused(6) by (auto simp: dead_ref_def Let_def nth_update_unat)
  qed
next
  case (extended i)
  then show ?thesis using dead by (auto simp: dead_ref_def nth_append Let_def)
qed

text \<open>Every step keeps the state well-formed and a dead handle dead.\<close>

lemma heap_step_ok:
  assumes "heap_step c d" and "heap_state_ok c"
  shows "heap_state_ok d"
  using assms
proof (induction rule: heap_step.induct)
  case (step_allocate x h h' res T)
  then show ?case using allocate_wf out_ok_allocate by (fastforce simp: heap_state_ok_def)
next
  case (step_write h r x y T)
  then show ?case using heap_put_wf out_ok_store out_ok_not_live
    by (fastforce simp: heap_state_ok_def heap_put_def)
next
  case (step_remove h r h' x T)
  have "out_ok h' q" if "q \<in> T" for q
  proof -
    have q: "out_ok h q" using that step_remove.prems by (simp add: heap_state_ok_def)
    then have "ref_slot q \<noteq> ref_slot r"
      using out_ok_not_live heap_remove_Inr [OF step_remove.hyps] by blast
    then show ?thesis using out_ok_store [OF q] heap_remove_Inr [OF step_remove.hyps]
      by (simp add: out_ok_def)
  qed
  then show ?case using heap_remove_wf step_remove by (auto simp: heap_state_ok_def)
next
  case (step_out h r h' x T)
  note r = transfer_out_Inr [OF step_out.hyps]
  have wf: "heap_wf h" using step_out.prems by (simp add: heap_state_ok_def)
  have live: "heap_get h r = Inr x" using r by simp
  have fresh: "ref_slot r \<notin> set (free_slots h)" using live_not_free [OF wf live] .
  have "out_ok h' q" if "q \<in> T" for q
    using that step_out.prems r out_ok_store out_ok_not_live
    by (metis heap_state_ok_def fst_conv snd_conv)
  moreover have "out_ok h' r" using r fresh by (auto simp: out_ok_def heap_get_Inr_iff)
  moreover have "heap_wf h'" unfolding conjunct2 [OF r] by (rule heap_wf_store [OF wf fresh]) simp
  ultimately show ?case by (auto simp: heap_state_ok_def)
next
  case (step_in r T x h h' res)
  have out: "out_ok h r" and wf: "heap_wf h" using step_in by (auto simp: heap_state_ok_def)
  note h' = transfer_in_cases [OF step_in.hyps(3) out]
  have "out_ok h' q" if "q \<in> T - {r}" for q
    using that step_in.prems h' out_ok_store out_ok_slot_eq [OF _ out]
    by (metis Diff_iff fst_conv heap_state_ok_def insertI1 snd_conv)
  moreover have "heap_wf h'"
    unfolding h' using out step_in.hyps(2) by (intro heap_wf_store [OF wf]) (auto simp: out_ok_def)
  ultimately show ?case by (auto simp: heap_state_ok_def)
qed

lemma dead_live_slot:
  assumes "dead_ref h T r" and "heap_get h q = Inr x" and "ref_slot q = ref_slot r"
  shows "slot_generation (slots h ! unat (ref_slot r)) = ref_generation q
    \<and> ref_generation q \<noteq> ref_generation r"
  using assms by (auto simp: dead_ref_def heap_get_Inr_iff Let_def)

lemma heap_step_dead:
  assumes step: "heap_step (h, T) (h', T')" and ok: "heap_state_ok (h, T)" and dead: "dead_ref h T r"
  shows "dead_ref h' T' r"
  using step
proof (rule heap_step_cases)
  fix x res
  assume "allocate_validated h x = (h', res)" and "T' = T"
  then show ?thesis using dead_allocate dead ok by (auto simp: heap_state_ok_def)
next
  fix q x y
  assume "heap_get h q = Inr x" and "h' = heap_put h q y" and "T' = T"
  then show ?thesis
    using dead_live_slot [OF dead, of q x] by (auto simp: heap_put_def intro!: dead_store [OF dead])
next
  fix q x
  assume "heap_remove h q = (h', Inr x)" and "T' = T"
  then show ?thesis
    using heap_remove_Inr [of h q h' x] dead_live_slot [OF dead, of q x]
    by (auto intro!: dead_store [OF dead])
next
  fix q x
  assume out: "transfer_out h q = (h', Inr x)" and T': "T' = insert q T"
  then have live: "heap_get h q = Inr x" using transfer_out_Inr by blast
  then have "q \<noteq> r" using dead_not_live [OF dead] by (auto simp: live_ref_def)
  then show ?thesis
    using T' transfer_out_Inr [OF out] dead_live_slot [OF dead live] by (auto intro!: dead_store [OF dead])
next
  fix q x res
  assume q: "q \<in> T" and T': "T' = T - {q}" and into: "transfer_in h q x = (h', res)"
  then have out: "out_ok h q" using ok by (auto simp: heap_state_ok_def)
  have "ref_generation q \<noteq> ref_generation r" if "ref_slot q = ref_slot r"
  proof
    assume "ref_generation q = ref_generation r"
    with that out dead have "q = r" by (auto simp: out_ok_def dead_ref_def)
    with out dead q show False by (auto simp: out_ok_def dead_ref_def Let_def)
  qed
  then show ?thesis
    using T' transfer_in_cases [OF into out] out by (auto simp: out_ok_def intro!: dead_store [OF dead])
qed

lemma heap_steps_dead:
  assumes "heap_step\<^sup>*\<^sup>* c d" and "heap_state_ok c" and "dead_ref (fst c) (snd c) r"
  shows "dead_ref (fst d) (snd d) r \<and> heap_state_ok d"
  using assms
proof (induction rule: rtranclp_induct)
  case (step d e)
  then show ?case
    using heap_step_ok heap_step_dead by (cases d; cases e) auto
qed simp

lemma heap_steps_ok: "heap_step\<^sup>*\<^sup>* c d \<Longrightarrow> heap_state_ok c \<Longrightarrow> heap_state_ok d"
  by (induction rule: rtranclp_induct) (auto intro: heap_step_ok)

lemma heap_state_ok_new [simp]: "heap_state_ok (heap_new i, {})"
  by (simp add: heap_state_ok_def)



section \<open>Transactions\<close>

lemma validate_snapshots_True:
  assumes "validate_snapshots can h seen snaps = Inr True"
  shows "distinct (map fst snaps) \<and> fst ` set snaps \<inter> seen = {}
    \<and> (\<forall>(r, v, xs) \<in> set snaps. \<exists>s. heap_get h r = Inr (ListObject s) \<and> can s v)"
  using assms
proof (induction snaps arbitrary: seen)
  case (Cons a snaps)
  obtain r v xs where a: "a = (r, v, xs)" by (cases a)
  from Cons.prems obtain s where r: "r \<notin> seen" "heap_get h r = Inr (ListObject s)" "can s v"
    and rest: "validate_snapshots can h (insert r seen) snaps = Inr True"
    by (auto simp: a and_then_Inr_iff split: if_splits object.splits)
  from Cons.IH [OF rest] r show ?case by (auto simp: a)
qed simp

lemma apply_snapshots_correct:
  assumes "distinct (map fst snaps)"
    and "\<And>r v xs. (r, v, xs) \<in> set snaps \<Longrightarrow> \<exists>s. heap_get h r = Inr (ListObject s)"
  shows "\<exists>h'. apply_snapshots app h snaps = Some h'
    \<and> (\<forall>(r, v, xs) \<in> set snaps. \<forall>s. heap_get h r = Inr (ListObject s) \<longrightarrow>
         heap_get h' r = Inr (ListObject (app s xs)))
    \<and> (\<forall>q. q \<notin> fst ` set snaps \<longrightarrow> heap_get h' q = heap_get h q)"
  using assms
proof (induction snaps arbitrary: h)
  case (Cons a snaps)
  obtain r v xs where a: "a = (r, v, xs)" by (cases a)
  obtain s where s: "heap_get h r = Inr (ListObject s)" using Cons.prems(2) [of r v xs] by (auto simp: a)
  let ?g = "heap_put h r (ListObject (app s xs))"
  have other: "heap_get ?g q = heap_get h q" if "q \<noteq> r" for q
    using that heap_get_put_other [OF s] by blast
  have r: "r \<notin> fst ` set snaps" using Cons.prems(1) by (auto simp: a)
  have lists: "\<exists>t. heap_get ?g q = Inr (ListObject t)" if "(q, w, ys) \<in> set snaps" for q w ys
    using that r Cons.prems(2) [of q w ys] other [of q] by force
  have "distinct (map fst snaps)" using Cons.prems(1) by simp
  with Cons.IH [of ?g] lists obtain h' where h': "apply_snapshots app ?g snaps = Some h'"
    and applied: "\<forall>(q, w, ys) \<in> set snaps. \<forall>t. heap_get ?g q = Inr (ListObject t) \<longrightarrow>
       heap_get h' q = Inr (ListObject (app t ys))"
    and frame: "\<forall>q. q \<notin> fst ` set snaps \<longrightarrow> heap_get h' q = heap_get ?g q"
    by blast
  have "heap_get h' r = Inr (ListObject (app s xs))"
    using frame r heap_get_put_same [OF s] by simp
  moreover have "heap_get h' q = Inr (ListObject (app t ys))"
    if "(q, w, ys) \<in> set snaps" and "heap_get h q = Inr (ListObject t)" for q w ys t
  proof -
    have "q \<noteq> r" using that(1) r by force
    then show ?thesis using applied that other by fastforce
  qed
  moreover have "heap_get h' q = heap_get h q" if "q \<notin> insert r (fst ` set snaps)" for q
    using that frame other by simp
  ultimately show ?case using s h' by (auto simp: a)
qed simp

lemma commit_snapshots_atomic:
  obtains h' res where "commit_snapshots can app h snaps = Some (h', res)"
    and "res = Inr True \<Longrightarrow> \<forall>(r, v, xs) \<in> set snaps. \<exists>s. heap_get h r = Inr (ListObject s) \<and> can s v
           \<and> heap_get h' r = Inr (ListObject (app s xs))"
    and "res = Inr True \<Longrightarrow> \<forall>q. q \<notin> fst ` set snaps \<longrightarrow> heap_get h' q = heap_get h q"
    and "res \<noteq> Inr True \<Longrightarrow> h' = h"
proof (cases "validate_snapshots can h {} snaps")
  case (Inl e)
  then show thesis by (intro that [of h "Inl e"]) (auto simp: commit_snapshots_def)
next
  case (Inr b)
  show thesis
  proof (cases b)
    case False
    with Inr show thesis by (intro that [of h "Inr False"]) (auto simp: commit_snapshots_def)
  next
    case True
    have "validate_snapshots can h {} snaps = Inr True" using Inr True by simp
    note valid = validate_snapshots_True [OF this]
    from apply_snapshots_correct [of snaps h app] valid obtain h' where
      h': "apply_snapshots app h snaps = Some h'"
      and applied: "\<forall>(r, v, xs) \<in> set snaps. \<forall>s. heap_get h r = Inr (ListObject s) \<longrightarrow>
         heap_get h' r = Inr (ListObject (app s xs))"
      and frame: "\<forall>q. q \<notin> fst ` set snaps \<longrightarrow> heap_get h' q = heap_get h q"
      by fast
    show thesis
    proof (rule that [of h' "Inr True"])
      show "commit_snapshots can app h snaps = Some (h', Inr True)"
        using Inr True h' by (simp add: commit_snapshots_def)
      show "\<forall>(r, v, xs) \<in> set snaps. \<exists>s. heap_get h r = Inr (ListObject s) \<and> can s v
           \<and> heap_get h' r = Inr (ListObject (app s xs))"
        using valid applied by fast
      show "\<forall>q. q \<notin> fst ` set snaps \<longrightarrow> heap_get h' q = heap_get h q" by (rule frame)
    qed simp
  qed
qed

text \<open>
  C11. Committing a set of float snapshots is all or nothing, and never panics: either every named
  list, still live at its expected version and float layout, holds its new values and no other
  object changes, or (a stale version, a handle named twice, an object that is no list, a dead
  handle) the heap is exactly as before.
\<close>

theorem float_snapshot_set_atomic:
  "\<exists>h' res. commit_float_sequence_snapshots h snaps = Some (h', res)
     \<and> (if res = Inr True
        then (\<forall>(r, v, xs) \<in> set snaps. \<exists>s. heap_get h r = Inr (ListObject s)
                \<and> can_commit_float_snapshot s v
                \<and> heap_get h' r = Inr (ListObject (apply_float_snapshot s xs)))
             \<and> (\<forall>q. q \<notin> fst ` set snaps \<longrightarrow> heap_get h' q = heap_get h q)
        else h' = h)"
proof -
  obtain h' res where c: "commit_float_sequence_snapshots h snaps = Some (h', res)"
    and t: "res = Inr True \<Longrightarrow> \<forall>(r, v, xs) \<in> set snaps. \<exists>s. heap_get h r = Inr (ListObject s)
       \<and> can_commit_float_snapshot s v \<and> heap_get h' r = Inr (ListObject (apply_float_snapshot s xs))"
    and f: "res = Inr True \<Longrightarrow> \<forall>q. q \<notin> fst ` set snaps \<longrightarrow> heap_get h' q = heap_get h q"
    and n: "res \<noteq> Inr True \<Longrightarrow> h' = h"
    unfolding commit_float_sequence_snapshots_def
    using commit_snapshots_atomic [of can_commit_float_snapshot apply_float_snapshot h snaps] by blast
  show ?thesis using t f n
    by (intro exI [of _ h'] exI [of _ res] conjI c) (cases "res = Inr True", simp_all)
qed

theorem float_snapshot_set_atomic_witness:
  "\<exists>h'. commit_float_sequence_snapshots
       ((heap_new 0)\<lparr>slots := [\<lparr>slot_generation = 0,
          slot_object = Some (ListObject \<lparr>seq_storage = StoreF64 [1], layout_version = 4\<rparr>)\<rparr>]\<rparr>)
       [(\<lparr>ref_heap_id = 0, ref_slot = 0, ref_generation = 0\<rparr>, 4, [2])] = Some (h', Inr True)
     \<and> heap_get h' \<lparr>ref_heap_id = 0, ref_slot = 0, ref_generation = 0\<rparr>
       = Inr (ListObject \<lparr>seq_storage = StoreF64 [2], layout_version = 5\<rparr>)"
proof -
  let ?s = "\<lparr>seq_storage = StoreF64 [1], layout_version = 4\<rparr>"
  let ?r = "\<lparr>ref_heap_id = 0, ref_slot = 0, ref_generation = 0\<rparr>"
  let ?h = "(heap_new 0)\<lparr>slots := [\<lparr>slot_generation = 0, slot_object = Some (ListObject ?s)\<rparr>]\<rparr>"
  have s: "heap_get ?h ?r = Inr (ListObject ?s)" by (simp add: heap_get_Inr_iff heap_new_def)
  have can: "can_commit_float_snapshot ?s 4" by (simp add: can_commit_float_snapshot_def)
  from float_snapshot_set_atomic [of ?h "[(?r, 4, [2])]"] obtain h' res where
    c: "commit_float_sequence_snapshots ?h [(?r, 4, [2])] = Some (h', res)"
    and t: "res = Inr True \<Longrightarrow> heap_get h' ?r = Inr (ListObject (apply_float_snapshot ?s [2]))"
    using s by (auto split: if_splits)
  have "res = Inr True"
    using c s can
    by (simp add: commit_float_sequence_snapshots_def commit_snapshots_def)
  then show ?thesis using c t by (auto simp: apply_float_snapshot_def bump_layout_def saturating_inc_def)
qed

end
