(* ===== verification/Numeric_Semantics.thy ===== *)
theory Numeric_Semantics
  imports Object_Heap
begin

text \<open>
  Errors of the virtual machine and the numeric semantics (\<open>wvm/numeric_semantics_core.rs\<close>).
  The sources' errors are strings: \<open>Msg\<close> carries the literal, \<open>Numbered\<close> a format with its
  integer arguments, \<open>FoundValue\<close> a format with a register and the value found in it,
  \<open>HeapError\<close> the heap error whose text the source forwards. \<open>Panic\<close> and
  \<open>Diverges\<close> are not of the source: they stand for a panic and for a recursion without end,
  so that their absence can be stated.
\<close>

datatype vm_error =
    Msg string
  | Numbered string "int list"
  | FoundValue string int wvalue
  | HeapError object_error
  | Panic
  | Diverges

text \<open>An operation on the heap answers the heap with its result; the next one runs on that heap.\<close>

definition then_with ::
  "'h \<times> ('e + 'a) \<Rightarrow> ('h \<Rightarrow> 'a \<Rightarrow> 'h \<times> ('e + 'b)) \<Rightarrow> 'h \<times> ('e + 'b)" where
  "then_with m f = (case snd m of Inl e \<Rightarrow> (fst m, Inl e) | Inr x \<Rightarrow> f (fst m) x)"

lemma then_with_simps [simp]:
  "then_with (h, Inl e) f = (h, Inl e)" "then_with (h, Inr x) f = f h x"
  by (simp_all add: then_with_def)

lemma then_with_Inr_iff:
  "then_with m f = (h, Inr y) \<longleftrightarrow> (\<exists>h' x. m = (h', Inr x) \<and> f h' x = (h, Inr y))"
  by (cases m; cases "snd m") (auto simp: then_with_def)

section \<open>Numbers\<close>

datatype number = NumSmall i64 | NumBig int | NumFloat f64

datatype ordering = OrdLess | OrdEqual | OrdGreater

fun ord_reverse :: "ordering \<Rightarrow> ordering" where
  "ord_reverse OrdLess = OrdGreater"
| "ord_reverse OrdEqual = OrdEqual"
| "ord_reverse OrdGreater = OrdLess"

definition int_cmp :: "int \<Rightarrow> int \<Rightarrow> ordering" where
  "int_cmp a b = (if a < b then OrdLess else if a = b then OrdEqual else OrdGreater)"

definition f64_partial_cmp :: "f64 \<Rightarrow> f64 \<Rightarrow> ordering option" where
  "f64_partial_cmp x y =
     (if f64_lt x y then Some OrdLess else if f64_eq x y then Some OrdEqual
      else if f64_lt y x then Some OrdGreater else None)"

fun number_to_big :: "number \<Rightarrow> vm_error + int" where
  "number_to_big (NumSmall v) = Inr (sint v)"
| "number_to_big (NumBig v) = Inr v"
| "number_to_big (NumFloat _) = Inl (Msg ''float cannot enter exact integer arithmetic'')"

fun number_to_f64 :: "numlib \<Rightarrow> number \<Rightarrow> vm_error + f64" where
  "number_to_f64 L (NumSmall v) =
     ok_or (nl_to_f64 L (sint v)) (Msg ''SmallInt cannot be represented as float'')"
| "number_to_f64 L (NumBig v) =
     ok_or (case nl_to_f64 L v of Some x \<Rightarrow> if f64_is_finite x then Some x else None | None \<Rightarrow> None)
       (Msg ''BigInt cannot be represented as a finite float'')"
| "number_to_f64 L (NumFloat x) = Inr x"

definition compare_integer_float :: "numlib \<Rightarrow> int \<Rightarrow> f64 \<Rightarrow> vm_error + ordering" where
  "compare_integer_float L n x =
     (if f64_is_nan x then Inl (Msg ''NaN is not orderable'')
      else if f64_eq x f64_infinity then Inr OrdLess
      else if f64_eq x f64_neg_infinity then Inr OrdGreater
      else and_then (ok_or (nl_from_f64 L x)
             (Msg ''finite float could not be converted to an integer'')) (\<lambda>truncated.
        case int_cmp n truncated of
          OrdEqual \<Rightarrow>
            if 0 < f64_fract_units x then Inr OrdLess
            else if f64_fract_units x < 0 then Inr OrdGreater
            else Inr OrdEqual
        | cmp \<Rightarrow> Inr cmp))"

fun compare_numbers :: "numlib \<Rightarrow> number \<Rightarrow> number \<Rightarrow> vm_error + ordering" where
  "compare_numbers L (NumFloat x) (NumFloat y) =
     ok_or (f64_partial_cmp x y) (Msg ''NaN is not orderable'')"
| "compare_numbers L (NumFloat x) (NumSmall n) =
     map_ok ord_reverse (compare_integer_float L (sint n) x)"
| "compare_numbers L (NumFloat x) (NumBig n) = map_ok ord_reverse (compare_integer_float L n x)"
| "compare_numbers L (NumSmall n) (NumFloat x) = compare_integer_float L (sint n) x"
| "compare_numbers L (NumBig n) (NumFloat x) = compare_integer_float L n x"
| "compare_numbers L a b =
     and_then (number_to_big a) (\<lambda>m. and_then (number_to_big b) (\<lambda>n. Inr (int_cmp m n)))"

fun number_is_zero :: "number \<Rightarrow> bool" where
  "number_is_zero (NumSmall v) = (v = 0)"
| "number_is_zero (NumBig v) = (v = 0)"
| "number_is_zero (NumFloat x) = f64_eq x 0"

abbreviation f64_two :: f64 where "f64_two \<equiv> 0x4000000000000000"

definition magnitude_ratio :: "numlib \<Rightarrow> nat \<Rightarrow> nat \<Rightarrow> vm_error + f64" where
  "magnitude_ratio L numerator denominator =
     (let ns = bit_length numerator - 53; ds = bit_length denominator - 53
      in and_then (ok_or (nl_to_f64 L (int (numerator div 2 ^ ns)))
             (Msg ''integer remainder cannot be represented as a float'')) (\<lambda>numerator_top.
         and_then (ok_or (nl_to_f64 L (int (denominator div 2 ^ ds)))
             (Msg ''integer divisor cannot be represented as a float'')) (\<lambda>denominator_top.
           let exponent = (if in_i64 (int ns) \<and> in_i64 (int ds) then int ns - int ds else i64_min)
           in if exponent < - 1074 then Inr 0
              else if 2 ^ 31 \<le> exponent
              then Inl (Msg ''integer ratio exponent cannot be represented as a float'')
              else Inr (f64_mul (f64_div numerator_top denominator_top)
                     (nl_powi L f64_two exponent)))))"

definition integer_ratio_to_f64 :: "numlib \<Rightarrow> int \<Rightarrow> int \<Rightarrow> vm_error + f64" where
  "integer_ratio_to_f64 L numerator denominator =
     (let quotient = quot_trunc numerator denominator; remainder = rem_trunc numerator denominator
      in and_then (ok_or (case nl_to_f64 L quotient of
               Some x \<Rightarrow> if f64_is_finite x then Some x else None | None \<Rightarrow> None)
             (Msg ''integer quotient cannot be represented as a finite float'')) (\<lambda>quotient_float.
         if remainder = 0 then Inr quotient_float
         else and_then (magnitude_ratio L (nat \<bar>remainder\<bar>) (nat \<bar>denominator\<bar>)) (\<lambda>fraction.
           if sgn remainder = sgn denominator then Inr (f64_add quotient_float fraction)
           else Inr (f64_sub quotient_float fraction))))"

section \<open>Exactness of the comparisons\<close>

text \<open>The exact value of a finite number, in units of \<open>2^-1074\<close>.\<close>

fun number_finite :: "number \<Rightarrow> bool" where
  "number_finite (NumFloat x) = f64_is_finite x"
| "number_finite _ = True"

fun number_units :: "number \<Rightarrow> int" where
  "number_units (NumSmall v) = sint v * unit_scale"
| "number_units (NumBig v) = v * unit_scale"
| "number_units (NumFloat x) = f64_units x"

lemma ord_reverse_int_cmp [simp]: "ord_reverse (int_cmp a b) = int_cmp b a"
  by (auto simp: int_cmp_def)

lemma int_cmp_eq_iff [simp]: "int_cmp a b = OrdEqual \<longleftrightarrow> a = b"
  by (auto simp: int_cmp_def)

lemma int_cmp_scale [simp]: "int_cmp (a * unit_scale) (b * unit_scale) = int_cmp a b"
  by (simp add: int_cmp_def)

lemma f64_finite_eq_iff:
  "f64_is_finite x \<Longrightarrow> f64_is_finite y \<Longrightarrow> f64_eq x y \<longleftrightarrow> f64_units x = f64_units y"
  using f64_nan_not_finite by (auto simp: f64_eq_def)

lemma f64_finite_lt_iff:
  "f64_is_finite x \<Longrightarrow> f64_is_finite y \<Longrightarrow> f64_lt x y \<longleftrightarrow> f64_units x < f64_units y"
  using f64_nan_not_finite by (auto simp: f64_lt_def)

lemma f64_partial_cmp_finite:
  "f64_is_finite x \<Longrightarrow> f64_is_finite y \<Longrightarrow> f64_partial_cmp x y = Some (int_cmp (f64_units x) (f64_units y))"
  by (simp add: f64_partial_cmp_def f64_finite_eq_iff f64_finite_lt_iff int_cmp_def)

lemma f64_infinity_props [simp]:
  "\<not> f64_is_finite f64_infinity" "\<not> f64_is_finite f64_neg_infinity"
  by (simp_all add: f64_is_finite_def f64_exponent_def f64_infinity_def f64_neg_infinity_def)

lemma f64_finite_not_eq: "f64_is_finite x \<Longrightarrow> \<not> f64_is_finite y \<Longrightarrow> \<not> f64_eq x y"
  by (auto simp: f64_eq_def)

lemma integer_float_equal_exact:
  assumes "numlib_truncates L"
  shows "integer_float_equal L n x \<longleftrightarrow> f64_is_finite x \<and> n * unit_scale = f64_units x"
  using assms by (auto simp: integer_float_equal_def numlib_truncates_def int_eq_units)

lemma compare_integer_float_exact:
  assumes "numlib_truncates L" and "f64_is_finite x"
  shows "compare_integer_float L n x = Inr (int_cmp (n * unit_scale) (f64_units x))"
proof -
  have trunc: "nl_from_f64 L x = Some (f64_trunc x)" using assms by (simp add: numlib_truncates_def)
  have "\<not> f64_is_nan x" using assms(2) f64_nan_not_finite by blast
  moreover have "\<not> f64_eq x f64_infinity" "\<not> f64_eq x f64_neg_infinity"
    using assms(2) f64_finite_not_eq by simp_all
  moreover consider "n < f64_trunc x" | "n = f64_trunc x" | "f64_trunc x < n" by linarith
  ultimately show ?thesis
    by cases (auto simp: compare_integer_float_def trunc int_cmp_def int_less_units int_eq_units)
qed

lemma compare_numbers_units:
  assumes "numlib_truncates L" and "number_finite a" and "number_finite b"
  shows "compare_numbers L a b = Inr (int_cmp (number_units a) (number_units b))"
  using assms
  by (cases a; cases b)
     (auto simp: compare_integer_float_exact f64_partial_cmp_finite)

text \<open>
  The exact order of all numbers that are not NaN: infinities are outside every finite number.
\<close>

fun number_is_nan :: "number \<Rightarrow> bool" where
  "number_is_nan (NumFloat x) = f64_is_nan x"
| "number_is_nan _ = False"

fun number_rank :: "number \<Rightarrow> int" where
  "number_rank (NumFloat x) = (if f64_is_finite x then 0 else if f64_sign x then - 1 else 1)"
| "number_rank _ = 0"

definition exact_order :: "number \<Rightarrow> number \<Rightarrow> ordering" where
  "exact_order a b =
     (if number_rank a = 0 \<and> number_rank b = 0 then int_cmp (number_units a) (number_units b)
      else int_cmp (number_rank a) (number_rank b))"

lemma number_finite_rank: "number_rank a = 0 \<longleftrightarrow> number_finite a"
  by (cases a) auto

lemma f64_pattern:
  fixes x :: f64
  shows "unat x = (if f64_sign x then 2 ^ 63 else 0) + f64_exponent x * 2 ^ 52 + f64_fraction x"
proof -
  have lt: "unat x < 2 ^ 64" using unsigned_less [of x] by simp
  have split: "unat x div 2 ^ 52 = 2 ^ 11 * (unat x div 2 ^ 63) + f64_exponent x"
    using mult_div_mod_eq [of "2 ^ 11" "unat x div 2 ^ 52"]
    by (simp add: f64_exponent_def div_mult2_eq [symmetric])
  have top: "unat x div 2 ^ 63 = (if f64_sign x then 1 else 0)"
    using lt by (simp add: f64_sign_def div_nat_eqI)
  have "unat x = 2 ^ 52 * (unat x div 2 ^ 52) + f64_fraction x"
    by (simp add: f64_fraction_def)
  then show ?thesis unfolding split top by simp
qed

lemma f64_infinite_cases:
  assumes "\<not> f64_is_finite x" and "\<not> f64_is_nan x"
  shows "x = (if f64_sign x then f64_neg_infinity else f64_infinity)"
proof -
  have "unat x = (if f64_sign x then 2 ^ 63 else 0) + 2047 * 2 ^ 52"
    using assms f64_pattern [of x] by (simp add: f64_is_finite_def f64_is_nan_def)
  then have "unat x = unat (if f64_sign x then f64_neg_infinity else f64_infinity)"
    by (simp add: f64_neg_infinity_def f64_infinity_def)
  then show ?thesis by (simp only: unsigned_word_eqI)
qed

lemma f64_infinity_sign [simp]: "\<not> f64_sign f64_infinity" "f64_sign f64_neg_infinity"
  by (simp_all add: f64_sign_def f64_infinity_def f64_neg_infinity_def)

lemma f64_infinity_nan [simp]: "\<not> f64_is_nan f64_infinity" "\<not> f64_is_nan f64_neg_infinity"
  by (simp_all add: f64_is_nan_def f64_fraction_def f64_exponent_def f64_infinity_def
      f64_neg_infinity_def)

lemma f64_infinity_distinct [simp]: "f64_neg_infinity \<noteq> f64_infinity" "f64_infinity \<noteq> f64_neg_infinity"
  by (simp_all add: f64_infinity_def f64_neg_infinity_def)

lemma compare_integer_infinite:
  assumes "\<not> f64_is_finite x" and "\<not> f64_is_nan x"
  shows "compare_integer_float L n x = Inr (if f64_sign x then OrdGreater else OrdLess)"
  using f64_infinite_cases [OF assms] assms
  by (cases "f64_sign x") (auto simp: compare_integer_float_def f64_eq_def)

lemma f64_partial_cmp_rank:
  assumes "\<not> f64_is_nan x" and "\<not> f64_is_nan y" and "\<not> (f64_is_finite x \<and> f64_is_finite y)"
  shows "f64_partial_cmp x y = Some (int_cmp (number_rank (NumFloat x)) (number_rank (NumFloat y)))"
  using assms f64_infinite_cases [of x] f64_infinite_cases [of y]
  by (cases "f64_sign x"; cases "f64_sign y")
     (auto simp: f64_partial_cmp_def f64_lt_def f64_eq_def int_cmp_def)

lemma compare_numbers_nan:
  assumes "number_is_nan a \<or> number_is_nan b"
  shows "compare_numbers L a b = Inl (Msg ''NaN is not orderable'')"
  using assms
  by (cases a; cases b)
     (auto simp: compare_integer_float_def f64_partial_cmp_def f64_lt_def f64_eq_def)

lemma compare_numbers_total:
  assumes "numlib_truncates L" and "\<not> number_is_nan a" and "\<not> number_is_nan b"
  shows "compare_numbers L a b = Inr (exact_order a b)"
proof (cases "number_finite a \<and> number_finite b")
  case True
  then show ?thesis
    using compare_numbers_units [OF assms(1)] by (simp add: exact_order_def number_finite_rank)
next
  case False
  then show ?thesis
    using assms(2,3)
    by (cases a; cases b)
       (simp_all add: exact_order_def f64_partial_cmp_rank compare_integer_infinite int_cmp_def)
qed

text \<open>
  C8. Ordering numbers is exact: for any mix of small integers, big integers and floats the answer
  is the order of their exact values, infinities included, with no operand rounded to a float
  first; and it is the error \<open>NaN is not orderable\<close> exactly when an operand is NaN.
\<close>

theorem compare_numbers_exact:
  assumes "numlib_truncates L"
  shows "compare_numbers L a b =
    (if number_is_nan a \<or> number_is_nan b then Inl (Msg ''NaN is not orderable'')
     else Inr (exact_order a b))"
  using compare_numbers_total [OF assms] compare_numbers_nan by auto

theorem compare_numbers_exact_witness:
  "compare_numbers sample_numlib (NumBig (2 ^ 53 + 1)) (NumFloat 0x4340000000000000) = Inr OrdGreater"
proof -
  have "f64_is_finite 0x4340000000000000" by (simp add: f64_is_finite_def f64_exponent_def)
  moreover have "\<not> f64_is_nan 0x4340000000000000" by (simp add: f64_is_nan_def f64_exponent_def)
  moreover have "f64_units 0x4340000000000000 = 2 ^ 53 * unit_scale"
    by (simp add: f64_units_def f64_magnitude_def f64_exponent_def f64_fraction_def f64_sign_def
        unit_scale_def)
  ultimately show ?thesis
    unfolding compare_numbers_exact [OF sample_numlib_truncates]
    by (simp only: exact_order_def number_rank.simps number_is_nan.simps number_units.simps
        int_cmp_scale) (simp add: int_cmp_def)
qed

end
