(* ===== verification/Equality.thy ===== *)
theory Equality
  imports Numeric_Semantics
begin

text \<open>
  Equality and hashability of guest values (\<open>wvm/equality.rs\<close>). The comparison of containers
  keeps the set of handle pairs it is inside of, so that cyclic containers compare; the set is
  restored on every path of \<open>with_visited_pair\<close>, so the model passes it down only. The fuel of
  \<open>values_equal_with\<close> bounds the nesting of container comparisons: \<open>values_equal_terminates\<close>
  shows that the square of the number of heap slots is always enough.
\<close>

section \<open>Operations\<close>

text \<open>The search for an entry whose key is equal; comparison errors stop it.\<close>

fun find_key_with ::
  "(wvalue \<Rightarrow> wvalue \<Rightarrow> vm_error + bool) \<Rightarrow> (wvalue \<times> wvalue) list \<Rightarrow> wvalue \<Rightarrow> vm_error + nat option" where
  "find_key_with eq [] key = Inr None"
| "find_key_with eq ((other, _) # entries) key =
     and_then (eq other key) (\<lambda>b.
       if b then Inr (Some 0) else map_ok (map_option Suc) (find_key_with eq entries key))"

definition sequence_equal ::
  "(wvalue \<Rightarrow> wvalue \<Rightarrow> vm_error + bool) \<Rightarrow> sequence_object \<Rightarrow> sequence_object \<Rightarrow> vm_error + bool" where
  "sequence_equal eq lhs rhs =
     (if seq_len lhs \<noteq> seq_len rhs then Inr False
      else all_equal eq (seq_to_vec lhs) (seq_to_vec rhs))"

fun dict_entries_equal ::
  "(wvalue \<Rightarrow> wvalue \<Rightarrow> vm_error + bool) \<Rightarrow> (wvalue \<times> wvalue) list \<Rightarrow> (wvalue \<times> wvalue) list
    \<Rightarrow> vm_error + bool" where
  "dict_entries_equal eq [] rhs = Inr True"
| "dict_entries_equal eq ((key, v) # lhs) rhs =
     and_then (find_key_with eq rhs key) (\<lambda>found.
       case found of
         None \<Rightarrow> Inr False
       | Some i \<Rightarrow> and_then (eq v (snd (rhs ! i))) (\<lambda>b.
           if b then dict_entries_equal eq lhs rhs else Inr False))"

definition dict_equal ::
  "(wvalue \<Rightarrow> wvalue \<Rightarrow> vm_error + bool) \<Rightarrow> (wvalue \<times> wvalue) list \<Rightarrow> (wvalue \<times> wvalue) list
    \<Rightarrow> vm_error + bool" where
  "dict_equal eq lhs rhs =
     (if length lhs \<noteq> length rhs then Inr False else dict_entries_equal eq lhs rhs)"

definition visited :: "(object_ref \<times> object_ref) set \<Rightarrow> object_ref \<Rightarrow> object_ref \<Rightarrow> bool" where
  "visited visiting a b \<longleftrightarrow> (a, b) \<in> visiting \<or> (b, a) \<in> visiting"

definition big_int_equal :: "object_heap \<Rightarrow> object_ref \<Rightarrow> (int \<Rightarrow> bool) \<Rightarrow> vm_error + bool" where
  "big_int_equal h r p =
     (case heap_get h r of
        Inl e \<Rightarrow> Inl (HeapError e)
      | Inr (BigIntObject n) \<Rightarrow> Inr (p n)
      | Inr _ \<Rightarrow> Inr False)"

text \<open>
  What two objects are compared by: at once, or through their elements or entries. The value
  comparison below runs the container comparisons inside \<open>with_visited_pair\<close>.
\<close>

datatype comparison =
    Decided "vm_error + bool"
  | Elementwise sequence_object sequence_object
  | Entrywise "(wvalue \<times> wvalue) list" "(wvalue \<times> wvalue) list"

definition object_comparison :: "object_heap \<Rightarrow> object_ref \<Rightarrow> object_ref \<Rightarrow> comparison" where
  "object_comparison h a b =
     (case heap_get h a of
        Inl e \<Rightarrow> Decided (Inl (HeapError e))
      | Inr x \<Rightarrow>
          (case heap_get h b of
             Inl e \<Rightarrow> Decided (Inl (HeapError e))
           | Inr y \<Rightarrow>
               (case (x, y) of
                  (StringObject s, StringObject t) \<Rightarrow> Decided (Inr (s = t))
                | (BigIntObject s, BigIntObject t) \<Rightarrow> Decided (Inr (s = t))
                | (TupleObject s, TupleObject t) \<Rightarrow> Elementwise s t
                | (ListObject s, ListObject t) \<Rightarrow> Elementwise s t
                | (DictObject s, DictObject t) \<Rightarrow> Entrywise s t
                | (FunctionObject s, FunctionObject t) \<Rightarrow> Decided (Inr (exec_id s = exec_id t))
                | _ \<Rightarrow> Decided (Inr False))))"

fun values_equal_with ::
  "nat \<Rightarrow> numlib \<Rightarrow> object_heap \<Rightarrow> (object_ref \<times> object_ref) set \<Rightarrow> wvalue \<Rightarrow> wvalue
    \<Rightarrow> vm_error + bool" where
  "values_equal_with n L h visiting lhs rhs =
     (case (lhs, rhs) of
        (SmallInt a, SmallInt b) \<Rightarrow> Inr (a = b)
      | (Float a, Float b) \<Rightarrow> Inr (f64_eq a b)
      | (SmallInt a, Float b) \<Rightarrow> Inr (integer_float_equal L (sint a) b)
      | (Float a, SmallInt b) \<Rightarrow> Inr (integer_float_equal L (sint b) a)
      | (Bool a, Bool b) \<Rightarrow> Inr (a = b)
      | (ObjectValue a, ObjectValue b) \<Rightarrow>
          if a = b then map_err HeapError (map_ok (\<lambda>_. True) (heap_get h a))
          else
            (case object_comparison h a b of
               Decided result \<Rightarrow> result
             | Elementwise s t \<Rightarrow>
                 if visited visiting a b then Inr True
                 else (case n of
                         0 \<Rightarrow> Inl Diverges
                       | Suc m \<Rightarrow> sequence_equal (values_equal_with m L h (insert (a, b) visiting)) s t)
             | Entrywise s t \<Rightarrow>
                 if visited visiting a b then Inr True
                 else (case n of
                         0 \<Rightarrow> Inl Diverges
                       | Suc m \<Rightarrow> dict_equal (values_equal_with m L h (insert (a, b) visiting)) s t))
      | (SmallInt a, ObjectValue b) \<Rightarrow> big_int_equal h b (\<lambda>m. m = sint a)
      | (ObjectValue a, SmallInt b) \<Rightarrow> big_int_equal h a (\<lambda>m. m = sint b)
      | (Float a, ObjectValue b) \<Rightarrow> big_int_equal h b (\<lambda>m. integer_float_equal L m a)
      | (ObjectValue a, Float b) \<Rightarrow> big_int_equal h a (\<lambda>m. integer_float_equal L m b)
      | (Uninitialized, Uninitialized) \<Rightarrow> Inr True
      | _ \<Rightarrow> Inr False)"

declare values_equal_with.simps [simp del]

definition equality_fuel :: "object_heap \<Rightarrow> nat" where
  "equality_fuel h = length (slots h) * length (slots h)"

definition values_equal :: "numlib \<Rightarrow> object_heap \<Rightarrow> wvalue \<Rightarrow> wvalue \<Rightarrow> vm_error + bool" where
  "values_equal L h = values_equal_with (equality_fuel h) L h {}"

definition find_key ::
  "numlib \<Rightarrow> object_heap \<Rightarrow> (wvalue \<times> wvalue) list \<Rightarrow> wvalue \<Rightarrow> vm_error + nat option" where
  "find_key L h = find_key_with (values_equal L h)"

text \<open>
  Hashability descends through tuples, as the heap's own check does; the fuel is the number of
  slots, which only a cyclic chain of tuples exhausts.
\<close>

fun ensure_hashable_with :: "nat \<Rightarrow> object_heap \<Rightarrow> wvalue \<Rightarrow> vm_error + unit" where
  "ensure_hashable_with n h Uninitialized = Inl (Msg ''uninitialized value is not hashable'')"
| "ensure_hashable_with n h (ObjectValue r) =
     (case heap_get h r of
        Inl e \<Rightarrow> Inl (HeapError e)
      | Inr (TupleObject vs) \<Rightarrow>
          (case n of
             0 \<Rightarrow> Inl Diverges
           | Suc m \<Rightarrow> try_all (ensure_hashable_with m h) (seq_to_vec vs))
      | Inr (ListObject _) \<Rightarrow> Inl (Msg ''list and dict values are not hashable'')
      | Inr (DictObject _) \<Rightarrow> Inl (Msg ''list and dict values are not hashable'')
      | Inr _ \<Rightarrow> Inr ())"
| "ensure_hashable_with n h _ = Inr ()"

definition ensure_hashable :: "object_heap \<Rightarrow> wvalue \<Rightarrow> vm_error + unit" where
  "ensure_hashable h = ensure_hashable_with (length (slots h)) h"

section \<open>Termination\<close>

text \<open>A live handle is determined by its slot, so a heap of \<open>n\<close> slots has at most \<open>n\<close> of them.\<close>

definition live_refs :: "object_heap \<Rightarrow> object_ref set" where
  "live_refs h = {r. \<exists>x. heap_get h r = Inr x}"

lemma heap_get_Inr_slot:
  assumes "heap_get h r = Inr x"
  shows "ref_heap_id r = heap_id h \<and> unat (ref_slot r) < length (slots h)
    \<and> ref_generation r = slot_generation (slots h ! unat (ref_slot r))"
  using assms
  by (auto simp: heap_get_def live_slot_def validate_heap_def validate_generation_def slot_at_def
      and_then_Inr_iff split: if_splits)

lemma live_refs_slot_inj: "inj_on (\<lambda>r. unat (ref_slot r)) (live_refs h)"
proof (rule inj_onI)
  fix r q
  assume "r \<in> live_refs h" "q \<in> live_refs h" "unat (ref_slot r) = unat (ref_slot q)"
  then show "r = q"
    using heap_get_Inr_slot [of h r] heap_get_Inr_slot [of h q]
    by (auto simp: live_refs_def unsigned_word_eqI intro!: object_ref.equality)
qed

lemma live_refs_slots: "(\<lambda>r. unat (ref_slot r)) ` live_refs h \<subseteq> {..<length (slots h)}"
  using heap_get_Inr_slot by (fastforce simp: live_refs_def)

lemma finite_live_refs [simp]: "finite (live_refs h)"
  using finite_subset [OF live_refs_slots] live_refs_slot_inj by (blast intro: finite_imageD)

lemma card_live_refs: "card (live_refs h) \<le> length (slots h)"
  using card_inj_on_le [OF live_refs_slot_inj live_refs_slots] by simp

lemma all_equal_error:
  "all_equal eq xs ys = Inl e \<Longrightarrow> \<exists>x y. eq x y = Inl e"
  by (induction eq xs ys rule: all_equal.induct) (auto 4 4 simp: and_then_Inl_iff split: if_splits)

lemma find_key_error: "find_key_with eq es k = Inl e \<Longrightarrow> \<exists>x y. eq x y = Inl e"
  by (induction es) (auto simp: and_then_Inl_iff split: if_splits, metis)

lemma dict_entries_error: "dict_entries_equal eq es fs = Inl e \<Longrightarrow> \<exists>x y. eq x y = Inl e"
  by (induction es)
     (auto simp: and_then_Inl_iff dest!: find_key_error split: if_splits option.splits, metis)

lemma object_comparison_live:
  assumes "object_comparison h a b = Elementwise s t \<or> object_comparison h a b = Entrywise es fs"
  shows "a \<in> live_refs h \<and> b \<in> live_refs h"
  using assms by (auto simp: object_comparison_def live_refs_def split: sum.splits)

lemma object_comparison_Diverges [simp]: "object_comparison h a b \<noteq> Decided (Inl Diverges)"
  by (auto simp: object_comparison_def split: sum.splits object.splits)

lemma big_int_equal_Diverges [simp]: "big_int_equal h r p \<noteq> Inl Diverges"
  by (auto simp: big_int_equal_def split: sum.splits object.splits)

lemma values_equal_with_terminates:
  assumes "card (live_refs h \<times> live_refs h - visiting) \<le> n"
  shows "values_equal_with n L h visiting lhs rhs \<noteq> Inl Diverges"
  using assms
proof (induction n arbitrary: visiting lhs rhs)
  case (0 visiting)
  then have none: "live_refs h \<times> live_refs h \<subseteq> visiting" by simp
  have "visited visiting a b"
    if "object_comparison h a b = Elementwise s t \<or> object_comparison h a b = Entrywise es fs"
    for a b s t es fs
    using object_comparison_live [OF that] none by (auto simp: visited_def)
  then show ?case
    by (subst values_equal_with.simps)
       (auto simp: map_err_Inl_iff split: wvalue.splits comparison.splits)
next
  case (Suc n visiting)
  have inner: "values_equal_with n L h (insert (a, b) visiting) x y \<noteq> Inl Diverges"
    if "object_comparison h a b = Elementwise s t \<or> object_comparison h a b = Entrywise es fs"
      and "\<not> visited visiting a b" for a b s t es fs x y
  proof -
    have "(a, b) \<in> live_refs h \<times> live_refs h - visiting"
      using object_comparison_live [OF that(1)] that(2) by (auto simp: visited_def)
    then have "card (live_refs h \<times> live_refs h - insert (a, b) visiting)
        < card (live_refs h \<times> live_refs h - visiting)"
      by (intro psubset_card_mono) auto
    then show ?thesis using Suc.IH Suc.prems by simp
  qed
  show ?case
    using inner
    by (subst values_equal_with.simps)
       (auto simp: map_err_Inl_iff sequence_equal_def dict_equal_def
         dest: all_equal_error dict_entries_error split: wvalue.splits comparison.splits)
qed

text \<open>
  C12. Comparing two values always ends, on any heap: cyclic lists, tuples and dictionaries
  included, the comparison never nests deeper than the square of the number of heap slots.
\<close>

theorem values_equal_terminates: "values_equal L h lhs rhs \<noteq> Inl Diverges"
proof -
  have "card (live_refs h \<times> live_refs h - {}) \<le> equality_fuel h"
    using mult_le_mono [OF card_live_refs card_live_refs]
    by (simp add: card_cartesian_product equality_fuel_def)
  then show ?thesis unfolding values_equal_def by (rule values_equal_with_terminates)
qed

section \<open>Soundness\<close>

text \<open>
  What equality means, without the machinery of visited pairs: two values are equal when they are
  the same live object, equal numbers, booleans, texts or the same function, or containers of one
  kind whose elements (or entries, looked up by key) are equal in turn; coinductively, since
  containers may be cyclic. \<open>pending\<close> holds pairs taken as equal; it is empty in the statement.
\<close>

definition guest_number :: "object_heap \<Rightarrow> wvalue \<Rightarrow> number option" where
  "guest_number h v =
     (case v of
        SmallInt n \<Rightarrow> Some (NumSmall n)
      | Float x \<Rightarrow> Some (NumFloat x)
      | ObjectValue r \<Rightarrow> (case heap_get h r of Inr (BigIntObject n) \<Rightarrow> Some (NumBig n) | _ \<Rightarrow> None)
      | _ \<Rightarrow> None)"

definition exactly_equal :: "number \<Rightarrow> number \<Rightarrow> bool" where
  "exactly_equal m n \<longleftrightarrow> \<not> number_is_nan m \<and> \<not> number_is_nan n \<and> exact_order m n = OrdEqual"

text \<open>Values that are equal at once, without looking into containers.\<close>

inductive atom_equal :: "object_heap \<Rightarrow> wvalue \<Rightarrow> wvalue \<Rightarrow> bool" for h where
  atom_same: "heap_get h r = Inr x \<Longrightarrow> atom_equal h (ObjectValue r) (ObjectValue r)"
| atom_number: "guest_number h v = Some m \<Longrightarrow> guest_number h w = Some n \<Longrightarrow> exactly_equal m n
    \<Longrightarrow> atom_equal h v w"
| atom_bool: "atom_equal h (Bool b) (Bool b)"
| atom_uninitialized: "atom_equal h Uninitialized Uninitialized"
| atom_string: "heap_get h a = Inr (StringObject s) \<Longrightarrow> heap_get h b = Inr (StringObject s)
    \<Longrightarrow> atom_equal h (ObjectValue a) (ObjectValue b)"
| atom_function: "heap_get h a = Inr (FunctionObject f) \<Longrightarrow> heap_get h b = Inr (FunctionObject g)
    \<Longrightarrow> exec_id f = exec_id g \<Longrightarrow> atom_equal h (ObjectValue a) (ObjectValue b)"

text \<open>Two containers of one kind, with their members related.\<close>

definition container_step ::
  "object_heap \<Rightarrow> (wvalue \<Rightarrow> wvalue \<Rightarrow> bool) \<Rightarrow> object_ref \<Rightarrow> object_ref \<Rightarrow> bool" where
  "container_step h R a b \<longleftrightarrow>
     (case object_comparison h a b of
        Decided _ \<Rightarrow> False
      | Elementwise s t \<Rightarrow> list_all2 R (seq_to_vec s) (seq_to_vec t)
      | Entrywise es fs \<Rightarrow> length es = length fs \<and>
          (\<forall>(k, x) \<in> set es. \<exists>(k', y) \<in> set fs. R k' k \<and> R x y))"

lemma container_step_mono [mono]: "R \<le> S \<Longrightarrow> container_step h R a b \<longrightarrow> container_step h S a b"
  by (fastforce simp: container_step_def le_fun_def elim: list_all2_mono split: comparison.splits)

coinductive guest_equal ::
  "object_heap \<Rightarrow> (object_ref \<times> object_ref) set \<Rightarrow> wvalue \<Rightarrow> wvalue \<Rightarrow> bool"
  for h pending where
  eq_pending: "visited pending a b \<Longrightarrow> guest_equal h pending (ObjectValue a) (ObjectValue b)"
| eq_atom: "atom_equal h v w \<Longrightarrow> guest_equal h pending v w"
| eq_container: "container_step h (guest_equal h pending) a b \<or> container_step h (guest_equal h pending) b a
    \<Longrightarrow> guest_equal h pending (ObjectValue a) (ObjectValue b)"

text \<open>A pair taken as equal is discharged by the comparison that was made under it.\<close>

lemma guest_equal_discharge:
  assumes step: "container_step h (guest_equal h (insert (a, b) pending)) a b"
    and v: "guest_equal h (insert (a, b) pending) v w"
  shows "guest_equal h pending v w"
  using v
proof (coinduction arbitrary: v w)
  case guest_equal
  let ?X = "\<lambda>x y. (\<exists>v w. x = v \<and> y = w \<and> guest_equal h (insert (a, b) pending) v w)
    \<or> guest_equal h pending x y"
  have mono: "container_step h ?X p q" if "container_step h (guest_equal h (insert (a, b) pending)) p q" for p q
    using that container_step_mono [of "guest_equal h (insert (a, b) pending)" ?X] by (auto simp: le_fun_def)
  from guest_equal show ?case
  proof cases
    case (eq_pending p q)
    then have "visited pending p q \<or> (p = a \<and> q = b) \<or> (p = b \<and> q = a)"
      by (auto simp: visited_def)
    then show ?thesis using eq_pending(1,2) mono [OF step] by auto
  next
    case (eq_container p q)
    then show ?thesis using mono by blast
  qed simp
qed

lemma all_equal_True:
  "all_equal eq xs ys = Inr True \<Longrightarrow> length xs = length ys \<Longrightarrow> list_all2 (\<lambda>x y. eq x y = Inr True) xs ys"
  by (induction eq xs ys rule: all_equal.induct) (auto simp: and_then_Inr_iff split: if_splits)

lemma find_key_Some:
  "find_key_with eq es k = Inr (Some i) \<Longrightarrow> i < length es \<and> eq (fst (es ! i)) k = Inr True"
proof (induction es arbitrary: i)
  case (Cons e es)
  obtain c x b where e: "e = (c, x)" and b: "eq c k = Inr b"
    using Cons.prems by (cases e) (auto simp: and_then_Inr_iff)
  show ?case
  proof (cases b)
    case False
    with Cons.prems obtain j where "find_key_with eq es k = Inr (Some j)" and "i = Suc j"
      by (auto simp: e b map_ok_Inr_iff eq_commute [of "Some _" "map_option _ _"])
    then show ?thesis using Cons.IH [of j] by (simp add: e)
  qed (use Cons.prems b in \<open>auto simp: e\<close>)
qed simp

lemma dict_entries_True:
  "dict_entries_equal eq es fs = Inr True \<Longrightarrow>
     \<forall>(k, x) \<in> set es. \<exists>(k', y) \<in> set fs. eq k' k = Inr True \<and> eq x y = Inr True"
proof (induction es)
  case (Cons e es)
  obtain k x where e: "e = (k, x)" by (cases e)
  from Cons.prems obtain i where i: "find_key_with eq fs k = Inr (Some i)"
    and x: "eq x (snd (fs ! i)) = Inr True" and rest: "dict_entries_equal eq es fs = Inr True"
    by (auto simp: e and_then_Inr_iff split: option.splits if_splits)
  have "fs ! i \<in> set fs" "eq (fst (fs ! i)) k = Inr True" using find_key_Some [OF i] by auto
  then have "\<exists>(k', y) \<in> set fs. eq k' k = Inr True \<and> eq x y = Inr True"
    using x by (intro bexI [of _ "fs ! i"]) (auto simp: case_prod_beta)
  then show ?case using Cons.IH [OF rest] by (simp add: e)
qed simp

lemma exactly_equal_iffs [simp]:
  "exactly_equal (NumSmall a) (NumSmall b) \<longleftrightarrow> a = b"
  "exactly_equal (NumBig m) (NumBig n) \<longleftrightarrow> m = n"
  "exactly_equal (NumSmall a) (NumBig n) \<longleftrightarrow> sint a = n"
  "exactly_equal (NumBig n) (NumSmall a) \<longleftrightarrow> n = sint a"
  by (auto simp: exactly_equal_def exact_order_def signed_word_eqI)

lemma exactly_equal_int_float:
  assumes "numlib_truncates L" and "integer_float_equal L n x"
  shows "exactly_equal (NumBig n) (NumFloat x)" "exactly_equal (NumFloat x) (NumBig n)"
  using assms f64_nan_not_finite
  by (auto simp: integer_float_equal_exact exactly_equal_def exact_order_def)

lemma exactly_equal_small_float:
  assumes "numlib_truncates L" and "integer_float_equal L (sint a) x"
  shows "exactly_equal (NumSmall a) (NumFloat x)" "exactly_equal (NumFloat x) (NumSmall a)"
  using assms f64_nan_not_finite
  by (auto simp: integer_float_equal_exact exactly_equal_def exact_order_def)

lemma exactly_equal_floats: "f64_eq x y \<Longrightarrow> exactly_equal (NumFloat x) (NumFloat y)"
  by (auto simp: f64_eq_def exactly_equal_def exact_order_def split: if_splits)

lemmas exactly_equal_intros = exactly_equal_int_float exactly_equal_small_float

lemma guest_number_simps [simp]:
  "guest_number h (SmallInt n) = Some (NumSmall n)"
  "guest_number h (Float x) = Some (NumFloat x)"
  "heap_get h r = Inr (BigIntObject m) \<Longrightarrow> guest_number h (ObjectValue r) = Some (NumBig m)"
  by (simp_all add: guest_number_def)

lemma big_int_equal_True:
  "big_int_equal h r p = Inr True \<Longrightarrow> \<exists>n. heap_get h r = Inr (BigIntObject n) \<and> p n"
  by (auto simp: big_int_equal_def split: sum.splits object.splits)

lemma object_comparison_True:
  assumes "object_comparison h a b = Decided (Inr True)"
  shows "atom_equal h (ObjectValue a) (ObjectValue b)"
  using assms
  by (auto simp: object_comparison_def intro: atom_equal.intros split: sum.splits object.splits)

lemma container_step_from_True:
  assumes "\<And>x y. eq x y = Inr True \<Longrightarrow> R x y"
    and "object_comparison h a b = Elementwise s t \<and> sequence_equal eq s t = Inr True
      \<or> object_comparison h a b = Entrywise es fs \<and> dict_equal eq es fs = Inr True"
  shows "container_step h R a b"
  using assms(2)
proof (elim disjE conjE)
  assume "object_comparison h a b = Elementwise s t" "sequence_equal eq s t = Inr True"
  then show ?thesis
    using all_equal_True [of eq "seq_to_vec s" "seq_to_vec t"] assms(1)
    by (auto simp: container_step_def sequence_equal_def seq_len_vec elim: list_all2_mono split: if_splits)
next
  assume "object_comparison h a b = Entrywise es fs" "dict_equal eq es fs = Inr True"
  then show ?thesis
    using dict_entries_True [of eq es fs] assms(1)
    by (fastforce simp: container_step_def dict_equal_def split: if_splits)
qed

lemma guest_equal_number:
  assumes "guest_number h v \<noteq> None" and "guest_number h w \<noteq> None"
    and "exactly_equal (the (guest_number h v)) (the (guest_number h w))"
  shows "guest_equal h pending v w"
  using assms by (metis eq_atom atom_number option.exhaust_sel)

lemma guest_equal_floats:
  assumes "numlib_truncates L"
  shows "integer_float_equal L (sint a) x \<Longrightarrow> guest_equal h pending (SmallInt a) (Float x)"
    and "integer_float_equal L (sint a) x \<Longrightarrow> guest_equal h pending (Float x) (SmallInt a)"
    and "f64_eq x y \<Longrightarrow> guest_equal h pending (Float x) (Float y)"
    and "heap_get h r = Inr (BigIntObject n) \<Longrightarrow> integer_float_equal L n x
      \<Longrightarrow> guest_equal h pending (Float x) (ObjectValue r)"
    and "heap_get h r = Inr (BigIntObject n) \<Longrightarrow> integer_float_equal L n x
      \<Longrightarrow> guest_equal h pending (ObjectValue r) (Float x)"
  using exactly_equal_intros [OF assms] exactly_equal_floats
  by (auto intro!: guest_equal_number)

lemma values_equal_with_sound:
  assumes L: "numlib_truncates L" and "values_equal_with n L h pending v w = Inr True"
  shows "guest_equal h pending v w"
  using assms(2)
proof (induction n arbitrary: pending v w)
  case (0 pending v w)
  then show ?case
    by (subst (asm) values_equal_with.simps)
       (auto simp: map_ok_Inr_iff split: wvalue.splits comparison.splits if_splits
         dest!: big_int_equal_True object_comparison_True
         intro: guest_equal_number eq_pending eq_atom atom_same atom_bool atom_uninitialized
           guest_equal_floats [OF L])
next
  case (Suc n pending v w)
  have container: "guest_equal h pending (ObjectValue a) (ObjectValue b)"
    if "object_comparison h a b = Elementwise s t
          \<and> sequence_equal (values_equal_with n L h (insert (a, b) pending)) s t = Inr True
        \<or> object_comparison h a b = Entrywise es fs
          \<and> dict_equal (values_equal_with n L h (insert (a, b) pending)) es fs = Inr True"
    for a b s t es fs
  proof -
    have "container_step h (guest_equal h (insert (a, b) pending)) a b"
      using container_step_from_True [OF _ that, of "guest_equal h (insert (a, b) pending)"] Suc.IH
      by blast
    then show ?thesis
      by (rule guest_equal_discharge) (simp add: eq_pending visited_def)
  qed
  from Suc.prems show ?case
    by (subst (asm) values_equal_with.simps)
       (auto simp: map_ok_Inr_iff split: wvalue.splits comparison.splits if_splits
         dest!: big_int_equal_True object_comparison_True
         intro: container guest_equal_number eq_pending eq_atom atom_same atom_bool
           atom_uninitialized guest_equal_floats [OF L])
qed

text \<open>
  C3. Equality is sound on any heap, cyclic containers included: when two values compare equal they
  are the same live object, exactly equal numbers, the same boolean, text or function, or
  containers of one kind and length whose members are equal in turn, to any depth.
\<close>

theorem values_equal_sound:
  assumes "numlib_truncates L" and "values_equal L h v w = Inr True"
  shows "guest_equal h {} v w"
  using assms values_equal_with_sound unfolding values_equal_def by blast

theorem values_equal_sound_witness:
  "guest_equal (heap_new 0) {} (Float 0x4000000000000000) (SmallInt 2)"
proof -
  have "f64_is_finite 0x4000000000000000" by (simp add: f64_is_finite_def f64_exponent_def)
  moreover have "f64_units 0x4000000000000000 = 2 * unit_scale"
    by (simp add: f64_units_def f64_magnitude_def f64_exponent_def f64_fraction_def f64_sign_def
        unit_scale_def)
  ultimately have "integer_float_equal sample_numlib 2 0x4000000000000000"
    using integer_float_equal_exact [OF sample_numlib_truncates] by simp
  then have "values_equal sample_numlib (heap_new 0) (Float 0x4000000000000000) (SmallInt 2) = Inr True"
    by (simp add: values_equal_def values_equal_with.simps)
  then show ?thesis by (rule values_equal_sound [OF sample_numlib_truncates])
qed

section \<open>None\<close>

text \<open>
  The value comparison has no case for two \<open>None\<close> values, while the heap's comparison of
  dictionary keys has one: the two disagree.
\<close>

lemma none_differs_from_none:
  "values_equal L h ValueNone ValueNone = Inr False"
  "host_keys_equal L h ValueNone ValueNone = Inr True"
  by (simp_all add: values_equal_def values_equal_with.simps host_keys_equal_def host_keys_eq.simps)

lemma none_key_never_found: "find_key L h [(ValueNone, v)] ValueNone = Inr None"
  by (simp add: find_key_def none_differs_from_none)

end
