(* ===== verification/Arithmetic.thy ===== *)
theory Arithmetic
  imports Equality Heap_Laws Bytecode
begin

text \<open>
  Operators on guest values (\<open>wvm/arithmetic.rs\<close>, \<open>wvm/arithmetic/sequence.rs\<close>): binary,
  unary and comparison operators on small integers, heap integers and floats, with overflow of a
  small integer promoted to a heap integer, and concatenation and repetition of sequences. An
  operation answers the heap with its result. The memory that a repetition needs is taken as
  available.
\<close>

section \<open>Names in messages\<close>

fun object_name :: "object \<Rightarrow> string" where
  "object_name (StringObject _) = ''string''"
| "object_name (TupleObject _) = ''tuple''"
| "object_name (BigIntObject _) = ''BigInt''"
| "object_name (ListObject _) = ''list''"
| "object_name (DictObject _) = ''dict''"
| "object_name (FunctionObject _) = ''function''"
| "object_name (ClassObj _) = ''class''"
| "object_name (InstanceObj _) = ''instance''"
| "object_name (BoundMethodObj _) = ''bound method''"

fun value_name :: "object_heap \<Rightarrow> wvalue \<Rightarrow> string" where
  "value_name h (SmallInt _) = ''SmallInt''"
| "value_name h (Float _) = ''float''"
| "value_name h (Bool _) = ''bool''"
| "value_name h ValueNone = ''none''"
| "value_name h (ObjectValue r) =
     (case heap_get h r of Inl _ \<Rightarrow> ''invalid object'' | Inr obj \<Rightarrow> object_name obj)"
| "value_name h Uninitialized = ''uninitialized''"

section \<open>Operands and results\<close>

definition allocate_object ::
  "numlib \<Rightarrow> object_heap \<Rightarrow> object \<Rightarrow> object_heap \<times> (vm_error + wvalue)" where
  "allocate_object L h obj =
     apsnd (\<lambda>r. map_ok ObjectValue (map_err HeapError r)) (heap_allocate L h obj)"

definition allocate_big :: "numlib \<Rightarrow> object_heap \<Rightarrow> int \<Rightarrow> object_heap \<times> (vm_error + wvalue)" where
  "allocate_big L h n = allocate_object L h (BigIntObject n)"

definition number_optional :: "object_heap \<Rightarrow> wvalue \<Rightarrow> vm_error + number option" where
  "number_optional h v =
     (case v of
        SmallInt n \<Rightarrow> Inr (Some (NumSmall n))
      | Float x \<Rightarrow> Inr (Some (NumFloat x))
      | ObjectValue r \<Rightarrow>
          (case heap_get h r of
             Inl e \<Rightarrow> Inl (HeapError e)
           | Inr (BigIntObject n) \<Rightarrow> Inr (Some (NumBig n))
           | Inr _ \<Rightarrow> Inr None)
      | _ \<Rightarrow> Inr None)"

definition number_operand :: "object_heap \<Rightarrow> wvalue \<Rightarrow> vm_error + number" where
  "number_operand h v =
     and_then (number_optional h v) (\<lambda>n.
       ok_or n (Msg (''expected numeric value, found '' @ value_name h v)))"

section \<open>Arithmetic on numbers\<close>

definition smallint_add ::
  "numlib \<Rightarrow> object_heap \<Rightarrow> i64 \<Rightarrow> i64 \<Rightarrow> object_heap \<times> (vm_error + wvalue)" where
  "smallint_add L h a b =
     (case checked_add_i64 a b of
        Some v \<Rightarrow> (h, Inr (SmallInt v))
      | None \<Rightarrow> allocate_big L h (sint a + sint b))"

text \<open>The integer branch of an operator once a float operand or two small ones are ruled out.\<close>

definition big_operation ::
  "numlib \<Rightarrow> object_heap \<Rightarrow> (int \<Rightarrow> int \<Rightarrow> int) \<Rightarrow> number \<Rightarrow> number
    \<Rightarrow> object_heap \<times> (vm_error + wvalue)" where
  "big_operation L h f a b =
     (case and_then (number_to_big a) (\<lambda>m. and_then (number_to_big b) (\<lambda>n. Inr (f m n))) of
        Inl e \<Rightarrow> (h, Inl e)
      | Inr n \<Rightarrow> allocate_big L h n)"

fun add_numbers ::
  "numlib \<Rightarrow> object_heap \<Rightarrow> number \<Rightarrow> number \<Rightarrow> object_heap \<times> (vm_error + wvalue)" where
  "add_numbers L h (NumSmall a) (NumSmall b) = smallint_add L h a b"
| "add_numbers L h (NumFloat a) b =
     (h, map_ok (\<lambda>y. Float (f64_add a y)) (number_to_f64 L b))"
| "add_numbers L h a (NumFloat b) =
     (h, map_ok (\<lambda>x. Float (f64_add x b)) (number_to_f64 L a))"
| "add_numbers L h a b = big_operation L h (+) a b"

fun subtract_numbers ::
  "numlib \<Rightarrow> object_heap \<Rightarrow> number \<Rightarrow> number \<Rightarrow> object_heap \<times> (vm_error + wvalue)" where
  "subtract_numbers L h (NumSmall a) (NumSmall b) =
     (case checked_sub_i64 a b of
        Some v \<Rightarrow> (h, Inr (SmallInt v))
      | None \<Rightarrow> allocate_big L h (sint a - sint b))"
| "subtract_numbers L h (NumFloat a) b =
     (h, map_ok (\<lambda>y. Float (f64_sub a y)) (number_to_f64 L b))"
| "subtract_numbers L h a (NumFloat b) =
     (h, map_ok (\<lambda>x. Float (f64_sub x b)) (number_to_f64 L a))"
| "subtract_numbers L h a b = big_operation L h (-) a b"

fun multiply_numbers ::
  "numlib \<Rightarrow> object_heap \<Rightarrow> number \<Rightarrow> number \<Rightarrow> object_heap \<times> (vm_error + wvalue)" where
  "multiply_numbers L h (NumSmall a) (NumSmall b) =
     (case checked_mul_i64 a b of
        Some v \<Rightarrow> (h, Inr (SmallInt v))
      | None \<Rightarrow> allocate_big L h (sint a * sint b))"
| "multiply_numbers L h (NumFloat a) b =
     (h, map_ok (\<lambda>y. Float (f64_mul a y)) (number_to_f64 L b))"
| "multiply_numbers L h a (NumFloat b) =
     (h, map_ok (\<lambda>x. Float (f64_mul x b)) (number_to_f64 L a))"
| "multiply_numbers L h a b = big_operation L h (*) a b"

fun is_float_number :: "number \<Rightarrow> bool" where
  "is_float_number (NumFloat _) = True"
| "is_float_number _ = False"

definition divide_numbers :: "numlib \<Rightarrow> number \<Rightarrow> number \<Rightarrow> vm_error + wvalue" where
  "divide_numbers L a b =
     (if number_is_zero b then Inl (Msg ''division by zero'')
      else map_ok Float
        (if is_float_number a \<or> is_float_number b
         then and_then (number_to_f64 L a) (\<lambda>x. and_then (number_to_f64 L b) (\<lambda>y. Inr (f64_div x y)))
         else and_then (number_to_big a) (\<lambda>m. and_then (number_to_big b) (\<lambda>n.
                integer_ratio_to_f64 L m n))))"

text \<open>The big integer quotient, adjusted to round down, and made small again when it fits.\<close>

definition floor_divide_big ::
  "numlib \<Rightarrow> object_heap \<Rightarrow> int \<Rightarrow> int \<Rightarrow> object_heap \<times> (vm_error + wvalue)" where
  "floor_divide_big L h m n =
     (let quotient = quot_trunc m n; remainder = rem_trunc m n;
          v = (if remainder \<noteq> 0 \<and> sgn m \<noteq> sgn n then quotient - 1 else quotient)
      in case to_i64 v of
           Some w \<Rightarrow> (h, Inr (SmallInt w))
         | None \<Rightarrow> allocate_big L h v)"

definition floor_divide_numbers ::
  "numlib \<Rightarrow> object_heap \<Rightarrow> number \<Rightarrow> number \<Rightarrow> object_heap \<times> (vm_error + wvalue)" where
  "floor_divide_numbers L h a b =
     (if number_is_zero b then (h, Inl (Msg ''division by zero''))
      else if is_float_number a \<or> is_float_number b
      then (h, and_then (number_to_f64 L a) (\<lambda>x. and_then (number_to_f64 L b) (\<lambda>y.
              Inr (Float (f64_floor (f64_div x y))))))
      else
        case (case (a, b) of (NumSmall x, NumSmall y) \<Rightarrow> checked_div_euclid_i64 x y | _ \<Rightarrow> None) of
          Some v \<Rightarrow> (h, Inr (SmallInt v))
        | None \<Rightarrow>
            (case and_then (number_to_big a) (\<lambda>m. and_then (number_to_big b) (\<lambda>n. Inr (m, n))) of
               Inl e \<Rightarrow> (h, Inl e)
             | Inr (m, n) \<Rightarrow> floor_divide_big L h m n))"

definition power_numbers :: "numlib \<Rightarrow> number \<Rightarrow> number \<Rightarrow> vm_error + wvalue" where
  "power_numbers L a b =
     and_then (number_to_f64 L a) (\<lambda>base.
       and_then (number_to_f64 L b) (\<lambda>exponent. Inr (Float (nl_powf L base exponent))))"

fun number_operation ::
  "numlib \<Rightarrow> object_heap \<Rightarrow> binary_operator \<Rightarrow> number \<Rightarrow> number
    \<Rightarrow> object_heap \<times> (vm_error + wvalue)" where
  "number_operation L h Add a b = add_numbers L h a b"
| "number_operation L h Subtract a b = subtract_numbers L h a b"
| "number_operation L h Multiply a b = multiply_numbers L h a b"
| "number_operation L h Divide a b = (h, divide_numbers L a b)"
| "number_operation L h FloorDivide a b = floor_divide_numbers L h a b"
| "number_operation L h Power a b = (h, power_numbers L a b)"

section \<open>Sequences under addition and multiplication\<close>

definition sequence_add ::
  "numlib \<Rightarrow> object_heap \<Rightarrow> wvalue \<Rightarrow> wvalue \<Rightarrow> object_heap \<times> (vm_error + wvalue option)" where
  "sequence_add L h lhs rhs =
     (case (lhs, rhs) of
        (ObjectValue a, ObjectValue b) \<Rightarrow>
          (case heap_get h a of
             Inl e \<Rightarrow> (h, Inl (HeapError e))
           | Inr x \<Rightarrow>
               (case heap_get h b of
                  Inl e \<Rightarrow> (h, Inl (HeapError e))
                | Inr y \<Rightarrow>
                    (case (case (x, y) of
                             (StringObject s, StringObject t) \<Rightarrow> Some (StringObject (s @ t))
                           | (TupleObject s, TupleObject t) \<Rightarrow>
                               Some (tuple_object (seq_to_vec s @ seq_to_vec t))
                           | (ListObject s, ListObject t) \<Rightarrow>
                               Some (list_object (seq_to_vec s @ seq_to_vec t))
                           | _ \<Rightarrow> None) of
                       None \<Rightarrow> (h, Inr None)
                     | Some obj \<Rightarrow> apsnd (map_ok Some) (allocate_object L h obj))))
      | _ \<Rightarrow> (h, Inr None))"

definition repeat_count :: "object_heap \<Rightarrow> wvalue \<Rightarrow> vm_error + nat option" where
  "repeat_count h v =
     (case v of
        SmallInt n \<Rightarrow> Inr (Some (nat (sint n)))
      | ObjectValue r \<Rightarrow>
          (case heap_get h r of
             Inl e \<Rightarrow> Inl (HeapError e)
           | Inr (BigIntObject n) \<Rightarrow>
               if n < 0 then Inr (Some 0)
               else if n < 2 ^ 64 then Inr (Some (nat n))
               else Inl (Msg ''sequence repetition count is too large'')
           | Inr _ \<Rightarrow> Inr None)
      | _ \<Rightarrow> Inr None)"

definition repeated_object :: "object_heap \<Rightarrow> wvalue \<Rightarrow> nat \<Rightarrow> vm_error + object option" where
  "repeated_object h v count =
     (case v of
        ObjectValue r \<Rightarrow>
          (case heap_get h r of
             Inl e \<Rightarrow> Inl (HeapError e)
           | Inr (StringObject s) \<Rightarrow> Inr (Some (StringObject (concat (replicate count s))))
           | Inr (TupleObject s) \<Rightarrow> Inr (Some (TupleObject (seq_repeated s count)))
           | Inr (ListObject s) \<Rightarrow> Inr (Some (ListObject (seq_repeated s count)))
           | Inr _ \<Rightarrow> Inr None)
      | _ \<Rightarrow> Inr None)"

text \<open>One order of the operands: \<open>seq\<close> repeated \<open>count\<close> times, when they are of that kind.\<close>

definition repeat_in_order :: "object_heap \<Rightarrow> wvalue \<Rightarrow> wvalue \<Rightarrow> vm_error + object option" where
  "repeat_in_order h sequence count =
     and_then (repeat_count h count) (\<lambda>n.
       case n of None \<Rightarrow> Inr None | Some k \<Rightarrow> repeated_object h sequence k)"

definition sequence_repeat ::
  "numlib \<Rightarrow> object_heap \<Rightarrow> wvalue \<Rightarrow> wvalue \<Rightarrow> object_heap \<times> (vm_error + wvalue option)" where
  "sequence_repeat L h lhs rhs =
     (case and_then (repeat_in_order h lhs rhs) (\<lambda>r.
             case r of Some obj \<Rightarrow> Inr (Some obj) | None \<Rightarrow> repeat_in_order h rhs lhs) of
        Inl e \<Rightarrow> (h, Inl e)
      | Inr None \<Rightarrow> (h, Inr None)
      | Inr (Some obj) \<Rightarrow> apsnd (map_ok Some) (allocate_object L h obj))"

section \<open>Operators\<close>

definition binary_op ::
  "numlib \<Rightarrow> object_heap \<Rightarrow> binary_operator \<Rightarrow> wvalue \<Rightarrow> wvalue
    \<Rightarrow> object_heap \<times> (vm_error + wvalue)" where
  "binary_op L h op lhs rhs =
     then_with (if op = Add then sequence_add L h lhs rhs else (h, Inr None)) (\<lambda>h1 added.
       case added of
         Some v \<Rightarrow> (h1, Inr v)
       | None \<Rightarrow>
           then_with (if op = Multiply then sequence_repeat L h1 lhs rhs else (h1, Inr None))
             (\<lambda>h2 repeated.
               case repeated of
                 Some v \<Rightarrow> (h2, Inr v)
               | None \<Rightarrow>
                   then_with (h2, number_operand h2 lhs) (\<lambda>h3 a.
                     then_with (h3, number_operand h3 rhs) (\<lambda>h4 b.
                       number_operation L h4 op a b))))"

fun immediate_number :: "wvalue \<Rightarrow> number option" where
  "immediate_number (SmallInt n) = Some (NumSmall n)"
| "immediate_number (Float x) = Some (NumFloat x)"
| "immediate_number _ = None"

definition immediate_binary ::
  "numlib \<Rightarrow> object_heap \<Rightarrow> binary_operator \<Rightarrow> wvalue \<Rightarrow> wvalue
    \<Rightarrow> object_heap \<times> (vm_error + wvalue option)" where
  "immediate_binary L h op lhs rhs =
     (case immediate_number lhs of
        None \<Rightarrow> (h, Inr None)
      | Some a \<Rightarrow>
          (case immediate_number rhs of
             None \<Rightarrow> (h, Inr None)
           | Some b \<Rightarrow> apsnd (map_ok Some) (number_operation L h op a b)))"

fun unary_op ::
  "numlib \<Rightarrow> object_heap \<Rightarrow> unary_operator \<Rightarrow> wvalue \<Rightarrow> object_heap \<times> (vm_error + wvalue)" where
  "unary_op L h LogicalNot (Bool b) = (h, Inr (Bool (\<not> b)))"
| "unary_op L h Negate (SmallInt n) =
     (case checked_neg_i64 n of
        Some v \<Rightarrow> (h, Inr (SmallInt v))
      | None \<Rightarrow> allocate_big L h (- sint n))"
| "unary_op L h Negate (Float x) = (h, Inr (Float (f64_neg x)))"
| "unary_op L h Negate (ObjectValue r) =
     (case heap_get h r of
        Inl e \<Rightarrow> (h, Inl (HeapError e))
      | Inr (BigIntObject n) \<Rightarrow> allocate_big L h (- n)
      | Inr obj \<Rightarrow> (h, Inl (Msg (''cannot negate '' @ object_name obj))))"
| "unary_op L h Negate v = (h, Inl (Msg (''cannot negate '' @ value_name h v)))"
| "unary_op L h LogicalNot v = (h, Inl (Msg (''cannot apply not to '' @ value_name h v)))"

fun text_cmp :: "nat list \<Rightarrow> nat list \<Rightarrow> ordering" where
  "text_cmp [] [] = OrdEqual"
| "text_cmp [] (_ # _) = OrdLess"
| "text_cmp (_ # _) [] = OrdGreater"
| "text_cmp (x # xs) (y # ys) =
     (if x < y then OrdLess else if y < x then OrdGreater else text_cmp xs ys)"

definition compare_strings :: "object_heap \<Rightarrow> wvalue \<Rightarrow> wvalue \<Rightarrow> vm_error + ordering" where
  "compare_strings h lhs rhs =
     (case (lhs, rhs) of
        (ObjectValue a, ObjectValue b) \<Rightarrow>
          and_then (map_err HeapError (heap_get h a)) (\<lambda>x.
            and_then (map_err HeapError (heap_get h b)) (\<lambda>y.
              case (x, y) of
                (StringObject s, StringObject t) \<Rightarrow> Inr (text_cmp s t)
              | _ \<Rightarrow> Inl (Msg ''ordered comparison requires numeric or string values'')))
      | _ \<Rightarrow> Inl (Msg ''ordered comparison requires numeric or string values''))"

fun ordering_satisfies :: "compare_operator \<Rightarrow> ordering \<Rightarrow> bool" where
  "ordering_satisfies CmpLt c = (c = OrdLess)"
| "ordering_satisfies CmpLe c = (c \<noteq> OrdGreater)"
| "ordering_satisfies CmpGt c = (c = OrdGreater)"
| "ordering_satisfies CmpGe c = (c \<noteq> OrdLess)"
| "ordering_satisfies _ c = False"

definition compare_op ::
  "numlib \<Rightarrow> object_heap \<Rightarrow> compare_operator \<Rightarrow> wvalue \<Rightarrow> wvalue \<Rightarrow> vm_error + wvalue" where
  "compare_op L h op lhs rhs =
     (if op = CmpEq \<or> op = CmpNotEq
      then map_ok (\<lambda>equal. Bool (if op = CmpEq then equal else \<not> equal)) (values_equal L h lhs rhs)
      else
        and_then (number_optional h lhs) (\<lambda>a. and_then (number_optional h rhs) (\<lambda>b.
          map_ok (\<lambda>c. Bool (ordering_satisfies op c))
            (case (a, b) of
               (Some m, Some n) \<Rightarrow> compare_numbers L m n
             | (None, None) \<Rightarrow> compare_strings h lhs rhs
             | _ \<Rightarrow> Inl (Msg ''comparison requires two numeric or two string values'')))))"

end
