(* ===== verification/Arithmetic_Laws.thy ===== *)
theory Arithmetic_Laws
  imports Arithmetic
begin

text \<open>
  Correctness of the operators: integer arithmetic is exact at any size, an operator touches no
  live object, the immediate path of the interpreter agrees with the general one, and ordered
  comparison is the exact order.
\<close>

section \<open>The contract of an integer result\<close>

text \<open>The mathematical integer a value stands for, small or on the heap.\<close>

definition guest_integer :: "object_heap \<Rightarrow> wvalue \<Rightarrow> int option" where
  "guest_integer h v =
     (case v of
        SmallInt n \<Rightarrow> Some (sint n)
      | ObjectValue r \<Rightarrow> (case heap_get h r of Inr (BigIntObject n) \<Rightarrow> Some n | _ \<Rightarrow> None)
      | _ \<Rightarrow> None)"

definition heap_extends :: "object_heap \<Rightarrow> object_heap \<Rightarrow> bool" where
  "heap_extends h h' \<longleftrightarrow> heap_wf h' \<and> (\<forall>r x. heap_get h r = Inr x \<longrightarrow> heap_get h' r = Inr x)"

definition heap_exhausted :: "object_error \<Rightarrow> bool" where
  "heap_exhausted e \<longleftrightarrow> e = SlotCapacityExhausted \<or> (\<exists>i. e = GenerationExhausted i)"

definition yields_integer ::
  "object_heap \<Rightarrow> object_heap \<times> (vm_error + wvalue) \<Rightarrow> int \<Rightarrow> bool" where
  "yields_integer h outcome n \<longleftrightarrow>
     heap_extends h (fst outcome) \<and>
     (case snd outcome of
        Inr v \<Rightarrow> guest_integer (fst outcome) v = Some n
      | Inl e \<Rightarrow> \<exists>d. e = HeapError d \<and> heap_exhausted d)"

lemma heap_extends_refl [simp]: "heap_wf h \<Longrightarrow> heap_extends h h"
  by (simp add: heap_extends_def)

lemma heap_extends_trans: "heap_extends h g \<Longrightarrow> heap_extends g k \<Longrightarrow> heap_extends h k"
  by (simp add: heap_extends_def)

lemma guest_integer_small [simp]: "guest_integer h (SmallInt n) = Some (sint n)"
  by (simp add: guest_integer_def)

lemma allocate_validated_error:
  assumes "heap_wf h" and "allocate_validated h x = (h', Inl e)"
  shows "heap_exhausted e"
proof (cases "free_slots h = []")
  case True
  then show ?thesis using assms(2)
    by (auto simp: allocate_validated_def heap_exhausted_def split: option.splits)
next
  case False
  have "last (free_slots h) \<in> set (free_slots h)" using False by simp
  then have "unat (last (free_slots h)) < length (slots h)"
    using assms(1) by (auto simp: heap_wf_def free_ok_def)
  then show ?thesis using assms(2) False
    by (auto simp: allocate_validated_def heap_exhausted_def slot_at_def get_at_def Let_def
        split: option.splits)
qed

text \<open>An allocation through the validating entry point: the object is stored under a fresh handle.\<close>

lemma heap_allocate_cases:
  assumes wf: "heap_wf h" and ok: "object_ok x" and alloc: "heap_allocate L h x = (h', res)"
  obtains (invalid) e where "validate_host_object L h x = Inl e" and "h' = h" and "res = Inl e"
  | (exhausted) e where "heap_extends h h'" and "res = Inl e" and "heap_exhausted e"
  | (stored) r where "heap_extends h h'" and "res = Inr r" and "heap_get h' r = Inr x"
      and "\<not> live_ref h r"
proof (cases "validate_host_object L h x")
  case (Inl e)
  then show thesis using alloc by (intro invalid) (auto simp: heap_allocate_def)
next
  case (Inr u)
  then have a: "allocate_validated h x = (h', res)" using alloc by (simp add: heap_allocate_def)
  have ext: "heap_extends h h'"
    using allocate_wf [OF wf ok a] allocate_frame [OF wf a] by (simp add: heap_extends_def)
  show thesis
  proof (cases res)
    case (Inl e)
    then show thesis using ext allocate_validated_error [OF wf] a by (intro exhausted) auto
  next
    case (Inr r)
    then show thesis using ext allocate_fresh [OF wf] a by (intro stored) auto
  qed
qed

lemma yields_allocate_big:
  assumes "heap_wf h"
  shows "yields_integer h (allocate_big L h n) n"
proof -
  obtain h' res where a: "heap_allocate L h (BigIntObject n) = (h', res)" by (cases "heap_allocate L h (BigIntObject n)")
  have "object_ok (BigIntObject n)" by simp
  from assms this a show ?thesis
    by (cases rule: heap_allocate_cases)
       (auto simp: yields_integer_def allocate_big_def allocate_object_def a guest_integer_def
         validate_host_object_def)
qed

lemma yields_small: "heap_wf h \<Longrightarrow> sint v = n \<Longrightarrow> yields_integer h (h, Inr (SmallInt v)) n"
  by (simp add: yields_integer_def)

lemma yields_checked:
  assumes "heap_wf h"
  shows "yields_integer h
    (case to_i64 n of Some v \<Rightarrow> (h, Inr (SmallInt v)) | None \<Rightarrow> allocate_big L h n) n"
  using assms yields_allocate_big yields_small by (auto simp: sint_to_i64 split: option.split)

section \<open>Exact integer arithmetic\<close>

fun number_integer :: "number \<Rightarrow> int option" where
  "number_integer (NumSmall n) = Some (sint n)"
| "number_integer (NumBig n) = Some n"
| "number_integer (NumFloat x) = None"

lemma guest_integer_number:
  assumes "guest_integer h v = Some n"
  obtains a where "number_operand h v = Inr a" and "number_integer a = Some n"
    and "(\<exists>w. v = SmallInt w \<and> a = NumSmall w) \<or> (\<exists>r. v = ObjectValue r \<and> a = NumBig n)"
  using assms
  by (cases v) (auto simp: guest_integer_def number_operand_def number_optional_def
      split: sum.splits object.splits)

lemma number_integer_big [simp]: "number_integer a = Some m \<Longrightarrow> number_to_big a = Inr m"
  by (cases a) auto

lemma guest_integer_no_sequence:
  assumes "guest_integer h lhs = Some m" and "guest_integer h rhs = Some n"
  shows "sequence_add L h lhs rhs = (h, Inr None)"
    and "(n < 2 ^ 64 \<and> m < 2 ^ 64) \<Longrightarrow> sequence_repeat L h lhs rhs = (h, Inr None)"
  using assms
  by (auto simp: guest_integer_def sequence_add_def sequence_repeat_def repeat_in_order_def
      repeat_count_def repeated_object_def split: wvalue.splits sum.splits object.splits)

lemma yields_add:
  "heap_wf h \<Longrightarrow> number_integer a = Some m \<Longrightarrow> number_integer b = Some n
    \<Longrightarrow> yields_integer h (add_numbers L h a b) (m + n)"
  using yields_allocate_big yields_checked
  by (cases a; cases b) (auto simp: smallint_add_def checked_i64_to big_operation_def)

lemma yields_subtract:
  "heap_wf h \<Longrightarrow> number_integer a = Some m \<Longrightarrow> number_integer b = Some n
    \<Longrightarrow> yields_integer h (subtract_numbers L h a b) (m - n)"
  using yields_allocate_big yields_checked
  by (cases a; cases b) (auto simp: checked_i64_to big_operation_def)

lemma yields_multiply:
  "heap_wf h \<Longrightarrow> number_integer a = Some m \<Longrightarrow> number_integer b = Some n
    \<Longrightarrow> yields_integer h (multiply_numbers L h a b) (m * n)"
  using yields_allocate_big yields_checked
  by (cases a; cases b) (auto simp: checked_i64_to big_operation_def)

lemma binary_op_numbers:
  assumes "number_operand h lhs = Inr a" and "number_operand h rhs = Inr b"
    and "op = Add \<Longrightarrow> sequence_add L h lhs rhs = (h, Inr None)"
    and "op = Multiply \<Longrightarrow> sequence_repeat L h lhs rhs = (h, Inr None)"
  shows "binary_op L h op lhs rhs = number_operation L h op a b"
  using assms by (simp add: binary_op_def)

text \<open>The integer an operator computes, and the operands the implementation accepts.\<close>

fun integer_operation :: "binary_operator \<Rightarrow> int \<Rightarrow> int \<Rightarrow> int" where
  "integer_operation Add m n = m + n"
| "integer_operation Subtract m n = m - n"
| "integer_operation Multiply m n = m * n"
| "integer_operation _ m n = 0"

lemma binary_op_integers:
  assumes "guest_integer h lhs = Some m" and "guest_integer h rhs = Some n"
    and "op = Multiply \<longrightarrow> m < 2 ^ 64 \<and> n < 2 ^ 64"
  obtains a b where "binary_op L h op lhs rhs = number_operation L h op a b"
    and "number_integer a = Some m" and "number_integer b = Some n"
    and "is_float_number a = False" and "is_float_number b = False"
    and "(\<exists>v. lhs = SmallInt v \<and> a = NumSmall v) \<or> (\<exists>r. lhs = ObjectValue r \<and> a = NumBig m)"
    and "(\<exists>v. rhs = SmallInt v \<and> b = NumSmall v) \<or> (\<exists>r. rhs = ObjectValue r \<and> b = NumBig n)"
proof -
  obtain a where a: "number_operand h lhs = Inr a" "number_integer a = Some m"
      "(\<exists>v. lhs = SmallInt v \<and> a = NumSmall v) \<or> (\<exists>r. lhs = ObjectValue r \<and> a = NumBig m)"
    using guest_integer_number [OF assms(1)] .
  obtain b where b: "number_operand h rhs = Inr b" "number_integer b = Some n"
      "(\<exists>v. rhs = SmallInt v \<and> b = NumSmall v) \<or> (\<exists>r. rhs = ObjectValue r \<and> b = NumBig n)"
    using guest_integer_number [OF assms(2)] .
  have "binary_op L h op lhs rhs = number_operation L h op a b"
    using guest_integer_no_sequence [OF assms(1,2)] assms(3) by (intro binary_op_numbers a b) auto
  then show thesis using a b by (intro that [of a b]) auto
qed



text \<open>
  A product with a heap integer of \<open>2^64\<close> or more is refused: the attempt to read an operand as
  the count of a sequence repetition comes first and its error is final.
\<close>

lemma big_product_refused:
  assumes "guest_integer h lhs = Some m" and "guest_integer h rhs = Some n" and "2 ^ 64 \<le> n"
  shows "binary_op L h Multiply lhs rhs = (h, Inl (Msg ''sequence repetition count is too large''))"
proof -
  obtain r where r: "rhs = ObjectValue r" "heap_get h r = Inr (BigIntObject n)"
  proof (cases rhs)
    case (SmallInt v)
    then have "n < 2 ^ 63" using assms(2) sint_less [of v] by simp
    with assms(3) show thesis by simp
  qed (use assms(2) that in \<open>auto simp: guest_integer_def split: sum.splits object.splits\<close>)
  then show ?thesis using assms(3)
    by (simp add: binary_op_def sequence_repeat_def repeat_in_order_def repeat_count_def)
qed

section \<open>Floor division\<close>

lemma floor_quotient:
  assumes "n \<noteq> 0"
  shows "(if rem_trunc m n \<noteq> 0 \<and> sgn m \<noteq> sgn n then quot_trunc m n - 1 else quot_trunc m n) = m div n"
proof -
  consider "m = 0" | "0 < m" "0 < n" | "0 < m" "n < 0" | "m < 0" "0 < n" | "m < 0" "n < 0"
    using assms by linarith
  then show ?thesis
    by cases (auto simp: rem_trunc_def quot_trunc_def div_minus_right zdiv_zminus1_eq_if
        zdiv_zminus2_eq_if zmod_zminus1_eq_if zmod_zminus2_eq_if,
      (metis neg_mod_bound less_irrefl, metis pos_mod_bound less_irrefl))
qed

lemma yields_floor_big:
  assumes "heap_wf h" and "n \<noteq> 0"
  shows "yields_integer h (floor_divide_big L h m n) (m div n)"
proof -
  have "floor_divide_big L h m n =
    (case to_i64 (m div n) of Some v \<Rightarrow> (h, Inr (SmallInt v)) | None \<Rightarrow> allocate_big L h (m div n))"
    by (simp only: floor_divide_big_def Let_def floor_quotient [OF assms(2)])
  then show ?thesis using yields_checked [OF assms(1)] by simp
qed

text \<open>Only an exact quotient leaves the range of a small integer (the least one by minus one).\<close>

lemma div_euclid_in_range:
  assumes "in_i64 m" and "n \<noteq> 0" and "\<not> n dvd m"
  shows "in_i64 (div_euclid m n)"
proof -
  have "\<bar>n\<bar> \<noteq> 1" using assms(3) by (auto simp: abs_if split: if_splits)
  then have "2 \<le> \<bar>n\<bar>" using assms(2) by linarith
  have m: "i64_min \<le> m" "m \<le> i64_max" using assms(1) by (simp_all add: in_i64_def)
  have "m div \<bar>n\<bar> \<le> i64_max div \<bar>n\<bar>" using m assms(2) by (intro zdiv_mono1) auto
  also have "\<dots> \<le> i64_max div 2" using \<open>2 \<le> \<bar>n\<bar>\<close> by (intro zdiv_mono2) auto
  finally have "m div \<bar>n\<bar> \<le> 2 ^ 62" by simp
  moreover have "i64_min div 2 \<le> i64_min div \<bar>n\<bar>" using \<open>2 \<le> \<bar>n\<bar>\<close> by (intro zdiv_mono2_neg) auto
  moreover have "i64_min div \<bar>n\<bar> \<le> m div \<bar>n\<bar>" using m assms(2) by (intro zdiv_mono1) auto
  ultimately show ?thesis by (auto simp: div_euclid_def in_i64_def abs_if split: if_splits)
qed

lemma floor_divide_numbers_yields:
  assumes wf: "heap_wf h" and a: "number_integer a = Some m" and b: "number_integer b = Some n"
    and n: "n \<noteq> 0"
  shows "yields_integer h (floor_divide_numbers L h a b)
    (case (a, b) of (NumSmall x, NumSmall y) \<Rightarrow> div_euclid m n | _ \<Rightarrow> m div n)"
proof -
  have nonzero: "\<not> number_is_zero b" using b n by (cases b) auto
  have noflt: "\<not> is_float_number a" "\<not> is_float_number b" using a b by (cases a; cases b; simp)+
  note divide = floor_divide_numbers_def
  show ?thesis
  proof (cases "\<exists>x y. a = NumSmall x \<and> b = NumSmall y")
    case False
    then have "floor_divide_numbers L h a b = floor_divide_big L h m n"
      using nonzero noflt a b by (auto simp: divide split: number.splits)
    then show ?thesis using False yields_floor_big [OF wf n] a b by (auto split: number.splits)
  next
    case True
    then obtain x y where xy: "a = NumSmall x" "b = NumSmall y" "sint x = m" "sint y = n"
      using a b by auto
    show ?thesis
    proof (cases "checked_div_euclid_i64 x y")
      case (Some v)
      then have "sint v = div_euclid m n"
        using xy n by (auto simp: checked_i64_to sint_to_i64 split: if_splits)
      then show ?thesis using Some nonzero xy wf by (simp add: divide yields_small)
    next
      case None
      then have out: "\<not> in_i64 (div_euclid m n)"
        using xy n by (auto simp: checked_i64_to to_i64_None_iff split: if_splits)
      then have "n dvd m" using div_euclid_in_range [of m n] in_i64_sint [of x] xy n by auto
      then have "div_euclid m n = m div n" by (rule div_euclid_exact)
      then show ?thesis
        using None nonzero xy yields_floor_big [OF wf n, of L m] by (simp add: divide)
    qed
  qed
qed

text \<open>
  C17. Floor division of integers by a positive integer, or by one that divides, or of operands that
  are not both small, rounds down exactly; by zero it is the error; the quotient that overflows
  a small integer is promoted. Two small integers with a negative divisor get the Euclidean
  quotient, which \<open>small_floor_division_rounds_up\<close> shows to be one too large.
\<close>

theorem floor_division_result:
  assumes "heap_wf h" and "guest_integer h lhs = Some m" and "guest_integer h rhs = Some n"
  shows "if n = 0 then binary_op L h FloorDivide lhs rhs = (h, Inl (Msg ''division by zero''))
    else yields_integer h (binary_op L h FloorDivide lhs rhs)
      (if (\<exists>x y. lhs = SmallInt x \<and> rhs = SmallInt y) \<and> n < 0 \<and> \<not> n dvd m
       then m div n + 1 else m div n)"
proof -
  obtain a b where op: "binary_op L h FloorDivide lhs rhs = floor_divide_numbers L h a b"
    and a: "number_integer a = Some m" and b: "number_integer b = Some n"
    and small: "(\<exists>x y. lhs = SmallInt x \<and> rhs = SmallInt y) \<longleftrightarrow> (\<exists>x y. a = NumSmall x \<and> b = NumSmall y)"
    by (rule binary_op_integers [OF assms(2,3), of FloorDivide L]) auto
  show ?thesis
  proof (cases "n = 0")
    case True
    then have "number_is_zero b" using b by (cases b) (auto simp: signed_eq_0_iff)
    then show ?thesis using True op by (simp add: floor_divide_numbers_def)
  next
    case False
    then show ?thesis
      using floor_divide_numbers_yields [OF assms(1) a b False, of L] small
      by (auto simp: op div_euclid_pos div_euclid_neg div_euclid_exact split: number.splits)
  qed
qed

theorem floor_division_result_witness:
  "yields_integer (heap_new 0)
     (binary_op sample_numlib (heap_new 0) FloorDivide (SmallInt (- 7)) (SmallInt 2)) (- 4)"
  using floor_division_result [of "heap_new 0" "SmallInt (- 7)" "- 7" "SmallInt 2" 2 sample_numlib]
  by simp

text \<open>Seven floor-divided by minus two: minus three here, minus four when rounding down.\<close>

lemma small_floor_division_rounds_up:
  "binary_op L h FloorDivide (SmallInt 7) (SmallInt (- 2)) = (h, Inr (SmallInt (- 3)))"
  "(7 :: int) div - 2 = - 4"
  by (simp_all add: binary_op_def number_operand_def number_optional_def floor_divide_numbers_def
      checked_div_euclid_i64_def div_euclid_def in_i64_def)

section \<open>The immediate path\<close>

lemma immediate_number_operand:
  "immediate_number v = Some a \<Longrightarrow> number_operand h v = Inr a"
  by (cases v) (auto simp: number_operand_def number_optional_def)

lemma immediate_no_sequence:
  assumes "immediate_number lhs = Some a" and "immediate_number rhs = Some b"
  shows "sequence_add L h lhs rhs = (h, Inr None)" "sequence_repeat L h lhs rhs = (h, Inr None)"
  using assms
  by (cases lhs; cases rhs; simp add: sequence_add_def sequence_repeat_def repeat_in_order_def
      repeat_count_def repeated_object_def)+

text \<open>
  The interpreter's immediate path agrees with the general operator: on two small integers or
  floats it performs exactly what the general one does, errors and allocations included, and on
  anything else it declines without touching the heap.
\<close>

lemma immediate_binary_agrees:
  "immediate_binary L h op lhs rhs =
     (if immediate_number lhs \<noteq> None \<and> immediate_number rhs \<noteq> None
      then apsnd (map_ok Some) (binary_op L h op lhs rhs) else (h, Inr None))"
proof (cases "immediate_number lhs \<noteq> None \<and> immediate_number rhs \<noteq> None")
  case True
  then obtain a b where ab: "immediate_number lhs = Some a" "immediate_number rhs = Some b" by auto
  have "binary_op L h op lhs rhs = number_operation L h op a b"
    using ab by (intro binary_op_numbers immediate_number_operand immediate_no_sequence)
  then show ?thesis using ab by (simp add: immediate_binary_def)
qed (auto simp: immediate_binary_def split: option.splits)

section \<open>Comparison\<close>

fun comparison_holds :: "compare_operator \<Rightarrow> ordering \<Rightarrow> bool" where
  "comparison_holds CmpEq c = (c = OrdEqual)"
| "comparison_holds CmpNotEq c = (c \<noteq> OrdEqual)"
| "comparison_holds op c = ordering_satisfies op c"

lemma number_optional_guest:
  "guest_number h v = Some a \<Longrightarrow> number_optional h v = Inr (Some a)"
  by (auto simp: guest_number_def number_optional_def split: wvalue.splits sum.splits object.splits)

lemma exactly_equal_float_iff:
  assumes "numlib_truncates L"
  shows "exactly_equal (NumBig n) (NumFloat x) = integer_float_equal L n x"
    and "exactly_equal (NumFloat x) (NumBig n) = integer_float_equal L n x"
    and "exactly_equal (NumSmall a) (NumFloat x) = integer_float_equal L (sint a) x"
    and "exactly_equal (NumFloat x) (NumSmall a) = integer_float_equal L (sint a) x"
  using f64_nan_not_finite
  by (auto simp: integer_float_equal_exact [OF assms] exactly_equal_def exact_order_def int_cmp_def
      split: if_splits)

lemma exactly_equal_floats_iff: "exactly_equal (NumFloat x) (NumFloat y) = f64_eq x y"
  using f64_infinite_cases [of x] f64_infinite_cases [of y]
  by (auto simp: f64_eq_def exactly_equal_def exact_order_def int_cmp_def split: if_splits)

lemma values_equal_numbers:
  assumes L: "numlib_truncates L" and a: "guest_number h v = Some a" and b: "guest_number h w = Some b"
  shows "values_equal L h v w = Inr (exactly_equal a b)"
  using a b
  by (cases v; cases w)
     (auto simp: guest_number_def values_equal_def values_equal_with.simps exactly_equal_float_iff [OF L]
       exactly_equal_floats_iff big_int_equal_def object_comparison_def split: sum.splits object.splits)

text \<open>
  C14. Every comparison operator on numbers is exact: equality and order agree with the values of
  the operands, for any mix of small integers, heap integers and floats; with a NaN operand
  equality is false, inequality true, and an order is an error.
\<close>

theorem compare_op_exact:
  assumes "numlib_truncates L" and "guest_number h lhs = Some a" and "guest_number h rhs = Some b"
  shows "compare_op L h op lhs rhs =
    (if number_is_nan a \<or> number_is_nan b
     then (if op = CmpEq then Inr (Bool False) else if op = CmpNotEq then Inr (Bool True)
           else Inl (Msg ''NaN is not orderable''))
     else Inr (Bool (comparison_holds op (exact_order a b))))"
  using compare_numbers_nan [of a b L] compare_numbers_total [OF assms(1), of a b]
    values_equal_numbers [OF assms] number_optional_guest [OF assms(2)]
    number_optional_guest [OF assms(3)]
  by (cases op) (auto simp: compare_op_def exactly_equal_def)

theorem compare_op_exact_witness:
  "compare_op sample_numlib (heap_new 0) CmpLt (SmallInt (- 1)) (SmallInt 3) = Inr (Bool True)"
  using compare_op_exact [OF sample_numlib_truncates, of "heap_new 0" "SmallInt (- 1)" "NumSmall (- 1)"
      "SmallInt 3" "NumSmall 3" CmpLt]
  by (simp add: exact_order_def int_cmp_def unit_scale_def)

end
