(* ===== verification/Object_Ops.thy ===== *)
theory Object_Ops
  imports Arithmetic_Laws
begin

text \<open>
  Container operations of the virtual machine (\<open>wvm/objects.rs\<close> and \<open>wvm/objects/\<close>:
  indexing, lists, slices): construction of tuples, lists and dictionaries, length, item access
  and assignment, list methods, slices. Each answers the heap with its result; \<open>Panic\<close> stands for
  the \<open>expect\<close> and the out-of-range indexing of the sources.
\<close>

section \<open>Indices\<close>

definition raw_index :: "object_heap \<Rightarrow> wvalue \<Rightarrow> vm_error + int" where
  "raw_index h key =
     (case key of
        SmallInt n \<Rightarrow> Inr (sint n)
      | ObjectValue r \<Rightarrow>
          (case heap_get h r of
             Inl e \<Rightarrow> Inl (HeapError e)
           | Inr (BigIntObject n) \<Rightarrow>
               if in_i64 n then Inr n else Inl (Msg ''sequence index out of range'')
           | Inr _ \<Rightarrow> Inl (Msg ''sequence index must be an integer''))
      | _ \<Rightarrow> Inl (Msg ''sequence index must be an integer''))"

definition sequence_index :: "object_heap \<Rightarrow> wvalue \<Rightarrow> nat \<Rightarrow> vm_error + nat" where
  "sequence_index h key len =
     and_then (raw_index h key) (\<lambda>index.
       and_then (ensure (in_i64 (int len)) (Msg ''sequence is too large'')) (\<lambda>_.
         let out = Inl (Msg ''sequence index out of range'')
         in if index < 0 \<and> \<not> in_i64 (int len + index) then out
            else let normalized = (if index < 0 then int len + index else index)
                 in if normalized < 0 \<or> int len \<le> normalized then out else Inr (nat normalized)))"

definition optional_index :: "object_heap \<Rightarrow> wvalue option \<Rightarrow> vm_error + int option" where
  "optional_index h v = try_opt (raw_index h) v"

text \<open>A bound counted from the end when negative, held between the limits \<open>lo\<close> and \<open>hi\<close>.\<close>

definition normalize_bound :: "int \<Rightarrow> int \<Rightarrow> int \<Rightarrow> int \<Rightarrow> int" where
  "normalize_bound lo hi len index =
     clamp_int lo hi (if index < 0 then saturating_add_i64 len index else index)"

definition unwrap_or :: "'a option \<Rightarrow> 'a \<Rightarrow> 'a" where
  "unwrap_or v d = (case v of None \<Rightarrow> d | Some x \<Rightarrow> x)"

definition forward_slice_bounds ::
  "object_heap \<Rightarrow> nat \<Rightarrow> wvalue option \<Rightarrow> wvalue option \<Rightarrow> vm_error + nat \<times> nat" where
  "forward_slice_bounds h len start stop =
     and_then (ensure (in_i64 (int len)) (Msg ''sequence is too large'')) (\<lambda>_.
     and_then (optional_index h start) (\<lambda>start.
     and_then (optional_index h stop) (\<lambda>stop.
       let lo = normalize_bound 0 (int len) (int len) (unwrap_or start 0);
           hi = max (normalize_bound 0 (int len) (int len) (unwrap_or stop (int len))) lo
       in Inr (nat lo, nat hi))))"

text \<open>
  The loops that walk a slice. The sign of the step and the range of the bound, which the caller
  has established, are repeated in the loops' conditions; with them every round gets closer to
  the bound, also when the addition saturates.
\<close>

function slice_up :: "int \<Rightarrow> int \<Rightarrow> int \<Rightarrow> int list" where
  "slice_up index stop step =
     (if 0 < step \<and> in_i64 stop \<and> index < stop
      then index # slice_up (saturating_add_i64 index step) stop step else [])"
  by auto
termination
  by (relation "measure (\<lambda>(index, stop, step). nat (stop - index))")
     (auto simp: saturating_add_i64_def saturate_i64_def in_i64_def)

function slice_down :: "int \<Rightarrow> int \<Rightarrow> int \<Rightarrow> int list" where
  "slice_down index stop step =
     (if step < 0 \<and> in_i64 stop \<and> stop < index
      then index # slice_down (saturating_add_i64 index step) stop step else [])"
  by auto
termination
  by (relation "measure (\<lambda>(index, stop, step). nat (index - stop))")
     (auto simp: saturating_add_i64_def saturate_i64_def in_i64_def)

declare slice_up.simps [simp del] slice_down.simps [simp del]

definition slice_indices ::
  "object_heap \<Rightarrow> nat \<Rightarrow> wvalue option \<Rightarrow> wvalue option \<Rightarrow> wvalue option \<Rightarrow> vm_error + nat list" where
  "slice_indices h len start stop step =
     and_then (ensure (in_i64 (int len)) (Msg ''sequence is too large'')) (\<lambda>_.
     and_then (optional_index h step) (\<lambda>step.
       let step = unwrap_or step 1; n = int len
       in if step = 0 then Inl (Msg ''slice step cannot be zero'')
          else if 0 < step then
            and_then (optional_index h start) (\<lambda>start. and_then (optional_index h stop) (\<lambda>stop.
              Inr (map nat (slice_up (normalize_bound 0 n n (unwrap_or start 0))
                                     (normalize_bound 0 n n (unwrap_or stop n)) step))))
          else
            and_then (optional_index h start) (\<lambda>start. and_then (optional_index h stop) (\<lambda>stop.
              let last = saturating_sub_i64 n 1;
                  first = (case start of Some i \<Rightarrow> normalize_bound (- 1) last n i | None \<Rightarrow> last);
                  bound = (case stop of Some i \<Rightarrow> normalize_bound (- 1) last n i | None \<Rightarrow> - 1)
              in Inr (map nat (slice_down first bound step))))))"

section \<open>Construction and length\<close>

definition build_tuple :: "numlib \<Rightarrow> object_heap \<Rightarrow> wvalue list \<Rightarrow> object_heap \<times> (vm_error + wvalue)" where
  "build_tuple L h vs = allocate_object L h (tuple_object vs)"

definition build_list :: "numlib \<Rightarrow> object_heap \<Rightarrow> wvalue list \<Rightarrow> object_heap \<times> (vm_error + wvalue)" where
  "build_list L h vs = allocate_object L h (list_object vs)"

text \<open>One entry of a dictionary under construction or assignment: replace or append.\<close>

definition put_entry ::
  "(wvalue \<times> wvalue) list \<Rightarrow> nat option \<Rightarrow> wvalue \<Rightarrow> wvalue \<Rightarrow> (wvalue \<times> wvalue) list" where
  "put_entry entries found key v =
     (case found of
        Some i \<Rightarrow> entries[i := (fst (entries ! i), v)]
      | None \<Rightarrow> entries @ [(key, v)])"

definition insert_entry ::
  "numlib \<Rightarrow> object_heap \<Rightarrow> (wvalue \<times> wvalue) list \<Rightarrow> wvalue \<times> wvalue
    \<Rightarrow> vm_error + (wvalue \<times> wvalue) list" where
  "insert_entry L h entries kv =
     and_then (ensure_hashable h (fst kv)) (\<lambda>_.
       and_then (find_key L h entries (fst kv)) (\<lambda>found.
         Inr (put_entry entries found (fst kv) (snd kv))))"

definition build_dict ::
  "numlib \<Rightarrow> object_heap \<Rightarrow> (wvalue \<times> wvalue) list \<Rightarrow> object_heap \<times> (vm_error + wvalue)" where
  "build_dict L h entries =
     then_with (h, try_fold (insert_entry L h) [] entries) (\<lambda>h' result.
       apsnd (\<lambda>r. map_ok ObjectValue (map_err HeapError r)) (allocate_runtime_dict h' result))"

definition length_op :: "object_heap \<Rightarrow> wvalue \<Rightarrow> vm_error + wvalue" where
  "length_op h v =
     (case v of
        ObjectValue r \<Rightarrow>
          and_then (map_err HeapError (heap_get h r)) (\<lambda>obj.
            and_then
              (case obj of
                 StringObject s \<Rightarrow> Inr (length s)
               | TupleObject s \<Rightarrow> Inr (seq_len s)
               | ListObject s \<Rightarrow> Inr (seq_len s)
               | DictObject es \<Rightarrow> Inr (length es)
               | _ \<Rightarrow> Inl (Msg ''object has no length'')) (\<lambda>n.
              map_ok SmallInt (ok_or (to_i64 (int n)) (Msg ''object length exceeds SmallInt range''))))
      | _ \<Rightarrow> Inl (Msg ''length requires an object''))"

section \<open>Items\<close>

definition get_item ::
  "numlib \<Rightarrow> object_heap \<Rightarrow> wvalue \<Rightarrow> wvalue \<Rightarrow> object_heap \<times> (vm_error + wvalue)" where
  "get_item L h obj key =
     (case obj of
        ObjectValue r \<Rightarrow>
          (case heap_get h r of
             Inl e \<Rightarrow> (h, Inl (HeapError e))
           | Inr (TupleObject s) \<Rightarrow>
               (h, and_then (sequence_index h key (seq_len s)) (\<lambda>i.
                     ok_or (seq_get s i) (Msg ''sequence index out of range'')))
           | Inr (ListObject s) \<Rightarrow>
               (h, and_then (sequence_index h key (seq_len s)) (\<lambda>i.
                     ok_or (seq_get s i) (Msg ''sequence index out of range'')))
           | Inr (StringObject s) \<Rightarrow>
               (case and_then (sequence_index h key (length s)) (\<lambda>i.
                       ok_or (get_at s i) (Msg ''string index out of range'')) of
                  Inl e \<Rightarrow> (h, Inl e)
                | Inr c \<Rightarrow> allocate_object L h (StringObject [c]))
           | Inr (DictObject es) \<Rightarrow>
               (h, and_then (ensure_hashable h key) (\<lambda>_.
                     and_then (find_key L h es key) (\<lambda>found.
                       and_then (ok_or found (Msg ''dictionary key not found'')) (\<lambda>i.
                         ok_or (map_option snd (get_at es i)) Panic))))
           | Inr _ \<Rightarrow> (h, Inl (Msg ''object does not support item access'')))
      | _ \<Rightarrow> (h, Inl (Msg ''item access requires an object'')))"

definition set_item ::
  "numlib \<Rightarrow> object_heap \<Rightarrow> wvalue \<Rightarrow> wvalue \<Rightarrow> wvalue \<Rightarrow> object_heap \<times> (vm_error + unit)" where
  "set_item L h obj key v =
     (case obj of
        ObjectValue r \<Rightarrow>
          (case heap_get h r of
             Inl e \<Rightarrow> (h, Inl (HeapError e))
           | Inr (ListObject s) \<Rightarrow>
               (case sequence_index h key (seq_len s) of
                  Inl e \<Rightarrow> (h, Inl e)
                | Inr i \<Rightarrow>
                    (let (t, previous) = seq_set s i v
                     in (heap_put h r (ListObject t),
                         map_ok (\<lambda>_. ()) (ok_or previous (Msg ''list index out of range'')))))
           | Inr (DictObject es) \<Rightarrow>
               (case and_then (ensure_hashable h key) (\<lambda>_. find_key L h es key) of
                  Inl e \<Rightarrow> (h, Inl e)
                | Inr found \<Rightarrow> (heap_put h r (DictObject (put_entry es found key v)), Inr ()))
           | Inr _ \<Rightarrow> (h, Inl (Msg ''item assignment requires list or dict'')))
      | _ \<Rightarrow> (h, Inl (Msg ''item assignment requires an object'')))"

section \<open>List methods\<close>

text \<open>Storing a changed list; \<open>None\<close> is a panic of the sequence operation.\<close>

definition put_list ::
  "object_heap \<Rightarrow> object_ref \<Rightarrow> sequence_object option \<Rightarrow> object_heap \<times> (vm_error + unit)" where
  "put_list h r s =
     (case s of
        None \<Rightarrow> (h, Inl Panic)
      | Some t \<Rightarrow> (heap_put h r (ListObject t), Inr ()))"

definition append_list ::
  "object_heap \<Rightarrow> wvalue \<Rightarrow> wvalue \<Rightarrow> object_heap \<times> (vm_error + unit)" where
  "append_list h list v =
     (case list of
        ObjectValue r \<Rightarrow>
          (case heap_get h r of
             Inl e \<Rightarrow> (h, Inl (HeapError e))
           | Inr (ListObject s) \<Rightarrow> put_list h r (seq_push s v)
           | Inr _ \<Rightarrow> (h, Inl (Msg ''list append requires a list'')))
      | _ \<Rightarrow> (h, Inl (Msg ''list append requires an object'')))"

definition insert_list ::
  "object_heap \<Rightarrow> wvalue \<Rightarrow> wvalue \<Rightarrow> wvalue \<Rightarrow> object_heap \<times> (vm_error + unit)" where
  "insert_list h list index v =
     (case list of
        ObjectValue r \<Rightarrow>
          (case heap_get h r of
             Inl e \<Rightarrow> (h, Inl (HeapError e))
           | Inr (ListObject s) \<Rightarrow>
               (case and_then (ensure (in_i64 (int (seq_len s))) (Msg ''list is too large''))
                       (\<lambda>_. raw_index h index) of
                  Inl e \<Rightarrow> (h, Inl e)
                | Inr i \<Rightarrow>
                    (let n = int (seq_len s);
                         normalized = (if i < 0 then max (saturating_add_i64 n i) 0 else min i n)
                     in put_list h r (seq_insert s (nat normalized) v)))
           | Inr _ \<Rightarrow> (h, Inl (Msg ''list insert requires a list'')))
      | _ \<Rightarrow> (h, Inl (Msg ''list insert requires an object'')))"

definition pop_list ::
  "object_heap \<Rightarrow> wvalue \<Rightarrow> wvalue \<Rightarrow> object_heap \<times> (vm_error + wvalue)" where
  "pop_list h list index =
     (case list of
        ObjectValue r \<Rightarrow>
          (case heap_get h r of
             Inl e \<Rightarrow> (h, Inl (HeapError e))
           | Inr (ListObject s) \<Rightarrow>
               (case sequence_index h index (seq_len s) of
                  Inl e \<Rightarrow> (h, Inl e)
                | Inr i \<Rightarrow>
                    (let (t, removed) = seq_remove s i
                     in (heap_put h r (ListObject t),
                         ok_or removed (Msg ''list index out of range''))))
           | Inr _ \<Rightarrow> (h, Inl (Msg ''list pop requires a list'')))
      | _ \<Rightarrow> (h, Inl (Msg ''list pop requires an object'')))"

section \<open>Slices\<close>

definition select_items :: "(nat \<Rightarrow> 'a option) \<Rightarrow> nat list \<Rightarrow> vm_error + 'a list" where
  "select_items get indices = try_map (\<lambda>i. ok_or (get i) Panic) indices"

definition slice_object ::
  "object_heap \<Rightarrow> object \<Rightarrow> wvalue option \<Rightarrow> wvalue option \<Rightarrow> wvalue option \<Rightarrow> vm_error + object" where
  "slice_object h x start stop step =
     (case x of
        TupleObject s \<Rightarrow>
          and_then (slice_indices h (seq_len s) start stop step) (\<lambda>indices.
            map_ok tuple_object (select_items (seq_get s) indices))
      | ListObject s \<Rightarrow>
          and_then (slice_indices h (seq_len s) start stop step) (\<lambda>indices.
            map_ok list_object (select_items (seq_get s) indices))
      | StringObject s \<Rightarrow>
          and_then (slice_indices h (length s) start stop step) (\<lambda>indices.
            map_ok StringObject (select_items (get_at s) indices))
      | _ \<Rightarrow> Inl (Msg ''object does not support slicing''))"

definition get_slice ::
  "numlib \<Rightarrow> object_heap \<Rightarrow> wvalue \<Rightarrow> wvalue option \<Rightarrow> wvalue option \<Rightarrow> wvalue option
    \<Rightarrow> object_heap \<times> (vm_error + wvalue)" where
  "get_slice L h obj start stop step =
     (case obj of
        ObjectValue r \<Rightarrow>
          (case and_then (map_err HeapError (heap_get h r)) (\<lambda>x. slice_object h x start stop step) of
             Inl e \<Rightarrow> (h, Inl e)
           | Inr sliced \<Rightarrow> allocate_object L h sliced)
      | _ \<Rightarrow> (h, Inl (Msg ''slice access requires an object'')))"

definition replacement_values :: "object_heap \<Rightarrow> wvalue \<Rightarrow> vm_error + wvalue list" where
  "replacement_values h v =
     (case v of
        ObjectValue r \<Rightarrow>
          and_then (map_err HeapError (heap_get h r)) (\<lambda>x.
            case x of
              TupleObject s \<Rightarrow> Inr (seq_to_vec s)
            | ListObject s \<Rightarrow> Inr (seq_to_vec s)
            | _ \<Rightarrow> Inl (Msg ''slice assignment value must be a list or tuple''))
      | _ \<Rightarrow> Inl (Msg ''slice assignment value must be a sequence''))"

fun list_at :: "object \<Rightarrow> vm_error + sequence_object" where
  "list_at (ListObject s) = Inr s"
| "list_at _ = Inl (Msg ''slice assignment requires a list'')"

definition set_items :: "sequence_object \<Rightarrow> (nat \<times> wvalue) list \<Rightarrow> sequence_object" where
  "set_items s updates = fold (\<lambda>(i, v) t. fst (seq_set t i v)) updates s"

text \<open>The updated list of a slice assignment: a splice when the step is one, else item by item.\<close>

definition assign_slice ::
  "object_heap \<Rightarrow> sequence_object \<Rightarrow> wvalue option \<Rightarrow> wvalue option \<Rightarrow> wvalue option \<Rightarrow> wvalue list
    \<Rightarrow> vm_error + sequence_object" where
  "assign_slice h s start stop step new =
     and_then (optional_index h step) (\<lambda>step.
       let step = unwrap_or step 1
       in if step = 1 then
            and_then (forward_slice_bounds h (seq_len s) start stop) (\<lambda>(lo, hi).
              ok_or (seq_replace_range s lo hi new) Panic)
          else
            and_then (slice_indices h (seq_len s) start stop (Some (SmallInt (word_of_int step))))
              (\<lambda>indices.
                if length indices \<noteq> length new
                then Inl (Msg ''extended slice assignment size mismatch'')
                else Inr (set_items s (zip indices new))))"

definition set_slice ::
  "object_heap \<Rightarrow> wvalue \<Rightarrow> wvalue option \<Rightarrow> wvalue option \<Rightarrow> wvalue option \<Rightarrow> wvalue
    \<Rightarrow> object_heap \<times> (vm_error + unit)" where
  "set_slice h obj start stop step replacement =
     (case obj of
        ObjectValue r \<Rightarrow>
          (case and_then (replacement_values h replacement) (\<lambda>new.
                  and_then (map_err HeapError (heap_get h r)) (\<lambda>x.
                    and_then (list_at x) (\<lambda>s. assign_slice h s start stop step new))) of
             Inl e \<Rightarrow> (h, Inl e)
           | Inr s \<Rightarrow> (heap_put h r (ListObject s), Inr ()))
      | _ \<Rightarrow> (h, Inl (Msg ''slice assignment requires a list'')))"

end
