(* ===== verification/Object_Ops_Laws.thy ===== *)
theory Object_Ops_Laws
  imports Object_Ops
begin

text \<open>
  Correctness of the container operations: slices walk Python's ranges and stay in bounds, list
  operations act on the list of values, nothing panics, and every operation keeps the heap
  well-formed and every handle alive.
\<close>

section \<open>Slices walk Python's ranges\<close>

text \<open>Python's \<open>range\<close> and the bounds of \<open>slice.indices\<close>.\<close>

definition python_range :: "int \<Rightarrow> int \<Rightarrow> int \<Rightarrow> int list" where
  "python_range start stop step =
     map (\<lambda>k. start + int k * step)
       [0 ..< nat (if 0 < step then (stop - start + step - 1) div step
                   else (start - stop - step - 1) div (- step))]"

definition python_bound :: "int \<Rightarrow> int \<Rightarrow> int \<Rightarrow> int \<Rightarrow> int" where
  "python_bound lo hi n i = (if i < 0 then max lo (n + i) else min hi i)"

definition python_slice :: "nat \<Rightarrow> int option \<Rightarrow> int option \<Rightarrow> int \<Rightarrow> int list" where
  "python_slice len start stop step =
     (let n = int len
      in if 0 < step
         then python_range (case start of Some i \<Rightarrow> python_bound 0 n n i | None \<Rightarrow> 0)
                           (case stop of Some i \<Rightarrow> python_bound 0 n n i | None \<Rightarrow> n) step
         else python_range (case start of Some i \<Rightarrow> python_bound (- 1) (n - 1) n i | None \<Rightarrow> n - 1)
                           (case stop of Some i \<Rightarrow> python_bound (- 1) (n - 1) n i | None \<Rightarrow> - 1) step)"

lemma upt_Suc_shift: "map f [0 ..< Suc n] = f 0 # map (\<lambda>k. f (Suc k)) [0 ..< n]"
  by (simp add: upt_conv_Cons map_Suc_upt [symmetric] del: upt_Suc)

lemma python_range_Nil:
  assumes "0 < step" and "stop \<le> i"
  shows "python_range i stop step = []"
proof -
  have "(stop - i + step - 1) div step \<le> (step - 1) div step" using assms by (intro zdiv_mono1) auto
  then show ?thesis using assms by (simp add: python_range_def div_pos_pos_trivial)
qed

lemma python_range_Cons:
  assumes "0 < step" and "i < stop"
  shows "python_range i stop step = i # python_range (i + step) stop step"
proof -
  have "(stop - i + step - 1) div step = (stop - i - 1) div step + 1"
    using assms(1) div_add_self2 [of step "stop - i - 1"] by (simp add: algebra_simps)
  moreover have "0 \<le> (stop - i - 1) div step" using assms by (intro pos_imp_zdiv_nonneg_iff [THEN iffD2]) auto
  ultimately have "nat ((stop - i + step - 1) div step) = Suc (nat ((stop - i - 1) div step))" by linarith
  then show ?thesis using assms(1)
    by (simp add: python_range_def upt_Suc_shift algebra_simps del: upt_Suc)
qed

lemma python_range_minus:
  "step < 0 \<Longrightarrow> python_range i stop step = map uminus (python_range (- i) (- stop) (- step))"
  by (simp add: python_range_def algebra_simps)

lemma python_range_bounds:
  assumes "x \<in> set (python_range i stop step)"
  shows "0 < step \<Longrightarrow> i \<le> x \<and> x < stop" and "step < 0 \<Longrightarrow> stop < x \<and> x \<le> i"
proof -
  have up: "i \<le> x \<and> x < stop" if "0 < step" and "x \<in> set (python_range i stop step)" for i stop step x
  proof -
    from that obtain k where x: "x = i + int k * step"
      and k: "int k < (stop - i + step - 1) div step" by (auto simp: python_range_def)
    then have "int k + 1 \<le> (stop - i + step - 1) div step" by simp
    then have "(int k + 1) * step \<le> (stop - i + step - 1) div step * step"
      using that(1) by (intro mult_right_mono) auto
    also have "\<dots> \<le> stop - i + step - 1"
      using div_mult_mod_eq [of "stop - i + step - 1" step] pos_mod_sign [of step "stop - i + step - 1"] that(1)
      by linarith
    finally have "(int k + 1) * step \<le> stop - i + step - 1" .
    then show ?thesis using x that(1) by (simp add: algebra_simps)
  qed
  from up assms show "0 < step \<Longrightarrow> i \<le> x \<and> x < stop" by blast
  assume "step < 0"
  with assms obtain y where "y \<in> set (python_range (- i) (- stop) (- step))" "x = - y"
    by (auto simp: python_range_minus)
  with up [of "- step" y "- i" "- stop"] \<open>step < 0\<close> show "stop < x \<and> x \<le> i" by simp
qed

lemma slice_up_range:
  assumes "0 < step" and "in_i64 stop" and "in_i64 i"
  shows "slice_up i stop step = python_range i stop step"
  using assms
proof (induction i stop step rule: slice_up.induct)
  case (1 i stop step)
  show ?case
  proof (cases "i < stop")
    case True
    let ?j = "saturating_add_i64 i step"
    have j: "in_i64 ?j" by (auto simp: saturating_add_i64_def saturate_i64_def in_i64_def)
    have "python_range ?j stop step = python_range (i + step) stop step"
    proof (cases "in_i64 (i + step)")
      case True
      then have "?j = i + step" by (simp add: saturating_add_i64_def saturate_i64_def in_i64_def)
      then show ?thesis by simp
    next
      case False
      then have "stop \<le> ?j" "stop \<le> i + step"
        using "1.prems" by (auto simp: saturating_add_i64_def saturate_i64_def in_i64_def)
      then show ?thesis using python_range_Nil "1.prems"(1) by simp
    qed
    then show ?thesis
      using True "1.prems" "1.IH" j python_range_Cons [of step i stop] by (subst slice_up.simps) simp
  qed (use "1.prems" in \<open>simp add: python_range_Nil slice_up.simps\<close>)
qed

lemma slice_down_range:
  assumes "step < 0" and "in_i64 stop" and "in_i64 i"
  shows "slice_down i stop step = python_range i stop step"
  using assms
proof (induction i stop step rule: slice_down.induct)
  case (1 i stop step)
  note minus = python_range_minus [OF "1.prems"(1)]
  show ?case
  proof (cases "stop < i")
    case True
    let ?j = "saturating_add_i64 i step"
    have j: "in_i64 ?j" by (auto simp: saturating_add_i64_def saturate_i64_def in_i64_def)
    have "python_range ?j stop step = python_range (i + step) stop step"
    proof (cases "in_i64 (i + step)")
      case True
      then have "?j = i + step" by (simp add: saturating_add_i64_def saturate_i64_def in_i64_def)
      then show ?thesis by simp
    next
      case False
      then have "?j \<le> stop" "i + step \<le> stop"
        using "1.prems" by (auto simp: saturating_add_i64_def saturate_i64_def in_i64_def)
      then show ?thesis using python_range_Nil "1.prems"(1) by (simp add: minus)
    qed
    moreover have "python_range i stop step = i # python_range (i + step) stop step"
      using python_range_Cons [of "- step" "- i" "- stop"] True "1.prems"(1) by (simp add: minus)
    ultimately show ?thesis using True "1.prems" "1.IH" j by (subst slice_down.simps) simp
  qed (use "1.prems" in \<open>simp add: minus python_range_Nil slice_down.simps\<close>)
qed

lemma normalize_python:
  assumes "in_i64 n" and "in_i64 i" and "0 \<le> n" and "lo \<le> hi" and "n - 1 \<le> hi" and "hi \<le> n" and "lo \<le> 0"
    and "hi < 0 \<longrightarrow> lo = hi"
  shows "normalize_bound lo hi n i = python_bound lo hi n i"
    and "in_i64 (python_bound lo hi n i)"
  using assms
  by (auto simp: normalize_bound_def python_bound_def clamp_int_def saturating_add_i64_def
      saturate_i64_def in_i64_def)

lemma raw_index_range: "raw_index h v = Inr i \<Longrightarrow> in_i64 i"
  by (auto simp: raw_index_def split: wvalue.splits sum.splits object.splits if_splits)

lemma optional_index_range: "optional_index h v = Inr (Some i) \<Longrightarrow> in_i64 i"
  by (cases v) (auto simp: optional_index_def map_ok_Inr_iff dest: raw_index_range)

lemma python_slice_bounds:
  assumes "x \<in> set (python_slice len start stop step)" and "step \<noteq> 0"
  shows "0 \<le> x \<and> x < int len"
  using assms python_range_bounds
  by (fastforce simp: python_slice_def python_bound_def Let_def split: if_splits option.splits)

lemma slice_indices_eq:
  assumes "in_i64 (int len)" and "optional_index h start = Inr i" and "optional_index h stop = Inr j"
    and "optional_index h step = Inr k"
  shows "slice_indices h len start stop step =
      (if k = Some 0 then Inl (Msg ''slice step cannot be zero'')
       else Inr (map nat (python_slice len i j (unwrap_or k 1))))"
proof -
  let ?n = "int len"
  let ?k = "unwrap_or k 1"
  have zero: "?k = 0 \<longleftrightarrow> k = Some 0" by (auto simp: unwrap_or_def split: option.splits)
  note range = optional_index_range [of h start] optional_index_range [of h stop] assms
  have up: "normalize_bound 0 ?n ?n b = python_bound 0 ?n ?n b" "in_i64 (python_bound 0 ?n ?n b)"
    if "in_i64 b" for b
    using normalize_python [of ?n b 0 ?n] that assms(1) by auto
  have down: "normalize_bound (- 1) (?n - 1) ?n b = python_bound (- 1) (?n - 1) ?n b"
    "in_i64 (python_bound (- 1) (?n - 1) ?n b)" if "in_i64 b" for b
    using normalize_python [of ?n b "- 1" "?n - 1"] that assms(1) by auto
  have last: "saturating_sub_i64 ?n 1 = ?n - 1" "in_i64 (?n - 1)" "in_i64 (- 1)" "in_i64 0"
    using assms(1) by (auto simp: saturating_sub_i64_def saturate_i64_def in_i64_def)
  have zero_bound: "python_bound 0 ?n ?n 0 = 0" "python_bound 0 ?n ?n ?n = ?n"
    by (auto simp: python_bound_def)
  have "slice_indices h len start stop step = Inr (map nat (python_slice len i j ?k))" if "?k \<noteq> 0"
  proof (cases "0 < ?k")
    case True
    then show ?thesis
      using assms up range last up [OF assms(1)] up [OF last(4)]
      by (cases i; cases j)
         (simp_all add: slice_indices_def ensure_def python_slice_def slice_up_range Let_def zero_bound
           unwrap_or_def [of i] unwrap_or_def [of j] unwrap_or_def [of None] unwrap_or_def [of "Some _"])
  next
    case False
    then show ?thesis
      using that assms down range last
      by (cases i; cases j) (simp_all add: slice_indices_def ensure_def python_slice_def slice_down_range Let_def)
  qed
  then show ?thesis
    using zero assms
    by (auto simp: slice_indices_def ensure_def Let_def)
qed



section \<open>Safety of the operations\<close>

text \<open>
  What an operation owes the machine: a well-formed heap in which every live handle is still
  live, and no panic.
\<close>

definition op_sound :: "object_heap \<Rightarrow> object_heap \<times> (vm_error + 'a) \<Rightarrow> bool" where
  "op_sound h outcome \<longleftrightarrow>
     heap_wf (fst outcome) \<and> heap.keeps_live h (fst outcome) \<and> snd outcome \<noteq> Inl Panic"

named_theorems op_sound_intros \<open>soundness of heap operations\<close>

lemma op_sound_pure [op_sound_intros]: "heap_wf h \<Longrightarrow> m \<noteq> Inl Panic \<Longrightarrow> op_sound h (h, m)"
  by (simp add: op_sound_def heap.keeps_live_refl)

lemma op_sound_apsnd: "op_sound h m \<Longrightarrow> op_sound h (apsnd (map_ok f) m)"
  by (auto simp: op_sound_def)

lemma op_sound_then_with:
  assumes "op_sound h m" and "\<And>h' x. heap_wf h' \<Longrightarrow> m = (h', Inr x) \<Longrightarrow> op_sound h' (f h' x)"
  shows "op_sound h (then_with m f)"
proof (cases m)
  case (Pair g res)
  show ?thesis
  proof (cases res)
    case (Inl e)
    then show ?thesis using assms(1) Pair by (simp add: op_sound_def)
  next
    case (Inr x)
    then show ?thesis
      using assms(1) assms(2) [of g x] Pair
      by (auto simp: op_sound_def intro: heap.keeps_live_trans)
  qed
qed

lemma op_sound_put:
  "heap_wf h \<Longrightarrow> heap_get h r = Inr x \<Longrightarrow> object_ok y \<Longrightarrow> m \<noteq> Inl Panic \<Longrightarrow> op_sound h (heap_put h r y, m)"
  by (simp add: op_sound_def heap_put_wf heap.put_keeps_live)

lemma op_sound_allocate_validated:
  assumes "heap_wf h" and "object_ok x"
  shows "op_sound h (apsnd (\<lambda>r. map_ok ObjectValue (map_err HeapError r)) (allocate_validated h x))"
proof -
  obtain h' res where "allocate_validated h x = (h', res)" by fastforce
  then show ?thesis using allocate_wf [OF assms] heap.alloc_keeps_live [OF assms(1)]
    by (auto simp: op_sound_def map_err_Inl_iff)
qed

lemma op_sound_allocate [op_sound_intros]:
  "heap_wf h \<Longrightarrow> object_ok x \<Longrightarrow> op_sound h (allocate_object L h x)"
  using op_sound_allocate_validated [of h x] op_sound_pure [of h]
  by (auto simp: allocate_object_def heap_allocate_def map_err_Inl_iff split: sum.split)

lemma op_sound_allocate_big [op_sound_intros]: "heap_wf h \<Longrightarrow> op_sound h (allocate_big L h n)"
  by (simp add: allocate_big_def op_sound_allocate)

subsection \<open>Arithmetic\<close>

lemma number_to_big_no_panic [simp]: "number_to_big a \<noteq> Inl Panic"
  by (cases a) auto

lemma number_to_f64_no_panic [simp]: "number_to_f64 L a \<noteq> Inl Panic"
  by (cases a) auto

lemma number_optional_no_panic [simp]: "number_optional h v \<noteq> Inl Panic"
  by (auto simp: number_optional_def split: wvalue.splits sum.splits object.splits)

lemma number_operand_no_panic [simp]: "number_operand h v \<noteq> Inl Panic"
  by (simp add: number_operand_def and_then_Inl_iff)

lemma ratio_no_panic [simp]: "integer_ratio_to_f64 L m n \<noteq> Inl Panic"
  by (auto simp: integer_ratio_to_f64_def magnitude_ratio_def and_then_Inl_iff Let_def split: if_splits)

lemma op_sound_numbers:
  assumes "heap_wf h"
  shows "op_sound h (number_operation L h op a b)"
proof -
  have big: "op_sound h (big_operation L h f a b)" for f
    using assms by (auto simp: big_operation_def and_then_Inl_iff split: sum.split
        intro!: op_sound_intros)
  have small: "op_sound h (case n of None \<Rightarrow> allocate_big L h m | Some v \<Rightarrow> (h, Inr (SmallInt v)))" for n m
    using assms by (auto split: option.split intro!: op_sound_intros)
  show ?thesis
    using assms big small
    by (cases op; cases a; cases b)
       (auto simp: smallint_add_def divide_numbers_def power_numbers_def floor_divide_numbers_def
         floor_divide_big_def and_then_Inl_iff Let_def split: sum.split option.split
         intro!: op_sound_intros)
qed

lemma op_sound_sequence_add [op_sound_intros]:
  "heap_wf h \<Longrightarrow> op_sound h (sequence_add L h a b)"
  by (auto simp: sequence_add_def split: wvalue.split sum.split object.split
      intro!: op_sound_intros op_sound_apsnd)

lemma repeat_in_order_no_panic [simp]: "repeat_in_order h a b \<noteq> Inl Panic"
  by (auto simp: repeat_in_order_def repeat_count_def repeated_object_def and_then_Inl_iff
      split: wvalue.splits sum.splits object.splits option.splits if_splits)

lemma repeated_object_ok: "repeated_object h v n = Inr (Some x) \<Longrightarrow> object_ok x"
  by (auto simp: repeated_object_def seq_repeated_def split: wvalue.splits sum.splits object.splits)

lemma repeat_in_order_ok: "repeat_in_order h a b = Inr (Some x) \<Longrightarrow> object_ok x"
  unfolding repeat_in_order_def and_then_Inr_iff
  by (elim exE conjE) (rename_tac c, case_tac c, auto dest: repeated_object_ok)

lemma op_sound_sequence_repeat [op_sound_intros]:
  assumes "heap_wf h"
  shows "op_sound h (sequence_repeat L h a b)"
proof -
  define m where "m = and_then (repeat_in_order h a b) (\<lambda>r.
      case r of Some obj \<Rightarrow> Inr (Some obj) | None \<Rightarrow> repeat_in_order h b a)"
  have "m \<noteq> Inl Panic" by (auto simp: m_def and_then_Inl_iff split: option.splits)
  moreover have "m = Inr (Some x) \<Longrightarrow> object_ok x" for x
    by (auto simp: m_def and_then_Inr_iff split: option.splits dest: repeat_in_order_ok)
  ultimately show ?thesis
    using assms unfolding sequence_repeat_def m_def [symmetric]
    by (auto split: sum.split option.split intro!: op_sound_intros op_sound_apsnd)
qed

lemma op_sound_binary [op_sound_intros]: "heap_wf h \<Longrightarrow> op_sound h (binary_op L h op a b)"
  unfolding binary_op_def
  by (auto intro!: op_sound_then_with op_sound_intros op_sound_numbers split: option.split)

lemma op_sound_immediate [op_sound_intros]: "heap_wf h \<Longrightarrow> op_sound h (immediate_binary L h op a b)"
  by (auto simp: immediate_binary_def split: option.split
      intro!: op_sound_intros op_sound_apsnd op_sound_numbers)

lemma op_sound_unary [op_sound_intros]: "heap_wf h \<Longrightarrow> op_sound h (unary_op L h op v)"
  by (cases op; cases v)
     (auto split: option.split sum.split object.split intro!: op_sound_intros)

lemma big_int_equal_no_panic [simp]: "big_int_equal h r p \<noteq> Inl Panic"
  by (auto simp: big_int_equal_def split: sum.splits object.splits)

lemma object_comparison_no_panic [simp]: "object_comparison h a b \<noteq> Decided (Inl Panic)"
  by (auto simp: object_comparison_def split: sum.splits object.splits)

lemma values_equal_with_no_panic: "values_equal_with n L h pending v w \<noteq> Inl Panic"
proof (induction n arbitrary: pending v w)
  case 0
  show ?case
    by (subst values_equal_with.simps)
       (auto simp: map_err_Inl_iff split: wvalue.splits comparison.splits)
next
  case (Suc n)
  then show ?case
    by (subst values_equal_with.simps)
       (auto simp: map_err_Inl_iff sequence_equal_def dict_equal_def
         dest: all_equal_error dict_entries_error split: wvalue.splits comparison.splits)
qed

lemma values_equal_no_panic [simp]: "values_equal L h v w \<noteq> Inl Panic"
  by (simp add: values_equal_def values_equal_with_no_panic)

lemma find_key_no_panic [simp]: "find_key L h es k \<noteq> Inl Panic"
  using find_key_error [of "values_equal L h" es k Panic] by (auto simp: find_key_def)

lemma find_key_bound: "find_key L h es k = Inr (Some i) \<Longrightarrow> i < length es"
  using find_key_Some by (simp add: find_key_def)

lemma compare_numbers_no_panic [simp]: "compare_numbers L a b \<noteq> Inl Panic"
  by (cases a; cases b)
     (auto simp: compare_integer_float_def and_then_Inl_iff split: ordering.splits if_splits)

lemma compare_op_no_panic [simp]: "compare_op L h op v w \<noteq> Inl Panic"
  by (auto simp: compare_op_def compare_strings_def and_then_Inl_iff map_err_Inl_iff
      split: option.splits wvalue.splits object.splits)

subsection \<open>Containers\<close>

lemma ensure_hashable_with_no_panic: "ensure_hashable_with n h v \<noteq> Inl Panic"
proof (induction n h v rule: ensure_hashable_with.induct)
  case (2 n h r)
  then show ?case
    by (auto split: sum.splits object.splits nat.splits dest!: try_all_Inl)
qed auto

lemma ensure_hashable_no_panic [simp]: "ensure_hashable h v \<noteq> Inl Panic"
  by (simp add: ensure_hashable_def ensure_hashable_with_no_panic)

lemma raw_index_no_panic [simp]: "raw_index h v \<noteq> Inl Panic"
  by (auto simp: raw_index_def split: wvalue.splits sum.splits object.splits)

lemma sequence_index_no_panic [simp]: "sequence_index h v n \<noteq> Inl Panic"
  by (auto simp: sequence_index_def and_then_Inl_iff Let_def split: if_splits)

lemma optional_index_no_panic [simp]: "optional_index h v \<noteq> Inl Panic"
  by (cases v) (auto simp: optional_index_def)

lemma slice_indices_no_panic [simp]: "slice_indices h n i j k \<noteq> Inl Panic"
  by (auto simp: slice_indices_def and_then_Inl_iff Let_def split: if_splits)

lemma forward_slice_bounds_no_panic [simp]: "forward_slice_bounds h n i j \<noteq> Inl Panic"
  by (auto simp: forward_slice_bounds_def and_then_Inl_iff Let_def)

lemma op_sound_build [op_sound_intros]:
  "heap_wf h \<Longrightarrow> op_sound h (build_tuple L h vs)" "heap_wf h \<Longrightarrow> op_sound h (build_list L h vs)"
  by (simp_all add: build_tuple_def build_list_def op_sound_intros)

lemma slice_indices_bounds:
  assumes "slice_indices h len start stop step = Inr indices" and "n \<in> set indices"
  shows "n < len"
proof -
  from assms(1) obtain k where fits: "in_i64 (int len)" and k: "optional_index h step = Inr k"
    by (auto simp: slice_indices_def and_then_Inr_iff)
  with assms(1) have nonzero: "unwrap_or k 1 \<noteq> 0"
    by (auto simp: slice_indices_def and_then_Inr_iff Let_def split: if_splits)
  with assms(1) k fits obtain i j where "optional_index h start = Inr i" "optional_index h stop = Inr j"
    by (auto simp: slice_indices_def and_then_Inr_iff Let_def split: if_splits)
  from slice_indices_eq [OF fits this k] assms(1)
  have "indices = map nat (python_slice len i j (unwrap_or k 1))" by (simp split: if_splits)
  then show ?thesis using assms(2) python_slice_bounds [OF _ nonzero] by force
qed

lemma select_items_total:
  assumes "\<And>n. n \<in> set indices \<Longrightarrow> get n = Some (f n)"
  shows "select_items get indices = Inr (map f indices)"
  using assms by (induction indices) (auto simp: select_items_def)

lemma forward_slice_bounds_range:
  assumes "forward_slice_bounds h len start stop = Inr (lo, hi)"
  shows "lo \<le> hi \<and> hi \<le> len"
proof -
  have "0 \<le> normalize_bound 0 (int len) (int len) i \<and> normalize_bound 0 (int len) (int len) i \<le> int len" for i
    by (simp add: normalize_bound_def clamp_int_def)
  then show ?thesis using assms
    by (auto simp: forward_slice_bounds_def and_then_Inr_iff Let_def nat_le_iff intro!: nat_mono)
qed

lemma set_items_vec:
  "seq_ok s \<Longrightarrow> seq_ok (set_items s updates)
    \<and> seq_to_vec (set_items s updates) = fold (\<lambda>(i, v) xs. xs[i := v]) updates (seq_to_vec s)"
proof (induction updates arbitrary: s)
  case (Cons u updates)
  obtain i v where u: "u = (i, v)" by (cases u)
  obtain t r where t: "seq_set s i v = (t, r)" by fastforce
  from seq_set_ok_vec [OF Cons.prems t] Cons.IH [of t] show ?case by (simp add: u t set_items_def)
qed (simp add: set_items_def)

text \<open>The two ways a slice assignment succeeds, and that it does not panic.\<close>

lemma assign_slice_cases:
  assumes ok: "seq_ok s" and run: "assign_slice h s start stop step new = m"
  obtains (failed) e where "m = Inl e" and "e \<noteq> Panic"
  | (spliced) t lo hi where "m = Inr t" and "forward_slice_bounds h (seq_len s) start stop = Inr (lo, hi)"
      and "lo \<le> hi" and "hi \<le> seq_len s" and "seq_ok t"
      and "seq_to_vec t = splice_range lo hi new (seq_to_vec s)"
  | (itemwise) k indices where "m = Inr (set_items s (zip indices new))" and "k \<noteq> 1"
      and "optional_index h step = Inr (Some k)"
      and "slice_indices h (seq_len s) start stop (Some (SmallInt (word_of_int k))) = Inr indices"
      and "length indices = length new"
proof (cases "optional_index h step")
  case (Inl e)
  then show thesis using run by (intro failed [of e]) (auto simp: assign_slice_def)
next
  case (Inr k)
  show thesis
  proof (cases "unwrap_or k 1 = 1")
    case True
    show thesis
    proof (cases "forward_slice_bounds h (seq_len s) start stop")
      case (Inl e)
      then show thesis using run Inr True by (intro failed [of e]) (auto simp: assign_slice_def)
    next
      case bounds: (Inr b)
      obtain lo hi where b: "b = (lo, hi)" by (cases b)
      have le: "lo \<le> hi" "hi \<le> seq_len s" using forward_slice_bounds_range bounds b by auto
      obtain t where "seq_replace_range s lo hi new = Some t" "seq_ok t"
          "seq_to_vec t = splice_range lo hi new (seq_to_vec s)"
        using seq_replace_range_ok_vec [OF ok le] by blast
      then show thesis using run Inr True bounds b le by (intro spliced [of t lo hi]) (auto simp: assign_slice_def)
    qed
  next
    case False
    then obtain i where k: "k = Some i" "i \<noteq> 1" by (cases k) (auto simp: unwrap_or_def)
    show thesis
    proof (cases "slice_indices h (seq_len s) start stop (Some (SmallInt (word_of_int i)))")
      case (Inl e)
      then show thesis using run Inr k
        by (intro failed [of e]) (auto simp: assign_slice_def unwrap_or_def)
    next
      case indices: (Inr indices)
      show thesis
      proof (cases "length indices = length new")
        case True
        then show thesis using run Inr k indices
          by (intro itemwise [of indices i]) (auto simp: assign_slice_def unwrap_or_def)
      next
        case False
        then show thesis using run Inr k indices
          by (intro failed) (auto simp: assign_slice_def unwrap_or_def)
      qed
    qed
  qed
qed

lemma assign_slice_sound:
  assumes ok: "seq_ok s" and run: "assign_slice h s start stop step new = m"
  shows "m \<noteq> Inl Panic \<and> (\<forall>t. m = Inr t \<longrightarrow> seq_ok t)"
  using ok run by (cases rule: assign_slice_cases) (auto simp: set_items_vec [OF ok])

lemma heap_get_seq_ok:
  "heap_wf h \<Longrightarrow> heap_get h r = Inr (ListObject s) \<Longrightarrow> seq_ok s"
  "heap_wf h \<Longrightarrow> heap_get h r = Inr (TupleObject s) \<Longrightarrow> seq_ok s"
  using heap_get_ok by fastforce+

lemma op_sound_put_list [op_sound_intros]:
  assumes "heap_wf h" and "heap_get h r = Inr x" and "m \<noteq> None" and "\<And>t. m = Some t \<Longrightarrow> seq_ok t"
  shows "op_sound h (put_list h r m)"
  using assms by (auto simp: put_list_def intro!: op_sound_put)

lemma op_sound_append [op_sound_intros]:
  assumes "heap_wf h"
  shows "op_sound h (append_list h list v)"
proof -
  have "op_sound h (put_list h r (seq_push s v))" if "heap_get h r = Inr (ListObject s)" for r s
    using assms that seq_insert_ok_vec [of s "seq_len s" v] heap_get_seq_ok [OF assms]
    by (intro op_sound_put_list) (auto simp: seq_push_def)
  then show ?thesis using assms
    by (auto simp: append_list_def split: wvalue.split sum.split object.split intro!: op_sound_pure)
qed

lemma op_sound_insert [op_sound_intros]:
  assumes "heap_wf h"
  shows "op_sound h (insert_list h list index v)"
proof -
  have "op_sound h (put_list h r (seq_insert s (nat (if i < 0 then max (saturating_add_i64 n i) 0 else min i n)) v))"
    if "heap_get h r = Inr (ListObject s)" and n: "n = int (seq_len s)" for r s i n
  proof -
    have "nat (if i < 0 then max (saturating_add_i64 n i) 0 else min i n) \<le> seq_len s"
      by (auto simp: n saturating_add_i64_def saturate_i64_def)
    then show ?thesis
      using assms that seq_insert_ok_vec [of s _ v] heap_get_seq_ok [OF assms]
      by (intro op_sound_put_list) fastforce+
  qed
  then show ?thesis using assms
    by (auto simp: insert_list_def and_then_Inl_iff Let_def
        split: wvalue.split sum.split object.split intro!: op_sound_pure)
qed

lemma op_sound_pop [op_sound_intros]:
  assumes "heap_wf h"
  shows "op_sound h (pop_list h list index)"
proof -
  have "op_sound h (let (t, removed) = seq_remove s i in (heap_put h r (ListObject t),
      ok_or removed (Msg ''list index out of range'')))"
    if "heap_get h r = Inr (ListObject s)" for r s i
    using assms that seq_remove_ok_vec [of s i] heap_get_seq_ok [OF assms]
    by (cases "seq_remove s i") (auto intro!: op_sound_put)
  then show ?thesis using assms
    by (auto simp: pop_list_def split: wvalue.split sum.split object.split intro!: op_sound_pure)
qed

lemma op_sound_set_item [op_sound_intros]:
  assumes "heap_wf h"
  shows "op_sound h (set_item L h obj key v)"
proof -
  have "op_sound h (let (t, previous) = seq_set s i v in (heap_put h r (ListObject t),
      map_ok (\<lambda>_. ()) (ok_or previous (Msg ''list index out of range''))))"
    if "heap_get h r = Inr (ListObject s)" for r s i
    using assms that seq_set_ok_vec [of s i v] heap_get_seq_ok [OF assms]
    by (cases "seq_set s i v") (auto intro!: op_sound_put)
  then show ?thesis using assms
    by (auto simp: set_item_def and_then_Inl_iff split: wvalue.split sum.split object.split
        intro!: op_sound_pure op_sound_put)
qed

lemma op_sound_get_item [op_sound_intros]:
  assumes "heap_wf h"
  shows "op_sound h (get_item L h obj key)"
  using assms
  by (auto simp: get_item_def and_then_Inl_iff split: wvalue.split sum.split object.split
      intro!: op_sound_pure op_sound_allocate dest!: find_key_bound)

text \<open>A slice of a well-formed sequence is the list of the selected items.\<close>

lemma slice_items:
  assumes "seq_ok s" and "slice_indices h (seq_len s) start stop step = Inr indices"
  shows "select_items (seq_get s) indices = Inr (map (\<lambda>n. seq_to_vec s ! n) indices)"
  using slice_indices_bounds [OF assms(2)] seq_get_vec [OF assms(1)]
  by (intro select_items_total) (auto simp: seq_len_vec get_at_def)

lemma slice_characters:
  assumes "slice_indices h (length s) start stop step = Inr indices"
  shows "select_items (get_at s) indices = Inr (map (\<lambda>n. s ! n) indices)"
  using slice_indices_bounds [OF assms] by (intro select_items_total) (auto simp: get_at_def)

lemma slice_object_sound:
  assumes "object_ok x" and "slice_object h x start stop step = m"
  shows "m \<noteq> Inl Panic \<and> (\<forall>y. m = Inr y \<longrightarrow> object_ok y)"
  using assms
  by (cases x)
     (auto simp: slice_object_def and_then_Inl_iff and_then_Inr_iff map_ok_Inr_iff
       slice_items slice_characters)

lemma op_sound_get_slice [op_sound_intros]:
  assumes "heap_wf h"
  shows "op_sound h (get_slice L h obj start stop step)"
  using assms slice_object_sound [OF heap_get_ok [OF assms] refl]
  by (auto simp: get_slice_def and_then_Inl_iff and_then_Inr_iff map_err_Inl_iff
      split: wvalue.split sum.split intro!: op_sound_pure op_sound_allocate)

lemma replacement_values_no_panic [simp]: "replacement_values h v \<noteq> Inl Panic"
  by (auto simp: replacement_values_def and_then_Inl_iff map_err_Inl_iff split: wvalue.splits object.splits)

lemma list_at_iff: "list_at x = Inr s \<longleftrightarrow> x = ListObject s" "list_at x \<noteq> Inl Panic"
  by (cases x; auto)+

lemma op_sound_set_slice [op_sound_intros]:
  assumes "heap_wf h"
  shows "op_sound h (set_slice h obj start stop step new)"
  using assms assign_slice_sound [OF heap_get_seq_ok(1) [OF assms] refl]
  by (auto simp: set_slice_def and_then_Inl_iff and_then_Inr_iff map_err_Inl_iff list_at_iff
      split: wvalue.splits sum.split intro!: op_sound_pure op_sound_put)

lemma insert_entry_no_panic [simp]: "insert_entry L h es kv \<noteq> Inl Panic"
  by (simp add: insert_entry_def and_then_Inl_iff)

lemma try_fold_Inl: "try_fold f s xs = Inl e \<Longrightarrow> \<exists>t x. f t x = Inl e"
  by (induction xs arbitrary: s) (auto simp: and_then_Inl_iff)

lemma op_sound_build_dict [op_sound_intros]:
  assumes "heap_wf h"
  shows "op_sound h (build_dict L h entries)"
  unfolding build_dict_def
proof (rule op_sound_then_with)
  show "op_sound h (h, try_fold (insert_entry L h) [] entries)"
    using assms by (auto intro!: op_sound_pure dest!: try_fold_Inl)
  show "op_sound g (apsnd (\<lambda>r. map_ok ObjectValue (map_err HeapError r)) (allocate_runtime_dict g es))"
    if "heap_wf g" for g es
    using that op_sound_allocate_validated [of g "DictObject es"]
    by (auto simp: allocate_runtime_dict_def map_err_Inl_iff split: sum.split intro!: op_sound_pure)
qed

lemma length_op_no_panic [simp]: "length_op h v \<noteq> Inl Panic"
  by (auto simp: length_op_def and_then_Inl_iff map_err_Inl_iff split: wvalue.splits object.splits)

text \<open>
  C13. The container operations are safe on any well-formed heap, whatever their operands: no
  \<open>expect\<close> fails and no index leaves its vector, the heap stays well-formed, and every live
  handle stays live.
\<close>

theorem container_operations_sound:
  assumes "heap_wf h"
  shows "op_sound h (get_item L h a b) \<and> op_sound h (set_item L h a b c)
    \<and> op_sound h (append_list h a b) \<and> op_sound h (insert_list h a b c) \<and> op_sound h (pop_list h a b)
    \<and> op_sound h (get_slice L h a i j k) \<and> op_sound h (set_slice h a i j k b)
    \<and> op_sound h (build_dict L h es) \<and> op_sound h (build_tuple L h vs) \<and> op_sound h (build_list L h vs)"
  using assms by (intro conjI op_sound_intros)

theorem container_operations_sound_witness:
  "op_sound (heap_new 0) (get_slice sample_numlib (heap_new 0) (SmallInt 3) None None None)"
  using container_operations_sound [of "heap_new 0" sample_numlib "SmallInt 3"] by simp

section \<open>Lists\<close>

definition holds_list :: "object_heap \<Rightarrow> object_ref \<Rightarrow> wvalue list \<Rightarrow> bool" where
  "holds_list h r xs \<longleftrightarrow> (\<exists>s. heap_get h r = Inr (ListObject s) \<and> seq_to_vec s = xs)"

definition python_position :: "nat \<Rightarrow> int \<Rightarrow> nat option" where
  "python_position n i =
     (if 0 \<le> i \<and> i < int n then Some (nat i)
      else if i < 0 \<and> - int n \<le> i then Some (nat (int n + i)) else None)"

text \<open>The heap with the list at \<open>r\<close> changed to \<open>xs\<close>, and nothing else.\<close>

definition list_updated :: "object_heap \<Rightarrow> object_ref \<Rightarrow> wvalue list \<Rightarrow> object_heap \<Rightarrow> bool" where
  "list_updated h r xs h' \<longleftrightarrow> holds_list h' r xs \<and> (\<forall>q. q \<noteq> r \<longrightarrow> heap_get h' q = heap_get h q)"

lemma sequence_index_position:
  assumes "raw_index h key = Inr i" and "in_i64 (int n)"
  shows "sequence_index h key n =
    (case python_position n i of
       None \<Rightarrow> Inl (Msg ''sequence index out of range'') | Some p \<Rightarrow> Inr p)"
  using assms raw_index_range [OF assms(1)]
  by (auto simp: sequence_index_def python_position_def Let_def in_i64_def ensure_def)

lemma python_position_bound: "python_position n i = Some p \<Longrightarrow> p < n"
  by (auto simp: python_position_def split: if_splits)

lemma list_updated_put:
  "heap_get h r = Inr x \<Longrightarrow> seq_to_vec t = xs \<Longrightarrow> list_updated h r xs (heap_put h r (ListObject t))"
  by (simp add: list_updated_def holds_list_def heap_get_put_same heap_get_put_other)

text \<open>
  C6. Lists behave as Python's: reading, assigning and popping at an index, negative ones
  counted from the end, act at that position of the list of values and fail out of range without
  a change; \<open>insert\<close> clamps its index; \<open>append\<close> adds at the end. Each changes that list only.
\<close>

theorem list_operations_python:
  assumes "heap_wf h" and "holds_list h r xs" and "raw_index h key = Inr i"
    and "in_i64 (int (length xs))"
  shows "(case python_position (length xs) i of
      None \<Rightarrow>
        get_item L h (ObjectValue r) key = (h, Inl (Msg ''sequence index out of range''))
        \<and> set_item L h (ObjectValue r) key v = (h, Inl (Msg ''sequence index out of range''))
        \<and> pop_list h (ObjectValue r) key = (h, Inl (Msg ''sequence index out of range''))
    | Some p \<Rightarrow>
        get_item L h (ObjectValue r) key = (h, Inr (xs ! p))
        \<and> (\<exists>h'. set_item L h (ObjectValue r) key v = (h', Inr ()) \<and> list_updated h r (xs[p := v]) h')
        \<and> (\<exists>h'. pop_list h (ObjectValue r) key = (h', Inr (xs ! p)) \<and> list_updated h r (remove_at p xs) h'))
    \<and> (\<exists>h'. insert_list h (ObjectValue r) key v = (h', Inr ())
      \<and> list_updated h r (insert_at (nat (if i < 0 then max 0 (int (length xs) + i) else min i (int (length xs)))) v xs) h')
    \<and> (\<exists>h'. append_list h (ObjectValue r) v = (h', Inr ()) \<and> list_updated h r (xs @ [v]) h')"
proof (intro conjI)
  obtain s where s: "heap_get h r = Inr (ListObject s)" and xs: "seq_to_vec s = xs"
    using assms(2) by (auto simp: holds_list_def)
  have ok: "seq_ok s" using heap_get_seq_ok(1) [OF assms(1) s] .
  have len: "seq_len s = length xs" by (simp add: seq_len_vec xs)
  note index = sequence_index_position [OF assms(3,4)]
  show "case python_position (length xs) i of
      None \<Rightarrow>
        get_item L h (ObjectValue r) key = (h, Inl (Msg ''sequence index out of range''))
        \<and> set_item L h (ObjectValue r) key v = (h, Inl (Msg ''sequence index out of range''))
        \<and> pop_list h (ObjectValue r) key = (h, Inl (Msg ''sequence index out of range''))
    | Some p \<Rightarrow>
        get_item L h (ObjectValue r) key = (h, Inr (xs ! p))
        \<and> (\<exists>h'. set_item L h (ObjectValue r) key v = (h', Inr ()) \<and> list_updated h r (xs[p := v]) h')
        \<and> (\<exists>h'. pop_list h (ObjectValue r) key = (h', Inr (xs ! p)) \<and> list_updated h r (remove_at p xs) h')"
  proof (cases "python_position (length xs) i")
    case None
    then show ?thesis using index s
      by (simp add: get_item_def set_item_def pop_list_def len)
  next
    case (Some p)
    have p: "p < length xs" using python_position_bound [OF Some] .
    obtain t q where t: "seq_set s p v = (t, q)" by fastforce
    obtain u q' where u: "seq_remove s p = (u, q')" by fastforce
    show ?thesis
      using Some p s xs index sequence.get_vec [OF ok, of p] sequence.set_vec [OF ok t]
        sequence.remove_vec [OF ok u]
      by (auto simp: get_item_def set_item_def pop_list_def len t u get_at_def intro!: list_updated_put)
  qed
  let ?n = "int (length xs)"
  define p where "p = nat (if i < 0 then max 0 (?n + i) else min i ?n)"
  have p: "p \<le> length xs" by (auto simp: p_def)
  have "nat (if i < 0 then max (saturating_add_i64 ?n i) 0 else min i ?n) = p"
    using assms(4) raw_index_range [OF assms(3)]
    by (auto simp: p_def saturating_add_i64_def saturate_i64_def in_i64_def)
  then show "\<exists>h'. insert_list h (ObjectValue r) key v = (h', Inr ())
      \<and> list_updated h r (insert_at (nat (if i < 0 then max 0 (?n + i) else min i ?n)) v xs) h'"
    using sequence.insert_vec [OF ok, of p v] p s assms(3,4) xs
    by (auto simp: insert_list_def len put_list_def ensure_def Let_def simp flip: p_def
        intro!: list_updated_put)
  show "\<exists>h'. append_list h (ObjectValue r) v = (h', Inr ()) \<and> list_updated h r (xs @ [v]) h'"
    using sequence.append_vec [OF ok, of v] s xs
    by (auto simp: append_list_def seq_push_def put_list_def intro!: list_updated_put)
qed

theorem list_operations_python_witness:
  "snd (pop_list ((heap_new 0)\<lparr>slots := [\<lparr>slot_generation = 0,
      slot_object = Some (list_object [SmallInt 4, SmallInt 5])\<rparr>]\<rparr>)
      (ObjectValue \<lparr>ref_heap_id = 0, ref_slot = 0, ref_generation = 0\<rparr>) (SmallInt (- 1)))
    = Inr (SmallInt 5)"
proof -
  let ?h = "(heap_new 0)\<lparr>slots := [\<lparr>slot_generation = 0,
      slot_object = Some (list_object [SmallInt 4, SmallInt 5])\<rparr>]\<rparr>"
  let ?r = "\<lparr>ref_heap_id = 0, ref_slot = 0, ref_generation = 0\<rparr>"
  have "heap_wf ?h" by (simp add: heap_wf_def free_ok_def objects_ok_def heap_new_def)
  moreover have "holds_list ?h ?r [SmallInt 4, SmallInt 5]"
    by (simp add: holds_list_def heap_get_Inr_iff list_object_def heap_new_def)
  moreover have "raw_index ?h (SmallInt (- 1)) = Inr (- 1)" by (simp add: raw_index_def)
  moreover have "in_i64 (int (length [SmallInt 4, SmallInt 5]))" by (simp add: in_i64_def)
  ultimately show ?thesis
    using list_operations_python [of ?h ?r "[SmallInt 4, SmallInt 5]" "SmallInt (- 1)" "- 1"]
    by (simp add: python_position_def) force
qed

end
