(* ===== verification/Definite_Assignment.thy ===== *)
theory Definite_Assignment
  imports Numeric_Semantics
begin

text \<open>
  Definite assignment (\<open>verifier/initialization.rs\<close>): a worklist analysis that computes, for
  every reachable instruction, the registers assigned on all paths to it, and then checks every
  read. A set of registers is a HOL set; an unreachable instruction has the state \<open>None\<close>. Errors
  are those of \<open>vm_error\<close>: \<open>Numbered\<close> is a message with its numbers. \<open>Panic\<close> is a jump
  outside the code, which the verifier has excluded before.
\<close>

section \<open>Reads and writes of an instruction\<close>

fun written_register :: "instruction \<Rightarrow> register option" where
  "written_register (ConstSmallInt dst _) = Some dst"
| "written_register (ConstFloat dst _) = Some dst"
| "written_register (ConstBool dst _) = Some dst"
| "written_register (ConstNone dst) = Some dst"
| "written_register (LoadConstant dst _) = Some dst"
| "written_register (ConstI64 dst _) = Some dst"
| "written_register (BinaryOp dst _ _ _ _) = Some dst"
| "written_register (CompareOp dst _ _ _ _) = Some dst"
| "written_register (UnaryOp dst _ _) = Some dst"
| "written_register (BooleanOp dst _ _ _) = Some dst"
| "written_register (BuildTuple dst _) = Some dst"
| "written_register (BuildList dst _) = Some dst"
| "written_register (BuildDict dst _) = Some dst"
| "written_register (GetItem dst _ _) = Some dst"
| "written_register (GetAttr dst _ _) = Some dst"
| "written_register (GetSlice dst _ _ _ _) = Some dst"
| "written_register (ListPop dst _ _) = Some dst"
| "written_register (Length dst _) = Some dst"
| "written_register (LoadCurrentFunction dst) = Some dst"
| "written_register (Call dst _ _) = Some dst"
| "written_register (CallMethod dst _ _ _) = Some dst"
| "written_register (AddI64 dst _ _) = Some dst"
| "written_register (LtI64 dst _ _) = Some dst"
| "written_register (Move dst _) = Some dst"
| "written_register (SetItem _ _ _) = None"
| "written_register (SetAttr _ _ _) = None"
| "written_register (SetSlice _ _ _ _ _) = None"
| "written_register (ListAppend _ _) = None"
| "written_register (ListInsert _ _ _) = None"
| "written_register (Jump _) = None"
| "written_register (Branch _ _ _) = None"
| "written_register (Return _) = None"

text \<open>The registers an instruction reads, in the order of the checks, with their contexts.\<close>

definition optional_read :: "register option \<Rightarrow> string \<Rightarrow> (register \<times> string) list" where
  "optional_read r ctx = (case r of None \<Rightarrow> [] | Some r \<Rightarrow> [(r, ctx)])"

fun read_checks :: "instruction \<Rightarrow> (register \<times> string) list" where
  "read_checks (BinaryOp _ _ lhs rhs _) =
     [(lhs, ''semantic operation lhs''), (rhs, ''semantic operation rhs'')]"
| "read_checks (CompareOp _ _ lhs rhs _) =
     [(lhs, ''semantic operation lhs''), (rhs, ''semantic operation rhs'')]"
| "read_checks (UnaryOp _ _ src) = [(src, ''UnaryOp src'')]"
| "read_checks (BooleanOp _ _ lhs rhs) =
     [(lhs, ''binary operation lhs''), (rhs, ''binary operation rhs'')]"
| "read_checks (AddI64 _ lhs rhs) =
     [(lhs, ''binary operation lhs''), (rhs, ''binary operation rhs'')]"
| "read_checks (LtI64 _ lhs rhs) =
     [(lhs, ''binary operation lhs''), (rhs, ''binary operation rhs'')]"
| "read_checks (BuildTuple _ items) = map (\<lambda>r. (r, ''collection item'')) items"
| "read_checks (BuildList _ items) = map (\<lambda>r. (r, ''collection item'')) items"
| "read_checks (BuildDict _ entries) =
     concat (map (\<lambda>(k, v). [(k, ''BuildDict key''), (v, ''BuildDict value'')]) entries)"
| "read_checks (GetItem _ obj key) = [(obj, ''GetItem object''), (key, ''GetItem key'')]"
| "read_checks (GetAttr _ obj _) = [(obj, ''GetAttr object'')]"
| "read_checks (GetSlice _ obj start stop step) =
     [(obj, ''GetSlice object'')] @ optional_read start ''GetSlice start''
       @ optional_read stop ''GetSlice stop'' @ optional_read step ''GetSlice step''"
| "read_checks (SetItem obj key v) =
     [(obj, ''SetItem object''), (key, ''SetItem key''), (v, ''SetItem value'')]"
| "read_checks (SetAttr obj _ v) = [(obj, ''SetAttr object''), (v, ''SetAttr value'')]"
| "read_checks (SetSlice obj start stop step v) =
     [(obj, ''SetSlice object'')] @ optional_read start ''SetSlice start''
       @ optional_read stop ''SetSlice stop'' @ optional_read step ''SetSlice step''
       @ [(v, ''SetSlice value'')]"
| "read_checks (ListAppend list v) = [(list, ''ListAppend list''), (v, ''ListAppend value'')]"
| "read_checks (ListInsert list index v) =
     [(list, ''ListInsert list''), (index, ''ListInsert index''), (v, ''ListInsert value'')]"
| "read_checks (ListPop _ list index) = [(list, ''ListPop list''), (index, ''ListPop index'')]"
| "read_checks (Length _ obj) = [(obj, ''Length object'')]"
| "read_checks (Call _ callable args) =
     (callable, ''Call callable'') # map (\<lambda>r. (r, ''Call argument'')) args"
| "read_checks (CallMethod _ receiver _ args) =
     (receiver, ''CallMethod receiver'') # map (\<lambda>r. (r, ''CallMethod argument'')) args"
| "read_checks (Branch cond _ _) = [(cond, ''Branch cond'')]"
| "read_checks (Return src) = [(src, ''Return src'')]"
| "read_checks (Move _ src) = [(src, ''Move src'')]"
| "read_checks _ = []"

definition instr_reads :: "instruction \<Rightarrow> register set" where
  "instr_reads i = fst ` set (read_checks i)"

definition instr_writes :: "instruction \<Rightarrow> register set" where
  "instr_writes i = set_option (written_register i)"

definition verify_read :: "register set \<Rightarrow> nat \<Rightarrow> register \<times> string \<Rightarrow> vm_error + unit" where
  "verify_read assigned pc rc =
     ensure (fst rc \<in> assigned)
       (Numbered (''instruction {} '' @ snd rc @ '' reads uninitialized register r{}'')
         [int pc, uint (fst rc)])"

definition verify_reads :: "instruction \<Rightarrow> register set \<Rightarrow> nat \<Rightarrow> vm_error + unit" where
  "verify_reads i assigned pc = try_all (verify_read assigned pc) (read_checks i)"

section \<open>The worklist\<close>

type_synonym assignment = "register set option list"

definition propagate ::
  "nat \<Rightarrow> register set \<Rightarrow> assignment \<times> nat list \<Rightarrow> vm_error + assignment \<times> nat list" where
  "propagate target outgoing s =
     (case s of (incoming, worklist) \<Rightarrow>
        case get_at incoming target of
          None \<Rightarrow> Inl Panic
        | Some (Some current) \<Rightarrow>
            (let kept = current \<inter> outgoing
             in Inr (incoming[target := Some kept],
                     if card kept \<noteq> card current then worklist @ [target] else worklist))
        | Some None \<Rightarrow> Inr (incoming[target := Some outgoing], worklist @ [target]))"

text \<open>
  One round of the loop: the first entry of the worklist is taken, the registers assigned after it
  are computed and propagated to its successors, in order.
\<close>

definition assign_round ::
  "instruction list \<Rightarrow> nat \<Rightarrow> assignment \<times> nat list \<Rightarrow> vm_error + assignment \<times> nat list" where
  "assign_round prog pc s =
     (case (get_at (fst s) pc, get_at prog pc) of
        (Some (Some assigned), Some i) \<Rightarrow>
          (let outgoing = assigned \<union> instr_writes i
           in case i of
                Return _ \<Rightarrow> Inr s
              | Jump target \<Rightarrow> propagate target outgoing s
              | Branch _ yes no \<Rightarrow>
                  and_then (propagate yes outgoing s) (propagate no outgoing)
              | _ \<Rightarrow>
                  if Suc pc = length prog
                  then Inl (Numbered ''reachable path falls off after instruction {} without Return''
                    [int pc])
                  else propagate (Suc pc) outgoing s)
      | (Some None, _) \<Rightarrow>
          Inl (Numbered ''instruction {} has no incoming assignment state'' [int pc])
      | _ \<Rightarrow> Inl Panic)"

text \<open>
  The loop ends: a state is only ever replaced by one with fewer registers (or by a first state),
  and an entry is added to the worklist only then. The weight counts both.
\<close>

definition state_weight :: "register set option \<Rightarrow> nat" where
  "state_weight s = (case s of None \<Rightarrow> 2 * (2 ^ 16 + 1) | Some assigned \<Rightarrow> 2 * card assigned)"

definition worklist_weight :: "assignment \<times> nat list \<Rightarrow> nat" where
  "worklist_weight s = sum_list (map state_weight (fst s)) + length (snd s)"

lemma card_registers: "card (A :: register set) \<le> 2 ^ 16"
proof -
  have "card A \<le> card (UNIV :: register set)" by (intro card_mono) auto
  then show ?thesis by (simp add: card_word)
qed

lemma sum_list_update_nat:
  "n < length xs \<Longrightarrow> sum_list (map f (xs[n := x])) + f (xs ! n) = sum_list (map f xs) + (f x :: nat)"
  by (induction xs arbitrary: n) (auto split: nat.split simp: nth_Cons)

lemma propagate_weight:
  assumes "propagate target outgoing s = Inr t"
  shows "worklist_weight t \<le> worklist_weight s"
proof -
  obtain incoming worklist where s: "s = (incoming, worklist)" by fastforce
  from assms have target: "target < length incoming" by (auto simp: propagate_def s split: option.splits)
  note update = sum_list_update_nat [OF target, of state_weight]
  show ?thesis
  proof (cases "incoming ! target")
    case None
    then have t: "t = (incoming[target := Some outgoing], worklist @ [target])"
      using assms target by (simp add: propagate_def s get_at_def)
    show ?thesis using update [of "Some outgoing"] card_registers [of outgoing]
      by (simp add: t s worklist_weight_def state_weight_def None)
  next
    case (Some current)
    let ?kept = "current \<inter> outgoing"
    have le: "card ?kept \<le> card current" by (intro card_mono) auto
    have t: "t = (incoming[target := Some ?kept],
        if card ?kept \<noteq> card current then worklist @ [target] else worklist)"
      using assms target Some by (simp add: propagate_def s get_at_def Let_def)
    show ?thesis using update [of "Some ?kept"] le
      by (auto simp: t s worklist_weight_def state_weight_def Some)
  qed
qed

lemma assign_round_weight:
  "assign_round prog pc s = Inr t \<Longrightarrow> worklist_weight t \<le> worklist_weight s"
  by (auto simp: assign_round_def Let_def and_then_Inr_iff
      split: option.splits instruction.splits if_splits dest!: propagate_weight)

function assign_loop :: "instruction list \<Rightarrow> assignment \<Rightarrow> nat list \<Rightarrow> vm_error + assignment" where
  "assign_loop prog incoming [] = Inr incoming"
| "assign_loop prog incoming (pc # rest) =
     (case assign_round prog pc (incoming, rest) of
        Inl e \<Rightarrow> Inl e
      | Inr (incoming', worklist) \<Rightarrow> assign_loop prog incoming' worklist)"
  by pat_completeness auto
termination
  by (relation "measure (\<lambda>(prog, incoming, worklist). worklist_weight (incoming, worklist))")
     (auto dest!: assign_round_weight simp: worklist_weight_def)

definition check_reads :: "instruction list \<Rightarrow> assignment \<Rightarrow> vm_error + unit" where
  "check_reads prog incoming =
     try_all (\<lambda>(pc, state).
         case state of
           None \<Rightarrow> Inr ()
         | Some assigned \<Rightarrow> verify_reads (prog ! pc) assigned pc)
       (List.enumerate 0 incoming)"

text \<open>The states of all instructions, from the registers assigned at the entry.\<close>

definition assign_states :: "instruction list \<Rightarrow> register set \<Rightarrow> vm_error + assignment" where
  "assign_states prog entry =
     (if prog = [] then Inl (Msg ''function has no Return instruction'')
      else assign_loop prog ((replicate (length prog) None)[0 := Some entry]) [0])"

definition parameter_registers :: "executable \<Rightarrow> register set" where
  "parameter_registers f = set (map param_register (exec_parameters f))"

definition verify_definite_assignment :: "executable \<Rightarrow> vm_error + unit" where
  "verify_definite_assignment f =
     and_then (assign_states (exec_code f) (parameter_registers f)) (check_reads (exec_code f))"

end
