(* ===== verification/Definite_Assignment_Laws.thy ===== *)
theory Definite_Assignment_Laws
  imports Definite_Assignment
begin

text \<open>
  The definite-assignment check is exact: it accepts a function precisely when, on every path of
  its control-flow graph, every instruction finds the registers it reads assigned and control
  never runs off the end. Its result is used by the virtual machine through the interface of a
  must-analysis.
\<close>

section \<open>Paths\<close>

text \<open>\<open>assigned_path prog E pc A\<close>: some path from the entry reaches \<open>pc\<close> having assigned \<open>A\<close>.\<close>

inductive assigned_path :: "instruction list \<Rightarrow> register set \<Rightarrow> nat \<Rightarrow> register set \<Rightarrow> bool"
  for prog entry where
  path_entry: "assigned_path prog entry 0 entry"
| path_step: "assigned_path prog entry pc A \<Longrightarrow> pc < length prog \<Longrightarrow> q \<in> set (successors (prog ! pc) pc)
    \<Longrightarrow> assigned_path prog entry q (A \<union> instr_writes (prog ! pc))"

section \<open>Must-analyses\<close>

text \<open>
  What a client relies on: a successful run answers a state per instruction that holds at the
  entry and is closed under the edges. Along every path the state is then defined and contains
  only assigned registers.
\<close>

locale must_analysis =
  fixes run :: "'c \<Rightarrow> 'r set \<Rightarrow> 'e + 'r set option list"
    and succs :: "'c \<Rightarrow> nat \<Rightarrow> nat list"
    and gen :: "'c \<Rightarrow> nat \<Rightarrow> 'r set"
    and path :: "'c \<Rightarrow> 'r set \<Rightarrow> nat \<Rightarrow> 'r set \<Rightarrow> bool"
  assumes run_entry: "run c E = Inr states \<Longrightarrow> \<exists>S. get_at states 0 = Some (Some S) \<and> S \<subseteq> E"
    and run_edge: "run c E = Inr states \<Longrightarrow> get_at states pc = Some (Some S) \<Longrightarrow> q \<in> set (succs c pc)
      \<Longrightarrow> \<exists>T. get_at states q = Some (Some T) \<and> T \<subseteq> S \<union> gen c pc"
    and path_induct: "path c E q B \<Longrightarrow> P 0 E \<Longrightarrow>
      (\<And>pc A q. path c E pc A \<Longrightarrow> P pc A \<Longrightarrow> q \<in> set (succs c pc) \<Longrightarrow> P q (A \<union> gen c pc)) \<Longrightarrow> P q B"
begin

lemma covers:
  assumes run: "run c E = Inr states" and "path c E pc A"
  shows "\<exists>S. get_at states pc = Some (Some S) \<and> S \<subseteq> A"
proof (rule path_induct [OF assms(2), of "\<lambda>pc A. \<exists>S. get_at states pc = Some (Some S) \<and> S \<subseteq> A"])
  show "\<exists>S. get_at states 0 = Some (Some S) \<and> S \<subseteq> E" using run_entry [OF run] .
  show "\<exists>S. get_at states q = Some (Some S) \<and> S \<subseteq> A \<union> gen c pc"
    if "\<exists>S. get_at states pc = Some (Some S) \<and> S \<subseteq> A" and "q \<in> set (succs c pc)" for pc A q
    using that run_edge [OF run] by blast
qed

text \<open>A set that covers the state before an instruction covers it after.\<close>

lemma stays_covered:
  assumes "run c E = Inr states" and "get_at states pc = Some (Some S)" and "S \<subseteq> B"
    and "q \<in> set (succs c pc)"
  shows "\<exists>T. get_at states q = Some (Some T) \<and> T \<subseteq> B \<union> gen c pc"
  using run_edge [OF assms(1,2,4)] assms(3) by blast

end

section \<open>The worklist\<close>

lemma propagate_Inr:
  assumes "propagate q outgoing (inc, wl) = Inr (inc', wl')"
  obtains T where "q < length inc" and "inc' = inc[q := Some T]" and "T \<subseteq> outgoing"
    and "set wl \<subseteq> set wl'" and "inc ! q = Some T \<or> q \<in> set wl'"
    and "T = (case inc ! q of None \<Rightarrow> outgoing | Some S \<Rightarrow> S \<inter> outgoing)"
proof -
  have q: "q < length inc" using assms by (auto simp: propagate_def split: option.splits)
  show thesis
  proof (cases "inc ! q")
    case None
    then show thesis using assms q by (intro that [of outgoing]) (auto simp: propagate_def get_at_def)
  next
    case (Some S)
    have "S \<inter> outgoing = S" if "card (S \<inter> outgoing) = card S"
      using that card_subset_eq [of S "S \<inter> outgoing"] by auto
    then show thesis using assms q Some
      by (intro that [of "S \<inter> outgoing"]) (auto simp: propagate_def get_at_def Let_def split: if_splits)
  qed
qed

lemma assign_round_successors:
  assumes "assign_round prog pc s = Inr t"
  obtains S where "pc < length (fst s)" and "pc < length prog" and "fst s ! pc = Some S"
    and "try_fold (\<lambda>s q. propagate q (S \<union> instr_writes (prog ! pc)) s) s (successors (prog ! pc) pc) = Inr t"
proof -
  from assms obtain S where S: "pc < length (fst s)" "pc < length prog" "fst s ! pc = Some S"
    by (auto simp: assign_round_def split: option.splits)
  have "try_fold (\<lambda>s q. propagate q (S \<union> instr_writes (prog ! pc)) s) s (successors (prog ! pc) pc) = Inr t"
    using assms S
    by (cases t; cases "prog ! pc")
       (auto simp: assign_round_def get_at_def Let_def and_then_Inr_iff split: if_splits)
  with S show thesis by (rule that)
qed

text \<open>
  The loop invariant. States shrink only; every edge out of an instruction that is neither on the
  worklist nor being processed holds; and every register missing from a state is unassigned on
  some path.
\<close>

definition edge_holds :: "instruction list \<Rightarrow> assignment \<Rightarrow> nat \<Rightarrow> nat \<Rightarrow> bool" where
  "edge_holds prog inc pc q \<longleftrightarrow>
     (\<exists>S T. inc ! pc = Some S \<and> q < length inc \<and> inc ! q = Some T \<and> T \<subseteq> S \<union> instr_writes (prog ! pc))"

definition exact_state :: "instruction list \<Rightarrow> register set \<Rightarrow> nat \<Rightarrow> register set \<Rightarrow> bool" where
  "exact_state prog E pc S \<longleftrightarrow>
     (\<exists>A. assigned_path prog E pc A) \<and> (\<forall>r. r \<notin> S \<longrightarrow> (\<exists>A. assigned_path prog E pc A \<and> r \<notin> A))"

definition loop_inv ::
  "instruction list \<Rightarrow> register set \<Rightarrow> nat set \<Rightarrow> assignment \<times> nat list \<Rightarrow> bool" where
  "loop_inv prog E open_pcs s \<longleftrightarrow>
     length (fst s) = length prog \<and> 0 < length prog
     \<and> (\<exists>S. fst s ! 0 = Some S \<and> S \<subseteq> E)
     \<and> (\<forall>pc < length prog. \<forall>S. fst s ! pc = Some S \<longrightarrow> exact_state prog E pc S)
     \<and> (\<forall>pc < length prog. fst s ! pc \<noteq> None \<longrightarrow> pc \<notin> set (snd s) \<longrightarrow> pc \<notin> open_pcs \<longrightarrow>
          (\<forall>q \<in> set (successors (prog ! pc) pc). edge_holds prog (fst s) pc q))"

lemma exact_state_step:
  assumes "exact_state prog E pc S" and "pc < length prog" and "q \<in> set (successors (prog ! pc) pc)"
  shows "exact_state prog E q (S \<union> instr_writes (prog ! pc))"
  using assms path_step [OF _ assms(2,3)] unfolding exact_state_def by (metis Un_iff)

lemma exact_state_Int: "exact_state prog E q S \<Longrightarrow> exact_state prog E q T \<Longrightarrow> exact_state prog E q (S \<inter> T)"
  by (auto simp: exact_state_def)

lemma edge_holds_update:
  assumes "edge_holds prog inc pc q" and "\<And>S. inc ! p = Some S \<Longrightarrow> T \<subseteq> S" and "p < length inc"
    and "inc ! pc = Some S" "inc[p := Some T] ! pc = Some S"
  shows "edge_holds prog (inc[p := Some T]) pc q"
  using assms by (cases "p = q") (fastforce simp: edge_holds_def nth_list_update)+

lemma propagate_inv:
  assumes inv: "loop_inv prog E O1 (inc, wl)" and step: "propagate q outgoing (inc, wl) = Inr (inc', wl')"
    and exact: "exact_state prog E q outgoing"
  shows "loop_inv prog E O1 (inc', wl')"
proof -
  from step obtain T where q: "q < length inc" and inc': "inc' = inc[q := Some T]"
    and "T \<subseteq> outgoing" and wl: "set wl \<subseteq> set wl'" and changed: "inc ! q = Some T \<or> q \<in> set wl'"
    and T: "T = (case inc ! q of None \<Rightarrow> outgoing | Some S \<Rightarrow> S \<inter> outgoing)"
    by (rule propagate_Inr)
  have shrink: "T \<subseteq> S" if "inc ! q = Some S" for S using that by (simp add: T)
  note I = inv [unfolded loop_inv_def fst_conv snd_conv]
  have "exact_state prog E q T"
    using T exact I q by (cases "inc ! q") (auto intro: exact_state_Int)
  then have states: "\<forall>pc < length prog. \<forall>S. inc' ! pc = Some S \<longrightarrow> exact_state prog E pc S"
    using I q by (auto simp: inc' nth_list_update)
  have edges: "edge_holds prog inc' pc p"
    if pc: "pc < length prog" "inc' ! pc \<noteq> None" "pc \<notin> set wl'" "pc \<notin> O1"
      "p \<in> set (successors (prog ! pc) pc)" for pc p
  proof -
    have same: "inc' ! pc = inc ! pc" using changed pc(3) q by (auto simp: inc' nth_list_update)
    then obtain S where S: "inc ! pc = Some S" using pc(2) by auto
    have "edge_holds prog inc pc p" using I pc wl S by auto
    then show ?thesis
      using edge_holds_update [of prog inc pc p q T S] shrink q S same by (simp add: inc')
  qed
  have "\<exists>S. inc' ! 0 = Some S \<and> S \<subseteq> E"
    using I shrink q by (cases "q = 0") (fastforce simp: inc' nth_list_update)+
  then show ?thesis using I states edges by (auto simp: loop_inv_def inc')
qed

text \<open>States only shrink along a run of propagations, and a changed one is on the worklist.\<close>

definition narrows :: "assignment \<times> nat list \<Rightarrow> assignment \<times> nat list \<Rightarrow> bool" where
  "narrows s t \<longleftrightarrow> length (fst s) = length (fst t) \<and> set (snd s) \<subseteq> set (snd t)
     \<and> (\<forall>p. fst s ! p = fst t ! p \<or> p \<in> set (snd t))
     \<and> (\<forall>p S. fst s ! p = Some S \<longrightarrow> (\<exists>T \<subseteq> S. fst t ! p = Some T))"

lemma narrows_refl: "narrows s s"
  by (auto simp: narrows_def)

lemma narrows_state:
  "narrows s t \<Longrightarrow> fst s ! p = Some S \<Longrightarrow> S \<subseteq> X \<Longrightarrow> \<exists>T \<subseteq> X. fst t ! p = Some T"
  unfolding narrows_def by (meson subset_trans)

lemma narrows_trans:
  assumes "narrows s t" and "narrows t u"
  shows "narrows s u"
proof -
  have "\<exists>T \<subseteq> S. fst u ! p = Some T" if S: "fst s ! p = Some S" for p S
  proof -
    obtain T where "T \<subseteq> S" "fst t ! p = Some T" using assms(1) S unfolding narrows_def by blast
    then show ?thesis using narrows_state [OF assms(2)] by blast
  qed
  moreover have "fst s ! p = fst u ! p \<or> p \<in> set (snd u)" for p
  proof (cases "p \<in> set (snd t)")
    case True
    then show ?thesis using assms(2) by (auto simp: narrows_def)
  next
    case False
    then have "fst s ! p = fst t ! p" using assms(1) by (auto simp: narrows_def)
    then show ?thesis using assms(2) by (simp add: narrows_def)
  qed
  ultimately show ?thesis using assms by (auto simp: narrows_def)
qed

lemma propagate_narrows:
  assumes "propagate q outgoing s = Inr t"
  shows "narrows s t \<and> q < length (fst t) \<and> (\<exists>T \<subseteq> outgoing. fst t ! q = Some T)"
proof -
  obtain inc wl inc' wl' where st: "s = (inc, wl)" "t = (inc', wl')" by fastforce
  from assms obtain T where q: "q < length inc" and inc': "inc' = inc[q := Some T]"
    and sub: "T \<subseteq> outgoing" and wl: "set wl \<subseteq> set wl'" and changed: "inc ! q = Some T \<or> q \<in> set wl'"
    and T: "T = (case inc ! q of None \<Rightarrow> outgoing | Some S \<Rightarrow> S \<inter> outgoing)"
    unfolding st by (rule propagate_Inr)
  have "\<exists>U \<subseteq> S. inc' ! p = Some U" if "inc ! p = Some S" for p S
    using that T q by (cases "p = q") (auto simp: inc')
  moreover have "inc ! p = inc' ! p \<or> p \<in> set wl'" for p
    using changed q by (cases "p = q") (auto simp: inc')
  moreover have "inc' ! q = Some T" using q by (simp add: inc')
  ultimately show ?thesis using q sub wl by (simp add: narrows_def st inc')
qed

text \<open>Propagating to all successors of \<open>pc\<close>, with \<open>pc\<close> open.\<close>

lemma propagate_all_inv:
  assumes "try_fold (\<lambda>s q. propagate q outgoing s) s qs = Inr t" and "loop_inv prog E {pc} s"
    and "\<And>q. q \<in> set qs \<Longrightarrow> exact_state prog E q outgoing"
  shows "loop_inv prog E {pc} t \<and> narrows s t
    \<and> (\<forall>q \<in> set qs. q < length (fst t) \<and> (\<exists>T \<subseteq> outgoing. fst t ! q = Some T))"
  using assms
proof (induction qs arbitrary: s)
  case Nil
  then show ?case by (simp add: narrows_refl)
next
  case (Cons q qs)
  from Cons.prems(1) obtain u where u: "propagate q outgoing s = Inr u"
    and rest: "try_fold (\<lambda>s q. propagate q outgoing s) u qs = Inr t" by (auto simp: and_then_Inr_iff)
  have inv: "loop_inv prog E {pc} u"
    using propagate_inv [of prog E "{pc}" "fst s" "snd s" q outgoing "fst u" "snd u"] Cons.prems u by simp
  have "exact_state prog E p outgoing" if "p \<in> set qs" for p using Cons.prems(3) that by simp
  note IH = Cons.IH [OF rest inv this]
  note step = propagate_narrows [OF u]
  obtain T where T: "fst u ! q = Some T" "T \<subseteq> outgoing"
    using step [THEN conjunct2, THEN conjunct2] by (elim exE conjE) (rule that)
  have "\<exists>T \<subseteq> outgoing. fst t ! q = Some T"
    using narrows_state [OF IH [THEN conjunct2, THEN conjunct1] T] .
  moreover have "q < length (fst t)" using IH step by (simp add: narrows_def)
  moreover have "narrows s t" using IH step narrows_trans by blast
  ultimately show ?case using IH by simp
qed

lemma assign_round_inv:
  assumes round: "assign_round prog pc (inc, rest) = Inr t" and inv: "loop_inv prog E {} (inc, pc # rest)"
  shows "loop_inv prog E {} t"
proof -
  from round obtain S where pc: "pc < length inc" "pc < length prog" and S: "inc ! pc = Some S"
    and fold: "try_fold (\<lambda>s q. propagate q (S \<union> instr_writes (prog ! pc)) s) (inc, rest)
      (successors (prog ! pc) pc) = Inr t"
    by (elim assign_round_successors) simp
  have open_inv: "loop_inv prog E {pc} (inc, rest)" using inv by (auto simp: loop_inv_def)
  have "exact_state prog E pc S" using inv pc S by (simp add: loop_inv_def)
  then have "exact_state prog E q (S \<union> instr_writes (prog ! pc))"
    if "q \<in> set (successors (prog ! pc) pc)" for q
    using exact_state_step pc that by blast
  note all = propagate_all_inv [OF fold open_inv this]
  have "edge_holds prog (fst t) pc q"
    if "q \<in> set (successors (prog ! pc) pc)" and "pc \<notin> set (snd t)" for q
  proof -
    have "fst t ! pc = Some S" using all that(2) S unfolding narrows_def by (metis fst_conv)
    then show ?thesis using all that(1) unfolding edge_holds_def by blast
  qed
  then show ?thesis using all by (auto simp: loop_inv_def)
qed

lemma assign_loop_inv:
  assumes "assign_loop prog inc wl = Inr states" and "loop_inv prog E {} (inc, wl)"
  shows "loop_inv prog E {} (states, [])"
  using assms
proof (induction prog inc wl rule: assign_loop.induct)
  case (2 prog inc pc rest)
  from "2.prems"(1) obtain inc' wl' where r: "assign_round prog pc (inc, rest) = Inr (inc', wl')"
    and l: "assign_loop prog inc' wl' = Inr states" by (auto split: sum.splits)
  show ?case using "2.IH" [OF r refl l] assign_round_inv [OF r "2.prems"(2)] by blast
qed simp

lemma initial_inv:
  assumes "prog \<noteq> []"
  shows "loop_inv prog E {} ((replicate (length prog) None)[0 := Some E], [0])"
proof -
  have "exact_state prog E 0 E" using path_entry by (auto simp: exact_state_def)
  then show ?thesis using assms by (auto simp: loop_inv_def nth_list_update)
qed

lemma assign_states_inv: "assign_states prog E = Inr states \<Longrightarrow> loop_inv prog E {} (states, [])"
  by (rule assign_loop_inv [OF _ initial_inv]) (simp_all add: assign_states_def split: if_splits)

section \<open>The analysis as a must-analysis\<close>

definition code_successors :: "instruction list \<Rightarrow> nat \<Rightarrow> nat list" where
  "code_successors prog pc = (if pc < length prog then successors (prog ! pc) pc else [])"

interpretation assigned:
  must_analysis assign_states code_successors "\<lambda>prog pc. instr_writes (prog ! pc)" assigned_path
proof unfold_locales
  fix prog E states
  assume "assign_states prog E = Inr states"
  note inv = assign_states_inv [OF this]
  show "\<exists>S. get_at states 0 = Some (Some S) \<and> S \<subseteq> E" using inv by (auto simp: loop_inv_def get_at_def)
  fix pc S q
  assume "get_at states pc = Some (Some S)" and "q \<in> set (code_successors prog pc)"
  then have "edge_holds prog states pc q" "states ! pc = Some S"
    using inv by (auto simp: loop_inv_def code_successors_def split: if_splits)
  then show "\<exists>T. get_at states q = Some (Some T) \<and> T \<subseteq> S \<union> instr_writes (prog ! pc)"
    by (auto simp: edge_holds_def)
next
  fix prog E q B and P :: "nat \<Rightarrow> register set \<Rightarrow> bool"
  assume "assigned_path prog E q B" "P 0 E"
    "\<And>pc A q. assigned_path prog E pc A \<Longrightarrow> P pc A \<Longrightarrow> q \<in> set (code_successors prog pc)
      \<Longrightarrow> P q (A \<union> instr_writes (prog ! pc))"
  then show "P q B" by (induction rule: assigned_path.induct) (auto simp: code_successors_def)
qed

section \<open>Exactness of the check\<close>

definition definitely_assigned :: "instruction list \<Rightarrow> register set \<Rightarrow> bool" where
  "definitely_assigned prog E \<longleftrightarrow>
     (\<forall>pc A. assigned_path prog E pc A \<longrightarrow> pc < length prog \<and> instr_reads (prog ! pc) \<subseteq> A)"

lemma verify_reads_iff: "verify_reads i A pc = Inr u \<longleftrightarrow> instr_reads i \<subseteq> A"
  by (auto simp: verify_reads_def verify_read_def instr_reads_def try_all_Inr_iff)

lemma check_reads_iff:
  "check_reads prog states = Inr u \<longleftrightarrow>
     (\<forall>pc < length states. \<forall>S. states ! pc = Some S \<longrightarrow> instr_reads (prog ! pc) \<subseteq> S)"
  by (fastforce simp: check_reads_def try_all_Inr_iff in_set_enumerate_eq verify_reads_iff
      split: option.splits prod.splits)

lemma assign_round_total:
  assumes "length inc = length prog" and "pc < length prog" and "inc ! pc = Some S"
    and "\<And>q. q \<in> set (successors (prog ! pc) pc) \<Longrightarrow> q < length prog"
  shows "\<exists>t. assign_round prog pc (inc, rest) = Inr t"
  using assms
  by (cases "prog ! pc")
     (auto simp: assign_round_def get_at_def propagate_def Let_def split: option.splits)

definition worklist_ok :: "assignment \<times> nat list \<Rightarrow> bool" where
  "worklist_ok s \<longleftrightarrow> (\<forall>pc \<in> set (snd s). pc < length (fst s) \<and> fst s ! pc \<noteq> None)"

lemma propagate_worklist_ok: "propagate q outgoing s = Inr t \<Longrightarrow> worklist_ok s \<Longrightarrow> worklist_ok t"
  by (auto simp: propagate_def worklist_ok_def nth_list_update Let_def
      split: prod.splits option.splits if_splits)

lemma assign_round_worklist_ok:
  assumes "assign_round prog pc s = Inr t" and "worklist_ok s"
  shows "worklist_ok t"
proof -
  from assms(1) obtain S where
    "try_fold (\<lambda>s q. propagate q (S \<union> instr_writes (prog ! pc)) s) s (successors (prog ! pc) pc) = Inr t"
    by (rule assign_round_successors)
  then show ?thesis using assms(2) by (rule try_fold_inv) (rule propagate_worklist_ok)
qed

lemma assign_loop_total:
  assumes "loop_inv prog E {} (inc, wl)" and "worklist_ok (inc, wl)"
    and "\<And>pc A. assigned_path prog E pc A \<Longrightarrow> pc < length prog"
  shows "\<exists>states. assign_loop prog inc wl = Inr states"
  using assms
proof (induction prog inc wl rule: assign_loop.induct)
  case (2 prog inc pc rest)
  obtain S where S: "inc ! pc = Some S" "pc < length prog" "length inc = length prog"
    using "2.prems"(1,2) by (auto simp: worklist_ok_def loop_inv_def)
  have "exact_state prog E pc S" using "2.prems"(1) S by (simp add: loop_inv_def)
  then obtain A where A: "assigned_path prog E pc A" by (auto simp: exact_state_def)
  have "q < length prog" if "q \<in> set (successors (prog ! pc) pc)" for q
    using "2.prems"(3) path_step [OF A S(2) that] by blast
  then obtain t where t: "assign_round prog pc (inc, rest) = Inr t"
    using assign_round_total [OF S(3,2,1)] by blast
  obtain inc' wl' where t': "t = (inc', wl')" by fastforce
  have ok: "worklist_ok (inc, rest)" using "2.prems"(2) by (simp add: worklist_ok_def)
  have "\<exists>states. assign_loop prog inc' wl' = Inr states"
    by (rule "2.IH" [OF t t' [symmetric] assign_round_inv [OF t "2.prems"(1), unfolded t']
      assign_round_worklist_ok [OF t ok, unfolded t']]) (rule "2.prems"(3))
  then show ?case using t t' by simp
qed simp

lemma definite_assignment_sound:
  assumes "verify_definite_assignment f = Inr ()"
  shows "definitely_assigned (exec_code f) (parameter_registers f)"
  unfolding definitely_assigned_def
proof (intro allI impI)
  fix pc A
  assume path: "assigned_path (exec_code f) (parameter_registers f) pc A"
  from assms obtain states where run: "assign_states (exec_code f) (parameter_registers f) = Inr states"
    and reads: "check_reads (exec_code f) states = Inr ()"
    by (auto simp: verify_definite_assignment_def and_then_Inr_iff)
  obtain S where S: "get_at states pc = Some (Some S)" "S \<subseteq> A" using assigned.covers [OF run path] by blast
  have "length states = length (exec_code f)" using assign_states_inv [OF run] by (simp add: loop_inv_def)
  then show "pc < length (exec_code f) \<and> instr_reads (exec_code f ! pc) \<subseteq> A"
    using S reads by (auto simp: check_reads_iff)
qed

lemma definite_assignment_complete:
  assumes safe: "definitely_assigned (exec_code f) (parameter_registers f)"
  shows "verify_definite_assignment f = Inr ()"
proof -
  let ?prog = "exec_code f" and ?E = "parameter_registers f"
  have range: "pc < length ?prog" if "assigned_path ?prog ?E pc A" for pc A
    using safe that by (auto simp: definitely_assigned_def)
  have nonempty: "?prog \<noteq> []" using range [OF path_entry] by auto
  have "worklist_ok ((replicate (length ?prog) None)[0 := Some ?E], [0])"
    using nonempty by (simp add: worklist_ok_def)
  then have "\<exists>states. assign_loop ?prog ((replicate (length ?prog) None)[0 := Some ?E]) [0] = Inr states"
    by (rule assign_loop_total [OF initial_inv [OF nonempty]]) (rule range)
  then obtain states where run: "assign_states ?prog ?E = Inr states"
    using nonempty by (auto simp: assign_states_def simp del: assign_loop.simps)
  have "instr_reads (?prog ! pc) \<subseteq> S" if "pc < length states" "states ! pc = Some S" for pc S
  proof
    fix r
    assume r: "r \<in> instr_reads (?prog ! pc)"
    have "exact_state ?prog ?E pc S" using assign_states_inv [OF run] that by (simp add: loop_inv_def)
    then show "r \<in> S" using safe r by (fastforce simp: exact_state_def definitely_assigned_def)
  qed
  then show ?thesis using run by (simp add: verify_definite_assignment_def check_reads_iff)
qed

text \<open>
  C2. The definite-assignment check decides its specification: it accepts a function exactly when
  every path of the control-flow graph from the entry, with the parameters assigned, stays inside
  the code and finds every register assigned that the instruction it reaches reads. It always
  terminates.
\<close>

theorem definite_assignment_exact:
  "verify_definite_assignment f = Inr () \<longleftrightarrow>
     definitely_assigned (exec_code f) (parameter_registers f)"
  using definite_assignment_sound definite_assignment_complete by blast

end
