(* ===== verification/Verifier.thy ===== *)
theory Verifier
  imports Definite_Assignment
begin

text \<open>
  The bytecode verifier (\<open>verifier.rs\<close>, \<open>verifier/structure.rs\<close>, \<open>structure_map/verify.rs\<close>):
  registers, constants, jump targets and operation sites of every instruction, the structure map
  (value and instruction facts, basic blocks, regions and loops), then definite assignment. A
  message is \<open>Numbered\<close> with its numbers in order of appearance; hash sets are HOL sets. The
  memoised result of the source is the function itself here.
\<close>

section \<open>Registers and targets\<close>

definition MAX_REGISTER_COUNT :: nat where "MAX_REGISTER_COUNT = 2 ^ 16"

definition verify_register :: "wfunction \<Rightarrow> nat \<Rightarrow> register \<times> string \<Rightarrow> vm_error + unit" where
  "verify_register f pc rc =
     ensure (unat (fst rc) < register_count f)
       (Numbered (''instruction {} '' @ snd rc @ '' uses invalid register r{}'')
         [int pc, uint (fst rc)])"

definition verify_target :: "wfunction \<Rightarrow> nat \<Rightarrow> string \<Rightarrow> nat \<Rightarrow> vm_error + unit" where
  "verify_target f pc ctx target =
     ensure (target < length (code f))
       (Numbered (''instruction {} '' @ ctx @ '' has invalid target {}'') [int pc, int target])"

text \<open>The register operands of an instruction, in the order of the checks, with their contexts.\<close>

fun register_checks :: "instruction \<Rightarrow> (register \<times> string) list" where
  "register_checks (ConstSmallInt dst _) = [(dst, ''constant dst'')]"
| "register_checks (ConstFloat dst _) = [(dst, ''constant dst'')]"
| "register_checks (ConstBool dst _) = [(dst, ''constant dst'')]"
| "register_checks (ConstNone dst) = [(dst, ''constant dst'')]"
| "register_checks (ConstI64 dst _) = [(dst, ''constant dst'')]"
| "register_checks (LoadCurrentFunction dst) = [(dst, ''constant dst'')]"
| "register_checks (LoadConstant dst _) = [(dst, ''LoadConstant dst'')]"
| "register_checks (BinaryOp dst _ lhs rhs _) =
     [(dst, ''semantic operation dst''), (lhs, ''semantic operation lhs''),
      (rhs, ''semantic operation rhs'')]"
| "register_checks (CompareOp dst _ lhs rhs _) =
     [(dst, ''semantic operation dst''), (lhs, ''semantic operation lhs''),
      (rhs, ''semantic operation rhs'')]"
| "register_checks (UnaryOp dst _ src) = [(dst, ''UnaryOp dst''), (src, ''UnaryOp src'')]"
| "register_checks (BooleanOp dst _ lhs rhs) =
     [(dst, ''binary operation dst''), (lhs, ''binary operation lhs''), (rhs, ''binary operation rhs'')]"
| "register_checks (AddI64 dst lhs rhs) =
     [(dst, ''binary operation dst''), (lhs, ''binary operation lhs''), (rhs, ''binary operation rhs'')]"
| "register_checks (LtI64 dst lhs rhs) =
     [(dst, ''binary operation dst''), (lhs, ''binary operation lhs''), (rhs, ''binary operation rhs'')]"
| "register_checks (BuildTuple dst items) =
     (dst, ''collection dst'') # map (\<lambda>r. (r, ''collection item'')) items"
| "register_checks (BuildList dst items) =
     (dst, ''collection dst'') # map (\<lambda>r. (r, ''collection item'')) items"
| "register_checks (BuildDict dst entries) =
     (dst, ''BuildDict dst'')
       # concat (map (\<lambda>(k, v). [(k, ''BuildDict key''), (v, ''BuildDict value'')]) entries)"
| "register_checks (GetItem dst obj key) =
     [(dst, ''GetItem dst''), (obj, ''GetItem object''), (key, ''GetItem key'')]"
| "register_checks (GetAttr dst obj _) = [(dst, ''GetAttr dst''), (obj, ''GetAttr object'')]"
| "register_checks (GetSlice dst obj start stop step) =
     [(dst, ''GetSlice dst''), (obj, ''GetSlice object'')] @ optional_read start ''GetSlice start''
       @ optional_read stop ''GetSlice stop'' @ optional_read step ''GetSlice step''"
| "register_checks (SetItem obj key v) =
     [(obj, ''SetItem object''), (key, ''SetItem key''), (v, ''SetItem value'')]"
| "register_checks (SetAttr obj _ v) = [(obj, ''SetAttr object''), (v, ''SetAttr value'')]"
| "register_checks (SetSlice obj start stop step v) =
     [(obj, ''SetSlice object'')] @ optional_read start ''SetSlice start''
       @ optional_read stop ''SetSlice stop'' @ optional_read step ''SetSlice step''
       @ [(v, ''SetSlice value'')]"
| "register_checks (ListAppend list v) = [(list, ''ListAppend list''), (v, ''ListAppend value'')]"
| "register_checks (ListInsert list index v) =
     [(list, ''ListInsert list''), (index, ''ListInsert index''), (v, ''ListInsert value'')]"
| "register_checks (ListPop dst list index) =
     [(dst, ''ListPop dst''), (list, ''ListPop list''), (index, ''ListPop index'')]"
| "register_checks (Length dst obj) = [(dst, ''Length dst''), (obj, ''Length object'')]"
| "register_checks (Call dst callable args) =
     [(dst, ''Call dst''), (callable, ''Call callable'')] @ map (\<lambda>r. (r, ''Call argument'')) args"
| "register_checks (CallMethod dst receiver _ args) =
     [(dst, ''CallMethod dst''), (receiver, ''CallMethod receiver'')]
       @ map (\<lambda>r. (r, ''CallMethod argument'')) args"
| "register_checks (Jump _) = []"
| "register_checks (Branch cond _ _) = [(cond, ''Branch cond'')]"
| "register_checks (Return src) = [(src, ''Return src'')]"
| "register_checks (Move dst src) = [(dst, ''Move dst''), (src, ''Move src'')]"

definition verify_operation_site :: "executable \<Rightarrow> operation_site_id \<Rightarrow> nat \<Rightarrow> vm_error + unit" where
  "verify_operation_site f site pc =
     and_then (ok_or (sm_operation_site (exec_map f) site)
         (Numbered ''instruction {} references unknown operation site {}''
           [int pc, int (site_index site)])) (\<lambda>metadata.
       ensure (site_pc metadata = pc)
         (Numbered ''operation site {} belongs to pc {}, not instruction {}''
           [int (site_index site), int (site_pc metadata), int pc]))"

text \<open>
  One instruction of the loop: its registers, then what else it names; the set of operation sites
  used so far is threaded through.
\<close>

definition use_operation_site ::
  "executable \<Rightarrow> nat \<Rightarrow> operation_site_id set \<Rightarrow> operation_site_id
    \<Rightarrow> vm_error + operation_site_id set" where
  "use_operation_site f pc used site =
     and_then (verify_operation_site f site pc) (\<lambda>_.
       if site \<in> used
       then Inl (Numbered ''operation site {} is referenced by more than one instruction''
         [int (site_index site)])
       else Inr (insert site used))"

definition verify_extra ::
  "executable \<Rightarrow> operation_site_id set \<Rightarrow> nat \<Rightarrow> instruction \<Rightarrow> vm_error + operation_site_id set" where
  "verify_extra f used pc i =
     (case i of
        LoadConstant _ constant \<Rightarrow>
          (case constant of ConstantId n \<Rightarrow>
             if length (exec_constants f) \<le> n
             then Inl (Numbered ''instruction {} LoadConstant uses invalid constant {}''
               [int pc, int n])
             else Inr used)
      | BinaryOp _ _ _ _ site \<Rightarrow> use_operation_site f pc used site
      | CompareOp _ _ _ _ site \<Rightarrow> use_operation_site f pc used site
      | Jump target \<Rightarrow> map_ok (\<lambda>_. used) (verify_target (exec_bytecode f) pc ''Jump'' target)
      | Branch _ yes no \<Rightarrow>
          and_then (verify_target (exec_bytecode f) pc ''Branch yes'' yes) (\<lambda>_.
            map_ok (\<lambda>_. used) (verify_target (exec_bytecode f) pc ''Branch no'' no))
      | _ \<Rightarrow> Inr used)"

definition verify_instruction ::
  "executable \<Rightarrow> operation_site_id set \<Rightarrow> nat \<times> instruction \<Rightarrow> vm_error + operation_site_id set" where
  "verify_instruction f used pi =
     and_then (try_all (verify_register (exec_bytecode f) (fst pi)) (register_checks (snd pi)))
       (\<lambda>_. verify_extra f used (fst pi) (snd pi))"

definition verify_parameters :: "executable \<Rightarrow> vm_error + unit" where
  "verify_parameters f =
     map_ok (\<lambda>_. ())
       (try_fold (\<lambda>(registers, names) p.
            and_then (verify_register (exec_bytecode f) 0 (param_register p, ''function parameter''))
              (\<lambda>_. if param_register p \<in> registers
                   then Inl (Numbered ''function parameters map to duplicate register r{}''
                     [uint (param_register p)])
                   else if param_name p \<in> names
                   then Inl (Msg (''function parameter `'' @ param_name p
                     @ ''` is defined more than once''))
                   else Inr (insert (param_register p) registers, insert (param_name p) names)))
          ({}, {}) (exec_parameters f))"

section \<open>Value and instruction facts\<close>

definition output_register :: "instruction \<Rightarrow> register option" where
  "output_register i = written_register i"

definition require_value :: "structure_map \<Rightarrow> string \<Rightarrow> int list \<Rightarrow> value_id \<Rightarrow> vm_error + value_fact" where
  "require_value m ctx ns i =
     ok_or (sm_value m i)
       (Numbered (ctx @ '' references unknown output value {}'') (ns @ [int (value_index i)]))"

definition verify_use :: "structure_map \<Rightarrow> string \<Rightarrow> int list \<Rightarrow> value_use \<Rightarrow> vm_error + unit" where
  "verify_use m ctx ns u =
     (case use_value u of
        None \<Rightarrow> Inr ()
      | Some i \<Rightarrow>
          and_then (require_value m ctx ns i) (\<lambda>v.
            ensure (vf_register v = use_register u)
              (Numbered (ctx @ '' says value {} belongs to r{}, not r{}'')
                (ns @ [int (value_index i), uint (use_register u), uint (vf_register v)]))))"

definition alias_source :: "identity_fact fact \<Rightarrow> value_id option" where
  "alias_source i =
     (case i of
        Proven (AliasOf source) \<Rightarrow> Some source
      | Guardable (AliasOf source) \<Rightarrow> Some source
      | _ \<Rightarrow> None)"

definition verify_identity :: "structure_map \<Rightarrow> value_fact \<Rightarrow> vm_error + unit" where
  "verify_identity m v =
     (let n = int (value_index (vf_id v))
      in case alias_source (vf_identity v) of
           None \<Rightarrow> Inr ()
         | Some source \<Rightarrow>
             and_then (require_value m ''value {} identity'' [n] source) (\<lambda>_.
               ensure (identity_root m (vf_id v) \<noteq> None)
                 (Numbered ''value {} has a cyclic identity chain'' [n])))"

definition verify_origin :: "structure_map \<Rightarrow> value_fact \<Rightarrow> vm_error + unit" where
  "verify_origin m v =
     (let n = int (value_index (vf_id v))
      in case candidate (vf_origin v) of
           Some (OriginProjection _ aggregate) \<Rightarrow> verify_use m ''value {} projection'' [n] aggregate
         | Some (OriginCall _ callable) \<Rightarrow> verify_use m ''value {} call'' [n] callable
         | Some (OriginAlias _ source) \<Rightarrow> verify_use m ''value {} alias'' [n] source
         | _ \<Rightarrow> Inr ())"

definition verify_composition :: "structure_map \<Rightarrow> value_fact \<Rightarrow> vm_error + unit" where
  "verify_composition m v =
     (let n = int (value_index (vf_id v))
      in case candidate (vf_composition v) of
           Some (CompositionSequence items) \<Rightarrow> try_all (verify_use m ''value {} member'' [n]) items
         | Some (CompositionMapping entries) \<Rightarrow>
             try_all (\<lambda>(key, item).
                 and_then (verify_use m ''value {} key'' [n] key) (\<lambda>_.
                   verify_use m ''value {} member'' [n] item))
               entries
         | _ \<Rightarrow> Inr ())"

definition verify_value_fact :: "structure_map \<Rightarrow> instruction list \<Rightarrow> value_fact \<Rightarrow> vm_error + unit" where
  "verify_value_fact m prog v =
     and_then
       (case vf_defined_at v of
          None \<Rightarrow> Inr ()
        | Some pc \<Rightarrow>
            ensure (pc < length prog)
              (Numbered ''value {} is defined outside bytecode at pc {}''
                [int (value_index (vf_id v)), int pc])) (\<lambda>_.
     and_then (verify_identity m v) (\<lambda>_.
     and_then (verify_origin m v) (\<lambda>_. verify_composition m v)))"

definition verify_output :: "structure_map \<Rightarrow> nat \<Rightarrow> instruction \<Rightarrow> value_id option \<Rightarrow> vm_error + unit" where
  "verify_output m pc i output =
     (case (output_register i, output) of
        (Some r, Some n) \<Rightarrow>
          and_then (require_value m ''instruction fact at pc {} output'' [int pc] n) (\<lambda>v.
            ensure (vf_register v = r \<and> vf_defined_at v = Some pc)
              (Numbered ''instruction fact at pc {} output does not match r{} defined there''
                [int pc, uint r]))
      | (None, None) \<Rightarrow> Inr ()
      | (Some r, None) \<Rightarrow>
          Inl (Numbered ''instruction fact at pc {} is missing output r{}'' [int pc, uint r])
      | (None, Some _) \<Rightarrow>
          Inl (Numbered ''instruction fact at pc {} has an unexpected output'' [int pc]))"

definition verify_control_dependency ::
  "structure_map \<Rightarrow> instruction list \<Rightarrow> nat \<Rightarrow> control_dependency \<Rightarrow> vm_error + unit" where
  "verify_control_dependency m prog pc d =
     (case get_at prog (dep_branch_pc d) of
        Some (Branch cond _ _) \<Rightarrow>
          if use_register (dep_condition d) \<noteq> cond
          then Inl (Numbered ''instruction fact at pc {} has the wrong condition for branch pc {}''
            [int pc, int (dep_branch_pc d)])
          else verify_use m ''instruction fact at pc {} control dependency'' [int pc] (dep_condition d)
      | _ \<Rightarrow> Inl (Numbered ''instruction fact at pc {} depends on non-branch pc {}''
          [int pc, int (dep_branch_pc d)]))"

definition verify_instruction_fact ::
  "structure_map \<Rightarrow> instruction list \<Rightarrow> nat \<times> instruction \<times> instruction_fact \<Rightarrow> vm_error + unit" where
  "verify_instruction_fact m prog = (\<lambda>(pc, i, f).
     and_then (ensure (if_pc f = pc)
         (Numbered ''instruction fact {} claims to describe pc {}'' [int pc, int (if_pc f)])) (\<lambda>_.
     and_then (try_all (verify_use m ''instruction fact at pc {} input'' [int pc]) (if_inputs f)) (\<lambda>_.
     and_then (try_all (\<lambda>v. map_ok (\<lambda>_. ())
           (require_value m ''instruction fact at pc {} mutation'' [int pc] v))
         (case candidate (if_mutated_values f) of None \<Rightarrow> [] | Some vs \<Rightarrow> vs)) (\<lambda>_.
     and_then (verify_output m pc i (if_output f)) (\<lambda>_.
       try_all (verify_control_dependency m prog pc) (if_control_dependencies f))))))"

definition verify_analysis :: "structure_map \<Rightarrow> instruction list \<Rightarrow> vm_error + unit" where
  "verify_analysis m prog =
     (if sm_instructions m = [] \<and> sm_values m = [] then Inr ()
      else if length (sm_instructions m) \<noteq> length prog
      then Inl (Numbered ''StructureMap has {} instruction facts for {} bytecode instructions''
        [int (length (sm_instructions m)), int (length prog)])
      else
        and_then (try_all (\<lambda>(n, v).
              and_then (ensure (value_index (vf_id v) = n)
                  (Numbered ''value fact {} has mismatched id {}'' [int n, int (value_index (vf_id v))]))
                (\<lambda>_. verify_value_fact m prog v))
            (List.enumerate 0 (sm_values m))) (\<lambda>_.
          try_all (verify_instruction_fact m prog)
            (List.enumerate 0 (zip prog (sm_instructions m)))))"

section \<open>Blocks, regions and loops\<close>

definition verify_block_edges :: "structure_map \<Rightarrow> basic_block \<Rightarrow> vm_error + unit" where
  "verify_block_edges m b =
     (let id = int (block_index (bb_id b))
      in and_then (try_all (\<lambda>e.
             and_then (ok_or (sm_block m (edge_target e))
                 (Numbered ''basic block {} has an edge to unknown block {}''
                   [id, int (block_index (edge_target e))])) (\<lambda>target.
               ensure (bb_id b \<in> set (bb_predecessors target))
                 (Numbered ''basic block {} is missing from successor {} predecessors''
                   [id, int (block_index (edge_target e))])))
           (bb_successors b)) (\<lambda>_.
         try_all (\<lambda>p.
             and_then (ok_or (sm_block m p)
                 (Numbered ''basic block {} has an unknown predecessor {}''
                   [id, int (block_index p)])) (\<lambda>source.
               ensure (\<exists>e \<in> set (bb_successors source). edge_target e = bb_id b)
                 (Numbered ''basic block {} is missing from predecessor {} successors''
                   [id, int (block_index p)])))
           (bb_predecessors b)))"

definition verify_cfg :: "structure_map \<Rightarrow> instruction list \<Rightarrow> vm_error + unit" where
  "verify_cfg m prog =
     (if sm_blocks m = [] then Inr ()
      else
        and_then (try_all (\<lambda>pc.
              ensure (sm_block_at_pc m pc \<noteq> None)
                (Numbered ''basic blocks do not cover bytecode pc {}'' [int pc]))
            [0 ..< length prog]) (\<lambda>_.
          try_all (\<lambda>b.
              and_then (ensure (start_pc b < end_pc b \<and> end_pc b \<le> length prog)
                  (Numbered ''basic block {} has invalid pc range {}..{}''
                    [int (block_index (bb_id b)), int (start_pc b), int (end_pc b)]))
                (\<lambda>_. verify_block_edges m b))
            (sm_blocks m)))"

definition verify_region_target ::
  "instruction list \<Rightarrow> nat \<Rightarrow> nat \<Rightarrow> string \<Rightarrow> int list \<Rightarrow> vm_error + unit" where
  "verify_region_target prog target loop_index ctx ns =
     ensure (target < length prog)
       (Numbered (''loop {} '' @ ctx @ '' has invalid target {}'') ([int loop_index] @ ns @ [int target]))"

definition verify_region :: "structure_map \<Rightarrow> instruction list \<Rightarrow> nat \<times> region \<Rightarrow> vm_error + unit" where
  "verify_region m prog = (\<lambda>(n, r).
     and_then (verify_region_target prog (region_entry r) n ''header'' []) (\<lambda>_.
       if sm_blocks m = [] then Inr ()
       else
         and_then (ok_or (sm_block_at_pc m (region_entry r))
             (Numbered ''region {} header {} is not covered by a basic block''
               [int n, int (region_entry r)])) (\<lambda>entry_block.
         and_then (ensure (bb_id entry_block \<in> set (region_blocks r))
             (Numbered ''region {} does not contain its header block {}''
               [int n, int (block_index (bb_id entry_block))])) (\<lambda>_.
           try_all (\<lambda>b. ensure (sm_block m b \<noteq> None)
               (Numbered ''region {} references unknown block {}'' [int n, int (block_index b)]))
             (region_blocks r)))))"

text \<open>One loop: the header is new, the back edge jumps to it, exits and live slots are distinct.\<close>

definition verify_exits :: "instruction list \<Rightarrow> nat \<Rightarrow> region_exit list \<Rightarrow> vm_error + unit" where
  "verify_exits prog n exits =
     map_ok (\<lambda>_. ())
       (try_fold (\<lambda>targets (k, e).
            and_then (verify_region_target prog (exit_target e) n ''exit {}'' [int k]) (\<lambda>_.
              if exit_target e \<in> targets
              then Inl (Numbered ''loop {} has duplicate exit target {}'' [int n, int (exit_target e)])
              else Inr (insert (exit_target e) targets)))
          {} (List.enumerate 0 exits))"

definition verify_backedge :: "instruction list \<Rightarrow> nat \<Rightarrow> nat \<Rightarrow> nat \<Rightarrow> vm_error + unit" where
  "verify_backedge prog n backedge entry =
     (case get_at prog backedge of
        Some (Jump target) \<Rightarrow>
          ensure (target = entry)
            (Numbered ''loop {} backedge {} jumps to {}, not header {}''
              [int n, int backedge, int target, int entry])
      | _ \<Rightarrow> Inl (Numbered ''loop {} backedge {} is not a Jump'' [int n, int backedge]))"

definition verify_live_slots :: "wfunction \<Rightarrow> nat \<Rightarrow> region \<Rightarrow> vm_error + unit" where
  "verify_live_slots f n r =
     map_ok (\<lambda>_. ())
       (try_fold (\<lambda>live s.
            and_then (verify_register f (region_entry r) (slot_register s, ''loop live slot'')) (\<lambda>_.
              if slot_register s \<in> live
              then Inl (Numbered ''loop {} has duplicate live slot for r{}''
                [int n, uint (slot_register s)])
              else Inr (insert (slot_register s) live)))
          {} (entry_summary r))"

definition verify_loop :: "wfunction \<Rightarrow> nat set \<Rightarrow> nat \<times> region \<Rightarrow> vm_error + nat set" where
  "verify_loop f headers = (\<lambda>(n, r).
     case region_kind r of
       BranchRegion \<Rightarrow> Inr headers
     | LoopRegion backedge \<Rightarrow>
         and_then (verify_region_target (code f) backedge n ''backedge'' []) (\<lambda>_.
         if region_entry r \<in> headers
         then Inl (Numbered ''loop {} duplicates loop header {}'' [int n, int (region_entry r)])
         else if backedge < region_entry r
         then Inl (Numbered ''loop {} backedge {} precedes header {}''
           [int n, int backedge, int (region_entry r)])
         else
           and_then (verify_exits (code f) n (region_exits r)) (\<lambda>_.
           and_then (verify_backedge (code f) n backedge (region_entry r)) (\<lambda>_.
             map_ok (\<lambda>_. insert (region_entry r) headers) (verify_live_slots f n r)))))"

definition verify_site_metadata ::
  "executable \<Rightarrow> operation_site_id set \<Rightarrow> nat \<times> operation_site \<Rightarrow> vm_error + unit" where
  "verify_site_metadata f used = (\<lambda>(n, site).
     and_then (ok_or (u32_of_len n) (Msg ''StructureMap contains too many operation sites'')) (\<lambda>w.
       if length (exec_code f) \<le> site_pc site
       then Inl (Numbered ''operation site {} points outside bytecode at pc {}'' [uint w, int (site_pc site)])
       else ensure (OperationSiteId w \<in> used)
         (Numbered ''operation site {} is not referenced by bytecode'' [uint w])))"

definition verify_structure_map :: "executable \<Rightarrow> operation_site_id set \<Rightarrow> vm_error + unit" where
  "verify_structure_map f used =
     (let m = exec_map f; prog = exec_code f
      in and_then (verify_analysis m prog) (\<lambda>_.
         and_then (try_all (verify_site_metadata f used) (List.enumerate 0 (sm_operation_sites m))) (\<lambda>_.
         and_then (verify_cfg m prog) (\<lambda>_.
         and_then (try_all (verify_region m prog) (List.enumerate 0 (sm_regions m))) (\<lambda>_.
           map_ok (\<lambda>_. ()) (try_fold (verify_loop (exec_bytecode f)) {} (loop_regions m)))))))"

section \<open>The verifier\<close>

definition verify :: "executable \<Rightarrow> vm_error + unit" where
  "verify f =
     (if MAX_REGISTER_COUNT < register_count (exec_bytecode f)
      then Inl (Numbered ''function register_count {} exceeds maximum {}''
        [int (register_count (exec_bytecode f)), int MAX_REGISTER_COUNT])
      else
        and_then (verify_parameters f) (\<lambda>_.
        and_then (try_fold (verify_instruction f) {} (List.enumerate 0 (exec_code f))) (\<lambda>used.
        and_then (verify_structure_map f used) (\<lambda>_.
          verify_definite_assignment f))))"

end
