(* ===== verification/Verifier_Laws.thy ===== *)
theory Verifier_Laws
  imports Verifier Definite_Assignment_Laws
begin

text \<open>
  What acceptance by the verifier means: every instruction is well-formed in its function,
  operation sites and instructions correspond one to one, and the blocks, regions and loops of
  the structure map are consistent.
\<close>

section \<open>Instructions\<close>

lemma register_checks_registers: "fst ` set (register_checks i) = instr_reads i \<union> instr_writes i"
  by (cases i) (auto simp: instr_reads_def instr_writes_def optional_read_def image_iff
      split: option.splits)

fun instr_site :: "instruction \<Rightarrow> operation_site_id option" where
  "instr_site (BinaryOp _ _ _ _ s) = Some s"
| "instr_site (CompareOp _ _ _ _ s) = Some s"
| "instr_site _ = None"

fun instr_targets :: "instruction \<Rightarrow> nat set" where
  "instr_targets (Jump t) = {t}"
| "instr_targets (Branch _ yes no) = {yes, no}"
| "instr_targets _ = {}"

fun instr_constants :: "instruction \<Rightarrow> nat set" where
  "instr_constants (LoadConstant _ (ConstantId n)) = {n}"
| "instr_constants _ = {}"

text \<open>A well-formed instruction of a function: registers, targets, constants, operation site.\<close>

definition instr_wf :: "executable \<Rightarrow> nat \<Rightarrow> instruction \<Rightarrow> bool" where
  "instr_wf f pc i \<longleftrightarrow>
     (\<forall>r \<in> instr_reads i \<union> instr_writes i. unat r < register_count (exec_bytecode f))
     \<and> (\<forall>t \<in> instr_targets i. t < length (exec_code f))
     \<and> (\<forall>n \<in> instr_constants i. n < length (exec_constants f))
     \<and> (\<forall>s. instr_site i = Some s \<longrightarrow>
          (\<exists>m. sm_operation_site (exec_map f) s = Some m \<and> site_pc m = pc))"

definition code_wf :: "executable \<Rightarrow> bool" where
  "code_wf f \<longleftrightarrow> (\<forall>pc < length (exec_code f). instr_wf f pc (exec_code f ! pc))"

definition parameters_wf :: "executable \<Rightarrow> bool" where
  "parameters_wf f \<longleftrightarrow>
     distinct (map param_register (exec_parameters f)) \<and> distinct (map param_name (exec_parameters f))
     \<and> (\<forall>r \<in> parameter_registers f. unat r < register_count (exec_bytecode f))"

lemma verify_register_iff [simp]:
  "verify_register g pc rc = Inr u \<longleftrightarrow> unat (fst rc) < register_count g"
  by (simp add: verify_register_def)

lemma verify_target_iff [simp]: "verify_target g pc ctx t = Inr u \<longleftrightarrow> t < length (code g)"
  by (simp add: verify_target_def)

lemma use_operation_site_Inr:
  "use_operation_site f pc used s = Inr used' \<longleftrightarrow>
     (\<exists>m. sm_operation_site (exec_map f) s = Some m \<and> site_pc m = pc) \<and> s \<notin> used \<and> used' = insert s used"
  by (auto simp: use_operation_site_def verify_operation_site_def and_then_Inr_iff)

text \<open>A successful check makes the instruction well-formed and records its site, which was new.\<close>

lemma verify_instruction_Inr:
  assumes "verify_instruction f used (pc, i) = Inr used'"
  shows "instr_wf f pc i \<and> used' = used \<union> set_option (instr_site i)
    \<and> used \<inter> set_option (instr_site i) = {}"
proof -
  have "\<forall>rc \<in> set (register_checks i). unat (fst rc) < register_count (exec_bytecode f)"
    using assms by (auto simp: verify_instruction_def and_then_Inr_iff try_all_Inr_iff)
  then have "\<forall>r \<in> instr_reads i \<union> instr_writes i. unat r < register_count (exec_bytecode f)"
    unfolding register_checks_registers [symmetric] by auto
  moreover have "verify_extra f used pc i = Inr used'"
    using assms by (auto simp: verify_instruction_def and_then_Inr_iff)
  ultimately show ?thesis
    by (cases i)
       (auto simp: instr_wf_def verify_extra_def use_operation_site_Inr and_then_Inr_iff map_ok_Inr_iff
         split: constant_id.splits if_splits)
qed

lemma verify_code_Inr:
  assumes "try_fold (verify_instruction f) used (List.enumerate n prog) = Inr used'"
  shows "(\<forall>k < length prog. instr_wf f (n + k) (prog ! k))
    \<and> used' = used \<union> (\<Union>i \<in> set prog. set_option (instr_site i))"
  using assms
proof (induction prog arbitrary: n used)
  case (Cons i prog)
  from Cons.prems obtain u where u: "verify_instruction f used (n, i) = Inr u"
    and rest: "try_fold (verify_instruction f) u (List.enumerate (Suc n) prog) = Inr used'"
    by (auto simp: and_then_Inr_iff)
  note first = verify_instruction_Inr [OF u]
  note IH = Cons.IH [OF rest]
  have "instr_wf f (n + k) ((i # prog) ! k)" if "k < length (i # prog)" for k
    using that IH first by (cases k) auto
  then show ?case using IH first by auto
qed simp

lemma verify_parameters_Inr:
  assumes "verify_parameters f = Inr ()"
  shows "parameters_wf f"
proof -
  let ?step = "\<lambda>(registers, names) p.
     and_then (verify_register (exec_bytecode f) 0 (param_register p, ''function parameter''))
       (\<lambda>_. if param_register p \<in> registers
            then Inl (Numbered ''function parameters map to duplicate register r{}''
              [uint (param_register p)])
            else if param_name p \<in> names
            then Inl (Msg (''function parameter `'' @ param_name p @ ''` is defined more than once''))
            else Inr (insert (param_register p) registers, insert (param_name p) names))"
  have "distinct (map param_register ps) \<and> distinct (map param_name ps)
      \<and> param_register ` set ps \<inter> R = {} \<and> param_name ` set ps \<inter> N = {}
      \<and> (\<forall>p \<in> set ps. unat (param_register p) < register_count (exec_bytecode f))"
    if "try_fold ?step (R, N) ps = Inr t" for ps R N t
    using that
  proof (induction ps arbitrary: R N)
    case (Cons p ps)
    from Cons.prems have p: "unat (param_register p) < register_count (exec_bytecode f)"
        "param_register p \<notin> R" "param_name p \<notin> N"
      and rest: "try_fold ?step (insert (param_register p) R, insert (param_name p) N) ps = Inr t"
      by (auto simp: and_then_Inr_iff split: if_splits)
    show ?case using Cons.IH [OF rest] p by auto
  qed simp
  then show ?thesis using assms
    by (fastforce simp: verify_parameters_def parameters_wf_def parameter_registers_def map_ok_Inr_iff)
qed

lemma verify_parts:
  assumes "verify f = Inr ()"
  obtains used where "register_count (exec_bytecode f) \<le> MAX_REGISTER_COUNT"
    and "verify_parameters f = Inr ()"
    and "try_fold (verify_instruction f) {} (List.enumerate 0 (exec_code f)) = Inr used"
    and "verify_structure_map f used = Inr ()" and "verify_definite_assignment f = Inr ()"
  using assms by (auto simp: verify_def and_then_Inr_iff split: if_splits)

lemma verify_code_wf: "verify f = Inr () \<Longrightarrow> code_wf f"
  by (elim verify_parts) (auto simp: code_wf_def dest: verify_code_Inr)

lemma verify_parameters_wf: "verify f = Inr () \<Longrightarrow> parameters_wf f"
  by (elim verify_parts) (rule verify_parameters_Inr)

lemma verify_assigned: "verify f = Inr () \<Longrightarrow> definitely_assigned (exec_code f) (parameter_registers f)"
  by (elim verify_parts) (rule definite_assignment_sound)

text \<open>
  C1. A function that the verifier accepts is well-formed: its parameters are distinct registers
  and names; every instruction uses registers, jump targets, constants and an operation site that
  exist; every path stays inside the code and reads assigned registers only.
\<close>

theorem verified_code_well_formed:
  assumes "verify f = Inr ()"
  shows "parameters_wf f \<and> code_wf f \<and> definitely_assigned (exec_code f) (parameter_registers f)
    \<and> register_count (exec_bytecode f) \<le> 2 ^ 16"
  using assms verify_parameters_wf verify_code_wf verify_assigned
  by (auto simp: MAX_REGISTER_COUNT_def elim: verify_parts)

definition sample_executable :: executable where
  "sample_executable =
     Executable (ExecutableId 1) None
       \<lparr>code = [ConstSmallInt 0 5, Move 1 0, Return 1], register_count = 2\<rparr>
       empty_structure_map [] []"

lemma sample_verified: "verify sample_executable = Inr ()"
proof -
  have "verify_definite_assignment sample_executable = Inr ()"
    by (simp add: verify_definite_assignment_def assign_states_def sample_executable_def
        parameter_registers_def assign_round_def get_at_def propagate_def instr_writes_def
        check_reads_def verify_reads_def verify_read_def ensure_def)
  then show ?thesis
    by (simp add: verify_def verify_parameters_def verify_instruction_def verify_extra_def
        verify_register_def ensure_def verify_structure_map_def verify_analysis_def verify_cfg_def
        empty_structure_map_def loop_regions_def MAX_REGISTER_COUNT_def
        sample_executable_def)
qed

theorem verified_code_well_formed_witness:
  "code_wf sample_executable \<and> definitely_assigned (exec_code sample_executable) {}"
  using verified_code_well_formed [OF sample_verified]
  by (simp add: sample_executable_def parameter_registers_def)

section \<open>Operation sites\<close>

lemma site_metadata_used:
  assumes "verify_site_metadata f used (n, site) = Inr ()"
  shows "\<exists>w. u32_of_len n = Some w \<and> site_pc site < length (exec_code f) \<and> OperationSiteId w \<in> used"
  using assms by (auto simp: verify_site_metadata_def and_then_Inr_iff split: if_splits)

lemma u32_of_len_index: "u32_of_len n = Some w \<Longrightarrow> site_index (OperationSiteId w) = n"
  by (simp add: u32_of_len_Some)


definition site_executable :: executable where
  "site_executable =
     Executable (ExecutableId 2) None
       \<lparr>code = [ConstSmallInt 0 5, BinaryOp 0 Add 0 0 (OperationSiteId 0), Return 0], register_count = 1\<rparr>
       (empty_structure_map\<lparr>sm_operation_sites :=
          [\<lparr>site_pc = 1, site_lhs = Unknown, site_rhs = Unknown, site_result = Unknown\<rparr>]\<rparr>) [] []"

lemma site_verified: "verify site_executable = Inr ()"
proof -
  have "verify_definite_assignment site_executable = Inr ()"
    by (simp add: verify_definite_assignment_def assign_states_def site_executable_def
        parameter_registers_def assign_round_def get_at_def propagate_def instr_writes_def
        check_reads_def verify_reads_def verify_read_def ensure_def)
  then show ?thesis
    by (simp add: verify_def verify_parameters_def verify_instruction_def verify_extra_def
        verify_register_def ensure_def verify_structure_map_def verify_analysis_def verify_cfg_def
        empty_structure_map_def loop_regions_def MAX_REGISTER_COUNT_def use_operation_site_def
        verify_operation_site_def sm_operation_site_def get_at_def verify_site_metadata_def
        u32_of_len_def site_executable_def)
qed


section \<open>Blocks and loops\<close>

text \<open>Blocks cover the code, lie inside it, and list each edge at both of its ends.\<close>

definition blocks_wf :: "structure_map \<Rightarrow> instruction list \<Rightarrow> bool" where
  "blocks_wf m prog \<longleftrightarrow>
     (\<forall>pc < length prog. sm_block_at_pc m pc \<noteq> None)
     \<and> (\<forall>b \<in> set (sm_blocks m). start_pc b < end_pc b \<and> end_pc b \<le> length prog
          \<and> (\<forall>e \<in> set (bb_successors b). \<exists>t. sm_block m (edge_target e) = Some t
                \<and> bb_id b \<in> set (bb_predecessors t))
          \<and> (\<forall>p \<in> set (bb_predecessors b). \<exists>s. sm_block m p = Some s
                \<and> bb_id b \<in> edge_target ` set (bb_successors s)))"

text \<open>
  A loop: its back edge is a jump to its header, not before it; its exits and its live registers
  are distinct and exist.
\<close>

definition loop_wf :: "wfunction \<Rightarrow> region \<Rightarrow> bool" where
  "loop_wf f r \<longleftrightarrow>
     (\<forall>backedge. region_kind r = LoopRegion backedge \<longrightarrow>
        region_entry r \<le> backedge \<and> backedge < length (code f)
        \<and> code f ! backedge = Jump (region_entry r)
        \<and> distinct (map exit_target (region_exits r))
        \<and> (\<forall>e \<in> set (region_exits r). exit_target e < length (code f))
        \<and> distinct (map slot_register (entry_summary r))
        \<and> (\<forall>s \<in> set (entry_summary r). unat (slot_register s) < register_count f))"

lemma verify_block_edges_Inr:
  "verify_block_edges m b = Inr () \<longleftrightarrow>
     (\<forall>e \<in> set (bb_successors b). \<exists>t. sm_block m (edge_target e) = Some t
        \<and> bb_id b \<in> set (bb_predecessors t))
     \<and> (\<forall>p \<in> set (bb_predecessors b). \<exists>s. sm_block m p = Some s
        \<and> bb_id b \<in> edge_target ` set (bb_successors s))"
  by (simp add: verify_block_edges_def and_then_Inr_iff try_all_Inr_iff Let_def image_iff
      eq_commute [of "bb_id b"])

lemma verify_cfg_Inr:
  assumes "verify_cfg m prog = Inr ()" and "sm_blocks m \<noteq> []"
  shows "blocks_wf m prog"
  using assms
  by (simp add: verify_cfg_def blocks_wf_def and_then_Inr_iff try_all_Inr_iff verify_block_edges_Inr)

text \<open>A fold that refuses repetitions accepts distinct keys only.\<close>

lemma try_fold_distinct:
  assumes "try_fold step S xs = Inr T"
    and "\<And>S x T. step S x = Inr T \<Longrightarrow> key x \<notin> S \<and> T = insert (key x) S \<and> P x"
  shows "distinct (map key xs) \<and> key ` set xs \<inter> S = {} \<and> (\<forall>x \<in> set xs. P x)"
  using assms(1)
proof (induction xs arbitrary: S)
  case (Cons x xs)
  from Cons.prems obtain U where U: "step S x = Inr U" and rest: "try_fold step U xs = Inr T"
    by (auto simp: and_then_Inr_iff)
  show ?case using assms(2) [OF U] Cons.IH [OF rest] by auto
qed simp

lemma verify_exits_Inr:
  assumes "verify_exits prog n exits = Inr ()"
  shows "distinct (map exit_target exits) \<and> (\<forall>e \<in> set exits. exit_target e < length prog)"
proof -
  let ?step = "\<lambda>targets (k, e).
      and_then (verify_region_target prog (exit_target e) n ''exit {}'' [int k]) (\<lambda>_.
        if exit_target e \<in> targets
        then Inl (Numbered ''loop {} has duplicate exit target {}'' [int n, int (exit_target e)])
        else Inr (insert (exit_target e) targets))"
  from assms obtain T where "try_fold ?step {} (List.enumerate 0 exits) = Inr T"
    by (auto simp: verify_exits_def map_ok_Inr_iff)
  moreover have "exit_target (snd x) \<notin> S \<and> T = insert (exit_target (snd x)) S
      \<and> exit_target (snd x) < length prog" if "?step S x = Inr T" for S x T
    using that by (auto simp: and_then_Inr_iff verify_region_target_def split: if_splits prod.splits)
  ultimately have "distinct (map (\<lambda>x. exit_target (snd x)) (List.enumerate 0 exits))
      \<and> (\<forall>x \<in> set (List.enumerate 0 exits). exit_target (snd x) < length prog)"
    using try_fold_distinct [of ?step "{}" "List.enumerate 0 exits" T "\<lambda>x. exit_target (snd x)"
        "\<lambda>x. exit_target (snd x) < length prog"] by blast
  moreover have "map (\<lambda>x. exit_target (snd x)) (List.enumerate 0 exits) = map exit_target exits"
    by (simp add: map_map [symmetric, unfolded comp_def])
  moreover have "\<exists>k. (k, e) \<in> set (List.enumerate 0 exits)" if "e \<in> set exits" for e
  proof -
    from that obtain k where "k < length exits" "exits ! k = e" by (auto simp: in_set_conv_nth)
    then show ?thesis by (intro exI [of _ k]) (simp add: in_set_enumerate_eq)
  qed
  ultimately show ?thesis by (metis snd_conv)
qed

lemma verify_live_slots_Inr:
  assumes "verify_live_slots f n r = Inr ()"
  shows "distinct (map slot_register (entry_summary r))
    \<and> (\<forall>s \<in> set (entry_summary r). unat (slot_register s) < register_count f)"
proof -
  let ?step = "\<lambda>live s.
      and_then (verify_register f (region_entry r) (slot_register s, ''loop live slot'')) (\<lambda>_.
        if slot_register s \<in> live
        then Inl (Numbered ''loop {} has duplicate live slot for r{}'' [int n, uint (slot_register s)])
        else Inr (insert (slot_register s) live))"
  from assms obtain T where "try_fold ?step {} (entry_summary r) = Inr T"
    by (auto simp: verify_live_slots_def map_ok_Inr_iff)
  moreover have "slot_register s \<notin> S \<and> T = insert (slot_register s) S
      \<and> unat (slot_register s) < register_count f" if "?step S s = Inr T" for S s T
    using that by (auto simp: and_then_Inr_iff split: if_splits)
  ultimately show ?thesis
    using try_fold_distinct [of ?step "{}" "entry_summary r" T slot_register
        "\<lambda>s. unat (slot_register s) < register_count f"] by blast
qed

lemma verify_loop_Inr:
  assumes "verify_loop f headers (n, r) = Inr headers'" and "region_kind r = LoopRegion backedge"
  shows "region_entry r \<notin> headers \<and> headers' = insert (region_entry r) headers \<and> loop_wf f r"
proof -
  from assms have parts: "backedge < length (code f)" "region_entry r \<notin> headers"
    "region_entry r \<le> backedge" "verify_exits (code f) n (region_exits r) = Inr ()"
    "verify_backedge (code f) n backedge (region_entry r) = Inr ()"
    "verify_live_slots f n r = Inr ()" "headers' = insert (region_entry r) headers"
    by (auto simp: verify_loop_def and_then_Inr_iff map_ok_Inr_iff verify_region_target_def
        split: if_splits)
  moreover have "code f ! backedge = Jump (region_entry r)"
    using parts(1,5) by (auto simp: verify_backedge_def get_at_def split: instruction.splits)
  ultimately show ?thesis
    using verify_exits_Inr verify_live_slots_Inr assms(2) by (auto simp: loop_wf_def)
qed



end
