(* ===== verification/Vm_State.thy ===== *)
theory Vm_State
  imports Object_Ops Verifier
begin

text \<open>
  The state of the virtual machine (\<open>wvm.rs\<close>, \<open>wvm/callables.rs\<close>, \<open>wvm/registers.rs\<close>,
  \<open>wvm/arguments.rs\<close>) in its interpreter configuration \<open>Vm::interpreter\<close>: no compiler backend
  and no adaptive engine, so no function is profiled. Frames, the quickened code and the inline
  caches of one function, the machine-wide maps, and the checks on entry to a function.
\<close>

section \<open>Frames\<close>

record frame =
  frame_pc :: nat
  registers :: "wvalue list"
  suppress_osr_pc :: "nat option"
  suppressed_regions :: "region_id set"

definition new_frame :: "nat \<Rightarrow> frame" where
  "new_frame n =
     \<lparr>frame_pc = 0, registers = replicate n Uninitialized, suppress_osr_pc = None,
      suppressed_regions = {}\<rparr>"

definition read_register :: "frame \<Rightarrow> register \<Rightarrow> vm_error + wvalue" where
  "read_register f r =
     ok_or (get_at (registers f) (unat r)) (Numbered ''invalid register r{}'' [uint r])"

definition write_register :: "frame \<Rightarrow> register \<Rightarrow> wvalue \<Rightarrow> vm_error + frame" where
  "write_register f r v =
     (if unat r < length (registers f) then Inr (f\<lparr>registers := (registers f)[unat r := v]\<rparr>)
      else Inl (Numbered ''invalid register r{}'' [uint r]))"

definition read_small_int :: "frame \<Rightarrow> register \<Rightarrow> vm_error + i64" where
  "read_small_int f r =
     and_then (read_register f r) (\<lambda>v.
       case v of
         SmallInt n \<Rightarrow> Inr n
       | _ \<Rightarrow> Inl (FoundValue ''expected SmallInt in r{}, found {}'' (uint r) v))"

definition read_bool :: "frame \<Rightarrow> register \<Rightarrow> vm_error + bool" where
  "read_bool f r =
     and_then (read_register f r) (\<lambda>v.
       case v of
         Bool b \<Rightarrow> Inr b
       | _ \<Rightarrow> Inl (FoundValue ''expected bool in r{}, found {}'' (uint r) v))"

text \<open>The registers of a frame that goes back to the pool or stays with its leaf.\<close>

definition clear_registers :: "frame \<Rightarrow> frame" where
  "clear_registers f = f\<lparr>registers := map (\<lambda>_. Uninitialized) (registers f)\<rparr>"

section \<open>Quickened code and inline caches\<close>

datatype quick_instruction =
    QuickAdd register register register
  | QuickSubtract register register register
  | QuickMultiply register register register
  | QuickDivide register register register
  | QuickFloorDivide register register register
  | QuickPower register register register
  | QuickCompare register register register compare_operator

datatype call_key = FunctionKey object_ref | MethodKey shape_id

record attribute_target =
  at_shape :: shape_id
  at_index :: nat

record attribute_site =
  as_targets :: "attribute_target option list"
  as_megamorphic :: bool

text \<open>
  A call site remembers up to two targets; a target may own a prepared leaf, a runtime and a
  frame of its own, so the types are mutually recursive.
\<close>

datatype function_runtime =
    FunctionRuntime (rt_constants: "wvalue option list") (rt_current_function: "wvalue option")
      (rt_quick_code: "quick_instruction option list") (rt_call_sites: "call_site list")
      (rt_attribute_sites: "attribute_site list")
and call_site =
    CallSite (cs_targets: "call_target option list") (cs_megamorphic: bool)
and call_target =
    CallTarget (ct_key: call_key) (ct_function: executable) (ct_leaf: "interpreter_leaf option")
and interpreter_leaf =
    InterpreterLeaf (leaf_runtime: function_runtime) (leaf_frame: frame)

fun set_constants :: "wvalue option list \<Rightarrow> function_runtime \<Rightarrow> function_runtime" where
  "set_constants cs (FunctionRuntime _ f q ss as) = FunctionRuntime cs f q ss as"

fun set_current_function :: "wvalue option \<Rightarrow> function_runtime \<Rightarrow> function_runtime" where
  "set_current_function f (FunctionRuntime cs _ q ss as) = FunctionRuntime cs f q ss as"

fun set_call_sites :: "call_site list \<Rightarrow> function_runtime \<Rightarrow> function_runtime" where
  "set_call_sites ss (FunctionRuntime cs f q _ as) = FunctionRuntime cs f q ss as"

fun set_attribute_sites :: "attribute_site list \<Rightarrow> function_runtime \<Rightarrow> function_runtime" where
  "set_attribute_sites as (FunctionRuntime cs f q ss _) = FunctionRuntime cs f q ss as"

definition empty_call_site :: call_site where
  "empty_call_site = CallSite [None, None] False"

definition empty_attribute_site :: attribute_site where
  "empty_attribute_site = \<lparr>as_targets = [None, None], as_megamorphic = False\<rparr>"

section \<open>The machine\<close>

record jit_report =
  prepared_call_hit :: u64
  call_guard_miss :: u64
  megamorphic_fallback :: u64
  interpreter_fallback :: u64
  report_calls :: "string \<Rightarrow> u64"

definition empty_report :: jit_report where
  "empty_report =
     \<lparr>prepared_call_hit = 0, call_guard_miss = 0, megamorphic_fallback = 0,
      interpreter_fallback = 0, report_calls = (\<lambda>_. 0)\<rparr>"

definition function_label :: "string option \<Rightarrow> string" where
  "function_label name = (case name of None \<Rightarrow> ''<anonymous>'' | Some s \<Rightarrow> s)"

definition record_function_call :: "string option \<Rightarrow> jit_report \<Rightarrow> jit_report" where
  "record_function_call name r =
     r\<lparr>report_calls := (report_calls r)
        (function_label name := saturating_inc (report_calls r (function_label name)))\<rparr>"

definition record_interpreter_guest_call :: "jit_report \<Rightarrow> jit_report" where
  "record_interpreter_guest_call r =
     r\<lparr>interpreter_fallback := saturating_inc (interpreter_fallback r)\<rparr>"

record vm =
  vm_report :: jit_report
  vm_runtimes :: "executable_id \<Rightarrow> function_runtime option"
  vm_last_executed :: "executable_id option"
  vm_heap :: object_heap
  vm_call_depth :: nat
  vm_frame_pool :: "nat \<Rightarrow> frame list"
  vm_verified :: "executable_id set"

definition vm_interpreter :: "u64 \<Rightarrow> vm" where
  "vm_interpreter heap =
     \<lparr>vm_report = empty_report, vm_runtimes = (\<lambda>_. None), vm_last_executed = None,
      vm_heap = heap_new heap, vm_call_depth = 0, vm_frame_pool = (\<lambda>_. []), vm_verified = {}\<rparr>"

definition MAX_GUEST_CALL_DEPTH :: nat where "MAX_GUEST_CALL_DEPTH = 128"

section \<open>Arguments\<close>

definition slot_type_name :: "slot_type \<Rightarrow> string" where
  "slot_type_name ty =
     (case ty of
        SlotSmallInt \<Rightarrow> ''small_int''
      | SlotFloat \<Rightarrow> ''float''
      | SlotBool \<Rightarrow> ''bool''
      | SlotObject k \<Rightarrow>
          (case k of
             KString \<Rightarrow> ''string'' | KTuple \<Rightarrow> ''tuple'' | KBigInt \<Rightarrow> ''big_int'' | KList \<Rightarrow> ''list''
           | KDict \<Rightarrow> ''dict'' | KFunction \<Rightarrow> ''function'' | KClass \<Rightarrow> ''class''
           | KInstance \<Rightarrow> ''instance'' | KBoundMethod \<Rightarrow> ''bound_method'')
      | SlotAny \<Rightarrow> ''any initialized value'')"

definition argument_value_name :: "object_heap \<Rightarrow> wvalue \<Rightarrow> string" where
  "argument_value_name h v =
     (case v of
        SmallInt _ \<Rightarrow> ''small_int''
      | Float _ \<Rightarrow> ''float''
      | Bool _ \<Rightarrow> ''bool''
      | ValueNone \<Rightarrow> ''none''
      | ObjectValue r \<Rightarrow>
          (case heap_kind h r of
             Inl _ \<Rightarrow> ''invalid object reference''
           | Inr k \<Rightarrow> slot_type_name (SlotObject k))
      | Uninitialized \<Rightarrow> ''uninitialized'')"

text \<open>The text of a heap error, as a format and its numbers.\<close>

definition object_error_text :: "object_error \<Rightarrow> string \<times> int list" where
  "object_error_text e =
     (case e of
        WrongHeap expected actual \<Rightarrow>
          (''object belongs to heap {}, not heap {}'', [uint actual, uint expected])
      | InvalidSlot s \<Rightarrow> (''object slot {} does not exist'', [uint s])
      | StaleGeneration s expected actual \<Rightarrow>
          (''object slot {} has generation {}, not {}'', [uint s, uint expected, uint actual])
      | VacantSlot s \<Rightarrow> (''object slot {} is vacant'', [uint s])
      | TransferTargetOccupied s \<Rightarrow> (''object transfer target slot {} is occupied'', [uint s])
      | SlotCapacityExhausted \<Rightarrow> (''object heap slot capacity exhausted'', [])
      | GenerationExhausted s \<Rightarrow> (''object slot {} generation exhausted'', [uint s])
      | UninitializedValue \<Rightarrow> (''container contains an uninitialized value'', [])
      | UnhashableDictionaryKey \<Rightarrow> (''dictionary key is not hashable'', [])
      | DuplicateDictionaryKey \<Rightarrow> (''dictionary contains a duplicate key'', [])
      | NotClass \<Rightarrow> (''object is not a class'', [])
      | NotInstance \<Rightarrow> (''object is not an instance'', [])
      | MissingAttribute \<Rightarrow> (''object attribute was not found'', [])
      | KeyRecursion \<Rightarrow> ('''', []))"

definition argument_error :: "nat \<Rightarrow> executable_parameter \<Rightarrow> string \<Rightarrow> int list \<Rightarrow> vm_error" where
  "argument_error n p found ns =
     Numbered (''argument {} `'' @ param_name p @ ''`: expected '' @ slot_type_name (param_ty p)
       @ '', got '' @ found) (int n # ns)"

definition reference_kind ::
  "nat \<Rightarrow> executable_parameter \<Rightarrow> object_heap \<Rightarrow> object_ref \<Rightarrow> vm_error + object_kind" where
  "reference_kind n p h r =
     map_err (\<lambda>e. argument_error n p (''invalid object reference: '' @ fst (object_error_text e))
         (snd (object_error_text e)))
       (heap_kind h r)"

definition validate_argument ::
  "nat \<Rightarrow> executable_parameter \<Rightarrow> wvalue \<Rightarrow> object_heap \<Rightarrow> vm_error + unit" where
  "validate_argument n p v h =
     and_then
       (case (param_ty p, v) of
          (SlotSmallInt, SmallInt _) \<Rightarrow> Inr True
        | (SlotFloat, Float _) \<Rightarrow> Inr True
        | (SlotBool, Bool _) \<Rightarrow> Inr True
        | (SlotAny, ObjectValue r) \<Rightarrow> map_ok (\<lambda>_. True) (reference_kind n p h r)
        | (SlotAny, Uninitialized) \<Rightarrow> Inr False
        | (SlotAny, _) \<Rightarrow> Inr True
        | (SlotObject expected, ObjectValue r) \<Rightarrow> map_ok (\<lambda>k. expected = k) (reference_kind n p h r)
        | _ \<Rightarrow> Inr False)
       (\<lambda>valid. ensure valid (argument_error n p (argument_value_name h v) []))"

text \<open>
  Binding the arguments, first to last. The frame answered with an error is as the source leaves
  it; an index outside the registers is the panic of the slice access.
\<close>

fun bind_arguments ::
  "object_heap \<Rightarrow> (nat \<times> executable_parameter \<times> wvalue) list \<Rightarrow> wvalue list
    \<Rightarrow> wvalue list \<times> (vm_error + unit)" where
  "bind_arguments h [] regs = (regs, Inr ())"
| "bind_arguments h ((n, p, v) # rest) regs =
     (case validate_argument n p v h of
        Inl e \<Rightarrow> (regs, Inl e)
      | Inr _ \<Rightarrow>
          if unat (param_register p) < length regs
          then bind_arguments h rest (regs[unat (param_register p) := v])
          else (regs, Inl Panic))"

definition initialize_registers ::
  "executable \<Rightarrow> wvalue list \<Rightarrow> object_heap \<Rightarrow> frame \<Rightarrow> frame \<times> (vm_error + unit)" where
  "initialize_registers e args h f =
     (if length args \<noteq> length (exec_parameters e)
      then (f, Inl (Numbered ''function expected {} arguments, got {}''
        [int (length (exec_parameters e)), int (length args)]))
      else if length (registers f) \<noteq> register_count (exec_bytecode e)
      then (f, Inl (Msg ''function frame has the wrong register count''))
      else
        (let (regs, result) =
           bind_arguments h (List.enumerate 0 (zip (exec_parameters e) args))
             (registers (clear_registers f))
         in (f\<lparr>registers := regs\<rparr>, result)))"

end
