(* ===== verification/Quickening.thy ===== *)
theory Quickening
  imports Vm_State Arithmetic
begin

text \<open>
  Quickened instructions (\<open>wvm/quickening.rs\<close>): a side table of operators on immediate values,
  built from the types the structure map proves or, in the interpreter, for every operator. A
  quickened instruction either completes or reports a guard miss and leaves everything to the
  generic instruction.
\<close>

datatype quick_outcome = Handled | GuardMiss

fun quick_registers :: "quick_instruction \<Rightarrow> register \<times> register \<times> register" where
  "quick_registers (QuickAdd dst lhs rhs) = (dst, lhs, rhs)"
| "quick_registers (QuickSubtract dst lhs rhs) = (dst, lhs, rhs)"
| "quick_registers (QuickMultiply dst lhs rhs) = (dst, lhs, rhs)"
| "quick_registers (QuickDivide dst lhs rhs) = (dst, lhs, rhs)"
| "quick_registers (QuickFloorDivide dst lhs rhs) = (dst, lhs, rhs)"
| "quick_registers (QuickPower dst lhs rhs) = (dst, lhs, rhs)"
| "quick_registers (QuickCompare dst lhs rhs op) = (dst, lhs, rhs)"

text \<open>The operator of a quickened instruction; a comparison has its own.\<close>

fun quick_operator :: "quick_instruction \<Rightarrow> binary_operator + compare_operator" where
  "quick_operator (QuickAdd _ _ _) = Inl Add"
| "quick_operator (QuickSubtract _ _ _) = Inl Subtract"
| "quick_operator (QuickMultiply _ _ _) = Inl Multiply"
| "quick_operator (QuickDivide _ _ _) = Inl Divide"
| "quick_operator (QuickFloorDivide _ _ _) = Inl FloorDivide"
| "quick_operator (QuickPower _ _ _) = Inl Power"
| "quick_operator (QuickCompare _ _ _ op) = Inr op"

fun small_compare :: "compare_operator \<Rightarrow> i64 \<Rightarrow> i64 \<Rightarrow> bool" where
  "small_compare CmpEq a b = (a = b)"
| "small_compare CmpNotEq a b = (a \<noteq> b)"
| "small_compare CmpLt a b = (sint a < sint b)"
| "small_compare CmpLe a b = (sint a \<le> sint b)"
| "small_compare CmpGt a b = (sint b < sint a)"
| "small_compare CmpGe a b = (sint b \<le> sint a)"

text \<open>The value of a quickened operator, or no value when the guard fails.\<close>

definition quick_value ::
  "numlib \<Rightarrow> object_heap \<Rightarrow> quick_instruction \<Rightarrow> wvalue \<Rightarrow> wvalue
    \<Rightarrow> object_heap \<times> (vm_error + wvalue option)" where
  "quick_value L h q lhs rhs =
     (case quick_operator q of
        Inl op \<Rightarrow> immediate_binary L h op lhs rhs
      | Inr op \<Rightarrow>
          (case (lhs, rhs) of
             (SmallInt a, SmallInt b) \<Rightarrow> (h, Inr (Some (Bool (small_compare op a b))))
           | _ \<Rightarrow> (h, Inr None)))"

definition execute_quick ::
  "numlib \<Rightarrow> quick_instruction \<Rightarrow> frame \<times> object_heap \<Rightarrow> (frame \<times> object_heap) \<times> (vm_error + quick_outcome)" where
  "execute_quick L q s =
     (case s of (f, h) \<Rightarrow> case quick_registers q of (dst, lhs, rhs) \<Rightarrow>
        case and_then (read_register f dst) (\<lambda>_.
               and_then (read_register f lhs) (\<lambda>a. map_ok (Pair a) (read_register f rhs))) of
          Inl e \<Rightarrow> ((f, h), Inl e)
        | Inr (a, b) \<Rightarrow>
            (case quick_value L h q a b of
               (h', Inl e) \<Rightarrow> ((f, h'), Inl e)
             | (h', Inr None) \<Rightarrow> ((f, h'), Inr GuardMiss)
             | (h', Inr (Some v)) \<Rightarrow>
                 (case write_register f dst v of
                    Inl e \<Rightarrow> ((f, h'), Inl e)
                  | Inr f' \<Rightarrow> ((f'\<lparr>frame_pc := Suc (frame_pc f')\<rparr>, h'), Inr Handled))))"

section \<open>Building the table\<close>

fun quick_binary ::
  "binary_operator \<Rightarrow> register \<Rightarrow> register \<Rightarrow> register \<Rightarrow> quick_instruction" where
  "quick_binary Add dst lhs rhs = QuickAdd dst lhs rhs"
| "quick_binary Subtract dst lhs rhs = QuickSubtract dst lhs rhs"
| "quick_binary Multiply dst lhs rhs = QuickMultiply dst lhs rhs"
| "quick_binary Divide dst lhs rhs = QuickDivide dst lhs rhs"
| "quick_binary FloorDivide dst lhs rhs = QuickFloorDivide dst lhs rhs"
| "quick_binary Power dst lhs rhs = QuickPower dst lhs rhs"

definition site_proves ::
  "structure_map \<Rightarrow> operation_site_id \<Rightarrow> nat \<Rightarrow> slot_type \<Rightarrow> bool" where
  "site_proves m site pc result =
     (case sm_operation_site m site of
        None \<Rightarrow> False
      | Some facts \<Rightarrow>
          site_pc facts = pc \<and> site_lhs facts = Proven SlotSmallInt
          \<and> site_rhs facts = Proven SlotSmallInt \<and> site_result facts = Proven result)"

text \<open>With profiling, an instruction is quickened when its site proves small integers.\<close>

fun quicken_proven :: "structure_map \<Rightarrow> nat \<Rightarrow> instruction \<Rightarrow> quick_instruction option" where
  "quicken_proven m pc (BinaryOp dst op lhs rhs site) =
     (if op \<in> {Add, Subtract, Multiply} \<and> site_proves m site pc SlotSmallInt
      then Some (quick_binary op dst lhs rhs) else None)"
| "quicken_proven m pc (CompareOp dst op lhs rhs site) =
     (if site_proves m site pc SlotBool then Some (QuickCompare dst lhs rhs op) else None)"
| "quicken_proven m pc _ = None"

definition quick_code_new :: "executable \<Rightarrow> quick_instruction option list" where
  "quick_code_new e = map (\<lambda>(pc, i). quicken_proven (exec_map e) pc i) (List.enumerate 0 (exec_code e))"

text \<open>In the interpreter every operator is quickened; its guard looks at the values.\<close>

fun quicken :: "instruction \<Rightarrow> quick_instruction option" where
  "quicken (BinaryOp dst op lhs rhs _) = Some (quick_binary op dst lhs rhs)"
| "quicken (CompareOp dst op lhs rhs _) = Some (QuickCompare dst lhs rhs op)"
| "quicken _ = None"

definition quick_code_interpreter :: "wfunction \<Rightarrow> quick_instruction option list" where
  "quick_code_interpreter f = map quicken (code f)"

definition quick_code_get :: "quick_instruction option list \<Rightarrow> nat \<Rightarrow> quick_instruction option" where
  "quick_code_get q pc = (case get_at q pc of None \<Rightarrow> None | Some i \<Rightarrow> i)"

end
