(* ===== verification/Vm_Interpreter.thy ===== *)
theory Vm_Interpreter
  imports Quickening
begin

text \<open>
  The interpreter (\<open>wvm.rs\<close>, \<open>wvm/interpreter.rs\<close>, \<open>wvm/runtime_dispatch.rs\<close>,
  \<open>wvm/callables.rs\<close>) in the configuration \<open>Vm::interpreter\<close>. A step works on the machine, the
  runtime of the function it runs (checked out of the machine's map) and the frame. Every
  operation answers the state it leaves, with an error too, since the source mutates before it
  fails. A call runs its callee through the argument \<open>run\<close>, the dispatch loop with less fuel; the
  fuel bounds the height of the computation, so that a loop without end is \<open>Diverges\<close>.
\<close>

record machine =
  m_vm :: vm
  m_runtime :: function_runtime
  m_frame :: frame

type_synonym runner = "executable \<Rightarrow> machine \<Rightarrow> machine \<times> (vm_error + wvalue)"

abbreviation m_heap :: "machine \<Rightarrow> object_heap" where "m_heap m \<equiv> vm_heap (m_vm m)"

definition with_heap :: "machine \<Rightarrow> object_heap \<Rightarrow> machine" where
  "with_heap m h = m\<lparr>m_vm := (m_vm m)\<lparr>vm_heap := h\<rparr>\<rparr>"

definition with_report :: "(jit_report \<Rightarrow> jit_report) \<Rightarrow> vm \<Rightarrow> vm" where
  "with_report f v = v\<lparr>vm_report := f (vm_report v)\<rparr>"

text \<open>An operation on the heap, given its operands or the error of reading them.\<close>

definition heap_op ::
  "machine \<Rightarrow> vm_error + 'a \<Rightarrow> (object_heap \<Rightarrow> 'a \<Rightarrow> object_heap \<times> (vm_error + 'b))
    \<Rightarrow> machine \<times> (vm_error + 'b)" where
  "heap_op m arg f =
     (case arg of
        Inl e \<Rightarrow> (m, Inl e)
      | Inr x \<Rightarrow> (case f (m_heap m) x of (h, r) \<Rightarrow> (with_heap m h, r)))"

definition heap_read :: "machine \<Rightarrow> vm_error + 'a \<Rightarrow> (object_heap \<Rightarrow> 'a \<Rightarrow> vm_error + 'b)
    \<Rightarrow> machine \<times> (vm_error + 'b)" where
  "heap_read m arg f = (m, and_then arg (f (m_heap m)))"

abbreviation rd :: "machine \<Rightarrow> register \<Rightarrow> vm_error + wvalue" where
  "rd m \<equiv> read_register (m_frame m)"

definition rd2 :: "machine \<Rightarrow> register \<Rightarrow> register \<Rightarrow> vm_error + wvalue \<times> wvalue" where
  "rd2 m a b = and_then (rd m a) (\<lambda>x. map_ok (Pair x) (rd m b))"

definition rd3 ::
  "machine \<Rightarrow> register \<Rightarrow> register \<Rightarrow> register \<Rightarrow> vm_error + wvalue \<times> wvalue \<times> wvalue" where
  "rd3 m a b c = and_then (rd m a) (\<lambda>x. map_ok (Pair x) (rd2 m b c))"

definition read_many :: "machine \<Rightarrow> register list \<Rightarrow> vm_error + wvalue list" where
  "read_many m rs = try_map (rd m) rs"

definition read_optional :: "machine \<Rightarrow> register option \<Rightarrow> vm_error + wvalue option" where
  "read_optional m r = try_opt (rd m) r"

definition read_slice ::
  "machine \<Rightarrow> register \<Rightarrow> register option \<Rightarrow> register option \<Rightarrow> register option
    \<Rightarrow> vm_error + wvalue \<times> wvalue option \<times> wvalue option \<times> wvalue option" where
  "read_slice m obj start stop step =
     and_then (rd m obj) (\<lambda>v. and_then (read_optional m start) (\<lambda>i.
     and_then (read_optional m stop) (\<lambda>j. map_ok (\<lambda>k. (v, i, j, k)) (read_optional m step))))"

text \<open>A boolean operand of the generic dispatch; its error does not show the value.\<close>

definition rd_bool :: "machine \<Rightarrow> register \<Rightarrow> vm_error + bool" where
  "rd_bool m r =
     and_then (rd m r) (\<lambda>v.
       case v of Bool b \<Rightarrow> Inr b | _ \<Rightarrow> Inl (Numbered ''r{} is not a boolean'' [uint r]))"

text \<open>Writing the result of an operation; the program counter stays.\<close>

definition write_dst :: "register \<Rightarrow> machine \<Rightarrow> wvalue \<Rightarrow> machine \<times> (vm_error + unit)" where
  "write_dst dst m v =
     (case write_register (m_frame m) dst v of
        Inl e \<Rightarrow> (m, Inl e)
      | Inr f \<Rightarrow> (m\<lparr>m_frame := f\<rparr>, Inr ()))"

definition store_to :: "register \<Rightarrow> machine \<times> (vm_error + wvalue) \<Rightarrow> machine \<times> (vm_error + unit)" where
  "store_to dst r = then_with r (write_dst dst)"

section \<open>Function runtimes and constants\<close>

definition runtime_with :: "executable \<Rightarrow> quick_instruction option list \<Rightarrow> function_runtime" where
  "runtime_with e q =
     FunctionRuntime (replicate (length (exec_constants e)) None) None q
       (replicate (length (exec_code e)) empty_call_site)
       (replicate (length (exec_code e)) empty_attribute_site)"

definition runtime_new :: "executable \<Rightarrow> function_runtime" where
  "runtime_new e = runtime_with e (quick_code_interpreter (exec_bytecode e))"

fun constant_object :: "executable_constant \<Rightarrow> object" where
  "constant_object (ConstantString s) = StringObject s"
| "constant_object (ConstantBigInt n) = BigIntObject n"
| "constant_object (ConstantFunction f) = FunctionObject f"
| "constant_object (ConstantClass c) = ClassObj c"

definition load_constant ::
  "numlib \<Rightarrow> executable \<Rightarrow> nat \<Rightarrow> machine \<Rightarrow> machine \<times> (vm_error + wvalue)" where
  "load_constant L e n m =
     (case get_at (rt_constants (m_runtime m)) n of
        Some (Some v) \<Rightarrow> (m, Inr v)
      | _ \<Rightarrow>
          (case get_at (exec_constants e) n of
             None \<Rightarrow> (m, Inl (Numbered ''invalid constant c{}'' [int n]))
           | Some c \<Rightarrow>
               then_with (heap_op m (Inr (constant_object c)) (allocate_object L)) (\<lambda>m v.
                 if n < length (rt_constants (m_runtime m))
                 then (m\<lparr>m_runtime := set_constants ((rt_constants (m_runtime m))[n := Some v])
                         (m_runtime m)\<rparr>, Inr v)
                 else (m, Inl (Numbered ''invalid constant cache slot c{}'' [int n])))))"

definition load_current_function ::
  "numlib \<Rightarrow> executable \<Rightarrow> machine \<Rightarrow> machine \<times> (vm_error + wvalue)" where
  "load_current_function L e m =
     (case rt_current_function (m_runtime m) of
        Some v \<Rightarrow> (m, Inr v)
      | None \<Rightarrow>
          then_with (heap_op m (Inr (FunctionObject e)) (allocate_object L)) (\<lambda>m v.
            (m\<lparr>m_runtime := set_current_function (Some v) (m_runtime m)\<rparr>, Inr v)))"

section \<open>Inline caches\<close>

definition flatten :: "'a option list \<Rightarrow> 'a list" where
  "flatten ts = concat (map (\<lambda>t. case t of None \<Rightarrow> [] | Some x \<Rightarrow> [x]) ts)"

text \<open>The first free slot takes the new target; no slot is free in a full cache.\<close>

fun fill_slot :: "'a \<Rightarrow> 'a option list \<Rightarrow> 'a option list option" where
  "fill_slot x [] = None"
| "fill_slot x (None # ts) = Some (Some x # ts)"
| "fill_slot x (Some t # ts) = map_option (Cons (Some t)) (fill_slot x ts)"

definition find_target :: "call_key \<Rightarrow> call_site \<Rightarrow> call_target option" where
  "find_target key site = find (\<lambda>t. ct_key t = key) (flatten (cs_targets site))"

definition set_call_site :: "nat \<Rightarrow> call_site \<Rightarrow> machine \<Rightarrow> machine" where
  "set_call_site pc site m =
     m\<lparr>m_runtime := set_call_sites ((rt_call_sites (m_runtime m))[pc := site]) (m_runtime m)\<rparr>"

definition report_guard_miss :: "machine \<Rightarrow> machine" where
  "report_guard_miss m =
     m\<lparr>m_vm := with_report (\<lambda>r. r\<lparr>call_guard_miss := saturating_inc (call_guard_miss r)\<rparr>) (m_vm m)\<rparr>"

definition report_megamorphic :: "machine \<Rightarrow> machine" where
  "report_megamorphic m =
     m\<lparr>m_vm := with_report (\<lambda>r. r\<lparr>megamorphic_fallback := saturating_inc (megamorphic_fallback r)\<rparr>)
        (m_vm m)\<rparr>"

definition remember_target :: "nat \<Rightarrow> call_site \<Rightarrow> call_target \<Rightarrow> machine \<Rightarrow> machine" where
  "remember_target pc site t m =
     (if cs_megamorphic site then report_megamorphic m
      else
        case fill_slot t (cs_targets site) of
          Some ts \<Rightarrow> report_guard_miss (set_call_site pc (CallSite ts False) m)
        | None \<Rightarrow> report_megamorphic (set_call_site pc (CallSite (cs_targets site) True) m))"

fun leaf_instruction :: "instruction \<Rightarrow> bool" where
  "leaf_instruction (ConstSmallInt _ _) = True"
| "leaf_instruction (ConstI64 _ _) = True"
| "leaf_instruction (ConstFloat _ _) = True"
| "leaf_instruction (ConstBool _ _) = True"
| "leaf_instruction (ConstNone _) = True"
| "leaf_instruction (BinaryOp _ _ _ _ _) = True"
| "leaf_instruction (CompareOp _ _ _ _ _) = True"
| "leaf_instruction (UnaryOp _ _ _) = True"
| "leaf_instruction (BooleanOp _ _ _ _) = True"
| "leaf_instruction (AddI64 _ _ _) = True"
| "leaf_instruction (LtI64 _ _ _) = True"
| "leaf_instruction (Move _ _) = True"
| "leaf_instruction (Return _) = True"
| "leaf_instruction _ = False"

definition interpreter_leaf_eligible :: "executable \<Rightarrow> bool" where
  "interpreter_leaf_eligible f \<longleftrightarrow>
     list_all (\<lambda>p. param_ty p \<in> {SlotSmallInt, SlotFloat, SlotBool}) (exec_parameters f)
     \<and> list_all leaf_instruction (exec_code f)"

definition leaf_new :: "executable \<Rightarrow> interpreter_leaf" where
  "leaf_new f = InterpreterLeaf (runtime_new f) (new_frame (register_count (exec_bytecode f)))"

definition prepared_leaf :: "executable \<Rightarrow> vm_error + interpreter_leaf option" where
  "prepared_leaf f =
     (if interpreter_leaf_eligible f then map_ok (\<lambda>_. Some (leaf_new f)) (verify f) else Inr None)"

definition call_site_at :: "machine \<Rightarrow> nat \<Rightarrow> vm_error + call_site" where
  "call_site_at m pc =
     ok_or (get_at (rt_call_sites (m_runtime m)) pc) (Numbered ''missing call site at pc {}'' [int pc])"

definition function_at :: "object_heap \<Rightarrow> object_ref \<Rightarrow> vm_error + executable" where
  "function_at h r =
     and_then (map_err HeapError (heap_get h r)) (\<lambda>obj.
       case obj of FunctionObject f \<Rightarrow> Inr f | _ \<Rightarrow> Inl (Msg ''call target is not a function''))"

definition prepared_callable ::
  "machine \<Rightarrow> nat \<Rightarrow> wvalue \<Rightarrow> machine \<times> (vm_error + executable)" where
  "prepared_callable m pc v =
     (case v of
        ObjectValue r \<Rightarrow>
          (case call_site_at m pc of
             Inl e \<Rightarrow> (m, Inl e)
           | Inr site \<Rightarrow>
               (case find_target (FunctionKey r) site of
                  Some t \<Rightarrow> (m, Inr (ct_function t))
                | None \<Rightarrow>
                    (case and_then (function_at (m_heap m) r) (\<lambda>f. map_ok (Pair f) (prepared_leaf f)) of
                       Inl e \<Rightarrow> (m, Inl e)
                     | Inr (f, leaf) \<Rightarrow>
                         (remember_target pc site (CallTarget (FunctionKey r) f leaf) m, Inr f))))
      | _ \<Rightarrow> (m, Inl (Msg ''call target is not a function'')))"

definition prepared_method ::
  "machine \<Rightarrow> nat \<Rightarrow> wvalue \<Rightarrow> string \<Rightarrow> machine \<times> (vm_error + object_ref \<times> executable)" where
  "prepared_method m pc v name =
     (case v of
        ObjectValue r \<Rightarrow>
          (case and_then (map_err HeapError (instance_shape (m_heap m) r))
                  (\<lambda>shape. map_ok (Pair shape) (call_site_at m pc)) of
             Inl e \<Rightarrow> (m, Inl e)
           | Inr (shape, site) \<Rightarrow>
               (case find_target (MethodKey shape) site of
                  Some t \<Rightarrow> (m, Inr (r, ct_function t))
                | None \<Rightarrow>
                    (case map_err HeapError (lookup_method (m_heap m) r name) of
                       Inl e \<Rightarrow> (m, Inl e)
                     | Inr (_, f) \<Rightarrow>
                         (remember_target pc site (CallTarget (MethodKey shape) f None) m, Inr (r, f)))))
      | _ \<Rightarrow> (m, Inl (Msg ''method receiver is not an object'')))"

definition attribute_site_at :: "machine \<Rightarrow> nat \<Rightarrow> vm_error + attribute_site" where
  "attribute_site_at m pc =
     ok_or (get_at (rt_attribute_sites (m_runtime m)) pc)
       (Numbered ''missing attribute site at pc {}'' [int pc])"

definition set_attribute_site :: "nat \<Rightarrow> attribute_site \<Rightarrow> machine \<Rightarrow> machine" where
  "set_attribute_site pc site m =
     m\<lparr>m_runtime := set_attribute_sites ((rt_attribute_sites (m_runtime m))[pc := site]) (m_runtime m)\<rparr>"

definition remember_attribute ::
  "nat \<Rightarrow> attribute_site \<Rightarrow> attribute_target \<Rightarrow> machine \<Rightarrow> machine" where
  "remember_attribute pc site t m =
     (if as_megamorphic site then m
      else
        case fill_slot t (as_targets site) of
          Some ts \<Rightarrow> set_attribute_site pc (site\<lparr>as_targets := ts\<rparr>) m
        | None \<Rightarrow> set_attribute_site pc (site\<lparr>as_megamorphic := True\<rparr>) m)"

text \<open>The lookup by name, which fills the cache.\<close>

definition attribute_miss ::
  "machine \<Rightarrow> nat \<Rightarrow> attribute_site \<Rightarrow> object_ref \<Rightarrow> string \<Rightarrow> machine \<times> (vm_error + wvalue)" where
  "attribute_miss m pc site r name =
     (case lookup_instance_field (m_heap m) r name of
        Inl e \<Rightarrow> (m, Inl (HeapError e))
      | Inr None \<Rightarrow>
          heap_op m (Inr ()) (\<lambda>h _. apsnd (map_err HeapError) (get_attribute h r name))
      | Inr (Some (shape, n, v)) \<Rightarrow>
          (remember_attribute pc site \<lparr>at_shape = shape, at_index = n\<rparr> m, Inr v))"

definition prepared_attribute ::
  "machine \<Rightarrow> nat \<Rightarrow> wvalue \<Rightarrow> string \<Rightarrow> machine \<times> (vm_error + wvalue)" where
  "prepared_attribute m pc v name =
     (case v of
        ObjectValue r \<Rightarrow>
          (case and_then (map_err HeapError (instance_shape (m_heap m) r))
                  (\<lambda>shape. map_ok (Pair shape) (attribute_site_at m pc)) of
             Inl e \<Rightarrow> (m, Inl e)
           | Inr (shape, site) \<Rightarrow>
               (case find (\<lambda>t. at_shape t = shape) (flatten (as_targets site)) of
                  None \<Rightarrow> attribute_miss m pc site r name
                | Some t \<Rightarrow>
                    (case instance_field_at (m_heap m) r shape (at_index t) of
                       Inl e \<Rightarrow> (m, Inl (HeapError e))
                     | Inr (Some w) \<Rightarrow> (m, Inr w)
                     | Inr None \<Rightarrow> attribute_miss m pc site r name)))
      | _ \<Rightarrow> (m, Inl (Msg ''attribute receiver is not an object'')))"

section \<open>Entering a function\<close>

text \<open>A frame from the pool of its size, or a new one; the frame goes back cleared.\<close>

definition take_frame :: "nat \<Rightarrow> vm \<Rightarrow> frame \<times> vm" where
  "take_frame n v =
     (if vm_frame_pool v n = [] then (new_frame n, v)
      else ((last (vm_frame_pool v n))\<lparr>frame_pc := 0, suppress_osr_pc := None, suppressed_regions := {}\<rparr>,
            v\<lparr>vm_frame_pool := (vm_frame_pool v)(n := butlast (vm_frame_pool v n))\<rparr>))"

definition return_frame :: "nat \<Rightarrow> frame \<Rightarrow> vm \<Rightarrow> vm" where
  "return_frame n f v =
     v\<lparr>vm_frame_pool := (vm_frame_pool v)(n := vm_frame_pool v n @ [clear_registers f])\<rparr>"

text \<open>Verification, skipped for a prepared call of a function already verified.\<close>

definition verify_once :: "executable \<Rightarrow> bool \<Rightarrow> vm \<Rightarrow> vm_error + vm" where
  "verify_once e prepared v =
     (if \<not> prepared \<or> exec_id e \<notin> vm_verified v
      then map_ok (\<lambda>_. v\<lparr>vm_verified := insert (exec_id e) (vm_verified v)\<rparr>) (verify e)
      else Inr v)"

text \<open>The body runs on the function's own runtime, which is out of the map meanwhile.\<close>

definition run_checked_out ::
  "runner \<Rightarrow> executable \<Rightarrow> frame \<Rightarrow> vm \<Rightarrow> vm \<times> (vm_error + wvalue)" where
  "run_checked_out run e f v =
     (let id = exec_id e;
          rt = (case vm_runtimes v id of None \<Rightarrow> runtime_new e | Some rt \<Rightarrow> rt);
          (m, result) = run e \<lparr>m_vm = v\<lparr>vm_runtimes := (vm_runtimes v)(id := None)\<rparr>,
                               m_runtime = rt, m_frame = f\<rparr>;
          v' = (m_vm m)\<lparr>vm_runtimes := (vm_runtimes (m_vm m))(id := Some (m_runtime m))\<rparr>
      in ((return_frame (register_count (exec_bytecode e)) (m_frame m) v')
            \<lparr>vm_last_executed := Some id\<rparr>, result))"

definition execute_function_at_depth ::
  "runner \<Rightarrow> executable \<Rightarrow> wvalue list \<Rightarrow> bool \<Rightarrow> vm \<Rightarrow> vm \<times> (vm_error + wvalue)" where
  "execute_function_at_depth run e args prepared v =
     (let v = with_report (record_function_call (exec_name e)) v
      in case verify_once e prepared v of
           Inl err \<Rightarrow> (v, Inl err)
         | Inr v \<Rightarrow>
             (let n = register_count (exec_bytecode e);
                  (f, v) = take_frame n v
              in case initialize_registers e args (vm_heap v) f of
                   (f, Inl err) \<Rightarrow> (return_frame n f v, Inl err)
                 | (f, Inr _) \<Rightarrow> run_checked_out run e f v))"

definition at_depth ::
  "(vm \<Rightarrow> vm \<times> (vm_error + wvalue)) \<Rightarrow> vm \<Rightarrow> vm \<times> (vm_error + wvalue)" where
  "at_depth f v =
     (if MAX_GUEST_CALL_DEPTH \<le> vm_call_depth v
      then (v, Inl (Numbered ''guest call depth limit of {} exceeded'' [int MAX_GUEST_CALL_DEPTH]))
      else
        case f (v\<lparr>vm_call_depth := Suc (vm_call_depth v)\<rparr>) of
          (v', r) \<Rightarrow> (v'\<lparr>vm_call_depth := vm_call_depth v' - 1\<rparr>, r))"

definition execute_function ::
  "runner \<Rightarrow> executable \<Rightarrow> wvalue list \<Rightarrow> vm \<Rightarrow> vm \<times> (vm_error + wvalue)" where
  "execute_function run e args = at_depth (execute_function_at_depth run e args False)"

definition report_prepared_hit :: "vm \<Rightarrow> vm" where
  "report_prepared_hit =
     with_report (\<lambda>r. r\<lparr>prepared_call_hit := saturating_inc (prepared_call_hit r)\<rparr>)"

definition execute_prepared_function ::
  "runner \<Rightarrow> executable \<Rightarrow> wvalue list \<Rightarrow> vm \<Rightarrow> vm \<times> (vm_error + wvalue)" where
  "execute_prepared_function run e args =
     at_depth (\<lambda>v. execute_function_at_depth run e args True (report_prepared_hit v))"

section \<open>Calls\<close>

text \<open>A direct recursion parks the active runtime in the map, where the callee finds it.\<close>

definition invoke ::
  "runner \<Rightarrow> executable \<Rightarrow> executable \<Rightarrow> wvalue list \<Rightarrow> machine \<Rightarrow> machine \<times> (vm_error + wvalue)" where
  "invoke run caller f args m =
     (if exec_id caller \<noteq> exec_id f
      then (case execute_prepared_function run f args (m_vm m) of (v, r) \<Rightarrow> (m\<lparr>m_vm := v\<rparr>, r))
      else
        let id = exec_id caller; v = m_vm m
        in if vm_runtimes v id \<noteq> None
           then (m, Inl (Msg ''active function runtime is already cached''))
           else
             case execute_prepared_function run f args
                    (v\<lparr>vm_runtimes := (vm_runtimes v)(id := Some (m_runtime m))\<rparr>) of
               (v', r) \<Rightarrow>
                 (case vm_runtimes v' id of
                    None \<Rightarrow>
                      (m\<lparr>m_vm := v', m_runtime := runtime_with caller (rt_quick_code (m_runtime m))\<rparr>,
                       Inl (Msg ''active function runtime was not restored''))
                  | Some rt \<Rightarrow>
                      (m\<lparr>m_vm := v'\<lparr>vm_runtimes := (vm_runtimes v')(id := None)\<rparr>, m_runtime := rt\<rparr>, r)))"

definition reset_frame :: "frame \<Rightarrow> frame" where
  "reset_frame f = (clear_registers f)\<lparr>frame_pc := 0, suppress_osr_pc := None, suppressed_regions := {}\<rparr>"

text \<open>A prepared leaf runs on its own runtime and frame; the caller's runtime is untouched.\<close>

definition execute_interpreter_leaf ::
  "runner \<Rightarrow> executable \<Rightarrow> interpreter_leaf \<Rightarrow> wvalue list \<Rightarrow> vm
    \<Rightarrow> (vm \<times> interpreter_leaf) \<times> (vm_error + wvalue)" where
  "execute_interpreter_leaf run f leaf args v =
     (if MAX_GUEST_CALL_DEPTH \<le> vm_call_depth v
      then ((v, leaf), Inl (Numbered ''guest call depth limit of {} exceeded'' [int MAX_GUEST_CALL_DEPTH]))
      else
        let v = with_report (record_function_call (exec_name f))
              (report_prepared_hit (v\<lparr>vm_call_depth := Suc (vm_call_depth v)\<rparr>));
            (m, r) = (case initialize_registers f args (vm_heap v) (leaf_frame leaf) of
                (fr, Inl e) \<Rightarrow> (\<lparr>m_vm = v, m_runtime = leaf_runtime leaf, m_frame = fr\<rparr>, Inl e)
              | (fr, Inr _) \<Rightarrow> run f \<lparr>m_vm = v, m_runtime = leaf_runtime leaf, m_frame = fr\<rparr>)
        in (((m_vm m)\<lparr>vm_call_depth := vm_call_depth (m_vm m) - 1\<rparr>,
             InterpreterLeaf (m_runtime m) (reset_frame (m_frame m))), r))"

text \<open>The leaf is taken out of its target for the call and put back.\<close>

fun set_leaf :: "call_key \<Rightarrow> interpreter_leaf option \<Rightarrow> call_target option list \<Rightarrow> call_target option list" where
  "set_leaf key leaf [] = []"
| "set_leaf key leaf (None # ts) = None # set_leaf key leaf ts"
| "set_leaf key leaf (Some t # ts) =
     (if ct_key t = key then Some (CallTarget (ct_key t) (ct_function t) leaf) # ts
      else Some t # set_leaf key leaf ts)"

definition put_leaf :: "nat \<Rightarrow> call_key \<Rightarrow> interpreter_leaf option \<Rightarrow> machine \<Rightarrow> machine" where
  "put_leaf pc key leaf m =
     (case get_at (rt_call_sites (m_runtime m)) pc of
        None \<Rightarrow> m
      | Some site \<Rightarrow>
          set_call_site pc (CallSite (set_leaf key leaf (cs_targets site)) (cs_megamorphic site)) m)"

definition invoke_non_function_callable ::
  "runner \<Rightarrow> executable \<Rightarrow> object_ref \<Rightarrow> wvalue list \<Rightarrow> machine \<Rightarrow> machine \<times> (vm_error + wvalue)" where
  "invoke_non_function_callable run caller r args m =
     (case heap_get (m_heap m) r of
        Inl e \<Rightarrow> (m, Inl (HeapError e))
      | Inr (BoundMethodObj b) \<Rightarrow>
          invoke run caller (bm_function b) (ObjectValue (bm_receiver b) # args) m
      | Inr (ClassObj c) \<Rightarrow>
          then_with (heap_op m (Inr ()) (\<lambda>h _. apsnd (map_err HeapError) (instantiate h r))) (\<lambda>m i.
            case class_method c ''__init__'' of
              Some initializer \<Rightarrow>
                then_with (invoke run caller initializer (ObjectValue i # args) m) (\<lambda>m result.
                  if result \<noteq> ValueNone then (m, Inl (Msg ''__init__ must return None''))
                  else (m, Inr (ObjectValue i)))
            | None \<Rightarrow>
                if args \<noteq> [] then (m, Inl (Msg (class_name c @ ''() takes no arguments'')))
                else (m, Inr (ObjectValue i)))
      | Inr (FunctionObject _) \<Rightarrow> (m, Inl (Msg ''function callable reached non-function dispatch''))
      | Inr _ \<Rightarrow> (m, Inl (Msg ''call target is not callable'')))"

definition cached_target :: "machine \<Rightarrow> nat \<Rightarrow> object_ref \<Rightarrow> call_target option" where
  "cached_target m pc r =
     (case get_at (rt_call_sites (m_runtime m)) pc of
        None \<Rightarrow> None
      | Some site \<Rightarrow> find_target (FunctionKey r) site)"

definition invoke_callable ::
  "runner \<Rightarrow> executable \<Rightarrow> nat \<Rightarrow> wvalue \<Rightarrow> wvalue list \<Rightarrow> machine \<Rightarrow> machine \<times> (vm_error + wvalue)" where
  "invoke_callable run caller pc callable args m =
     (case callable of
        ObjectValue r \<Rightarrow>
          (case cached_target m pc r of
             Some t \<Rightarrow>
               (case ct_leaf t of
                  Some leaf \<Rightarrow>
                    (let m = put_leaf pc (FunctionKey r) None m
                     in case execute_interpreter_leaf run (ct_function t) leaf args (m_vm m) of
                          ((v, leaf), result) \<Rightarrow>
                            (put_leaf pc (FunctionKey r) (Some leaf) (m\<lparr>m_vm := v\<rparr>), result))
                | None \<Rightarrow> invoke run caller (ct_function t) args m)
           | None \<Rightarrow>
               (case heap_kind (m_heap m) r of
                  Inl e \<Rightarrow> (m, Inl (HeapError e))
                | Inr KFunction \<Rightarrow>
                    then_with (prepared_callable m pc callable) (\<lambda>m f. invoke run caller f args m)
                | Inr _ \<Rightarrow> invoke_non_function_callable run caller r args m))
      | _ \<Rightarrow> (m, Inl (Msg ''call target is not callable'')))"

definition perform_call ::
  "runner \<Rightarrow> executable \<Rightarrow> register \<Rightarrow> register \<Rightarrow> register list \<Rightarrow> machine \<Rightarrow> machine \<times> (vm_error + unit)" where
  "perform_call run e dst callable args m =
     (case and_then (rd m callable) (\<lambda>c. map_ok (Pair c) (read_many m args)) of
        Inl err \<Rightarrow> (m, Inl err)
      | Inr (c, vs) \<Rightarrow> store_to dst (invoke_callable run e (frame_pc (m_frame m)) c vs m))"

definition perform_method_call ::
  "runner \<Rightarrow> executable \<Rightarrow> register \<Rightarrow> register \<Rightarrow> string \<Rightarrow> register list \<Rightarrow> machine
    \<Rightarrow> machine \<times> (vm_error + unit)" where
  "perform_method_call run e dst receiver name args m =
     (case rd m receiver of
        Inl err \<Rightarrow> (m, Inl err)
      | Inr v \<Rightarrow>
          then_with (prepared_method m (frame_pc (m_frame m)) v name) (\<lambda>m (r, f).
            case read_many m args of
              Inl err \<Rightarrow> (m, Inl err)
            | Inr vs \<Rightarrow> store_to dst (invoke run e f (ObjectValue r # vs) m)))"

section \<open>Instructions\<close>

definition set_attribute_value ::
  "object_heap \<Rightarrow> wvalue \<Rightarrow> string \<Rightarrow> wvalue \<Rightarrow> object_heap \<times> (vm_error + unit)" where
  "set_attribute_value h receiver name v =
     (case receiver of
        ObjectValue r \<Rightarrow> apsnd (map_err HeapError) (set_attribute h r name v)
      | _ \<Rightarrow> (h, Inl (Msg ''attribute receiver is not an object'')))"

fun boolean_value :: "boolean_operator \<Rightarrow> bool \<Rightarrow> bool \<Rightarrow> bool" where
  "boolean_value BoolAnd a b = (a \<and> b)"
| "boolean_value BoolOr a b = (a \<or> b)"

text \<open>The instructions with a generic runtime path; the program counter is the caller's to move.\<close>

fun execute_runtime_instruction ::
  "numlib \<Rightarrow> runner \<Rightarrow> executable \<Rightarrow> machine \<Rightarrow> instruction \<Rightarrow> machine \<times> (vm_error + unit)" where
  "execute_runtime_instruction L run e m (ConstFloat dst v) = write_dst dst m (Float v)"
| "execute_runtime_instruction L run e m (ConstNone dst) = write_dst dst m ValueNone"
| "execute_runtime_instruction L run e m (LoadConstant dst (ConstantId n)) =
     store_to dst (load_constant L e n m)"
| "execute_runtime_instruction L run e m (BinaryOp dst op lhs rhs _) =
     store_to dst (heap_op m (rd2 m lhs rhs) (\<lambda>h (a, b). binary_op L h op a b))"
| "execute_runtime_instruction L run e m (CompareOp dst op lhs rhs _) =
     store_to dst (heap_read m (rd2 m lhs rhs) (\<lambda>h (a, b). compare_op L h op a b))"
| "execute_runtime_instruction L run e m (UnaryOp dst op src) =
     store_to dst (heap_op m (rd m src) (\<lambda>h v. unary_op L h op v))"
| "execute_runtime_instruction L run e m (BooleanOp dst op lhs rhs) =
     store_to dst (m, and_then (rd_bool m lhs) (\<lambda>a.
       map_ok (\<lambda>b. Bool (boolean_value op a b)) (rd_bool m rhs)))"
| "execute_runtime_instruction L run e m (BuildTuple dst items) =
     store_to dst (heap_op m (read_many m items) (build_tuple L))"
| "execute_runtime_instruction L run e m (BuildList dst items) =
     store_to dst (heap_op m (read_many m items) (build_list L))"
| "execute_runtime_instruction L run e m (BuildDict dst entries) =
     store_to dst (heap_op m (try_map (\<lambda>(k, v). rd2 m k v) entries) (build_dict L))"
| "execute_runtime_instruction L run e m (GetItem dst obj key) =
     store_to dst (heap_op m (rd2 m obj key) (\<lambda>h (a, b). get_item L h a b))"
| "execute_runtime_instruction L run e m (GetAttr dst obj name) =
     store_to dst
       (case rd m obj of
          Inl err \<Rightarrow> (m, Inl err)
        | Inr v \<Rightarrow> prepared_attribute m (frame_pc (m_frame m)) v name)"
| "execute_runtime_instruction L run e m (GetSlice dst obj start stop step) =
     store_to dst (heap_op m (read_slice m obj start stop step) (\<lambda>h (v, i, j, k). get_slice L h v i j k))"
| "execute_runtime_instruction L run e m (SetItem obj key v) =
     heap_op m (rd3 m obj key v) (\<lambda>h (a, b, c). set_item L h a b c)"
| "execute_runtime_instruction L run e m (SetAttr obj name v) =
     heap_op m (and_then (rd m obj) (\<lambda>receiver.
         case receiver of
           ObjectValue _ \<Rightarrow> map_ok (Pair receiver) (rd m v)
         | _ \<Rightarrow> Inl (Msg ''attribute receiver is not an object'')))
       (\<lambda>h (receiver, w). set_attribute_value h receiver name w)"
| "execute_runtime_instruction L run e m (SetSlice obj start stop step v) =
     heap_op m (and_then (read_slice m obj start stop step) (\<lambda>s. map_ok (Pair s) (rd m v)))
       (\<lambda>h ((a, i, j, k), w). set_slice h a i j k w)"
| "execute_runtime_instruction L run e m (ListAppend obj v) =
     heap_op m (rd2 m obj v) (\<lambda>h (a, b). append_list h a b)"
| "execute_runtime_instruction L run e m (ListInsert obj index v) =
     heap_op m (rd3 m obj index v) (\<lambda>h (a, b, c). insert_list h a b c)"
| "execute_runtime_instruction L run e m (ListPop dst obj index) =
     store_to dst (heap_op m (rd2 m obj index) (\<lambda>h (a, b). pop_list h a b))"
| "execute_runtime_instruction L run e m (Length dst obj) =
     store_to dst (heap_read m (rd m obj) length_op)"
| "execute_runtime_instruction L run e m (LoadCurrentFunction dst) =
     store_to dst (load_current_function L e m)"
| "execute_runtime_instruction L run e m (Call dst callable args) = perform_call run e dst callable args m"
| "execute_runtime_instruction L run e m (CallMethod dst receiver name args) =
     perform_method_call run e dst receiver name args m"
| "execute_runtime_instruction L run e m (AddI64 dst lhs rhs) =
     store_to dst (heap_op m (rd2 m lhs rhs) (\<lambda>h (a, b). binary_op L h Add a b))"
| "execute_runtime_instruction L run e m (LtI64 dst lhs rhs) =
     store_to dst (heap_read m (rd2 m lhs rhs) (\<lambda>h (a, b). compare_op L h CmpLt a b))"
| "execute_runtime_instruction L run e m (Move dst src) =
     store_to dst (m, rd m src)"
| "execute_runtime_instruction L run e m _ =
     (m, Inl (Msg ''instruction has no native runtime path''))"

definition move_pc :: "nat \<Rightarrow> machine \<Rightarrow> machine" where
  "move_pc pc m = m\<lparr>m_frame := (m_frame m)\<lparr>frame_pc := pc\<rparr>\<rparr>"

text \<open>The end of an instruction that falls through.\<close>

definition advance :: "machine \<times> (vm_error + unit) \<Rightarrow> machine \<times> (vm_error + wvalue option)" where
  "advance r = then_with r (\<lambda>m _. (move_pc (Suc (frame_pc (m_frame m))) m, Inr None))"

definition report_guest_call :: "machine \<Rightarrow> machine" where
  "report_guest_call m = m\<lparr>m_vm := with_report record_interpreter_guest_call (m_vm m)\<rparr>"

definition small_operands :: "machine \<Rightarrow> register \<Rightarrow> register \<Rightarrow> vm_error + i64 \<times> i64" where
  "small_operands m lhs rhs =
     and_then (read_small_int (m_frame m) lhs) (\<lambda>a. map_ok (Pair a) (read_small_int (m_frame m) rhs))"

fun execute_instruction ::
  "numlib \<Rightarrow> runner \<Rightarrow> executable \<Rightarrow> machine \<Rightarrow> instruction
    \<Rightarrow> machine \<times> (vm_error + wvalue option)" where
  "execute_instruction L run e m (ConstSmallInt dst v) = advance (write_dst dst m (SmallInt v))"
| "execute_instruction L run e m (ConstI64 dst v) = advance (write_dst dst m (SmallInt v))"
| "execute_instruction L run e m (ConstBool dst v) = advance (write_dst dst m (Bool v))"
| "execute_instruction L run e m (ConstNone dst) = advance (write_dst dst m ValueNone)"
| "execute_instruction L run e m (Call dst callable args) =
     advance (perform_call run e dst callable args (report_guest_call m))"
| "execute_instruction L run e m (CallMethod dst receiver name args) =
     advance (perform_method_call run e dst receiver name args (report_guest_call m))"
| "execute_instruction L run e m (AddI64 dst lhs rhs) =
     advance (store_to dst (heap_op m (small_operands m lhs rhs) (\<lambda>h (a, b).
       binary_op L h Add (SmallInt a) (SmallInt b))))"
| "execute_instruction L run e m (LtI64 dst lhs rhs) =
     advance (store_to dst (m, map_ok (\<lambda>(a, b). Bool (sint a < sint b)) (small_operands m lhs rhs)))"
| "execute_instruction L run e m (Move dst src) = advance (store_to dst (m, rd m src))"
| "execute_instruction L run e m (Jump target) = (move_pc target m, Inr None)"
| "execute_instruction L run e m (Branch cond yes no) =
     (case read_bool (m_frame m) cond of
        Inl err \<Rightarrow> (m, Inl err)
      | Inr b \<Rightarrow> (move_pc (if b then yes else no) m, Inr None))"
| "execute_instruction L run e m (Return src) = (m, map_ok Some (rd m src))"
| "execute_instruction L run e m i = advance (execute_runtime_instruction L run e m i)"

section \<open>The dispatch loop\<close>

text \<open>The quickened instruction at the program counter, when there is one, goes first.\<close>

definition try_quick :: "numlib \<Rightarrow> machine \<Rightarrow> machine \<times> (vm_error + quick_outcome)" where
  "try_quick L m =
     (case quick_code_get (rt_quick_code (m_runtime m)) (frame_pc (m_frame m)) of
        None \<Rightarrow> (m, Inr GuardMiss)
      | Some q \<Rightarrow>
          (case execute_quick L q (m_frame m, m_heap m) of
             ((f, h), r) \<Rightarrow> ((with_heap m h)\<lparr>m_frame := f\<rparr>, r)))"

definition execute_step ::
  "numlib \<Rightarrow> runner \<Rightarrow> executable \<Rightarrow> machine \<Rightarrow> machine \<times> (vm_error + wvalue option)" where
  "execute_step L run e m =
     (if length (exec_code e) \<le> frame_pc (m_frame m)
      then (m, Inl (Msg ''function ended without Return''))
      else
        then_with (try_quick L m) (\<lambda>m outcome.
          case outcome of
            Handled \<Rightarrow> (m, Inr None)
          | GuardMiss \<Rightarrow>
              (case get_at (exec_code e) (frame_pc (m_frame m)) of
                 None \<Rightarrow> (m, Inl (Numbered ''invalid instruction pc {}'' [int (frame_pc (m_frame m))]))
               | Some i \<Rightarrow> execute_instruction L run e m i)))"

primrec execute_with_runtime :: "nat \<Rightarrow> numlib \<Rightarrow> runner" where
  "execute_with_runtime 0 L = (\<lambda>e m. (m, Inl Diverges))"
| "execute_with_runtime (Suc n) L = (\<lambda>e m.
     then_with (execute_step L (execute_with_runtime n L) e m) (\<lambda>m r.
       case r of
         Some v \<Rightarrow> (m, Inr v)
       | None \<Rightarrow> execute_with_runtime n L e m))"

text \<open>The entry points of the machine, with the fuel of the dispatch loop.\<close>

definition execute_with_args ::
  "nat \<Rightarrow> numlib \<Rightarrow> executable \<Rightarrow> wvalue list \<Rightarrow> vm \<Rightarrow> vm \<times> (vm_error + wvalue)" where
  "execute_with_args n L e args v =
     execute_function (execute_with_runtime n L) e args (v\<lparr>vm_report := empty_report\<rparr>)"

definition execute :: "nat \<Rightarrow> numlib \<Rightarrow> executable \<Rightarrow> vm \<Rightarrow> vm \<times> (vm_error + wvalue)" where
  "execute n L e = execute_with_args n L e []"

end
