(* ===== verification/Heap_Values.thy ===== *)
theory Heap_Values
  imports Vm_Interpreter Object_Ops_Laws
begin

text \<open>
  What the operations on the heap owe the interpreter, beyond a well-formed heap: no object ever
  holds \<open>Uninitialized\<close>, no executable appears that the program does not have, and an operation
  on initialised operands fails only with errors a guest program can cause.
\<close>

section \<open>Internal errors\<close>

text \<open>
  The errors that show a broken machine rather than a broken guest program: a panic, a register,
  pc, constant or cache slot that does not exist, a path the dispatch rules out, an uninitialised
  value that reached the heap.
\<close>

definition internal_messages :: "string set" where
  "internal_messages =
     {''function ended without Return'', ''function callable reached non-function dispatch'',
      ''instruction has no native runtime path'', ''active function runtime was not restored'',
      ''function frame has the wrong register count''}"

definition internal_formats :: "string set" where
  "internal_formats =
     {''invalid register r{}'', ''invalid instruction pc {}'', ''missing call site at pc {}'',
      ''missing attribute site at pc {}'', ''invalid constant c{}'', ''invalid constant cache slot c{}''}"

fun internal_error :: "vm_error \<Rightarrow> bool" where
  "internal_error Panic = True"
| "internal_error (HeapError e) = (e = UninitializedValue)"
| "internal_error (Msg s) = (s \<in> internal_messages)"
| "internal_error (Numbered s ns) = (s \<in> internal_formats)"
| "internal_error _ = False"

definition quiet :: "vm_error + 'a \<Rightarrow> bool" where
  "quiet m \<longleftrightarrow> (\<forall>e. m = Inl e \<longrightarrow> \<not> internal_error e)"

named_theorems quiet_intros \<open>computations without internal errors\<close>

lemma quiet_simps [simp]:
  "quiet (Inr x)" "quiet (Inl e) \<longleftrightarrow> \<not> internal_error e" "quiet (map_ok f m) \<longleftrightarrow> quiet m"
  "quiet (ensure b e) \<longleftrightarrow> b \<or> \<not> internal_error e"
  "quiet (ok_or p e) \<longleftrightarrow> p \<noteq> None \<or> \<not> internal_error e"
  by (cases b; cases p; simp add: quiet_def ensure_def)+

lemma quietD: "quiet m \<Longrightarrow> m = Inl e \<Longrightarrow> \<not> internal_error e"
  by (simp add: quiet_def)

lemma quiet_heap_error: "m \<noteq> Inl UninitializedValue \<Longrightarrow> quiet (map_err HeapError m)"
  by (auto simp: quiet_def map_err_Inl_iff)

lemma quiet_and_then [quiet_intros]:
  "quiet m \<Longrightarrow> (\<And>x. m = Inr x \<Longrightarrow> quiet (f x)) \<Longrightarrow> quiet (and_then m f)"
  by (auto simp: quiet_def and_then_Inl_iff)

lemma quiet_try_all [quiet_intros]: "(\<And>x. x \<in> set xs \<Longrightarrow> quiet (f x)) \<Longrightarrow> quiet (try_all f xs)"
  by (auto simp: quiet_def dest!: try_all_Inl)

lemma quiet_try_map [quiet_intros]: "(\<And>x. x \<in> set xs \<Longrightarrow> quiet (f x)) \<Longrightarrow> quiet (try_map f xs)"
  by (auto simp: quiet_def dest!: try_map_Inl)

lemma quiet_try_opt [quiet_intros]: "(\<And>x. p = Some x \<Longrightarrow> quiet (f x)) \<Longrightarrow> quiet (try_opt f p)"
  by (cases p) auto

lemma heap_get_error [simp]: "heap_get h r \<noteq> Inl UninitializedValue"
  by (auto simp: heap_get_eq Let_def split: option.splits)

lemma quiet_heap_get [simp]: "quiet (map_err HeapError (heap_get h r))"
  by (simp add: quiet_heap_error)

lemma heap_get_Inl_quiet: "heap_get h r = Inl e \<Longrightarrow> e \<noteq> UninitializedValue"
  using heap_get_error by metis

text \<open>Errors of the numeric and sequence helpers.\<close>

lemmas internal_sets = internal_messages_def internal_formats_def

lemma quiet_numbers [simp]:
  "quiet (number_to_big a)" "quiet (number_to_f64 L a)"
  by (cases a; simp add: internal_sets)+

lemma quiet_number_optional [simp]: "quiet (number_optional h v)"
  by (auto simp: number_optional_def split: wvalue.split sum.split object.split
      dest: heap_get_Inl_quiet)

lemma quiet_number_operand [simp]: "quiet (number_operand h v)"
  by (auto simp: number_operand_def internal_sets intro!: quiet_intros)

lemma quiet_ratio [simp]: "quiet (integer_ratio_to_f64 L m n)"
  by (auto simp: integer_ratio_to_f64_def magnitude_ratio_def internal_sets Let_def
      intro!: quiet_intros)

lemma quiet_raw_index [simp]: "quiet (raw_index h v)"
  by (auto simp: raw_index_def internal_sets split: wvalue.split sum.split object.split
      dest: heap_get_Inl_quiet)

lemma quiet_sequence_index [simp]: "quiet (sequence_index h v n)"
  by (auto simp: sequence_index_def internal_sets Let_def intro!: quiet_intros)

lemma quiet_optional_index [simp]: "quiet (optional_index h v)"
  by (auto simp: optional_index_def intro!: quiet_intros)

lemma quiet_forward_slice_bounds [simp]: "quiet (forward_slice_bounds h n i j)"
  by (auto simp: forward_slice_bounds_def internal_sets Let_def intro!: quiet_intros)

lemma quiet_slice_indices [simp]: "quiet (slice_indices h n i j k)"
  by (auto simp: slice_indices_def internal_sets Let_def intro!: quiet_intros)

lemma quiet_hashable [simp]: "quiet (ensure_hashable h v)"
proof -
  have "quiet (ensure_hashable_with n h v)" for n
  proof (induction n h v rule: ensure_hashable_with.induct)
    case (2 n h r)
    then show ?case
      by (auto split: sum.splits object.splits nat.splits simp: internal_sets
          dest: heap_get_Inl_quiet intro!: quiet_intros)
  qed (auto simp: internal_sets)
  then show ?thesis by (simp add: ensure_hashable_def)
qed

lemma quiet_values_equal [simp]: "quiet (values_equal L h v w)"
proof -
  have "quiet (values_equal_with n L h pending v w)" for n pending
  proof (induction n arbitrary: pending v w)
    case 0
    show ?case
      by (subst values_equal_with.simps)
         (auto simp: quiet_def map_err_Inl_iff big_int_equal_def object_comparison_def
           split: wvalue.splits comparison.splits sum.splits object.splits dest: heap_get_Inl_quiet)
  next
    case (Suc n)
    have decided: "e \<noteq> HeapError UninitializedValue \<and> (\<forall>s ns. e \<noteq> Msg s \<and> e \<noteq> Numbered s ns) \<and> e \<noteq> Panic"
      if "object_comparison h a b = Decided (Inl e)" for a b e
      using that by (auto simp: object_comparison_def split: sum.splits object.splits
          dest: heap_get_Inl_quiet)
    have "\<not> internal_error e" if "object_comparison h a b = Decided (Inl e)" for a b e
      using decided [OF that] by (cases e) auto
    then show ?case using Suc
      by (subst values_equal_with.simps)
         (auto simp: quiet_def map_err_Inl_iff sequence_equal_def dict_equal_def big_int_equal_def
           dest: all_equal_error dict_entries_error heap_get_Inl_quiet
           split: wvalue.splits comparison.splits sum.splits object.splits)
  qed
  then show ?thesis by (simp add: values_equal_def)
qed

lemma quiet_find_key [simp]: "quiet (find_key L h es k)"
  using quiet_values_equal find_key_error [of "values_equal L h" es k]
  by (auto simp: quiet_def find_key_def)

lemma quiet_compare_numbers [simp]: "quiet (compare_numbers L a b)"
  by (cases a; cases b)
     (auto simp: compare_integer_float_def internal_sets split: ordering.splits if_splits
       intro!: quiet_intros)

lemma quiet_compare_op [simp]: "quiet (compare_op L h op v w)"
  by (auto simp: compare_op_def compare_strings_def internal_sets intro!: quiet_intros
      split: option.splits wvalue.splits object.splits)

lemma quiet_length_op [simp]: "quiet (length_op h v)"
  by (auto simp: length_op_def internal_sets intro!: quiet_intros split: wvalue.splits object.splits)

section \<open>Good heaps\<close>

text \<open>
  The executables of a process, as the set \<open>U\<close>: an identity names one of them, and the constants
  of each are among them.
\<close>

definition methods_in :: "executable set \<Rightarrow> class_object \<Rightarrow> bool" where
  "methods_in U c \<longleftrightarrow> (\<forall>(name, f) \<in> set (class_methods c). f \<in> U)"

fun object_in :: "executable set \<Rightarrow> object \<Rightarrow> bool" where
  "object_in U (FunctionObject f) = (f \<in> U)"
| "object_in U (ClassObj c) = methods_in U c"
| "object_in U (BoundMethodObj b) = (bm_function b \<in> U)"
| "object_in U _ = True"

definition program :: "executable set \<Rightarrow> bool" where
  "program U \<longleftrightarrow> (\<forall>e \<in> U. \<forall>f \<in> U. exec_id e = exec_id f \<longrightarrow> e = f)
     \<and> (\<forall>e \<in> U. \<forall>c \<in> set (exec_constants e). object_in U (constant_object c))"

definition object_good :: "executable set \<Rightarrow> object \<Rightarrow> bool" where
  "object_good U x \<longleftrightarrow> object_ok x \<and> object_in U x \<and> Uninitialized \<notin> set (held_values x)"

definition heap_good :: "executable set \<Rightarrow> object_heap \<Rightarrow> bool" where
  "heap_good U h \<longleftrightarrow> heap_wf h \<and> (\<forall>r x. heap_get h r = Inr x \<longrightarrow> object_good U x)"

definition initialised :: "wvalue \<Rightarrow> bool" where
  "initialised v \<longleftrightarrow> v \<noteq> Uninitialized"

lemma initialised_simps [simp]:
  "initialised (SmallInt n)" "initialised (Float x)" "initialised (Bool b)" "initialised ValueNone"
  "initialised (ObjectValue r)" "\<not> initialised Uninitialized"
  by (simp_all add: initialised_def)

lemma heap_good_wf: "heap_good U h \<Longrightarrow> heap_wf h"
  by (simp add: heap_good_def)

lemma heap_good_get: "heap_good U h \<Longrightarrow> heap_get h r = Inr x \<Longrightarrow> object_good U x"
  by (auto simp: heap_good_def)

lemma held_initialised:
  "heap_good U h \<Longrightarrow> heap_get h r = Inr x \<Longrightarrow> v \<in> set (held_values x) \<Longrightarrow> initialised v"
  using heap_good_get by (fastforce simp: object_good_def initialised_def)

lemma heap_good_put:
  assumes "heap_good U h" and "heap_get h r = Inr x" and "object_good U y"
  shows "heap_good U (heap_put h r y)"
  unfolding heap_good_def
proof (intro conjI allI impI)
  show "heap_wf (heap_put h r y)"
    using assms heap_put_wf by (auto simp: heap_good_def object_good_def)
  show "object_good U z" if "heap_get (heap_put h r y) q = Inr z" for q z
    using that assms heap_get_put_same [OF assms(2)] heap_get_put_other [OF assms(2)]
    by (cases "q = r") (auto simp: heap_good_def)
qed

text \<open>After an allocation, a live object is the new one or one that was there before.\<close>

lemma allocate_origin:
  assumes "heap_wf h" and "allocate_validated h x = (h', res)" and "heap_get h' q = Inr y"
  shows "y = x \<and> (\<exists>r. res = Inr r) \<or> heap_get h q = Inr y"
  using assms(1,2)
proof (cases rule: allocate_cases)
  case (failed e)
  then show ?thesis using assms(3) by (auto simp: heap_get_Inr_iff)
next
  case (reused i g)
  then show ?thesis using assms(3)
    by (cases "ref_slot q = i") (auto simp: heap_get_Inr_iff nth_update_unat)
next
  case (extended i)
  then show ?thesis using assms(3)
    by (cases "unat (ref_slot q) = length (slots h)") (auto simp: heap_get_Inr_iff nth_append)
qed

lemma heap_good_allocate:
  assumes "heap_good U h" and "object_good U x" and "allocate_validated h x = (h', res)"
  shows "heap_good U h'"
  unfolding heap_good_def
proof (intro conjI allI impI)
  have wf: "heap_wf h" using assms(1) by (rule heap_good_wf)
  show "heap_wf h'" using allocate_wf [OF wf _ assms(3)] assms(2) by (simp add: object_good_def)
  show "object_good U z" if "heap_get h' q = Inr z" for q z
    using allocate_origin [OF wf assms(3) that] assms(1,2) heap_good_get by blast
qed

lemma heap_good_new [simp]: "heap_good U (heap_new i)"
proof -
  have "heap_get (heap_new i) r \<noteq> Inr x" for r x by (simp add: heap_get_Inr_iff heap_new_def)
  then show ?thesis by (simp add: heap_good_def)
qed

section \<open>Good operations\<close>

definition op_good ::
  "executable set \<Rightarrow> ('a \<Rightarrow> bool) \<Rightarrow> object_heap \<times> (vm_error + 'a) \<Rightarrow> bool" where
  "op_good U P outcome \<longleftrightarrow>
     heap_good U (fst outcome) \<and> quiet (snd outcome) \<and> (\<forall>x. snd outcome = Inr x \<longrightarrow> P x)"

named_theorems op_good_intros \<open>operations that keep a good heap\<close>

lemma op_good_pure:
  "heap_good U h \<Longrightarrow> quiet m \<Longrightarrow> (\<And>x. m = Inr x \<Longrightarrow> P x) \<Longrightarrow> op_good U P (h, m)"
  by (simp add: op_good_def)

lemma op_good_apsnd: "op_good U (\<lambda>x. P (f x)) m \<Longrightarrow> op_good U P (apsnd (map_ok f) m)"
  by (auto simp: op_good_def map_ok_Inr_iff)

lemma op_good_mono: "op_good U P m \<Longrightarrow> (\<And>x. P x \<Longrightarrow> Q x) \<Longrightarrow> op_good U Q m"
  by (auto simp: op_good_def)

lemma op_good_then_with:
  assumes "op_good U Q m" and "\<And>h x. heap_good U h \<Longrightarrow> m = (h, Inr x) \<Longrightarrow> Q x \<Longrightarrow> op_good U P (f h x)"
  shows "op_good U P (then_with m f)"
  using assms by (cases m; cases "snd m") (auto simp: op_good_def)

lemma op_good_put:
  "heap_good U h \<Longrightarrow> heap_get h r = Inr x \<Longrightarrow> object_good U y \<Longrightarrow> quiet m \<Longrightarrow>
   (\<And>x. m = Inr x \<Longrightarrow> P x) \<Longrightarrow> op_good U P (heap_put h r y, m)"
  by (simp add: op_good_def heap_good_put)

lemma allocate_error: "heap_wf h \<Longrightarrow> allocate_validated h x = (h', Inl e) \<Longrightarrow> e \<noteq> UninitializedValue"
  by (auto simp: allocate_validated_def slot_at_def Let_def split: if_splits sum.splits option.splits)

lemma op_good_allocate_validated:
  assumes "heap_good U h" and "object_good U x"
  shows "op_good U initialised (apsnd (\<lambda>r. map_ok ObjectValue (map_err HeapError r)) (allocate_validated h x))"
proof -
  obtain h' res where a: "allocate_validated h x = (h', res)" by fastforce
  have "quiet (map_err HeapError res)"
    using allocate_error [OF heap_good_wf [OF assms(1)]] a by (intro quiet_heap_error) metis
  then show ?thesis using heap_good_allocate [OF assms a]
    by (auto simp: op_good_def a map_ok_Inr_iff)
qed

lemma validate_value_quiet: "initialised v \<Longrightarrow> validate_value h v \<noteq> Inl UninitializedValue"
  by (cases v) (auto simp: validate_value_def)

lemma validate_values_quiet:
  "(\<And>v. v \<in> set vs \<Longrightarrow> initialised v) \<Longrightarrow> try_all (validate_value h) vs \<noteq> Inl UninitializedValue"
  using validate_value_quiet by (auto dest!: try_all_Inl)

lemma validate_object_quiet:
  assumes "object_good U x" and "kind_of x \<noteq> KDict"
  shows "validate_host_object L h x \<noteq> Inl UninitializedValue"
proof -
  have held: "initialised v" if "v \<in> set (held_values x)" for v
    using assms(1) that by (auto simp: object_good_def initialised_def)
  show ?thesis
  proof (cases x)
    case (InstanceObj i)
    have "try_all (\<lambda>(_, v). validate_value h v) (inst_fields i) \<noteq> Inl UninitializedValue"
      using held validate_value_quiet InstanceObj by (fastforce dest!: try_all_Inl)
    then show ?thesis using InstanceObj validate_value_quiet [of "ObjectValue (inst_class i)" h]
      by (auto simp: validate_host_object_def and_then_Inl_iff)
  qed (use assms held validate_values_quiet in \<open>auto simp: validate_host_object_def validate_value_def\<close>)
qed

lemma op_good_allocate [op_good_intros]:
  assumes "heap_good U h" and "object_good U x" and "kind_of x \<noteq> KDict"
  shows "op_good U initialised (allocate_object L h x)"
proof (cases "validate_host_object L h x")
  case (Inl e)
  then have "e \<noteq> UninitializedValue" using validate_object_quiet [OF assms(2,3), of L h] by auto
  then show ?thesis using Inl assms(1)
    by (simp add: allocate_object_def heap_allocate_def op_good_def)
next
  case (Inr u)
  then show ?thesis using op_good_allocate_validated [OF assms(1,2)]
    by (simp add: allocate_object_def heap_allocate_def)
qed

lemma object_good_simps [simp]:
  "object_good U (StringObject cs)" "object_good U (BigIntObject n)"
  "object_good U (FunctionObject f) \<longleftrightarrow> f \<in> U" "object_good U (ClassObj c) \<longleftrightarrow> methods_in U c"
  "object_good U (TupleObject s) \<longleftrightarrow> seq_ok s \<and> Uninitialized \<notin> set (seq_to_vec s)"
  "object_good U (ListObject s) \<longleftrightarrow> seq_ok s \<and> Uninitialized \<notin> set (seq_to_vec s)"
  "object_good U (tuple_object vs) \<longleftrightarrow> Uninitialized \<notin> set vs"
  "object_good U (list_object vs) \<longleftrightarrow> Uninitialized \<notin> set vs"
  by (auto simp: object_good_def tuple_object_def list_object_def)

lemma op_good_allocate_big [op_good_intros]:
  "heap_good U h \<Longrightarrow> op_good U initialised (allocate_big L h n)"
  by (simp add: allocate_big_def op_good_allocate)

lemma op_good_numbers:
  assumes "heap_good U h"
  shows "op_good U initialised (number_operation L h op a b)"
proof -
  note pure = op_good_pure [OF assms, where P = initialised]
  have big: "op_good U initialised (big_operation L h f a b)" for f
    using assms by (auto simp: big_operation_def and_then_Inl_iff split: sum.split
        intro!: op_good_intros pure dest: quietD [OF quiet_numbers(1)])
  have small: "op_good U initialised (case n of None \<Rightarrow> allocate_big L h m | Some v \<Rightarrow> (h, Inr (SmallInt v)))" for n m
    using assms by (auto split: option.split intro!: op_good_intros pure)
  have divide: "op_good U initialised (h, divide_numbers L a b)"
    by (intro pure) (auto simp: divide_numbers_def map_ok_Inr_iff internal_sets intro!: quiet_intros split: if_splits)
  have power: "op_good U initialised (h, power_numbers L a b)"
    by (intro pure) (auto simp: power_numbers_def and_then_Inr_iff intro!: quiet_intros)
  have floor: "op_good U initialised (floor_divide_numbers L h a b)"
    using assms
    by (auto simp: floor_divide_numbers_def floor_divide_big_def and_then_Inl_iff and_then_Inr_iff internal_sets Let_def
        split: sum.split option.split intro!: op_good_intros pure quiet_intros
        dest: quietD [OF quiet_numbers(1)])
  show ?thesis
    using assms big small divide power floor
    by (cases op; cases a; cases b)
       (auto simp: smallint_add_def map_ok_Inr_iff internal_sets intro!: pure)
qed

lemma op_good_sequence_add [op_good_intros]:
  assumes "heap_good U h"
  shows "op_good U (\<lambda>r. \<forall>v. r = Some v \<longrightarrow> initialised v) (sequence_add L h a b)"
proof -
  have alloc: "op_good U (\<lambda>r. \<forall>v. r = Some v \<longrightarrow> initialised v) (apsnd (map_ok Some) (allocate_object L h x))"
    if "object_good U x" "kind_of x \<noteq> KDict" for x
    using op_good_allocate [OF assms that, of L] by (intro op_good_apsnd) (auto intro: op_good_mono)
  have good: "heap_get h r = Inr x \<Longrightarrow> object_good U x" for r x
    using heap_good_get [OF assms] .
  show ?thesis using assms good
    by (auto simp: sequence_add_def split: wvalue.split sum.split object.split
        intro!: op_good_pure alloc dest: heap_get_Inl_quiet good)
       (metis object_good_simps(5,6))+
qed

lemma set_seq_repeated: "seq_ok s \<Longrightarrow> set (seq_to_vec (seq_repeated s n)) \<subseteq> set (seq_to_vec s)"
  by (auto simp: seq_repeated_def)

lemma quiet_repeat_in_order [simp]: "quiet (repeat_in_order h a b)"
  by (auto simp: repeat_in_order_def repeat_count_def repeated_object_def internal_sets
      intro!: quiet_intros split: wvalue.splits sum.splits object.splits option.splits
      dest: heap_get_Inl_quiet)

lemma repeated_object_good:
  assumes "heap_good U h" and "repeated_object h v n = Inr (Some x)"
  shows "object_good U x \<and> kind_of x \<noteq> KDict"
  using assms(2) heap_good_get [OF assms(1)]
  by (auto simp: repeated_object_def seq_repeated_def split: wvalue.splits sum.splits object.splits)
     (metis object_good_simps(5,6))+

lemma repeat_in_order_good:
  assumes "heap_good U h" and "repeat_in_order h a b = Inr (Some x)"
  shows "object_good U x \<and> kind_of x \<noteq> KDict"
  using assms(2) repeated_object_good [OF assms(1)]
  by (auto simp: repeat_in_order_def and_then_Inr_iff split: option.splits)

lemma op_good_sequence_repeat [op_good_intros]:
  assumes "heap_good U h"
  shows "op_good U (\<lambda>r. \<forall>v. r = Some v \<longrightarrow> initialised v) (sequence_repeat L h a b)"
proof -
  define m where "m = and_then (repeat_in_order h a b) (\<lambda>r.
      case r of Some obj \<Rightarrow> Inr (Some obj) | None \<Rightarrow> repeat_in_order h b a)"
  have "quiet m" by (auto simp: m_def intro!: quiet_intros split: option.split)
  moreover have "object_good U x \<and> kind_of x \<noteq> KDict" if "m = Inr (Some x)" for x
    using that repeat_in_order_good [OF assms]
    by (auto simp: m_def and_then_Inr_iff split: option.splits)
  moreover have "op_good U (\<lambda>r. \<forall>v. r = Some v \<longrightarrow> initialised v) (apsnd (map_ok Some) (allocate_object L h x))"
    if "object_good U x \<and> kind_of x \<noteq> KDict" for x
    using op_good_allocate [OF assms, of x L] that by (intro op_good_apsnd) (auto intro: op_good_mono)
  ultimately show ?thesis
    using assms unfolding sequence_repeat_def m_def [symmetric]
    by (auto split: sum.split option.split intro!: op_good_pure)
qed

lemma op_good_binary [op_good_intros]:
  assumes "heap_good U h"
  shows "op_good U initialised (binary_op L h op a b)"
  unfolding binary_op_def
proof (rule op_good_then_with [where Q = "\<lambda>r. \<forall>v. r = Some v \<longrightarrow> initialised v"], goal_cases)
  case 1
  show ?case using assms by (auto intro!: op_good_intros op_good_pure)
next
  case (2 h1 added)
  have rest: "op_good U initialised (then_with (h, number_operand h a)
      (\<lambda>h x. then_with (h, number_operand h b) (\<lambda>h y. number_operation L h op x y)))"
    if "heap_good U h" for h
    using that by (auto intro!: op_good_then_with [where Q = "\<lambda>_. True"] op_good_pure op_good_numbers)
  show ?case
  proof (cases added)
    case (Some v)
    then show ?thesis using 2 by (auto intro!: op_good_pure)
  next
    case None
    have "op_good U (\<lambda>r. \<forall>v. r = Some v \<longrightarrow> initialised v)
        (if op = Multiply then sequence_repeat L h1 a b else (h1, Inr None))"
      using 2(1) by (auto intro!: op_good_intros op_good_pure)
    then show ?thesis unfolding None option.case
    proof (rule op_good_then_with, goal_cases)
      case (1 h2 repeated)
      then show ?case by (cases repeated) (auto intro!: op_good_pure rest)
    qed
  qed
qed

lemma op_good_unary [op_good_intros]:
  assumes "heap_good U h"
  shows "op_good U initialised (unary_op L h op v)"
  using assms
  by (cases op; cases v)
     (auto split: option.split sum.split object.split simp: internal_sets
       intro!: op_good_intros op_good_pure dest: heap_get_Inl_quiet)

lemma op_good_build [op_good_intros]:
  "heap_good U h \<Longrightarrow> \<forall>v \<in> set vs. initialised v \<Longrightarrow> op_good U initialised (build_tuple L h vs)"
  "heap_good U h \<Longrightarrow> \<forall>v \<in> set vs. initialised v \<Longrightarrow> op_good U initialised (build_list L h vs)"
  by (auto simp: build_tuple_def build_list_def initialised_def intro!: op_good_allocate)

section \<open>Containers\<close>

lemma list_good:
  assumes "heap_good U h" and "heap_get h r = Inr (ListObject s)"
  shows "seq_ok s" and "Uninitialized \<notin> set (seq_to_vec s)"
  using heap_good_get [OF assms] by simp_all

lemma op_good_put_list:
  assumes "heap_good U h" and "heap_get h r = Inr x"
    and "\<exists>t. m = Some t \<and> seq_ok t \<and> set (seq_to_vec t) \<subseteq> set vs" and "Uninitialized \<notin> set vs"
  shows "op_good U (\<lambda>_. True) (put_list h r m)"
proof -
  from assms(3) obtain t where t: "m = Some t" "seq_ok t" "set (seq_to_vec t) \<subseteq> set vs" by blast
  then have "object_good U (ListObject t)" using assms(4) by auto
  then show ?thesis using assms(1,2) t by (auto simp: put_list_def intro: op_good_put)
qed

lemma op_good_append [op_good_intros]:
  assumes "heap_good U h" and "initialised v"
  shows "op_good U (\<lambda>_. True) (append_list h list v)"
proof -
  have "op_good U (\<lambda>_. True) (put_list h r (seq_push s v))" if s: "heap_get h r = Inr (ListObject s)" for r s
    using list_good [OF assms(1) s] assms(2) seq_insert_ok_vec [of s "seq_len s" v]
    by (intro op_good_put_list [OF assms(1) s, of _ "v # seq_to_vec s"])
       (auto simp: seq_push_def seq_len_vec initialised_def)
  then show ?thesis using assms
    by (auto simp: append_list_def internal_sets split: wvalue.split sum.split object.split
        intro!: op_good_pure dest: heap_get_Inl_quiet)
qed

lemma op_good_insert [op_good_intros]:
  assumes "heap_good U h" and "initialised v"
  shows "op_good U (\<lambda>_. True) (insert_list h list index v)"
proof -
  have "op_good U (\<lambda>_. True)
      (put_list h r (seq_insert s (nat (if i < 0 then max (saturating_add_i64 n i) 0 else min i n)) v))"
    if s: "heap_get h r = Inr (ListObject s)" and n: "n = int (seq_len s)" for r s i n
  proof -
    have "nat (if i < 0 then max (saturating_add_i64 n i) 0 else min i n) \<le> seq_len s"
      by (auto simp: n saturating_add_i64_def saturate_i64_def)
    then show ?thesis
      using list_good [OF assms(1) s] assms(2) seq_insert_ok_vec [of s _ v]
      by (intro op_good_put_list [OF assms(1) s, of _ "v # seq_to_vec s"])
         (fastforce simp: seq_len_vec initialised_def)+
  qed
  moreover have large: "quiet (and_then (ensure b (Msg ''list is too large'')) (\<lambda>_. raw_index h index))" for b
    by (auto simp: internal_sets intro!: quiet_intros)
  ultimately show ?thesis using assms
    by (auto simp: insert_list_def internal_sets Let_def
        split: wvalue.split sum.split object.split intro!: op_good_pure
        dest: heap_get_Inl_quiet quietD [OF large])
qed

lemma op_good_pop [op_good_intros]:
  assumes "heap_good U h"
  shows "op_good U initialised (pop_list h list index)"
proof -
  have "op_good U initialised (let (t, removed) = seq_remove s i in (heap_put h r (ListObject t),
      ok_or removed (Msg ''list index out of range'')))"
    if s: "heap_get h r = Inr (ListObject s)" for r s i
  proof -
    obtain t removed where t: "seq_remove s i = (t, removed)" by fastforce
    note vec = seq_remove_ok_vec [OF list_good(1) [OF assms s] t]
    have "Uninitialized \<notin> set (seq_to_vec t)"
      using vec list_good(2) [OF assms s] set_remove_at [of i "seq_to_vec s"] by auto
    moreover have "initialised v" if "removed = Some v" for v
      using that vec list_good(2) [OF assms s] nth_mem by (fastforce simp: initialised_def)
    ultimately show ?thesis using assms s vec
      by (auto simp: t internal_sets intro!: op_good_put)
  qed
  then show ?thesis using assms
    by (auto simp: pop_list_def internal_sets split: wvalue.split sum.split object.split
        intro!: op_good_pure dest: heap_get_Inl_quiet quietD [OF quiet_sequence_index])
qed

lemma dict_put_entry:
  assumes "Uninitialized \<notin> set (held_values (DictObject es))" and "initialised k" "initialised v"
    and "\<And>i. found = Some i \<Longrightarrow> i < length es"
  shows "Uninitialized \<notin> set (held_values (DictObject (put_entry es found k v)))"
proof (cases found)
  case (Some i)
  have "fst (es ! i) \<noteq> Uninitialized"
    using assms(1,4) Some nth_mem [of i es] by (cases "es ! i") fastforce
  then show ?thesis using assms Some
    by (auto simp: put_entry_def initialised_def dest!: set_update_subset_insert [THEN subsetD])
qed (use assms in \<open>auto simp: put_entry_def initialised_def\<close>)

lemma op_good_set_item [op_good_intros]:
  assumes "heap_good U h" and "initialised key" and "initialised v"
  shows "op_good U (\<lambda>_. True) (set_item L h obj key v)"
proof -
  have list: "op_good U (\<lambda>_. True) (let (t, previous) = seq_set s i v in (heap_put h r (ListObject t),
      map_ok (\<lambda>_. ()) (ok_or previous (Msg ''list index out of range''))))"
    if s: "heap_get h r = Inr (ListObject s)" for r s i
  proof -
    obtain t previous where t: "seq_set s i v = (t, previous)" by fastforce
    note vec = seq_set_ok_vec [OF list_good(1) [OF assms(1) s] t]
    have "Uninitialized \<notin> set (seq_to_vec t)"
      using vec list_good(2) [OF assms(1) s] assms(3)
      by (auto simp: initialised_def dest!: set_update_subset_insert [THEN subsetD])
    then show ?thesis using assms s vec
      by (auto simp: t internal_sets intro!: op_good_put)
  qed
  have dict: "op_good U (\<lambda>_. True) (heap_put h r (DictObject (put_entry es found key v)), Inr ())"
    if "heap_get h r = Inr (DictObject es)" and "find_key L h es key = Inr found" for r es found
  proof -
    have "Uninitialized \<notin> set (held_values (DictObject es))"
      using heap_good_get [OF assms(1) that(1)] by (simp add: object_good_def)
    then have "object_good U (DictObject (put_entry es found key v))"
      using dict_put_entry [OF _ assms(2,3), of es found] find_key_bound [of L h es key] that(2)
      by (simp add: object_good_def del: held_values.simps)
    then show ?thesis using assms(1) that(1) by (auto intro!: op_good_put)
  qed
  have found: "quiet (and_then (ensure_hashable h key) (\<lambda>_. find_key L h es key))" for es
    by (intro quiet_intros) simp_all
  then show ?thesis using assms list dict
    by (auto simp: set_item_def and_then_Inr_iff internal_sets
        split: wvalue.split sum.split object.split intro!: op_good_pure
        dest: heap_get_Inl_quiet quietD [OF found] quietD [OF quiet_sequence_index])
qed

lemma op_good_get_item [op_good_intros]:
  assumes "heap_good U h"
  shows "op_good U initialised (get_item L h obj key)"
proof -
  have seq: "op_good U initialised (h, and_then (sequence_index h key (seq_len s)) (\<lambda>i.
      ok_or (seq_get s i) (Msg ''sequence index out of range'')))"
    if "seq_ok s" "Uninitialized \<notin> set (seq_to_vec s)" for s
    using that by (intro op_good_pure [OF assms])
      (auto simp: internal_sets and_then_Inr_iff seq_get_vec initialised_def intro!: quiet_intros
        dest: nth_mem)
  have dict: "op_good U initialised (h, and_then (ensure_hashable h key) (\<lambda>_.
      and_then (find_key L h es key) (\<lambda>found.
        and_then (ok_or found (Msg ''dictionary key not found'')) (\<lambda>i.
          ok_or (map_option snd (get_at es i)) Panic))))"
    if "Uninitialized \<notin> set (held_values (DictObject es))" for es
  proof -
    have "initialised (snd (es ! i))" if "i < length es" for i
      using \<open>Uninitialized \<notin> _\<close> that nth_mem [of i es]
      by (cases "es ! i") (fastforce simp: initialised_def)
    then show ?thesis
      by (intro op_good_pure [OF assms])
         (auto simp: internal_sets and_then_Inr_iff intro!: quiet_intros dest!: find_key_bound)
  qed
  have string: "quiet (and_then (sequence_index h key (length s)) (\<lambda>i.
      ok_or (get_at s i) (Msg ''string index out of range'')))" for s :: text_value
    by (auto simp: internal_sets intro!: quiet_intros)
  show ?thesis
  proof (cases obj)
    case (ObjectValue r)
    show ?thesis
    proof (cases "heap_get h r")
      case (Inl e)
      then show ?thesis using ObjectValue assms
        by (auto simp: get_item_def intro!: op_good_pure dest: heap_get_Inl_quiet)
    next
      case (Inr x)
      then show ?thesis using ObjectValue assms seq dict string heap_good_get [OF assms Inr]
        by (cases x) (auto simp: get_item_def object_good_def internal_sets simp del: held_values.simps(3)
            split: sum.split intro!: op_good_pure op_good_intros dest: quietD [OF string])
    qed
  qed (use assms in \<open>auto simp: get_item_def internal_sets intro!: op_good_pure\<close>)
qed

end
