(* ===== verification/Heap_Values_Ops.thy ===== *)
theory Heap_Values_Ops
  imports Heap_Values
begin

text \<open>
  The remaining operations on a good heap: slices, dictionaries under construction, and
  attributes.
\<close>

section \<open>Slices\<close>

lemma select_items_subset:
  assumes "select_items get indices = Inr xs" and "x \<in> set xs"
  shows "\<exists>i. get i = Some x"
  using assms by (auto simp: select_items_def try_map_Inr_iff list_all2_conv_all_nth in_set_conv_nth)

lemma slice_object_good:
  assumes "object_good U x" and "slice_object h x start stop step = m"
  shows "quiet m \<and> (\<forall>y. m = Inr y \<longrightarrow> object_good U y \<and> kind_of y \<noteq> KDict)"
proof -
  have quiet: "m \<noteq> Inl Panic" using slice_object_sound [of x] assms by (auto simp: object_good_def)
  have vec: "Uninitialized \<notin> set xs"
    if "seq_ok s" "Uninitialized \<notin> set (seq_to_vec s)" "select_items (seq_get s) indices = Inr xs"
    for s xs indices
    using that select_items_subset [OF that(3)] by (fastforce simp: seq_get_vec dest: nth_mem)
  have err: "e = Panic" if "select_items get indices = Inl e" for get :: "nat \<Rightarrow> 'b option" and indices e
    using that by (auto simp: select_items_def dest!: try_map_Inl)
  show ?thesis
  proof (cases x)
    case (TupleObject s)
    then show ?thesis using assms quiet vec [of s] quietD [OF quiet_slice_indices]
      by (cases "slice_indices h (seq_len s) start stop step")
         (auto simp: slice_object_def map_ok_Inr_iff quiet_def dest: err)
  next
    case (ListObject s)
    then show ?thesis using assms quiet vec [of s] quietD [OF quiet_slice_indices]
      by (cases "slice_indices h (seq_len s) start stop step")
         (auto simp: slice_object_def map_ok_Inr_iff quiet_def dest: err)
  next
    case (StringObject s)
    then show ?thesis using assms quiet quietD [OF quiet_slice_indices]
      by (cases "slice_indices h (length s) start stop step")
         (auto simp: slice_object_def map_ok_Inr_iff quiet_def dest: err)
  qed (use assms in \<open>auto simp: slice_object_def internal_sets\<close>)
qed

lemma op_good_get_slice [op_good_intros]:
  assumes "heap_good U h"
  shows "op_good U initialised (get_slice L h obj start stop step)"
proof -
  have quiet: "quiet (slice_object h x start stop step)" if "heap_get h r = Inr x" for r x
    using slice_object_good [OF heap_good_get [OF assms that] refl] by blast
  show ?thesis using assms slice_object_good [OF heap_good_get [OF assms] refl]
    by (auto simp: get_slice_def and_then_Inl_iff and_then_Inr_iff map_err_Inl_iff internal_sets
        split: wvalue.split sum.split intro!: op_good_pure op_good_allocate
        dest: heap_get_Inl_quiet quietD [OF quiet])
qed

lemma replacement_values_good:
  assumes "heap_good U h"
  shows "quiet (replacement_values h v)"
    and "replacement_values h v = Inr vs \<Longrightarrow> Uninitialized \<notin> set vs"
proof -
  show "quiet (replacement_values h v)"
    by (auto simp: replacement_values_def internal_sets split: wvalue.split object.split intro!: quiet_intros)
  assume vs: "replacement_values h v = Inr vs"
  then obtain r where v: "v = ObjectValue r" by (cases v) (auto simp: replacement_values_def)
  with vs obtain x where x: "heap_get h r = Inr x"
    by (cases "heap_get h r") (auto simp: replacement_values_def)
  show "Uninitialized \<notin> set vs"
    using vs v x heap_good_get [OF assms x] by (cases x) (auto simp: replacement_values_def)
qed

lemma set_fold_update:
  "set (fold (\<lambda>(i, v) xs. xs[i := v]) us xs) \<subseteq> set xs \<union> snd ` set us"
proof (induction us arbitrary: xs)
  case (Cons u us)
  obtain i v where u: "u = (i, v)" by (cases u)
  show ?case using Cons.IH [of "xs[i := v]"] set_update_subset_insert [of xs i v] by (auto simp: u)
qed simp

lemma assign_slice_good:
  assumes "seq_ok s" and "Uninitialized \<notin> set (seq_to_vec s)" and "Uninitialized \<notin> set new"
    and run: "assign_slice h s start stop step new = m"
  shows "quiet m \<and> (\<forall>t. m = Inr t \<longrightarrow> object_good U (ListObject t))"
proof -
  have "quiet m"
  proof -
    have "seq_replace_range s lo hi new \<noteq> None"
      if "forward_slice_bounds h (seq_len s) start stop = Inr (lo, hi)" for lo hi
      using forward_slice_bounds_range [OF that] seq_replace_range_ok_vec [OF assms(1)] by fastforce
    then show ?thesis unfolding run [symmetric]
      by (auto simp: assign_slice_def Let_def internal_sets intro!: quiet_intros)
  qed
  moreover have "object_good U (ListObject t)" if "m = Inr t" for t
    using assms(1) run
  proof (cases rule: assign_slice_cases)
    case (failed e)
    then show ?thesis using that by simp
  next
    case (spliced u lo hi)
    then show ?thesis using that assms(2,3)
      by (auto simp: splice_range_def dest: in_set_takeD in_set_dropD)
  next
    case (itemwise k indices)
    have "snd ` set (zip indices new) \<subseteq> set new" by (auto dest: set_zip_rightD)
    moreover have "set (seq_to_vec t) \<subseteq> set (seq_to_vec s) \<union> snd ` set (zip indices new)"
      using itemwise(1) that set_items_vec [OF assms(1), of "zip indices new"]
        set_fold_update [of "zip indices new" "seq_to_vec s"] by simp
    ultimately have "set (seq_to_vec t) \<subseteq> set (seq_to_vec s) \<union> set new" by blast
    then show ?thesis using that itemwise(1) assms set_items_vec [OF assms(1), of "zip indices new"] by auto
  qed
  ultimately show ?thesis by blast
qed

lemma op_good_set_slice [op_good_intros]:
  assumes "heap_good U h"
  shows "op_good U (\<lambda>_. True) (set_slice h obj start stop step new)"
proof (cases obj)
  case (ObjectValue r)
  let ?m = "and_then (replacement_values h new) (\<lambda>vs. and_then (map_err HeapError (heap_get h r)) (\<lambda>x.
      and_then (list_at x) (\<lambda>s. assign_slice h s start stop step vs)))"
  have list_quiet: "quiet (list_at x)" for x by (cases x) (auto simp: internal_sets)
  have assign_quiet: "quiet (assign_slice h s start stop step vs)"
    if "heap_get h r = Inr (ListObject s)" "replacement_values h new = Inr vs" for r s vs
    using assign_slice_good [OF list_good [OF assms that(1)] replacement_values_good(2) [OF assms that(2)] refl]
    by blast
  have quiet: "quiet ?m"
    using replacement_values_good(1) [OF assms] list_quiet
    by (auto intro!: quiet_intros assign_quiet simp: list_at_iff)
  have good: "\<exists>s. heap_get h r = Inr (ListObject s) \<and> object_good U (ListObject t)" if t: "?m = Inr t" for t
  proof -
    from t obtain vs s where vs: "replacement_values h new = Inr vs"
      and s: "heap_get h r = Inr (ListObject s)" and run: "assign_slice h s start stop step vs = Inr t"
      by (auto simp: and_then_Inr_iff list_at_iff)
    show ?thesis
      using assign_slice_good [OF list_good [OF assms s] replacement_values_good(2) [OF assms vs] run] s
      by auto
  qed
  show ?thesis
  proof (cases ?m)
    case (Inl e)
    then show ?thesis using quiet assms ObjectValue by (auto simp: set_slice_def intro!: op_good_pure)
  next
    case (Inr t)
    with good obtain s where "heap_get h r = Inr (ListObject s)" "object_good U (ListObject t)" by blast
    then show ?thesis using Inr assms ObjectValue
      by (auto simp: set_slice_def simp del: object_good_simps intro!: op_good_put)
  qed
qed (use assms in \<open>auto simp: set_slice_def internal_sets intro!: op_good_pure\<close>)

section \<open>Dictionaries\<close>

lemma insert_entry_good:
  assumes es: "Uninitialized \<notin> set (held_values (DictObject es))"
    and kv: "initialised (fst kv)" "initialised (snd kv)"
  shows "quiet (insert_entry L h es kv)"
    and "insert_entry L h es kv = Inr fs \<Longrightarrow> Uninitialized \<notin> set (held_values (DictObject fs))"
proof -
  show "quiet (insert_entry L h es kv)" unfolding insert_entry_def by (intro quiet_intros) simp_all
  assume "insert_entry L h es kv = Inr fs"
  then obtain found where found: "find_key L h es (fst kv) = Inr found"
    and fs: "fs = put_entry es found (fst kv) (snd kv)"
    by (auto simp: insert_entry_def and_then_Inr_iff)
  show "Uninitialized \<notin> set (held_values (DictObject fs))"
    unfolding fs by (rule dict_put_entry [OF es kv]) (use found find_key_bound in blast)
qed

lemma entries_good:
  assumes "\<forall>(k, v) \<in> set entries. initialised k \<and> initialised v"
    and "Uninitialized \<notin> set (held_values (DictObject es))"
  shows "quiet (try_fold (insert_entry L h) es entries)
    \<and> (\<forall>fs. try_fold (insert_entry L h) es entries = Inr fs \<longrightarrow> Uninitialized \<notin> set (held_values (DictObject fs)))"
  using assms
proof (induction entries arbitrary: es)
  case (Cons kv entries)
  have kv: "initialised (fst kv)" "initialised (snd kv)" using Cons.prems(1) by auto
  note entry = insert_entry_good [OF Cons.prems(2) kv, of L h]
  show ?case
  proof (cases "insert_entry L h es kv")
    case (Inl e)
    then show ?thesis using entry(1) by (simp del: held_values.simps)
  next
    case (Inr fs)
    then show ?thesis using Cons.IH [of fs] Cons.prems(1) entry(2) by (simp del: held_values.simps)
  qed
next
  case Nil
  then show ?case by (simp del: held_values.simps)
qed

lemma op_good_build_dict [op_good_intros]:
  assumes "heap_good U h" and "\<forall>(k, v) \<in> set entries. initialised k \<and> initialised v"
  shows "op_good U initialised (build_dict L h entries)"
  unfolding build_dict_def
proof (rule op_good_then_with [where Q = "\<lambda>es. Uninitialized \<notin> set (held_values (DictObject es))"])
  show "op_good U (\<lambda>es. Uninitialized \<notin> set (held_values (DictObject es))) (h, try_fold (insert_entry L h) [] entries)"
    using entries_good [OF assms(2), of "[]" L h] assms(1) by (auto intro!: op_good_pure)
  show "op_good U initialised (apsnd (\<lambda>r. map_ok ObjectValue (map_err HeapError r)) (allocate_runtime_dict g es))"
    if "heap_good U g" and es: "Uninitialized \<notin> set (held_values (DictObject es))" for g es
  proof -
    have good: "object_good U (DictObject es)" using es by (simp add: object_good_def)
    have "try_all (\<lambda>(k, v). and_then (validate_value g k) (\<lambda>_. validate_value g v)) es
        \<noteq> Inl UninitializedValue"
      using es validate_value_quiet
      by (auto simp: and_then_Inl_iff initialised_def dest!: try_all_Inl split: prod.splits) fastforce+
    then show ?thesis using op_good_allocate_validated [OF that(1) good] that(1)
      by (auto simp: allocate_runtime_dict_def split: sum.split intro!: op_good_pure)
  qed
qed

section \<open>Attributes and instances\<close>

text \<open>A new shape changes the shape table only.\<close>

lemma intern_shape_heap:
  assumes "intern_shape h c names = (h', shape)"
  shows "heap_get h' r = heap_get h r" and "heap_good U h' = heap_good U h"
proof -
  have same: "slots h' = slots h" "heap_id h' = heap_id h" "free_slots h' = free_slots h"
    using assms by (auto simp: intern_shape_def split: option.splits)
  then show get: "heap_get h' r = heap_get h r" for r by (simp add: heap_get_eq)
  show "heap_good U h' = heap_good U h"
    using same by (simp add: heap_good_def get heap_wf_def free_ok_def objects_ok_def)
qed

lemma get_instance_Inr: "get_instance h r = Inr i \<longleftrightarrow> heap_get h r = Inr (InstanceObj i)"
proof -
  have "the_instance x = Inr i \<longleftrightarrow> x = InstanceObj i" for x by (cases x) auto
  then show ?thesis by (simp add: get_instance_def and_then_Inr_iff)
qed

lemma get_instance_quiet: "get_instance h r \<noteq> Inl UninitializedValue"
proof -
  have "the_instance x \<noteq> Inl UninitializedValue" for x by (cases x) auto
  then show ?thesis by (simp add: get_instance_def and_then_Inl_iff)
qed

lemma class_method_in:
  assumes "methods_in U c" and "class_method c name = Some f"
  shows "f \<in> U"
proof -
  from assms(2) obtain m where "find (\<lambda>(candidate, _). candidate = name) (class_methods c) = Some m"
    and f: "f = snd m" by (auto simp: class_method_def)
  then have "m \<in> set (class_methods c)" by (metis find_Some_iff nth_mem)
  then show ?thesis using assms(1) f by (auto simp: methods_in_def)
qed

lemma find_field_bound: "find_field fs name = Some n \<Longrightarrow> n < length fs"
  using position_Some by (fastforce simp: find_field_def)

lemma resolve_method_good:
  assumes "heap_good U h"
  shows "resolve_method h cls name \<noteq> Inl UninitializedValue"
    and "resolve_method h cls name = Inr f \<Longrightarrow> f \<in> U"
proof -
  show "resolve_method h cls name \<noteq> Inl UninitializedValue"
    by (auto simp: resolve_method_def and_then_Inl_iff split: object.splits)
  assume "resolve_method h cls name = Inr f"
  then obtain x where x: "heap_get h cls = Inr x" and run:
    "(case x of ClassObj c \<Rightarrow> ok_or (class_method c name) MissingAttribute | _ \<Rightarrow> Inl NotClass) = Inr f"
    by (auto simp: resolve_method_def and_then_Inr_iff)
  then obtain c where c: "heap_get h cls = Inr (ClassObj c)" and f: "class_method c name = Some f"
    by (cases x) auto
  have "methods_in U c" using heap_good_get [OF assms c] by simp
  then show "f \<in> U" using f by (rule class_method_in)
qed

lemma instance_good:
  assumes "heap_good U h" and "heap_get h r = Inr (InstanceObj i)"
  shows "Uninitialized \<notin> snd ` set (inst_fields i)"
  using heap_good_get [OF assms] by (auto simp: object_good_def)

lemma field_initialised:
  assumes "heap_good U h" and "heap_get h r = Inr (InstanceObj i)" and "n < length (inst_fields i)"
  shows "initialised (snd (inst_fields i ! n))"
  using instance_good [OF assms(1,2)] imageI [OF nth_mem [OF assms(3)], of snd]
  by (metis initialised_def)

lemma op_good_get_attribute:
  assumes "heap_good U h"
  shows "op_good U initialised (apsnd (map_err HeapError) (get_attribute h r name))"
proof (cases "get_instance h r")
  case (Inl e)
  then show ?thesis using assms get_instance_quiet [of h r]
    by (auto simp: get_attribute_def intro!: op_good_pure)
next
  case (Inr i)
  then have i: "heap_get h r = Inr (InstanceObj i)" by (simp add: get_instance_Inr)
  show ?thesis
  proof (cases "find_field (inst_fields i) name")
    case (Some n)
    then show ?thesis using Inr field_initialised [OF assms i find_field_bound] assms
      by (auto simp: get_attribute_def intro!: op_good_pure)
  next
    case None
    show ?thesis
    proof (cases "resolve_method h (inst_class i) name")
      case (Inl e)
      then show ?thesis using Inr None assms resolve_method_good(1) [OF assms, of "inst_class i" name]
        by (auto simp: get_attribute_def intro!: op_good_pure)
    next
      case f: (Inr f)
      have "object_good U (BoundMethodObj \<lparr>bm_receiver = r, bm_function = f\<rparr>)"
        using resolve_method_good(2) [OF assms f] by (simp add: object_good_def)
      from op_good_allocate_validated [OF assms this] show ?thesis using Inr None f
        by (cases "allocate_validated h (BoundMethodObj \<lparr>bm_receiver = r, bm_function = f\<rparr>)";
            cases "snd (allocate_validated h (BoundMethodObj \<lparr>bm_receiver = r, bm_function = f\<rparr>))")
           (auto simp: get_attribute_def)
    qed
  qed
qed

lemma op_good_set_attribute:
  assumes "heap_good U h" and "initialised v"
  shows "op_good U (\<lambda>_. True) (apsnd (map_err HeapError) (set_attribute h r name v))"
proof (cases "validate_value h v")
  case (Inl e)
  then show ?thesis using assms validate_value_quiet [OF assms(2), of h]
    by (auto simp: set_attribute_def intro!: op_good_pure)
next
  case valid: (Inr u)
  show ?thesis
  proof (cases "get_instance h r")
    case (Inl e)
    then show ?thesis using valid assms get_instance_quiet [of h r]
      by (auto simp: set_attribute_def intro!: op_good_pure)
  next
    case (Inr i)
    then have i: "heap_get h r = Inr (InstanceObj i)" by (simp add: get_instance_Inr)
    note fields = instance_good [OF assms(1) i]
    show ?thesis
    proof (cases "find_field (inst_fields i) name")
      case (Some n)
      have "Uninitialized \<notin> snd ` set ((inst_fields i)[n := (fst (inst_fields i ! n), v)])"
        using fields assms(2) by (auto simp: initialised_def dest!: set_update_subset_insert [THEN subsetD])
      then show ?thesis using Some Inr valid assms(1) i
        by (auto simp: set_attribute_def object_good_def intro!: op_good_put)
    next
      case None
      obtain h' shape where h': "intern_shape h (inst_class_id i) (map fst (inst_fields i) @ [name]) = (h', shape)"
        by fastforce
      have "heap_good U h'" "heap_get h' r = Inr (InstanceObj i)"
        using intern_shape_heap [OF h'] assms(1) i by auto
      then show ?thesis using None Inr valid h' fields assms(2)
        by (auto simp: set_attribute_def object_good_def initialised_def intro!: op_good_put)
    qed
  qed
qed

lemma op_good_instantiate:
  assumes "heap_good U h"
  shows "op_good U (\<lambda>_. True) (apsnd (map_err HeapError) (instantiate h r))"
proof (cases "heap_get h r")
  case (Inl e)
  then show ?thesis using assms by (auto simp: instantiate_def intro!: op_good_pure dest: heap_get_Inl_quiet)
next
  case (Inr x)
  show ?thesis
  proof (cases x)
    case (ClassObj c)
    obtain h' shape where h': "intern_shape h (class_object_id c) [] = (h', shape)" by fastforce
    let ?i = "InstanceObj \<lparr>inst_class = r, inst_class_id = class_object_id c, inst_shape = shape, inst_fields = []\<rparr>"
    have "heap_good U h'" "object_good U ?i"
      using intern_shape_heap(2) [OF h'] assms by (auto simp: object_good_def)
    from op_good_allocate_validated [OF this] show ?thesis using Inr ClassObj h'
      by (cases "allocate_validated h' ?i"; cases "snd (allocate_validated h' ?i)") (auto simp: instantiate_def op_good_def)
  qed (use Inr assms in \<open>auto simp: instantiate_def intro!: op_good_pure\<close>)
qed

lemma lookup_method_good:
  assumes "heap_good U h"
  shows "quiet (map_err HeapError (lookup_method h r name))"
    and "lookup_method h r name = Inr (shape, f) \<Longrightarrow> f \<in> U"
  using get_instance_quiet [of h r] resolve_method_good [OF assms]
  by (auto simp: lookup_method_def and_then_Inl_iff and_then_Inr_iff map_ok_Inr_iff intro!: quiet_heap_error)

lemma instance_lookup_quiet [simp]:
  "quiet (map_err HeapError (instance_shape h r))"
  "quiet (map_err HeapError (lookup_instance_field h r name))"
  "quiet (map_err HeapError (instance_field_at h r shape n))"
  using get_instance_quiet
  by (auto simp: instance_shape_def lookup_instance_field_def instance_field_at_def intro!: quiet_heap_error)

lemma Some_eq_map_option: "Some y = map_option f m \<longleftrightarrow> (\<exists>x. m = Some x \<and> y = f x)"
  by (cases m) auto

lemma lookup_field_good:
  assumes "heap_good U h" and "lookup_instance_field h r name = Inr (Some (shape, n, v))"
  shows "initialised v"
proof -
  from assms(2) obtain i where i: "heap_get h r = Inr (InstanceObj i)"
    and n: "find_field (inst_fields i) name = Some n" "v = snd (inst_fields i ! n)"
    by (auto simp: lookup_instance_field_def map_ok_Inr_iff get_instance_Inr Some_eq_map_option)
  then show ?thesis using field_initialised [OF assms(1) i] find_field_bound by simp
qed

lemma field_at_good:
  assumes "heap_good U h" and "instance_field_at h r shape n = Inr (Some v)"
  shows "initialised v"
proof -
  from assms(2) obtain i where i: "heap_get h r = Inr (InstanceObj i)"
    and n: "n < length (inst_fields i)" "v = snd (inst_fields i ! n)"
    by (auto simp: instance_field_at_def map_ok_Inr_iff get_instance_Inr Some_eq_map_option split: if_splits)
  then show ?thesis using field_initialised [OF assms(1) i] by simp
qed

end
