(* ===== verification/Vm_Fuel.thy ===== *)
theory Vm_Fuel
  imports Vm_Interpreter
begin

text \<open>
  The fuel of the dispatch loop only decides whether an answer comes: an answer other than
  \<open>Diverges\<close> is the same with any more fuel. What a program returns, how it fails and the machine
  it leaves are therefore properties of the program, not of the fuel.
\<close>

definition runner_le :: "runner \<Rightarrow> runner \<Rightarrow> bool" where
  "runner_le run run' \<longleftrightarrow> (\<forall>e m. snd (run e m) \<noteq> Inl Diverges \<longrightarrow> run' e m = run e m)"

text \<open>An answer that is not \<open>Diverges\<close> is kept.\<close>

definition kept :: "'s \<times> (vm_error + 'a) \<Rightarrow> 's \<times> (vm_error + 'a) \<Rightarrow> bool" where
  "kept r r' \<longleftrightarrow> (snd r \<noteq> Inl Diverges \<longrightarrow> r' = r)"

named_theorems kept_intros \<open>answers kept under more fuel\<close>

lemma kept_refl [kept_intros]: "kept r r"
  by (simp add: kept_def)

lemma kept_run: "runner_le run run' \<Longrightarrow> kept (run e m) (run' e m)"
  by (simp add: runner_le_def kept_def)

lemma kept_then_with [kept_intros]:
  assumes "kept r r'" and "\<And>m x. r = (m, Inr x) \<Longrightarrow> kept (f m x) (f' m x)"
  shows "kept (then_with r f) (then_with r' f')"
proof (cases "snd r")
  case (Inl e)
  then show ?thesis using assms(1) by (cases r) (auto simp: kept_def)
next
  case (Inr x)
  then show ?thesis using assms by (cases r) (auto simp: kept_def)
qed

lemma kept_map: "kept r r' \<Longrightarrow> (\<And>s x. snd (g (s, x)) = x) \<Longrightarrow> kept (g r) (g r')"
  by (cases r; cases r') (auto simp: kept_def)

lemma kept_checked_out [kept_intros]:
  assumes "runner_le run run'"
  shows "kept (run_checked_out run e f v) (run_checked_out run' e f v)"
proof -
  let ?m = "\<lparr>m_vm = v\<lparr>vm_runtimes := (vm_runtimes v)(exec_id e := None)\<rparr>,
     m_runtime = (case vm_runtimes v (exec_id e) of None \<Rightarrow> runtime_new e | Some rt \<Rightarrow> rt), m_frame = f\<rparr>"
  show ?thesis using kept_run [OF assms, of e ?m]
    by (cases "run e ?m"; cases "run' e ?m") (auto simp: run_checked_out_def kept_def Let_def)
qed

lemma kept_at_function [kept_intros]:
  "runner_le run run' \<Longrightarrow>
   kept (execute_function_at_depth run e args prepared v) (execute_function_at_depth run' e args prepared v)"
  by (auto simp: execute_function_at_depth_def Let_def split: sum.split prod.split
      intro!: kept_intros)

lemma kept_at_depth [kept_intros]:
  assumes "\<And>v. kept (f v) (f' v)"
  shows "kept (at_depth f v) (at_depth f' v)"
proof -
  let ?v = "v\<lparr>vm_call_depth := Suc (vm_call_depth v)\<rparr>"
  show ?thesis using assms [of ?v]
    by (cases "f ?v"; cases "f' ?v") (auto simp: at_depth_def kept_def)
qed

lemma kept_prepared [kept_intros]:
  "runner_le run run' \<Longrightarrow>
   kept (execute_prepared_function run f args v) (execute_prepared_function run' f args v)"
  unfolding execute_prepared_function_def by (intro kept_intros)

text \<open>A parked runtime is still parked after the call, so its loss never hides a divergence.\<close>

lemma return_frame_simps [simp]:
  "vm_runtimes (return_frame n f v) = vm_runtimes v" "vm_heap (return_frame n f v) = vm_heap v"
  "vm_call_depth (return_frame n f v) = vm_call_depth v"
  "vm_verified (return_frame n f v) = vm_verified v"
  by (simp_all add: return_frame_def)

lemma take_frame_simps:
  assumes "take_frame n v = (f, v')"
  shows "vm_runtimes v' = vm_runtimes v \<and> vm_heap v' = vm_heap v \<and> vm_call_depth v' = vm_call_depth v
    \<and> vm_verified v' = vm_verified v"
  using assms by (auto simp: take_frame_def split: if_splits)

lemma with_report_simps [simp]:
  "vm_runtimes (with_report f v) = vm_runtimes v" "vm_heap (with_report f v) = vm_heap v"
  "vm_call_depth (with_report f v) = vm_call_depth v" "vm_verified (with_report f v) = vm_verified v"
  "vm_frame_pool (with_report f v) = vm_frame_pool v"
  by (simp_all add: with_report_def)

lemma verify_once_simps:
  assumes "verify_once e prepared v = Inr v'"
  shows "vm_runtimes v' = vm_runtimes v \<and> vm_heap v' = vm_heap v \<and> vm_call_depth v' = vm_call_depth v
    \<and> vm_frame_pool v' = vm_frame_pool v"
  using assms by (auto simp: verify_once_def map_ok_Inr_iff split: if_splits)

lemma function_keeps_parked:
  assumes "vm_runtimes v (exec_id e) \<noteq> None"
  shows "vm_runtimes (fst (execute_function_at_depth run e args prepared v)) (exec_id e) \<noteq> None"
proof (cases "verify_once e prepared (with_report (record_function_call (exec_name e)) v)")
  case (Inl err)
  then show ?thesis using assms by (simp add: execute_function_at_depth_def)
next
  case (Inr v1)
  obtain f v2 where take: "take_frame (register_count (exec_bytecode e)) v1 = (f, v2)" by fastforce
  have parked: "vm_runtimes v2 (exec_id e) \<noteq> None"
    using assms verify_once_simps [OF Inr] take_frame_simps [OF take] by simp
  obtain f' r where init: "initialize_registers e args (vm_heap v2) f = (f', r)" by fastforce
  show ?thesis
  proof (cases r)
    case (Inl err)
    then show ?thesis using Inr take init parked
      by (simp add: execute_function_at_depth_def Let_def)
  next
    case (Inr u)
    have "vm_runtimes (fst (run_checked_out run e f' v2)) (exec_id e) \<noteq> None"
      by (simp add: run_checked_out_def Let_def split: prod.split)
    then show ?thesis using \<open>verify_once e prepared _ = Inr v1\<close> take init Inr
      by (simp add: execute_function_at_depth_def Let_def)
  qed
qed

lemma prepared_keeps_parked:
  assumes "vm_runtimes v (exec_id e) \<noteq> None"
  shows "vm_runtimes (fst (execute_prepared_function run e args v)) (exec_id e) \<noteq> None"
proof (cases "MAX_GUEST_CALL_DEPTH \<le> vm_call_depth v")
  case True
  then show ?thesis using assms by (simp add: execute_prepared_function_def at_depth_def)
next
  case False
  let ?v = "report_prepared_hit (v\<lparr>vm_call_depth := Suc (vm_call_depth v)\<rparr>)"
  obtain w r where w: "execute_function_at_depth run e args True ?v = (w, r)" by fastforce
  have "vm_runtimes ?v (exec_id e) \<noteq> None" using assms by (simp add: report_prepared_hit_def)
  then have "vm_runtimes w (exec_id e) \<noteq> None" using function_keeps_parked w by (metis fst_conv)
  then show ?thesis using w False by (simp add: execute_prepared_function_def at_depth_def)
qed

lemma kept_invoke [kept_intros]:
  assumes "runner_le run run'"
  shows "kept (invoke run caller f args m) (invoke run' caller f args m)"
proof (cases "exec_id caller = exec_id f")
  case False
  then show ?thesis using kept_prepared [OF assms, of f args "m_vm m"]
    by (cases "execute_prepared_function run f args (m_vm m)";
        cases "execute_prepared_function run' f args (m_vm m)") (auto simp: invoke_def kept_def)
next
  case True
  let ?v = "(m_vm m)\<lparr>vm_runtimes := (vm_runtimes (m_vm m))(exec_id f := Some (m_runtime m))\<rparr>"
  obtain w r where w: "execute_prepared_function run f args ?v = (w, r)" by fastforce
  have "vm_runtimes w (exec_id f) \<noteq> None" using prepared_keeps_parked [of ?v f run args] w by simp
  then show ?thesis using kept_prepared [OF assms, of f args ?v] True w
    by (auto simp: invoke_def kept_def Let_def split: option.split)
qed

lemma kept_leaf:
  assumes "runner_le run run'"
  shows "kept (execute_interpreter_leaf run f leaf args v) (execute_interpreter_leaf run' f leaf args v)"
proof -
  let ?v = "with_report (record_function_call (exec_name f))
      (report_prepared_hit (v\<lparr>vm_call_depth := Suc (vm_call_depth v)\<rparr>))"
  obtain fr r where init: "initialize_registers f args (vm_heap v) (leaf_frame leaf) = (fr, r)"
    by fastforce
  let ?m = "\<lparr>m_vm = ?v, m_runtime = leaf_runtime leaf, m_frame = fr\<rparr>"
  show ?thesis using kept_run [OF assms, of f ?m] init
    by (cases r; cases "run f ?m"; cases "run' f ?m")
       (auto simp: execute_interpreter_leaf_def kept_def Let_def report_prepared_hit_def)
qed

lemma kept_non_function [kept_intros]:
  "runner_le run run' \<Longrightarrow>
   kept (invoke_non_function_callable run caller r args m) (invoke_non_function_callable run' caller r args m)"
  unfolding invoke_non_function_callable_def
  by (auto intro!: kept_intros split: sum.split object.split option.split)

lemma kept_invoke_callable [kept_intros]:
  assumes "runner_le run run'"
  shows "kept (invoke_callable run caller pc callable args m) (invoke_callable run' caller pc callable args m)"
proof -
  have leaf: "kept
      (case execute_interpreter_leaf run f leaf args v of ((w, l), result) \<Rightarrow> (g w l, result))
      (case execute_interpreter_leaf run' f leaf args v of ((w, l), result) \<Rightarrow> (g w l, result))"
    for f leaf v and g :: "vm \<Rightarrow> interpreter_leaf \<Rightarrow> machine"
    using kept_leaf [OF assms, of f leaf args v]
    by (cases "execute_interpreter_leaf run f leaf args v";
        cases "execute_interpreter_leaf run' f leaf args v") (auto simp: kept_def)
  show ?thesis using assms unfolding invoke_callable_def Let_def
    by (auto intro!: kept_intros leaf split: wvalue.split option.split sum.split object_kind.split)
qed

lemma kept_store_to [kept_intros]: "kept r r' \<Longrightarrow> kept (store_to dst r) (store_to dst r')"
  unfolding store_to_def by (intro kept_intros)

lemma kept_advance [kept_intros]: "kept r r' \<Longrightarrow> kept (advance r) (advance r')"
  unfolding advance_def by (intro kept_intros)

lemma kept_call [kept_intros]:
  "runner_le run run' \<Longrightarrow> kept (perform_call run e dst callable args m) (perform_call run' e dst callable args m)"
  unfolding perform_call_def by (auto intro!: kept_intros split: sum.split)

lemma kept_method_call [kept_intros]:
  "runner_le run run' \<Longrightarrow>
   kept (perform_method_call run e dst receiver name args m) (perform_method_call run' e dst receiver name args m)"
  unfolding perform_method_call_def by (auto intro!: kept_intros split: sum.split)

lemma kept_runtime_instruction [kept_intros]:
  "runner_le run run' \<Longrightarrow>
   kept (execute_runtime_instruction L run e m i) (execute_runtime_instruction L run' e m i)"
  by (cases "(L, run, e, m, i)" rule: execute_runtime_instruction.cases) (auto intro!: kept_intros)

lemma kept_instruction [kept_intros]:
  "runner_le run run' \<Longrightarrow> kept (execute_instruction L run e m i) (execute_instruction L run' e m i)"
  by (cases i) (auto intro!: kept_intros)

lemma kept_step [kept_intros]:
  "runner_le run run' \<Longrightarrow> kept (execute_step L run e m) (execute_step L run' e m)"
  unfolding execute_step_def by (auto intro!: kept_intros split: quick_outcome.split option.split)

lemma execute_more_fuel: "runner_le (execute_with_runtime n L) (execute_with_runtime (n + k) L)"
proof (induction n)
  case 0
  show ?case by (simp add: runner_le_def)
next
  case (Suc n)
  have "kept (execute_with_runtime (Suc n) L e m) (execute_with_runtime (Suc n + k) L e m)" for e m
    using Suc.IH unfolding execute_with_runtime.simps add_Suc
    by (auto intro!: kept_intros kept_run [OF Suc.IH] split: option.split)
  then show ?case by (auto simp: runner_le_def kept_def)
qed

lemma more_fuel:
  assumes "snd (execute_with_args n L e args v) \<noteq> Inl Diverges" and "n \<le> k"
  shows "execute_with_args k L e args v = execute_with_args n L e args v"
proof -
  have "runner_le (execute_with_runtime n L) (execute_with_runtime k L)"
    using execute_more_fuel [of n L "k - n"] assms(2) by simp
  then have "kept (execute_with_args n L e args v) (execute_with_args k L e args v)"
    unfolding execute_with_args_def execute_function_def by (intro kept_intros)
  then show ?thesis using assms(1) by (simp add: kept_def)
qed

end
