(* ===== verification/Vm_Calls.thy ===== *)
theory Vm_Calls
  imports Heap_Values_Ops Vm_Fuel Verifier_Laws
begin

text \<open>
  The invariant of the machine and the calls that keep it: a runtime fits its executable, a frame
  has its executable's registers, cached targets and prepared leaves belong to the program, and
  the call depth comes back to where it was.
\<close>

section \<open>Runtimes\<close>

inductive runtime_ok :: "executable set \<Rightarrow> executable \<Rightarrow> function_runtime \<Rightarrow> bool" for U where
  runtime_okI:
    "length cs = length (exec_constants e) \<Longrightarrow> (\<forall>v. Some v \<in> set cs \<longrightarrow> initialised v) \<Longrightarrow>
     (\<forall>v. cf = Some v \<longrightarrow> initialised v) \<Longrightarrow> q = quick_code_interpreter (exec_bytecode e) \<Longrightarrow>
     length ss = length (exec_code e) \<Longrightarrow> length as = length (exec_code e) \<Longrightarrow>
     (\<forall>s \<in> set ss. \<forall>t \<in> set (flatten (cs_targets s)). ct_function t \<in> U
        \<and> (\<forall>leaf. ct_leaf t = Some leaf \<longrightarrow>
             length (registers (leaf_frame leaf)) = register_count (exec_bytecode (ct_function t))
             \<and> frame_pc (leaf_frame leaf) = 0
             \<and> runtime_ok U (ct_function t) (leaf_runtime leaf))) \<Longrightarrow>
     runtime_ok U e (FunctionRuntime cs cf q ss as)"

inductive_simps runtime_ok_simps: "runtime_ok U e (FunctionRuntime cs cf q ss as)"

definition leaf_ok :: "executable set \<Rightarrow> executable \<Rightarrow> interpreter_leaf \<Rightarrow> bool" where
  "leaf_ok U f leaf \<longleftrightarrow>
     length (registers (leaf_frame leaf)) = register_count (exec_bytecode f)
     \<and> frame_pc (leaf_frame leaf) = 0 \<and> runtime_ok U f (leaf_runtime leaf)"

definition target_ok :: "executable set \<Rightarrow> call_target \<Rightarrow> bool" where
  "target_ok U t \<longleftrightarrow>
     ct_function t \<in> U \<and> (\<forall>leaf. ct_leaf t = Some leaf \<longrightarrow> leaf_ok U (ct_function t) leaf)"

definition site_ok :: "executable set \<Rightarrow> call_site \<Rightarrow> bool" where
  "site_ok U s \<longleftrightarrow> (\<forall>t \<in> set (flatten (cs_targets s)). target_ok U t)"

lemma runtime_ok_iff:
  "runtime_ok U e rt \<longleftrightarrow>
     length (rt_constants rt) = length (exec_constants e)
     \<and> (\<forall>v. Some v \<in> set (rt_constants rt) \<longrightarrow> initialised v)
     \<and> (\<forall>v. rt_current_function rt = Some v \<longrightarrow> initialised v)
     \<and> rt_quick_code rt = quick_code_interpreter (exec_bytecode e)
     \<and> length (rt_call_sites rt) = length (exec_code e)
     \<and> length (rt_attribute_sites rt) = length (exec_code e)
     \<and> (\<forall>s \<in> set (rt_call_sites rt). site_ok U s)"
  by (cases rt) (simp add: runtime_ok_simps site_ok_def target_ok_def leaf_ok_def)

lemma set_runtime_simps [simp]:
  "rt_constants (set_constants cs rt) = cs" "rt_current_function (set_constants cs rt) = rt_current_function rt"
  "rt_quick_code (set_constants cs rt) = rt_quick_code rt" "rt_call_sites (set_constants cs rt) = rt_call_sites rt"
  "rt_attribute_sites (set_constants cs rt) = rt_attribute_sites rt"
  "rt_constants (set_current_function f rt) = rt_constants rt" "rt_current_function (set_current_function f rt) = f"
  "rt_quick_code (set_current_function f rt) = rt_quick_code rt"
  "rt_call_sites (set_current_function f rt) = rt_call_sites rt"
  "rt_attribute_sites (set_current_function f rt) = rt_attribute_sites rt"
  "rt_constants (set_call_sites ss rt) = rt_constants rt"
  "rt_current_function (set_call_sites ss rt) = rt_current_function rt"
  "rt_quick_code (set_call_sites ss rt) = rt_quick_code rt" "rt_call_sites (set_call_sites ss rt) = ss"
  "rt_attribute_sites (set_call_sites ss rt) = rt_attribute_sites rt"
  "rt_constants (set_attribute_sites as rt) = rt_constants rt"
  "rt_current_function (set_attribute_sites as rt) = rt_current_function rt"
  "rt_quick_code (set_attribute_sites as rt) = rt_quick_code rt"
  "rt_call_sites (set_attribute_sites as rt) = rt_call_sites rt"
  "rt_attribute_sites (set_attribute_sites as rt) = as"
  by (cases rt; simp)+

lemma runtime_new_ok: "runtime_ok U e (runtime_new e)"
  by (auto simp: runtime_ok_iff runtime_new_def runtime_with_def site_ok_def empty_call_site_def flatten_def)

section \<open>Caches\<close>

lemma flatten_simps [simp]:
  "flatten [] = []" "flatten (None # ts) = flatten ts" "flatten (Some t # ts) = t # flatten ts"
  by (simp_all add: flatten_def)

lemma fill_slot_set: "fill_slot t ts = Some ts' \<Longrightarrow> set (flatten ts') = insert t (set (flatten ts))"
  by (induction t ts arbitrary: ts' rule: fill_slot.induct) auto

lemma find_target_ok:
  assumes "site_ok U s" and "find_target key s = Some t"
  shows "target_ok U t \<and> ct_key t = key"
proof -
  have "t \<in> set (flatten (cs_targets s))" "ct_key t = key"
    using assms(2) by (auto simp: find_target_def find_Some_iff dest: nth_mem)
  then show ?thesis using assms(1) by (simp add: site_ok_def)
qed

lemma find_set_leaf:
  "find (\<lambda>t. ct_key t = key) (flatten (set_leaf key leaf ts)) =
     map_option (\<lambda>t. CallTarget (ct_key t) (ct_function t) leaf) (find (\<lambda>t. ct_key t = key) (flatten ts))"
  by (induction key leaf ts rule: set_leaf.induct) auto

lemma set_leaf_ok:
  assumes "site_ok U (CallSite ts b)"
    and "\<And>t. find (\<lambda>t. ct_key t = key) (flatten ts) = Some t \<Longrightarrow> target_ok U (CallTarget (ct_key t) (ct_function t) leaf)"
  shows "site_ok U (CallSite (set_leaf key leaf ts) b)"
  using assms by (induction key leaf ts rule: set_leaf.induct) (auto simp: site_ok_def)

lemma runtime_set_site:
  assumes "runtime_ok U e rt" and "site_ok U s"
  shows "runtime_ok U e (set_call_sites ((rt_call_sites rt)[pc := s]) rt)"
  using assms by (auto simp: runtime_ok_iff dest!: set_update_subset_insert [THEN subsetD])

lemma runtime_site: "runtime_ok U e rt \<Longrightarrow> pc < length (rt_call_sites rt) \<Longrightarrow> site_ok U (rt_call_sites rt ! pc)"
  by (simp add: runtime_ok_iff)

section \<open>The machine\<close>

definition vm_ok :: "executable set \<Rightarrow> nat \<Rightarrow> vm \<Rightarrow> bool" where
  "vm_ok U d v \<longleftrightarrow>
     heap_good U (vm_heap v) \<and> vm_call_depth v = d \<and> d \<le> MAX_GUEST_CALL_DEPTH
     \<and> (\<forall>e \<in> U. \<forall>rt. vm_runtimes v (exec_id e) = Some rt \<longrightarrow> runtime_ok U e rt)
     \<and> (\<forall>n. \<forall>f \<in> set (vm_frame_pool v n). length (registers f) = n)"

definition machine_ok :: "executable set \<Rightarrow> nat \<Rightarrow> executable \<Rightarrow> machine \<Rightarrow> bool" where
  "machine_ok U d e m \<longleftrightarrow>
     vm_ok U d (m_vm m) \<and> runtime_ok U e (m_runtime m)
     \<and> length (registers (m_frame m)) = register_count (exec_bytecode e)"

definition values_ok :: "register set \<Rightarrow> frame \<Rightarrow> bool" where
  "values_ok A f \<longleftrightarrow> (\<forall>r \<in> A. initialised (registers f ! unat r))"

text \<open>What a call of a function answers, and what the run of a body answers.\<close>

definition call_good :: "executable set \<Rightarrow> nat \<Rightarrow> vm \<times> (vm_error + wvalue) \<Rightarrow> bool" where
  "call_good U d r \<longleftrightarrow> vm_ok U d (fst r) \<and> quiet (snd r) \<and> (\<forall>v. snd r = Inr v \<longrightarrow> initialised v)"

definition runner_good :: "executable set \<Rightarrow> runner \<Rightarrow> bool" where
  "runner_good U run \<longleftrightarrow>
     (\<forall>d e m A. e \<in> U \<longrightarrow> machine_ok U d e m \<longrightarrow>
        assigned_path (exec_code e) (parameter_registers e) (frame_pc (m_frame m)) A \<longrightarrow>
        values_ok A (m_frame m) \<longrightarrow>
        machine_ok U d e (fst (run e m)) \<and> quiet (snd (run e m))
        \<and> (\<forall>v. snd (run e m) = Inr v \<longrightarrow> initialised v))"

definition verified_program :: "executable set \<Rightarrow> bool" where
  "verified_program U \<longleftrightarrow> program U \<and> (\<forall>e \<in> U. verify e = Inr ())"

lemma vm_ok_report [simp]: "vm_ok U d (with_report f v) = vm_ok U d v"
  by (simp add: vm_ok_def)

lemma vm_ok_interpreter: "vm_ok U 0 (vm_interpreter i)"
  by (simp add: vm_ok_def vm_interpreter_def)

lemma clear_registers_length [simp]: "length (registers (clear_registers f)) = length (registers f)"
  by (simp add: clear_registers_def)

section \<open>Arguments\<close>

lemma argument_error_quiet [simp]: "\<not> internal_error (argument_error n p found ns)"
  by (simp add: argument_error_def internal_sets)

lemma validate_argument_quiet [simp]: "quiet (validate_argument n p v h)"
proof -
  have "quiet (reference_kind n p h r)" for r
    by (auto simp: reference_kind_def quiet_def map_err_Inl_iff)
  then show ?thesis
    by (auto simp: validate_argument_def intro!: quiet_intros split: slot_type.split wvalue.split)
qed

lemma validate_argument_initialised: "validate_argument n p v h = Inr u \<Longrightarrow> initialised v"
  by (cases v) (auto simp: validate_argument_def split: slot_type.splits)

lemma bind_arguments_good:
  assumes "\<forall>(n, p, v) \<in> set as. unat (param_register p) < length regs"
    and "\<forall>r \<in> A. initialised (regs ! unat r)"
    and "bind_arguments h as regs = (regs', res)"
  shows "length regs' = length regs \<and> quiet res
    \<and> (res = Inr () \<longrightarrow> (\<forall>r \<in> A \<union> (\<lambda>(n, p, v). param_register p) ` set as. initialised (regs' ! unat r)))"
  using assms
proof (induction as arbitrary: regs A)
  case (Cons a as)
  obtain n p v where a: "a = (n, p, v)" by (cases a)
  show ?case
  proof (cases "validate_argument n p v h")
    case (Inl e)
    have "\<not> internal_error e" using quietD [OF validate_argument_quiet Inl] .
    then show ?thesis using Cons.prems(3) Inl by (auto simp: a)
  next
    case (Inr u)
    let ?regs = "regs[unat (param_register p) := v]"
    have range: "unat (param_register p) < length regs" using Cons.prems(1) by (auto simp: a)
    have step: "bind_arguments h as ?regs = (regs', res)" using Cons.prems(3) Inr range by (simp add: a)
    have "\<forall>r \<in> insert (param_register p) A. initialised (?regs ! unat r)"
      using validate_argument_initialised [OF Inr] Cons.prems(2) range by (auto simp: nth_list_update)
    then show ?thesis using Cons.IH [OF _ _ step, of "insert (param_register p) A"] Cons.prems(1)
      by (auto simp: a)
  qed
qed auto

lemma initialize_registers_good:
  assumes "parameters_wf e" and "length (registers f) = register_count (exec_bytecode e)"
    and "initialize_registers e args h f = (f', res)"
  shows "length (registers f') = length (registers f) \<and> frame_pc f' = frame_pc f \<and> quiet res
    \<and> (res = Inr () \<longrightarrow> values_ok (parameter_registers e) f')"
proof (cases "length args = length (exec_parameters e)")
  case False
  then show ?thesis using assms(3) by (auto simp: initialize_registers_def internal_sets)
next
  case True
  let ?as = "List.enumerate 0 (zip (exec_parameters e) args)"
  obtain regs r where bind: "bind_arguments h ?as (registers (clear_registers f)) = (regs, r)" by fastforce
  have f': "f' = f\<lparr>registers := regs\<rparr>" "res = r"
    using assms(2,3) True bind by (auto simp: initialize_registers_def Let_def)
  have params: "(\<lambda>(n, p, v). param_register p) ` set ?as = parameter_registers e"
  proof -
    have "map (\<lambda>(n, p, v). param_register p) ?as = map param_register (exec_parameters e)"
      using True by (intro nth_equalityI) (auto simp: nth_enumerate_eq)
    then show ?thesis by (metis parameter_registers_def set_map)
  qed
  have "\<forall>(n, p, v) \<in> set ?as. unat (param_register p) < length (registers (clear_registers f))"
  proof (intro ballI, clarify)
    fix n p v assume "(n, p, v) \<in> set ?as"
    then have "param_register p \<in> parameter_registers e" using params by force
    then show "unat (param_register p) < length (registers (clear_registers f))"
      using assms(1,2) by (simp add: parameters_wf_def)
  qed
  from bind_arguments_good [OF this _ bind, of "{}"] show ?thesis
    using f' params by (simp add: values_ok_def)
qed

end
