(* ===== verification/Quickening_Laws.thy ===== *)
theory Quickening_Laws
  imports Vm_Interpreter Arithmetic_Laws
begin

text \<open>
  Quickened code changes nothing: one step of the dispatch loop through the quickened table is
  one step of the generic instruction, with the same state, value and error. The table may come
  from the structure map's proofs or be the interpreter's; the guards make both right.
\<close>

text \<open>The quickened forms of an instruction, whichever table they come from.\<close>

lemma quicken_proven_quicken: "quicken_proven m pc i = Some q \<Longrightarrow> quicken i = Some q"
  by (cases i) (auto split: if_splits)

lemma quick_registers_binary [simp]: "quick_registers (quick_binary op dst lhs rhs) = (dst, lhs, rhs)"
  and quick_operator_binary [simp]: "quick_operator (quick_binary op dst lhs rhs) = Inl op"
  by (cases op; simp)+

lemma compare_op_small:
  "compare_op L h op (SmallInt a) (SmallInt b) = Inr (Bool (small_compare op a b))"
  by (cases op)
     (auto simp: compare_op_def values_equal_def values_equal_with.simps number_optional_def
       int_cmp_def)

lemma read_register_Inr: "unat r < length (registers f) \<Longrightarrow> read_register f r = Inr (registers f ! unat r)"
  by (simp add: read_register_def get_at_def)

lemma write_register_Inr:
  "unat r < length (registers f) \<Longrightarrow> write_register f r v = Inr (f\<lparr>registers := (registers f)[unat r := v]\<rparr>)"
  by (simp add: write_register_def)

lemma with_heap_simps [simp]:
  "m_frame (with_heap m h) = m_frame m" "m_runtime (with_heap m h) = m_runtime m"
  "m_heap (with_heap m h) = h" "with_heap m (m_heap m) = m"
  "with_heap (with_heap m h) h' = with_heap m h'"
  by (simp_all add: with_heap_def)

text \<open>The generic instruction behind a quickened one.\<close>

lemma execute_quickened:
  assumes "quicken i = Some q" and "quick_registers q = (dst, lhs, rhs)"
    and "unat dst < length (registers (m_frame m))" "unat lhs < length (registers (m_frame m))"
      "unat rhs < length (registers (m_frame m))"
  shows "execute_instruction L run e m i =
    advance (store_to dst
      (case quick_operator q of
         Inl op \<Rightarrow> (case binary_op L (m_heap m) op (registers (m_frame m) ! unat lhs)
             (registers (m_frame m) ! unat rhs) of (h, r) \<Rightarrow> (with_heap m h, r))
       | Inr op \<Rightarrow> (m, compare_op L (m_heap m) op (registers (m_frame m) ! unat lhs)
             (registers (m_frame m) ! unat rhs))))"
  using assms
  by (cases i) (auto simp: heap_op_def heap_read_def rd2_def read_register_Inr)

lemma advance_store:
  "unat dst < length (registers (m_frame m)) \<Longrightarrow>
   advance (store_to dst (m, r)) =
     (case r of
        Inl e \<Rightarrow> (m, Inl e)
      | Inr v \<Rightarrow> (m\<lparr>m_frame := (m_frame m)\<lparr>registers := (registers (m_frame m))[unat dst := v],
                        frame_pc := Suc (frame_pc (m_frame m))\<rparr>\<rparr>, Inr None))"
  by (cases r) (auto simp: advance_def store_to_def write_dst_def write_register_Inr move_pc_def)

text \<open>A guard miss leaves the machine as it was; anything else is the generic result.\<close>

lemma quick_value_agrees:
  assumes "quick_value L h q a b = (h', r)"
  shows "(case quick_operator q of
      Inl op \<Rightarrow> binary_op L h op a b
    | Inr op \<Rightarrow> (h, compare_op L h op a b)) = (h', map_ok the r) \<and> r \<noteq> Inr None
    \<or> r = Inr None \<and> h' = h"
proof (cases "quick_operator q")
  case (Inl op)
  show ?thesis
  proof (cases "immediate_number a \<noteq> None \<and> immediate_number b \<noteq> None")
    case True
    then have "(h', r) = apsnd (map_ok Some) (binary_op L h op a b)"
      using assms Inl by (simp add: quick_value_def immediate_binary_agrees)
    then show ?thesis using Inl
      by (cases "snd (binary_op L h op a b)"; cases "binary_op L h op a b") auto
  next
    case False
    then show ?thesis using assms Inl by (auto simp: quick_value_def immediate_binary_agrees)
  qed
next
  case (Inr op)
  then show ?thesis using assms
    by (auto simp: quick_value_def compare_op_small split: wvalue.splits)
qed

text \<open>A step through quickened code is the step of the generic instruction.\<close>

lemma quick_step:
  assumes "frame_pc (m_frame m) < length (exec_code e)"
    and "rt_quick_code (m_runtime m) \<in> {quick_code_interpreter (exec_bytecode e), quick_code_new e}"
    and "list_all (\<lambda>(r, _). unat r < length (registers (m_frame m)))
      (register_checks (exec_code e ! frame_pc (m_frame m)))"
  shows "execute_step L run e m = execute_instruction L run e m (exec_code e ! frame_pc (m_frame m))"
proof -
  let ?i = "exec_code e ! frame_pc (m_frame m)" and ?f = "m_frame m"
  have generic: "execute_step L run e m = execute_instruction L run e m ?i"
    if "try_quick L m = (m, Inr GuardMiss)"
    using that assms(1) by (simp add: execute_step_def get_at_def)
  show ?thesis
  proof (cases "quick_code_get (rt_quick_code (m_runtime m)) (frame_pc ?f)")
    case None
    then show ?thesis by (intro generic) (simp add: try_quick_def)
  next
    case (Some q)
    then have q: "quicken ?i = Some q"
      using assms(1,2) quicken_proven_quicken
      by (auto simp: quick_code_get_def quick_code_interpreter_def quick_code_new_def get_at_def
          nth_enumerate_eq split: if_splits)
    obtain dst lhs rhs where regs: "quick_registers q = (dst, lhs, rhs)" by (cases "quick_registers q")
    have range: "unat dst < length (registers ?f)" "unat lhs < length (registers ?f)"
        "unat rhs < length (registers ?f)"
      using q regs assms(3) by (cases ?i; auto)+
    obtain h' r where v: "quick_value L (m_heap m) q (registers ?f ! unat lhs) (registers ?f ! unat rhs) = (h', r)"
      by fastforce
    note quick = try_quick_def execute_quick_def Some regs v read_register_Inr range write_register_Inr
    from quick_value_agrees [OF v] show ?thesis
    proof (elim disjE conjE)
      assume "r = Inr None" and "h' = m_heap m"
      then show ?thesis by (intro generic) (simp add: quick)
    next
      assume agrees: "(case quick_operator q of
          Inl op \<Rightarrow> binary_op L (m_heap m) op (registers ?f ! unat lhs) (registers ?f ! unat rhs)
        | Inr op \<Rightarrow> (m_heap m, compare_op L (m_heap m) op (registers ?f ! unat lhs) (registers ?f ! unat rhs)))
          = (h', map_ok the r)" and some: "r \<noteq> Inr None"
      have "execute_instruction L run e m ?i = advance (store_to dst (with_heap m h', map_ok the r))"
        using agrees execute_quickened [OF q regs range]
        by (auto split: sum.splits)
      also have "\<dots> = execute_step L run e m"
        using some range assms(1)
        by (cases r) (auto simp: advance_store execute_step_def quick)
      finally show ?thesis by simp
    qed
  qed
qed

end
