(* ===== verification/Vm_Safety.thy ===== *)
theory Vm_Safety
  imports Vm_Calls Quickening_Laws
begin

text \<open>
  The interpreter on verified programs: every call, every instruction and every run of a body
  keeps the machine's invariant and never reports an internal error.
\<close>

section \<open>Machines that keep their frame\<close>

definition out_good ::
  "executable set \<Rightarrow> nat \<Rightarrow> executable \<Rightarrow> frame \<Rightarrow> ('a \<Rightarrow> bool) \<Rightarrow> machine \<times> (vm_error + 'a) \<Rightarrow> bool" where
  "out_good U d e f P r \<longleftrightarrow>
     machine_ok U d e (fst r) \<and> m_frame (fst r) = f \<and> quiet (snd r) \<and> (\<forall>x. snd r = Inr x \<longrightarrow> P x)"

lemma out_good_pure:
  "machine_ok U d e m \<Longrightarrow> m_frame m = f \<Longrightarrow> quiet r \<Longrightarrow> (\<And>x. r = Inr x \<Longrightarrow> P x) \<Longrightarrow> out_good U d e f P (m, r)"
  by (simp add: out_good_def)

lemma out_good_mono: "out_good U d e f P r \<Longrightarrow> (\<And>x. P x \<Longrightarrow> Q x) \<Longrightarrow> out_good U d e f Q r"
  by (auto simp: out_good_def)

lemma out_good_then_with:
  assumes "out_good U d e f Q r"
    and "\<And>m x. r = (m, Inr x) \<Longrightarrow> machine_ok U d e m \<Longrightarrow> m_frame m = f \<Longrightarrow> Q x \<Longrightarrow> out_good U d e f P (g m x)"
  shows "out_good U d e f P (then_with r g)"
  using assms by (cases r; cases "snd r") (auto simp: out_good_def)

lemma machine_ok_heap: "machine_ok U d e m \<Longrightarrow> heap_good U (m_heap m)"
  by (simp add: machine_ok_def vm_ok_def)

lemma machine_ok_with_heap: "machine_ok U d e m \<Longrightarrow> heap_good U h \<Longrightarrow> machine_ok U d e (with_heap m h)"
  by (simp add: machine_ok_def vm_ok_def with_heap_def)

lemma out_good_heap_op:
  assumes "machine_ok U d e m" and "quiet arg"
    and "\<And>x. arg = Inr x \<Longrightarrow> op_good U P (f (m_heap m) x)"
  shows "out_good U d e (m_frame m) P (heap_op m arg f)"
proof (cases arg)
  case (Inl err)
  then show ?thesis using assms(1,2) by (simp add: heap_op_def out_good_def)
next
  case (Inr x)
  then show ?thesis using assms(1) assms(3) [OF Inr]
    by (cases "f (m_heap m) x") (auto simp: heap_op_def out_good_def op_good_def machine_ok_with_heap)
qed

lemma out_good_heap_read:
  assumes "machine_ok U d e m" and "quiet arg" and "\<And>x. arg = Inr x \<Longrightarrow> quiet (f (m_heap m) x)"
    and "\<And>x y. arg = Inr x \<Longrightarrow> f (m_heap m) x = Inr y \<Longrightarrow> P y"
  shows "out_good U d e (m_frame m) P (heap_read m arg f)"
  using assms by (auto simp: heap_read_def out_good_def and_then_Inr_iff intro!: quiet_and_then)

section \<open>Constants\<close>

lemma machine_ok_runtime:
  "machine_ok U d e m \<Longrightarrow> runtime_ok U e rt \<Longrightarrow> machine_ok U d e (m\<lparr>m_runtime := rt\<rparr>)"
  by (simp add: machine_ok_def)

lemma object_good_constant:
  assumes "program U" and "e \<in> U" and "c \<in> set (exec_constants e)"
  shows "object_good U (constant_object c) \<and> kind_of (constant_object c) \<noteq> KDict"
  using assms by (cases c) (force simp: program_def)+

lemma load_constant_good:
  assumes "program U" and "e \<in> U" and "machine_ok U d e m" and "n < length (exec_constants e)"
  shows "out_good U d e (m_frame m) initialised (load_constant L e n m)"
proof -
  have rt: "runtime_ok U e (m_runtime m)" using assms(3) by (simp add: machine_ok_def)
  have n: "n < length (rt_constants (m_runtime m))" using rt assms(4) by (simp add: runtime_ok_iff)
  show ?thesis
  proof (cases "rt_constants (m_runtime m) ! n")
    case (Some v)
    then have "Some v \<in> set (rt_constants (m_runtime m))" using n by (metis nth_mem)
    then have "initialised v" using rt by (simp add: runtime_ok_iff)
    then show ?thesis using Some n assms(3)
      by (auto simp: load_constant_def get_at_def intro!: out_good_pure)
  next
    case None
    let ?c = "exec_constants e ! n"
    let ?cache = "\<lambda>m v. if n < length (rt_constants (m_runtime m))
        then (m\<lparr>m_runtime := set_constants ((rt_constants (m_runtime m))[n := Some v]) (m_runtime m)\<rparr>, Inr v)
        else (m, Inl (Numbered ''invalid constant cache slot c{}'' [int n]))"
    have "out_good U d e (m_frame m) initialised
        (then_with (heap_op m (Inr (constant_object ?c)) (allocate_object L)) ?cache)"
    proof (rule out_good_then_with)
      show "out_good U d e (m_frame m) initialised (heap_op m (Inr (constant_object ?c)) (allocate_object L))"
        using object_good_constant [OF assms(1,2) nth_mem [OF assms(4)]] assms(3) machine_ok_heap [OF assms(3)]
        by (intro out_good_heap_op) (auto intro!: op_good_allocate)
      fix m' v assume m': "machine_ok U d e m'" "m_frame m' = m_frame m" and v: "initialised v"
      have rt': "runtime_ok U e (m_runtime m')" using m'(1) by (simp add: machine_ok_def)
      have "runtime_ok U e (set_constants ((rt_constants (m_runtime m'))[n := Some v]) (m_runtime m'))"
        using rt' v by (auto simp: runtime_ok_iff dest!: set_update_subset_insert [THEN subsetD])
      moreover have "n < length (rt_constants (m_runtime m'))" using rt' assms(4) by (simp add: runtime_ok_iff)
      ultimately show "out_good U d e (m_frame m) initialised (?cache m' v)"
        using m' v by (auto intro!: out_good_pure machine_ok_runtime)
    qed
    then show ?thesis using None n assms(4) by (simp add: load_constant_def get_at_def)
  qed
qed

lemma load_current_function_good:
  assumes "e \<in> U" and "machine_ok U d e m"
  shows "out_good U d e (m_frame m) initialised (load_current_function L e m)"
proof (cases "rt_current_function (m_runtime m)")
  case (Some v)
  then show ?thesis using assms(2)
    by (auto simp: load_current_function_def machine_ok_def runtime_ok_iff intro!: out_good_pure)
next
  case None
  have "out_good U d e (m_frame m) initialised
      (then_with (heap_op m (Inr (FunctionObject e)) (allocate_object L)) (\<lambda>m v.
         (m\<lparr>m_runtime := set_current_function (Some v) (m_runtime m)\<rparr>, Inr v)))"
  proof (rule out_good_then_with)
    show "out_good U d e (m_frame m) initialised (heap_op m (Inr (FunctionObject e)) (allocate_object L))"
      using assms machine_ok_heap [OF assms(2)] by (intro out_good_heap_op) (auto intro!: op_good_allocate)
    fix m' v assume m': "machine_ok U d e m'" "m_frame m' = m_frame m" and v: "initialised v"
    then have "runtime_ok U e (set_current_function (Some v) (m_runtime m'))"
      by (simp add: machine_ok_def runtime_ok_iff)
    then show "out_good U d e (m_frame m) initialised
        (m'\<lparr>m_runtime := set_current_function (Some v) (m_runtime m')\<rparr>, Inr v)"
      using m' v by (auto intro!: out_good_pure machine_ok_runtime)
  qed
  then show ?thesis using None by (simp add: load_current_function_def)
qed

section \<open>Caches of a machine\<close>

lemma machine_ok_report [simp]:
  "machine_ok U d e (report_guard_miss m) = machine_ok U d e m"
  "machine_ok U d e (report_megamorphic m) = machine_ok U d e m"
  "machine_ok U d e (report_guest_call m) = machine_ok U d e m"
  "m_frame (report_guard_miss m) = m_frame m" "m_frame (report_megamorphic m) = m_frame m"
  "m_frame (report_guest_call m) = m_frame m"
  by (simp_all add: machine_ok_def report_guard_miss_def report_megamorphic_def report_guest_call_def)

lemma machine_ok_set_site:
  "machine_ok U d e m \<Longrightarrow> site_ok U s \<Longrightarrow> machine_ok U d e (set_call_site pc s m)"
  by (simp add: machine_ok_def set_call_site_def runtime_set_site)

lemma set_site_frame [simp]: "m_frame (set_call_site pc s m) = m_frame m"
  by (simp add: set_call_site_def)

lemma machine_ok_site:
  "machine_ok U d e m \<Longrightarrow> pc < length (exec_code e) \<Longrightarrow>
   pc < length (rt_call_sites (m_runtime m)) \<and> site_ok U (rt_call_sites (m_runtime m) ! pc)"
  by (simp add: machine_ok_def runtime_ok_iff)

lemma remember_target_ok:
  assumes "machine_ok U d e m" and "site_ok U s" and "target_ok U t"
  shows "machine_ok U d e (remember_target pc s t m) \<and> m_frame (remember_target pc s t m) = m_frame m"
proof -
  have "site_ok U (CallSite ts False)" if "fill_slot t (cs_targets s) = Some ts" for ts
    using fill_slot_set [OF that] assms(2,3) by (simp add: site_ok_def)
  moreover have "site_ok U (CallSite (cs_targets s) True)" using assms(2) by (simp add: site_ok_def)
  ultimately show ?thesis using assms(1)
    by (auto simp: remember_target_def intro!: machine_ok_set_site split: option.split)
qed

lemma leaf_new_ok: "leaf_ok U f (leaf_new f)"
  by (simp add: leaf_ok_def leaf_new_def new_frame_def runtime_new_ok)

lemma prepared_leaf_good:
  assumes "verified_program U" and "f \<in> U"
  shows "quiet (prepared_leaf f)" and "prepared_leaf f = Inr leaf \<Longrightarrow> target_ok U (CallTarget key f leaf)"
  using assms
  by (auto simp: prepared_leaf_def verified_program_def target_ok_def map_ok_Inr_iff leaf_new_ok
      split: if_splits)

lemma function_at_good:
  assumes "heap_good U h"
  shows "quiet (function_at h r)" and "function_at h r = Inr f \<Longrightarrow> f \<in> U"
proof -
  show "quiet (function_at h r)"
    by (auto simp: function_at_def internal_sets intro!: quiet_intros split: object.split)
  assume "function_at h r = Inr f"
  then obtain x where x: "heap_get h r = Inr x"
    and "(case x of FunctionObject f \<Rightarrow> Inr f | _ \<Rightarrow> Inl (Msg ''call target is not a function'')) = Inr f"
    by (auto simp: function_at_def and_then_Inr_iff)
  then have "heap_get h r = Inr (FunctionObject f)" by (cases x) auto
  then show "f \<in> U" using heap_good_get [OF assms] by fastforce
qed

lemma prepared_callable_good:
  assumes "verified_program U" and "machine_ok U d e m" and "pc < length (exec_code e)"
  shows "out_good U d e (m_frame m) (\<lambda>f. f \<in> U) (prepared_callable m pc v)"
proof (cases v)
  case (ObjectValue r)
  note site = machine_ok_site [OF assms(2,3)]
  then have at: "call_site_at m pc = Inr (rt_call_sites (m_runtime m) ! pc)"
    by (simp add: call_site_at_def get_at_def)
  let ?s = "rt_call_sites (m_runtime m) ! pc"
  show ?thesis
  proof (cases "find_target (FunctionKey r) ?s")
    case (Some t)
    then have "ct_function t \<in> U" using find_target_ok site by (fastforce simp: target_ok_def)
    then show ?thesis using ObjectValue at Some assms(2) by (auto simp: prepared_callable_def intro!: out_good_pure)
  next
    case None
    let ?m = "and_then (function_at (m_heap m) r) (\<lambda>f. map_ok (Pair f) (prepared_leaf f))"
    note callee = function_at_good [OF machine_ok_heap [OF assms(2)], of r]
    have quiet: "quiet ?m" using callee prepared_leaf_good(1) [OF assms(1)] by (auto intro!: quiet_intros)
    show ?thesis
    proof (cases ?m)
      case (Inl err)
      then show ?thesis using ObjectValue at None assms(2) quiet
        by (auto simp: prepared_callable_def intro!: out_good_pure)
    next
      case (Inr fl)
      then obtain f leaf where fl: "fl = (f, leaf)" and f: "function_at (m_heap m) r = Inr f"
        and leaf: "prepared_leaf f = Inr leaf" by (auto simp: and_then_Inr_iff map_ok_Inr_iff)
      note target = prepared_leaf_good(2) [OF assms(1) callee(2) [OF f] leaf, of "FunctionKey r"]
      show ?thesis using ObjectValue at None Inr fl callee(2) [OF f]
          remember_target_ok [OF assms(2) conjunct2 [OF site] target]
        by (auto simp: prepared_callable_def intro!: out_good_pure)
    qed
  qed
qed (use assms(2) in \<open>auto simp: prepared_callable_def internal_sets intro!: out_good_pure\<close>)

lemma prepared_method_good:
  assumes "machine_ok U d e m" and "pc < length (exec_code e)"
  shows "out_good U d e (m_frame m) (\<lambda>(r, f). f \<in> U) (prepared_method m pc v name)"
proof (cases v)
  case (ObjectValue r)
  note site = machine_ok_site [OF assms]
  then have at: "call_site_at m pc = Inr (rt_call_sites (m_runtime m) ! pc)"
    by (simp add: call_site_at_def get_at_def)
  let ?s = "rt_call_sites (m_runtime m) ! pc"
  note found = lookup_method_good [OF machine_ok_heap [OF assms(1)], of r name]
  show ?thesis
  proof (cases "instance_shape (m_heap m) r")
    case (Inl err)
    then have "quiet (Inl (HeapError err) :: vm_error + shape_id)"
      using instance_lookup_quiet(1) [of "m_heap m" r] by simp
    then show ?thesis using ObjectValue Inl assms(1) by (auto simp: prepared_method_def intro!: out_good_pure)
  next
    case shape: (Inr shape)
    show ?thesis
    proof (cases "find_target (MethodKey shape) ?s")
      case (Some t)
      then have "ct_function t \<in> U" using find_target_ok site by (fastforce simp: target_ok_def)
      then show ?thesis using ObjectValue at shape Some assms(1) by (auto simp: prepared_method_def intro!: out_good_pure)
    next
      case None
      show ?thesis
      proof (cases "lookup_method (m_heap m) r name")
        case (Inl err)
        then show ?thesis using ObjectValue at shape None assms(1) found(1)
          by (auto simp: prepared_method_def intro!: out_good_pure)
      next
        case (Inr sf)
        obtain s f where sf: "sf = (s, f)" by fastforce
        have f: "f \<in> U" using found(2) Inr sf by simp
        then have "target_ok U (CallTarget (MethodKey shape) f None)" by (simp add: target_ok_def)
        from remember_target_ok [OF assms(1) conjunct2 [OF site] this] show ?thesis
          using ObjectValue at shape None Inr sf f by (auto simp: prepared_method_def intro!: out_good_pure)
      qed
    qed
  qed
qed (use assms(1) in \<open>auto simp: prepared_method_def internal_sets intro!: out_good_pure\<close>)

section \<open>Attributes\<close>

lemma machine_ok_attribute_site [simp]:
  "machine_ok U d e (set_attribute_site pc s m) = machine_ok U d e m"
  "m_frame (set_attribute_site pc s m) = m_frame m" "m_vm (set_attribute_site pc s m) = m_vm m"
  by (simp_all add: machine_ok_def set_attribute_site_def runtime_ok_iff)

lemma remember_attribute_ok [simp]:
  "machine_ok U d e (remember_attribute pc s t m) = machine_ok U d e m"
  "m_frame (remember_attribute pc s t m) = m_frame m"
  by (simp_all add: remember_attribute_def split: option.split)

lemma attribute_miss_good:
  assumes "machine_ok U d e m"
  shows "out_good U d e (m_frame m) initialised (attribute_miss m pc s r name)"
proof (cases "lookup_instance_field (m_heap m) r name")
  case (Inl err)
  then have "quiet (Inl (HeapError err) :: vm_error + (shape_id \<times> nat \<times> wvalue) option)"
    using instance_lookup_quiet(2) [of "m_heap m" r name] by simp
  then show ?thesis using Inl assms by (auto simp: attribute_miss_def intro!: out_good_pure)
next
  case (Inr found)
  note heap = machine_ok_heap [OF assms]
  show ?thesis
  proof (cases found)
    case None
    have "out_good U d e (m_frame m) initialised
        (heap_op m (Inr ()) (\<lambda>h _. apsnd (map_err HeapError) (get_attribute h r name)))"
      using op_good_get_attribute [OF heap] assms by (intro out_good_heap_op) auto
    then show ?thesis using Inr None by (simp add: attribute_miss_def)
  next
    case (Some t)
    then show ?thesis using Inr lookup_field_good [OF heap] assms
      by (cases t) (auto simp: attribute_miss_def intro!: out_good_pure)
  qed
qed

lemma prepared_attribute_good:
  assumes "machine_ok U d e m" and "pc < length (exec_code e)"
  shows "out_good U d e (m_frame m) initialised (prepared_attribute m pc v name)"
proof (cases v)
  case (ObjectValue r)
  have at: "attribute_site_at m pc = Inr (rt_attribute_sites (m_runtime m) ! pc)"
    using assms by (simp add: attribute_site_at_def get_at_def machine_ok_def runtime_ok_iff)
  let ?s = "rt_attribute_sites (m_runtime m) ! pc"
  note miss = attribute_miss_good [OF assms(1), of pc ?s r name]
  have hit: "out_good U d e (m_frame m) initialised
      (case instance_field_at (m_heap m) r shape n of
         Inl err \<Rightarrow> (m, Inl (HeapError err))
       | Inr (Some w) \<Rightarrow> (m, Inr w)
       | Inr None \<Rightarrow> attribute_miss m pc ?s r name)" for shape n
  proof (cases "instance_field_at (m_heap m) r shape n")
    case (Inl err)
    then have "quiet (Inl (HeapError err) :: vm_error + wvalue option)"
      using instance_lookup_quiet(3) [of "m_heap m" r shape n] by simp
    then show ?thesis using Inl assms(1) by (auto intro!: out_good_pure)
  next
    case (Inr w)
    then show ?thesis using miss assms(1) field_at_good [OF machine_ok_heap [OF assms(1)]]
      by (cases w) (auto intro!: out_good_pure)
  qed
  show ?thesis
  proof (cases "instance_shape (m_heap m) r")
    case (Inl err)
    then have "quiet (Inl (HeapError err) :: vm_error + shape_id)"
      using instance_lookup_quiet(1) [of "m_heap m" r] by simp
    then show ?thesis using ObjectValue Inl assms(1) by (auto simp: prepared_attribute_def intro!: out_good_pure)
  next
    case (Inr shape)
    then show ?thesis using ObjectValue at miss hit
      by (simp add: prepared_attribute_def split: option.split)
  qed
qed (use assms(1) in \<open>auto simp: prepared_attribute_def internal_sets intro!: out_good_pure\<close>)

section \<open>Frames and functions\<close>

lemma vm_ok_fields:
  assumes "vm_ok U d v" and "vm_heap v' = vm_heap v" "vm_call_depth v' = vm_call_depth v"
    "vm_runtimes v' = vm_runtimes v" "vm_frame_pool v' = vm_frame_pool v"
  shows "vm_ok U d v'"
  using assms by (simp add: vm_ok_def)

lemma take_frame_good:
  assumes "vm_ok U d v" and "take_frame n v = (f, v')"
  shows "vm_ok U d v' \<and> length (registers f) = n \<and> frame_pc f = 0"
proof (cases "vm_frame_pool v n = []")
  case True
  then show ?thesis using assms by (auto simp: take_frame_def new_frame_def)
next
  case False
  then have "last (vm_frame_pool v n) \<in> set (vm_frame_pool v n)" by simp
  then have "length (registers (last (vm_frame_pool v n))) = n" using assms(1) by (simp add: vm_ok_def)
  moreover have "\<forall>g \<in> set (butlast (vm_frame_pool v n)). length (registers g) = n"
    using assms(1) in_set_butlastD by (fastforce simp: vm_ok_def)
  ultimately show ?thesis using assms False
    by (auto simp: take_frame_def vm_ok_def split: if_splits)
qed

lemma return_frame_good:
  "vm_ok U d v \<Longrightarrow> length (registers f) = n \<Longrightarrow> vm_ok U d (return_frame n f v)"
  by (auto simp: vm_ok_def return_frame_def)

lemma vm_ok_runtimes:
  assumes "vm_ok U d v" and "program U" and "e \<in> U" and "\<And>rt. r = Some rt \<Longrightarrow> runtime_ok U e rt"
  shows "vm_ok U d (v\<lparr>vm_runtimes := (vm_runtimes v)(exec_id e := r)\<rparr>)"
proof -
  have "f = e" if "f \<in> U" "exec_id f = exec_id e" for f
    using assms(2,3) that by (simp add: program_def)
  then show ?thesis using assms(1,4) by (auto simp: vm_ok_def)
qed

lemma run_from_entry:
  assumes "runner_good U run" and "e \<in> U" and "machine_ok U d e m" and "frame_pc (m_frame m) = 0"
    and "values_ok (parameter_registers e) (m_frame m)" and "run e m = (n, r)"
  shows "machine_ok U d e n \<and> quiet r \<and> (\<forall>x. r = Inr x \<longrightarrow> initialised x)"
proof -
  have "assigned_path (exec_code e) (parameter_registers e) (frame_pc (m_frame m)) (parameter_registers e)"
    by (simp add: assms(4) assigned_path.path_entry)
  then show ?thesis using assms unfolding runner_good_def by (metis fst_conv snd_conv)
qed

lemma run_checked_out_good:
  assumes run: "runner_good U run" and U: "program U" "e \<in> U" and v: "vm_ok U d v"
    and f: "length (registers f) = register_count (exec_bytecode e)" "frame_pc f = 0"
      "values_ok (parameter_registers e) f"
  shows "call_good U d (run_checked_out run e f v)"
proof -
  let ?rt = "case vm_runtimes v (exec_id e) of None \<Rightarrow> runtime_new e | Some rt \<Rightarrow> rt"
  let ?m = "\<lparr>m_vm = v\<lparr>vm_runtimes := (vm_runtimes v)(exec_id e := None)\<rparr>, m_runtime = ?rt, m_frame = f\<rparr>"
  obtain m r where m: "run e ?m = (m, r)" by fastforce
  have "runtime_ok U e ?rt" using v U(2) runtime_new_ok by (auto simp: vm_ok_def split: option.split)
  then have "machine_ok U d e ?m" using vm_ok_runtimes [OF v U, of None] f(1) by (simp add: machine_ok_def)
  then have res: "machine_ok U d e m \<and> quiet r \<and> (\<forall>w. r = Inr w \<longrightarrow> initialised w)"
    using run_from_entry [OF run U(2) _ _ _ m] f(2,3) by simp
  let ?v = "(m_vm m)\<lparr>vm_runtimes := (vm_runtimes (m_vm m))(exec_id e := Some (m_runtime m))\<rparr>"
  have "vm_ok U d ?v" by (intro vm_ok_runtimes [OF _ U]) (use res in \<open>auto simp: machine_ok_def\<close>)
  then have "vm_ok U d (return_frame (register_count (exec_bytecode e)) (m_frame m) ?v)"
    using res return_frame_good by (simp add: machine_ok_def)
  then have "vm_ok U d ((return_frame (register_count (exec_bytecode e)) (m_frame m) ?v)
      \<lparr>vm_last_executed := Some (exec_id e)\<rparr>)" by (simp add: vm_ok_def)
  then show ?thesis using m res by (simp add: run_checked_out_def Let_def call_good_def)
qed

lemma verified_member:
  "verified_program U \<Longrightarrow> e \<in> U \<Longrightarrow> program U \<and> verify e = Inr () \<and> parameters_wf e \<and> code_wf e
    \<and> definitely_assigned (exec_code e) (parameter_registers e)"
  using verify_parameters_wf verify_code_wf verify_assigned by (auto simp: verified_program_def)

lemma function_at_depth_good:
  assumes "runner_good U run" and "verified_program U" "e \<in> U" and "vm_ok U d v"
  shows "call_good U d (execute_function_at_depth run e args prepared v)"
proof -
  note e = verified_member [OF assms(2,3)]
  let ?v = "with_report (record_function_call (exec_name e)) v"
  have "verify_once e prepared ?v \<noteq> Inl err" for err using e by (simp add: verify_once_def)
  then obtain v1 where v1: "verify_once e prepared ?v = Inr v1" by (meson sum.exhaust_sel sumE)
  have ok1: "vm_ok U d v1" using vm_ok_fields [OF assms(4)] verify_once_simps [OF v1] by simp
  let ?n = "register_count (exec_bytecode e)"
  obtain f v2 where take: "take_frame ?n v1 = (f, v2)" by fastforce
  note f = take_frame_good [OF ok1 take]
  obtain f' r where init: "initialize_registers e args (vm_heap v2) f = (f', r)" by fastforce
  have f': "length (registers f') = ?n \<and> frame_pc f' = 0 \<and> quiet r
      \<and> (r = Inr () \<longrightarrow> values_ok (parameter_registers e) f')"
    using initialize_registers_good [OF _ _ init] e f by auto
  show ?thesis
  proof (cases r)
    case (Inl err)
    then show ?thesis using v1 take init f f' return_frame_good [of U d v2 f' ?n]
      by (simp add: execute_function_at_depth_def Let_def call_good_def)
  next
    case (Inr u)
    then have "call_good U d (run_checked_out run e f' v2)"
      using f f' e assms(1,3) by (intro run_checked_out_good) auto
    then show ?thesis using v1 take init Inr by (simp add: execute_function_at_depth_def Let_def)
  qed
qed

lemma at_depth_good:
  assumes "\<And>w. vm_ok U (Suc d) w \<Longrightarrow> call_good U (Suc d) (f w)" and "vm_ok U d v"
  shows "call_good U d (at_depth f v)"
proof (cases "MAX_GUEST_CALL_DEPTH \<le> d")
  case True
  then show ?thesis using assms(2) by (auto simp: at_depth_def call_good_def vm_ok_def internal_sets)
next
  case False
  obtain w r where w: "f (v\<lparr>vm_call_depth := Suc (vm_call_depth v)\<rparr>) = (w, r)" by fastforce
  have "vm_ok U (Suc d) (v\<lparr>vm_call_depth := Suc (vm_call_depth v)\<rparr>)"
    using assms(2) False by (simp add: vm_ok_def)
  from assms(1) [OF this] w have "call_good U (Suc d) (w, r)" by simp
  then show ?thesis using w False assms(2) by (auto simp: at_depth_def call_good_def vm_ok_def)
qed

lemma prepared_function_good:
  assumes "runner_good U run" and "verified_program U" "e \<in> U" and "vm_ok U d v"
  shows "call_good U d (execute_prepared_function run e args v)"
  unfolding execute_prepared_function_def
  using assms by (intro at_depth_good function_at_depth_good) (simp_all add: report_prepared_hit_def)

section \<open>Calls\<close>

lemma machine_ok_vm: "machine_ok U d e m \<Longrightarrow> vm_ok U d v \<Longrightarrow> machine_ok U d e (m\<lparr>m_vm := v\<rparr>)"
  by (simp add: machine_ok_def)

lemma invoke_good:
  assumes run: "runner_good U run" and U: "verified_program U" "e \<in> U" "f \<in> U" and m: "machine_ok U d e m"
  shows "out_good U d e (m_frame m) initialised (invoke run e f args m)"
proof (cases "exec_id e = exec_id f")
  case False
  obtain v r where v: "execute_prepared_function run f args (m_vm m) = (v, r)" by fastforce
  have "call_good U d (v, r)"
    using prepared_function_good [OF run U(1,3), of d "m_vm m" args] m v by (simp add: machine_ok_def)
  then show ?thesis using False v m
    by (auto simp: invoke_def call_good_def intro!: out_good_pure machine_ok_vm)
next
  case True
  have program: "program U" using U(1) by (simp add: verified_program_def)
  then have same: "f = e" using U True by (simp add: program_def)
  let ?v = "(m_vm m)\<lparr>vm_runtimes := (vm_runtimes (m_vm m))(exec_id e := Some (m_runtime m))\<rparr>"
  show ?thesis
  proof (cases "vm_runtimes (m_vm m) (exec_id e)")
    case (Some rt)
    then show ?thesis using True m by (auto simp: invoke_def Let_def internal_sets intro!: out_good_pure)
  next
    case None
    obtain v r where v: "execute_prepared_function run f args ?v = (v, r)" by fastforce
    have "vm_ok U d ?v" using m by (intro vm_ok_runtimes [OF _ program U(2)]) (auto simp: machine_ok_def)
    then have good: "call_good U d (v, r)"
      using prepared_function_good [OF run U(1,3), of d ?v args] v by simp
    have "vm_runtimes v (exec_id e) \<noteq> None" using prepared_keeps_parked [of ?v f run args] v same by simp
    then obtain rt where rt: "vm_runtimes v (exec_id e) = Some rt" by blast
    have ok: "vm_ok U d (v\<lparr>vm_runtimes := (vm_runtimes v)(exec_id e := None)\<rparr>)"
      using good by (intro vm_ok_runtimes [OF _ program U(2)]) (auto simp: call_good_def)
    have "runtime_ok U e rt" using good rt U(2) by (simp add: call_good_def vm_ok_def)
    then have "machine_ok U d e
        (m\<lparr>m_vm := v\<lparr>vm_runtimes := (vm_runtimes v)(exec_id e := None)\<rparr>, m_runtime := rt\<rparr>)"
      using ok m by (simp add: machine_ok_def)
    then show ?thesis using True None v rt good
      by (auto simp: invoke_def Let_def call_good_def intro!: out_good_pure)
  qed
qed

lemma reset_frame_simps [simp]:
  "length (registers (reset_frame f)) = length (registers f)" "frame_pc (reset_frame f) = 0"
  by (simp_all add: reset_frame_def)

lemma interpreter_leaf_good:
  assumes run: "runner_good U run" and U: "verified_program U" "f \<in> U"
    and leaf: "leaf_ok U f leaf" and v: "vm_ok U d v"
    and res: "execute_interpreter_leaf run f leaf args v = ((v', leaf'), r)"
  shows "vm_ok U d v' \<and> leaf_ok U f leaf' \<and> quiet r \<and> (\<forall>x. r = Inr x \<longrightarrow> initialised x)"
proof (cases "MAX_GUEST_CALL_DEPTH \<le> vm_call_depth v")
  case True
  then show ?thesis using res leaf v by (auto simp: execute_interpreter_leaf_def internal_sets)
next
  case False
  note member = verified_member [OF U]
  let ?v = "with_report (record_function_call (exec_name f))
      (report_prepared_hit (v\<lparr>vm_call_depth := Suc (vm_call_depth v)\<rparr>))"
  have v1: "vm_ok U (Suc d) ?v" using v False by (simp add: report_prepared_hit_def vm_ok_def)
  obtain fr i where init: "initialize_registers f args (vm_heap ?v) (leaf_frame leaf) = (fr, i)" by fastforce
  have fr: "length (registers fr) = register_count (exec_bytecode f) \<and> frame_pc fr = 0 \<and> quiet i
      \<and> (i = Inr () \<longrightarrow> values_ok (parameter_registers f) fr)"
    using initialize_registers_good [OF _ _ init] leaf member by (simp add: leaf_ok_def)
  let ?m = "\<lparr>m_vm = ?v, m_runtime = leaf_runtime leaf, m_frame = fr\<rparr>"
  have m: "machine_ok U (Suc d) f ?m" using v1 leaf fr by (simp add: machine_ok_def leaf_ok_def)
  obtain n s where out: "(case i of Inl err \<Rightarrow> (?m, Inl err) | Inr _ \<Rightarrow> run f ?m) = (n, s)" by fastforce
  have good: "machine_ok U (Suc d) f n \<and> quiet s \<and> (\<forall>x. s = Inr x \<longrightarrow> initialised x)"
  proof (cases i)
    case (Inl err)
    then show ?thesis using out m fr by auto
  next
    case (Inr u)
    then have "run f ?m = (n, s)" using out by simp
    then show ?thesis using run_from_entry [OF run U(2) m] fr Inr by simp
  qed
  have "v' = (m_vm n)\<lparr>vm_call_depth := vm_call_depth (m_vm n) - 1\<rparr>"
      "leaf' = InterpreterLeaf (m_runtime n) (reset_frame (m_frame n))" "r = s"
    using res False init out by (cases i; auto simp: execute_interpreter_leaf_def Let_def)+
  then show ?thesis using good False v by (auto simp: machine_ok_def leaf_ok_def vm_ok_def)
qed

text \<open>The site of a call in progress has its leaf taken out, and gets it back.\<close>

lemma put_leaf_frame [simp]: "m_frame (put_leaf pc key leaf m) = m_frame m" "m_vm (put_leaf pc key leaf m) = m_vm m"
  by (auto simp: put_leaf_def set_call_site_def split: option.split)

lemma put_leaf_sites:
  "pc < length (rt_call_sites (m_runtime m)) \<Longrightarrow>
   rt_call_sites (m_runtime (put_leaf pc key leaf m)) = (rt_call_sites (m_runtime m))
     [pc := CallSite (set_leaf key leaf (cs_targets (rt_call_sites (m_runtime m) ! pc)))
        (cs_megamorphic (rt_call_sites (m_runtime m) ! pc))]"
  by (simp add: put_leaf_def set_call_site_def get_at_def)

lemma put_leaf_ok:
  assumes "machine_ok U d e m" and "pc < length (exec_code e)"
    and "\<And>t. find_target key (rt_call_sites (m_runtime m) ! pc) = Some t
      \<Longrightarrow> target_ok U (CallTarget (ct_key t) (ct_function t) leaf)"
  shows "machine_ok U d e (put_leaf pc key leaf m)"
proof -
  note site = machine_ok_site [OF assms(1,2)]
  let ?s = "rt_call_sites (m_runtime m) ! pc"
  have "site_ok U (CallSite (set_leaf key leaf (cs_targets ?s)) (cs_megamorphic ?s))"
    using site assms(3) by (intro set_leaf_ok) (auto simp: find_target_def site_ok_def)
  then show ?thesis using site assms(1) by (simp add: put_leaf_def get_at_def machine_ok_set_site)
qed

lemma non_function_good:
  assumes run: "runner_good U run" and U: "verified_program U" "e \<in> U" and m: "machine_ok U d e m"
    and kind: "heap_kind (m_heap m) r \<noteq> Inr KFunction"
  shows "out_good U d e (m_frame m) initialised (invoke_non_function_callable run e r args m)"
proof (cases "heap_get (m_heap m) r")
  case (Inl err)
  then show ?thesis using m
    by (auto simp: invoke_non_function_callable_def dest: heap_get_Inl_quiet intro!: out_good_pure)
next
  case (Inr x)
  note good = heap_good_get [OF machine_ok_heap [OF m] Inr]
  show ?thesis
  proof (cases x)
    case (BoundMethodObj b)
    then have "bm_function b \<in> U" using good by (simp add: object_good_def)
    then show ?thesis using invoke_good [OF run U _ m] Inr BoundMethodObj
      by (simp add: invoke_non_function_callable_def)
  next
    case (ClassObj c)
    then have methods: "methods_in U c" using good by simp
    let ?init = "\<lambda>m i. case class_method c ''__init__'' of
        Some initializer \<Rightarrow>
          then_with (invoke run e initializer (ObjectValue i # args) m) (\<lambda>m result.
            if result \<noteq> ValueNone then (m, Inl (Msg ''__init__ must return None''))
            else (m, Inr (ObjectValue i)))
      | None \<Rightarrow>
          if args \<noteq> [] then (m, Inl (Msg (class_name c @ ''() takes no arguments'')))
          else (m, Inr (ObjectValue i))"
    have "out_good U d e (m_frame m) initialised
        (then_with (heap_op m (Inr ()) (\<lambda>h _. apsnd (map_err HeapError) (instantiate h r))) ?init)"
    proof (rule out_good_then_with)
      show "out_good U d e (m_frame m) (\<lambda>_. True)
          (heap_op m (Inr ()) (\<lambda>h _. apsnd (map_err HeapError) (instantiate h r)))"
        using op_good_instantiate [OF machine_ok_heap [OF m]] m by (intro out_good_heap_op) auto
      fix m' i assume m': "machine_ok U d e m'" "m_frame m' = m_frame m"
      have quiet: "\<not> internal_error (Msg (class_name c @ ''() takes no arguments''))"
      proof -
        have "last s \<noteq> CHR ''s''" if "s \<in> internal_messages" for s
          using that by (auto simp: internal_messages_def)
        then show ?thesis by fastforce
      qed
      show "out_good U d e (m_frame m) initialised (?init m' i)"
      proof (cases "class_method c ''__init__''")
        case None
        then show ?thesis using m' quiet by (auto intro!: out_good_pure)
      next
        case (Some g)
        have "out_good U d e (m_frame m') initialised (invoke run e g (ObjectValue i # args) m')"
          using invoke_good [OF run U class_method_in [OF methods Some] m'(1)] .
        then have "out_good U d e (m_frame m') initialised
            (then_with (invoke run e g (ObjectValue i # args) m') (\<lambda>m result.
               if result \<noteq> ValueNone then (m, Inl (Msg ''__init__ must return None''))
               else (m, Inr (ObjectValue i))))"
          by (rule out_good_then_with) (auto simp: internal_sets intro!: out_good_pure)
        then show ?thesis using Some m'(2) by simp
      qed
    qed
    then show ?thesis using Inr ClassObj by (simp add: invoke_non_function_callable_def)
  next
    case (FunctionObject f)
    then show ?thesis using Inr kind by (simp add: heap_kind_def)
  qed (use Inr m in \<open>auto simp: invoke_non_function_callable_def internal_sets intro!: out_good_pure\<close>)
qed

lemma invoke_callable_good:
  assumes run: "runner_good U run" and U: "verified_program U" "e \<in> U" and m: "machine_ok U d e m"
    and pc: "pc < length (exec_code e)"
  shows "out_good U d e (m_frame m) initialised (invoke_callable run e pc callable args m)"
proof (cases callable)
  case (ObjectValue r)
  note site = machine_ok_site [OF m pc]
  let ?s = "rt_call_sites (m_runtime m) ! pc"
  have cached: "cached_target m pc r = find_target (FunctionKey r) ?s"
    using site by (simp add: cached_target_def get_at_def)
  show ?thesis
  proof (cases "find_target (FunctionKey r) ?s")
    case (Some t)
    have t: "target_ok U t" using find_target_ok [OF conjunct2 [OF site] Some] by simp
    show ?thesis
    proof (cases "ct_leaf t")
      case None
      then show ?thesis using ObjectValue cached Some invoke_good [OF run U _ m] t
        by (simp add: invoke_callable_def target_ok_def)
    next
      case leaf: (Some leaf)
      let ?m = "put_leaf pc (FunctionKey r) None m"
      have m1: "machine_ok U d e ?m"
      proof (rule put_leaf_ok [OF m pc])
        fix u assume "find_target (FunctionKey r) ?s = Some u"
        then show "target_ok U (CallTarget (ct_key u) (ct_function u) None)"
          using Some t by (simp add: target_ok_def)
      qed
      obtain v l result where out: "execute_interpreter_leaf run (ct_function t) leaf args (m_vm ?m) = ((v, l), result)"
        by (metis surj_pair)
      have good: "vm_ok U d v \<and> leaf_ok U (ct_function t) l \<and> quiet result \<and> (\<forall>x. result = Inr x \<longrightarrow> initialised x)"
        using t leaf m1 by (intro interpreter_leaf_good [OF run U(1) _ _ _ out]) (auto simp: target_ok_def machine_ok_def)
      have "machine_ok U d e (put_leaf pc (FunctionKey r) (Some l) (?m\<lparr>m_vm := v\<rparr>))"
      proof (rule put_leaf_ok [OF machine_ok_vm [OF m1] pc])
        fix u assume "find_target (FunctionKey r) (rt_call_sites (m_runtime (?m\<lparr>m_vm := v\<rparr>)) ! pc) = Some u"
        then have "find (\<lambda>t. ct_key t = FunctionKey r) (flatten (set_leaf (FunctionKey r) None (cs_targets ?s))) = Some u"
          using site put_leaf_sites [of pc m "FunctionKey r" None] by (simp add: find_target_def)
        then have "ct_function u = ct_function t" using Some by (auto simp: find_set_leaf find_target_def)
        then show "target_ok U (CallTarget (ct_key u) (ct_function u) (Some l))"
          using t good by (simp add: target_ok_def)
      qed (use good in simp)
      then show ?thesis using ObjectValue cached Some leaf out good
        by (auto simp: invoke_callable_def Let_def intro!: out_good_pure)
    qed
  next
    case None
    show ?thesis
    proof (cases "heap_kind (m_heap m) r")
      case (Inl err)
      then have "err \<noteq> UninitializedValue" by (auto simp: heap_kind_def dest: heap_get_Inl_quiet)
      then show ?thesis using ObjectValue cached None Inl m by (auto simp: invoke_callable_def intro!: out_good_pure)
    next
      case (Inr k)
      show ?thesis
      proof (cases "k = KFunction")
        case False
        then have "out_good U d e (m_frame m) initialised (invoke_non_function_callable run e r args m)"
          using Inr by (intro non_function_good [OF run U m]) simp
        then show ?thesis using ObjectValue cached None Inr False
          by (cases k) (simp_all add: invoke_callable_def)
      next
        case True
        have "out_good U d e (m_frame m) initialised
            (then_with (prepared_callable m pc callable) (\<lambda>m f. invoke run e f args m))"
        proof (rule out_good_then_with [OF prepared_callable_good [OF U(1) m pc]])
          fix m' f assume "machine_ok U d e m'" "m_frame m' = m_frame m" "f \<in> U"
          then show "out_good U d e (m_frame m) initialised (invoke run e f args m')"
            using invoke_good [OF run U] by metis
        qed
        then show ?thesis using ObjectValue cached None Inr True by (simp add: invoke_callable_def)
      qed
    qed
  qed
qed (use m in \<open>auto simp: invoke_callable_def internal_sets intro!: out_good_pure\<close>)

end
