(* ===== verification/Vm_Run.thy ===== *)
theory Vm_Run
  imports Vm_Safety
begin

text \<open>
  Steps and runs of a verified body. The registers assigned along the path that the run has taken
  hold values, so every read finds one; a run with any fuel keeps the machine's invariant.
\<close>

section \<open>Readable registers\<close>

definition readable :: "machine \<Rightarrow> register \<Rightarrow> bool" where
  "readable m r \<longleftrightarrow> unat r < length (registers (m_frame m)) \<and> initialised (registers (m_frame m) ! unat r)"

abbreviation value_of :: "machine \<Rightarrow> register \<Rightarrow> wvalue" where
  "value_of m r \<equiv> registers (m_frame m) ! unat r"

lemma rd_readable [simp]: "readable m r \<Longrightarrow> rd m r = Inr (value_of m r)"
  by (simp add: readable_def read_register_Inr)

lemma readable_value [simp]: "readable m r \<Longrightarrow> initialised (value_of m r)"
  by (simp add: readable_def)

lemma rd2_readable [simp]: "readable m a \<Longrightarrow> readable m b \<Longrightarrow> rd2 m a b = Inr (value_of m a, value_of m b)"
  by (simp add: rd2_def)

lemma rd3_readable [simp]:
  "readable m a \<Longrightarrow> readable m b \<Longrightarrow> readable m c \<Longrightarrow>
   rd3 m a b c = Inr (value_of m a, value_of m b, value_of m c)"
  by (simp add: rd3_def)

lemma read_many_readable [simp]:
  "\<forall>r \<in> set rs. readable m r \<Longrightarrow> read_many m rs = Inr (map (value_of m) rs)"
  unfolding read_many_def by (induction rs) simp_all

lemma read_entries_readable [simp]:
  "\<forall>(k, v) \<in> set es. readable m k \<and> readable m v \<Longrightarrow>
   try_map (\<lambda>(k, v). rd2 m k v) es = Inr (map (\<lambda>(k, v). (value_of m k, value_of m v)) es)"
  by (induction es) auto

lemma quiet_read_optional [simp]: "(\<forall>r. p = Some r \<longrightarrow> readable m r) \<Longrightarrow> quiet (read_optional m p)"
  unfolding read_optional_def by (cases p) simp_all

lemma quiet_read_slice [simp]:
  "readable m obj \<Longrightarrow> \<forall>p \<in> {start, stop, step}. \<forall>r. p = Some r \<longrightarrow> readable m r \<Longrightarrow>
   quiet (read_slice m obj start stop step)"
  by (auto simp: read_slice_def intro!: quiet_intros)

lemma quiet_rd_bool [simp]: "readable m r \<Longrightarrow> quiet (rd_bool m r)"
  by (auto simp: rd_bool_def internal_sets split: wvalue.split)

lemma quiet_small_operands [simp]: "readable m a \<Longrightarrow> readable m b \<Longrightarrow> quiet (small_operands m a b)"
  by (auto simp: small_operands_def read_small_int_def internal_sets split: wvalue.split intro!: quiet_intros)

lemma quiet_read_bool [simp]: "readable m r \<Longrightarrow> quiet (read_bool (m_frame m) r)"
  by (auto simp: read_bool_def internal_sets split: wvalue.split)

section \<open>Steps\<close>

text \<open>The outcome of a step: a value, an error, or a next pc with the registers assigned so far.\<close>

definition step_good ::
  "executable set \<Rightarrow> nat \<Rightarrow> executable \<Rightarrow> nat list \<Rightarrow> register set \<Rightarrow> machine \<times> (vm_error + wvalue option) \<Rightarrow> bool"
where
  "step_good U d e next A r \<longleftrightarrow>
     machine_ok U d e (fst r) \<and> quiet (snd r) \<and> (\<forall>v. snd r = Inr (Some v) \<longrightarrow> initialised v)
     \<and> (snd r = Inr None \<longrightarrow> frame_pc (m_frame (fst r)) \<in> set next \<and> values_ok A (m_frame (fst r)))"

lemma machine_ok_frame:
  "machine_ok U d e m \<Longrightarrow> length (registers f) = register_count (exec_bytecode e) \<Longrightarrow>
   machine_ok U d e (m\<lparr>m_frame := f\<rparr>)"
  by (simp add: machine_ok_def)

lemma advance_good:
  assumes "out_good U d e f (\<lambda>_. True) r" and "values_ok A f"
  shows "step_good U d e [Suc (frame_pc f)] A (advance r)"
  using assms
  by (cases r; cases "snd r")
     (auto simp: advance_def out_good_def step_good_def move_pc_def machine_ok_def values_ok_def)

lemma store_good:
  assumes "out_good U d e f initialised r" and "unat dst < register_count (exec_bytecode e)" and "values_ok A f"
  shows "step_good U d e [Suc (frame_pc f)] (insert dst A) (advance (store_to dst r))"
proof -
  obtain m x where r: "r = (m, x)" by fastforce
  have m: "machine_ok U d e m" "m_frame m = f" "quiet x" and v: "\<And>v. x = Inr v \<Longrightarrow> initialised v"
    using assms(1) by (auto simp: out_good_def r)
  have dst: "unat dst < length (registers (m_frame m))" using m(1) assms(2) by (simp add: machine_ok_def)
  show ?thesis
  proof (cases x)
    case (Inl err)
    then show ?thesis using m dst by (simp add: r advance_store step_good_def)
  next
    case (Inr w)
    have "values_ok (insert dst A) (f\<lparr>registers := (registers f)[unat dst := w], frame_pc := Suc (frame_pc f)\<rparr>)"
      using assms(3) v [OF Inr] dst m(2) by (auto simp: values_ok_def nth_list_update)
    then show ?thesis using m dst Inr by (simp add: r advance_store step_good_def machine_ok_def)
  qed
qed

lemma write_good:
  assumes "machine_ok U d e m" and "m_frame m = f" and "unat dst < register_count (exec_bytecode e)"
    and "values_ok A f" and "initialised v"
  shows "step_good U d e [Suc (frame_pc f)] (insert dst A) (advance (write_dst dst m v))"
  using store_good [OF out_good_pure [OF assms(1,2), of "Inr v" initialised] assms(3,4)] assms(5)
  by (simp add: store_to_def)

lemma perform_call_good:
  assumes run: "runner_good U run" and U: "verified_program U" "e \<in> U" and m: "machine_ok U d e m"
    and pc: "frame_pc (m_frame m) < length (exec_code e)"
    and regs: "readable m callable" "\<forall>r \<in> set args. readable m r" "unat dst < register_count (exec_bytecode e)"
    and A: "values_ok A (m_frame m)"
  shows "step_good U d e [Suc (frame_pc (m_frame m))] (insert dst A) (advance (perform_call run e dst callable args m))"
  using store_good [OF invoke_callable_good [OF run U m pc] regs(3) A] regs(1,2)
  by (simp add: perform_call_def)

lemma perform_method_call_good:
  assumes run: "runner_good U run" and U: "verified_program U" "e \<in> U" and m: "machine_ok U d e m"
    and pc: "frame_pc (m_frame m) < length (exec_code e)"
    and regs: "readable m receiver" "\<forall>r \<in> set args. readable m r" "unat dst < register_count (exec_bytecode e)"
    and A: "values_ok A (m_frame m)"
  shows "step_good U d e [Suc (frame_pc (m_frame m))] (insert dst A)
    (advance (perform_method_call run e dst receiver name args m))"
proof -
  let ?prep = "prepared_method m (frame_pc (m_frame m)) (value_of m receiver) name"
  note prep = prepared_method_good [OF m pc, of "value_of m receiver" name]
  obtain m' x where r: "?prep = (m', x)" by fastforce
  have m': "machine_ok U d e m'" "m_frame m' = m_frame m" "quiet x" using prep by (auto simp: out_good_def r)
  show ?thesis
  proof (cases x)
    case (Inl err)
    then show ?thesis using m' regs(1) by (simp add: perform_method_call_def r advance_def step_good_def)
  next
    case (Inr rf)
    obtain q f where rf: "rf = (q, f)" by fastforce
    have f: "f \<in> U" using prep Inr by (auto simp: out_good_def r rf)
    have args: "read_many m' args = Inr (map (value_of m') args)"
      using regs(2) m'(2) by (intro read_many_readable) (simp add: readable_def)
    have "out_good U d e (m_frame m) initialised (invoke run e f (ObjectValue q # map (value_of m') args) m')"
      using invoke_good [OF run U f m'(1)] m'(2) by metis
    from store_good [OF this regs(3) A] show ?thesis
      using regs(1) by (simp add: perform_method_call_def r Inr rf args)
  qed
qed

lemma store_heap_op:
  assumes "machine_ok U d e m" and "values_ok A (m_frame m)" and "unat dst < register_count (exec_bytecode e)"
    and "quiet arg" and "\<And>x. arg = Inr x \<Longrightarrow> op_good U initialised (f (m_heap m) x)"
  shows "step_good U d e [Suc (frame_pc (m_frame m))] (insert dst A) (advance (store_to dst (heap_op m arg f)))"
  using assms by (intro store_good out_good_heap_op)

lemma store_heap_read:
  assumes "machine_ok U d e m" and "values_ok A (m_frame m)" and "unat dst < register_count (exec_bytecode e)"
    and "quiet arg" and "\<And>x. arg = Inr x \<Longrightarrow> quiet (f (m_heap m) x)"
    and "\<And>x v. arg = Inr x \<Longrightarrow> f (m_heap m) x = Inr v \<Longrightarrow> initialised v"
  shows "step_good U d e [Suc (frame_pc (m_frame m))] (insert dst A) (advance (store_to dst (heap_read m arg f)))"
  using assms by (intro store_good out_good_heap_read)

lemma store_pure:
  assumes "machine_ok U d e m" and "values_ok A (m_frame m)" and "unat dst < register_count (exec_bytecode e)"
    and "quiet r" and "\<And>v. r = Inr v \<Longrightarrow> initialised v"
  shows "step_good U d e [Suc (frame_pc (m_frame m))] (insert dst A) (advance (store_to dst (m, r)))"
  using assms by (intro store_good out_good_pure) auto

lemma heap_op_good:
  assumes "machine_ok U d e m" and "values_ok A (m_frame m)"
    and "quiet arg" and "\<And>x. arg = Inr x \<Longrightarrow> op_good U (\<lambda>_. True) (f (m_heap m) x)"
  shows "step_good U d e [Suc (frame_pc (m_frame m))] A (advance (heap_op m arg f))"
  using assms by (intro advance_good out_good_heap_op)

lemma compare_op_initialised: "compare_op L h op a b = Inr v \<Longrightarrow> initialised v"
  by (auto simp: compare_op_def and_then_Inr_iff map_ok_Inr_iff split: if_splits)

lemma length_op_initialised: "length_op h v = Inr w \<Longrightarrow> initialised w"
  by (cases v) (auto simp: length_op_def and_then_Inr_iff map_ok_Inr_iff)

lemma set_attribute_value_good:
  "heap_good U h \<Longrightarrow> initialised v \<Longrightarrow> op_good U (\<lambda>_. True) (set_attribute_value h receiver name v)"
  by (auto simp: set_attribute_value_def internal_sets op_good_set_attribute split: wvalue.split intro!: op_good_pure)

lemma rd_bool_initialised:
  "and_then (rd_bool m a) (\<lambda>x. map_ok (\<lambda>y. Bool (boolean_value op x y)) (rd_bool m b)) = Inr v \<Longrightarrow> initialised v"
  by (auto simp: and_then_Inr_iff map_ok_Inr_iff)

lemma set_attr_good:
  assumes "machine_ok U d e m" and "values_ok A (m_frame m)" and "readable m obj" and "readable m v"
  shows "step_good U d e [Suc (frame_pc (m_frame m))] A (execute_instruction L run e m (SetAttr obj name v))"
proof -
  let ?arg = "and_then (rd m obj) (\<lambda>receiver. case receiver of
      ObjectValue _ \<Rightarrow> map_ok (Pair receiver) (rd m v)
    | _ \<Rightarrow> Inl (Msg ''attribute receiver is not an object''))"
  let ?f = "\<lambda>h (receiver, w). set_attribute_value h receiver name w"
  have "quiet ?arg" using assms(3,4) by (cases "value_of m obj") (simp_all add: internal_sets)
  moreover have "op_good U (\<lambda>_. True) (?f (m_heap m) x)" if "?arg = Inr x" for x
  proof -
    have "snd x = value_of m v" using that assms(3,4) by (cases "value_of m obj") auto
    then show ?thesis using set_attribute_value_good [OF machine_ok_heap [OF assms(1)], of "value_of m v"] assms(4)
      by (cases x) simp
  qed
  ultimately have "step_good U d e [Suc (frame_pc (m_frame m))] A (advance (heap_op m ?arg ?f))"
    by (rule heap_op_good [OF assms(1,2)])
  then show ?thesis by simp
qed

lemma set_slice_good:
  assumes "machine_ok U d e m" and "values_ok A (m_frame m)" and "readable m obj" and "readable m v"
    and "\<forall>p \<in> {start, stop, step}. \<forall>r. p = Some r \<longrightarrow> readable m r"
  shows "step_good U d e [Suc (frame_pc (m_frame m))] A
    (execute_instruction L run e m (SetSlice obj start stop step v))"
proof -
  let ?arg = "and_then (read_slice m obj start stop step) (\<lambda>s. map_ok (Pair s) (rd m v))"
  let ?f = "\<lambda>h ((a, i, j, k), w). set_slice h a i j k w"
  have "quiet ?arg" using quiet_read_slice [OF assms(3,5)] assms(4) by (intro quiet_and_then) simp_all
  moreover have "op_good U (\<lambda>_. True) (?f (m_heap m) x)" for x
    using op_good_set_slice [OF machine_ok_heap [OF assms(1)]] by (cases x) auto
  ultimately have "step_good U d e [Suc (frame_pc (m_frame m))] A (advance (heap_op m ?arg ?f))"
    by (intro heap_op_good [OF assms(1,2)])
  then show ?thesis by simp
qed

lemma get_slice_good:
  assumes "machine_ok U d e m" and "values_ok A (m_frame m)" and "readable m obj"
    and "unat dst < register_count (exec_bytecode e)"
    and "\<forall>p \<in> {start, stop, step}. \<forall>r. p = Some r \<longrightarrow> readable m r"
  shows "step_good U d e [Suc (frame_pc (m_frame m))] (insert dst A)
    (execute_instruction L run e m (GetSlice dst obj start stop step))"
proof -
  let ?f = "\<lambda>h (v, i, j, k). get_slice L h v i j k"
  have "op_good U initialised (?f (m_heap m) x)" for x
    using op_good_get_slice [OF machine_ok_heap [OF assms(1)]] by (cases x) auto
  then have "step_good U d e [Suc (frame_pc (m_frame m))] (insert dst A)
      (advance (store_to dst (heap_op m (read_slice m obj start stop step) ?f)))"
    using quiet_read_slice [OF assms(3,5)] by (intro store_heap_op [OF assms(1,2,4)])
  then show ?thesis by simp
qed

text \<open>An instruction of an accepted body, reached along some path that assigned \<open>A\<close>.\<close>

lemma instruction_good:
  assumes run: "runner_good U run" and U: "verified_program U" "e \<in> U" and m: "machine_ok U d e m"
    and A: "values_ok A (m_frame m)" and pc: "frame_pc (m_frame m) < length (exec_code e)"
    and wf: "instr_wf e (frame_pc (m_frame m)) i" and reads: "instr_reads i \<subseteq> A"
  shows "step_good U d e (successors i (frame_pc (m_frame m))) (A \<union> instr_writes i) (execute_instruction L run e m i)"
proof -
  have reg: "unat r < register_count (exec_bytecode e)" if "r \<in> instr_reads i \<union> instr_writes i" for r
    using wf that by (simp add: instr_wf_def)
  have readable: "readable m r" if "r \<in> instr_reads i" for r
    using reg [of r] that reads A m by (auto simp: readable_def machine_ok_def values_ok_def)
  note heap = machine_ok_heap [OF m]
  note program = conjunct1 [OF verified_member [OF U]]
  note sets = instr_reads_def instr_writes_def optional_read_def image_image
  note regs = instr_reads_def instr_writes_def
  show ?thesis
  proof (cases i)
    case (Call dst callable args)
    then show ?thesis
      using perform_call_good [OF run U, of d "report_guest_call m" callable args dst A] m A pc readable reg
      by (auto simp: sets readable_def)
  next
    case (CallMethod dst receiver name args)
    then show ?thesis
      using perform_method_call_good [OF run U, of d "report_guest_call m" receiver args dst A name] m A pc readable reg
      by (auto simp: sets readable_def)
  next
    case (LoadConstant dst c)
    then show ?thesis using store_good [OF load_constant_good [OF program U(2) m] _ A] wf reg
      by (cases c) (auto simp: sets instr_wf_def)
  next
    case (LoadCurrentFunction dst)
    then show ?thesis using store_good [OF load_current_function_good [OF U(2) m] _ A] reg by (auto simp: sets)
  next
    case (GetAttr dst obj name)
    then show ?thesis using store_good [OF prepared_attribute_good [OF m pc] _ A] readable reg by (auto simp: sets)
  next
    case (Branch c yes no)
    then show ?thesis using m A readable
      by (cases "read_bool (m_frame m) c")
         (auto simp: sets step_good_def move_pc_def machine_ok_def values_ok_def dest: quietD [OF quiet_read_bool])
  next
    case (SetAttr obj name v)
    then show ?thesis using set_attr_good [OF m A] readable by (simp add: regs)
  next
    case (SetSlice obj start stop step v)
    then show ?thesis using set_slice_good [OF m A] readable by (simp add: sets del: execute_instruction.simps)
  next
    case (GetSlice dst obj start stop step)
    then show ?thesis using get_slice_good [OF m A] readable reg [of dst]
      by (simp add: sets del: execute_instruction.simps)
  next
    case (BuildDict dst entries)
    have "readable m k \<and> readable m v" if "(k, v) \<in> set entries" for k v
      using that by (intro conjI readable; force simp: BuildDict instr_reads_def)
    then have entries: "\<forall>(k, v) \<in> set entries. readable m k \<and> readable m v" by blast
    then have "op_good U initialised
        (build_dict L (m_heap m) (map (\<lambda>(k, v). (value_of m k, value_of m v)) entries))"
      using heap by (intro op_good_intros) auto
    then show ?thesis using entries reg [of dst] by (auto simp: BuildDict instr_writes_def intro!: store_heap_op [OF m A])
  next
    case (Jump target)
    then show ?thesis using m A by (simp add: sets step_good_def move_pc_def machine_ok_def values_ok_def)
  next
    case (Return src)
    then show ?thesis using m readable by (simp add: sets step_good_def)
  next
    case (ConstSmallInt dst v)
    then show ?thesis using write_good [OF m refl _ A] reg by (simp add: sets)
  next
    case (ConstFloat dst v)
    then show ?thesis using write_good [OF m refl _ A] reg by (simp add: sets)
  next
    case (ConstBool dst v)
    then show ?thesis using write_good [OF m refl _ A] reg by (simp add: sets)
  next
    case (ConstNone dst)
    then show ?thesis using write_good [OF m refl _ A] reg by (simp add: sets)
  next
    case (ConstI64 dst v)
    then show ?thesis using write_good [OF m refl _ A] reg by (simp add: sets)
  next
    case (LtI64 dst lhs rhs)
    then show ?thesis using readable reg [of dst] by (auto simp: regs map_ok_Inr_iff intro!: store_pure [OF m A])
  next
    case (AddI64 dst lhs rhs)
    then show ?thesis using readable reg [of dst] heap
        store_heap_op [OF m A, of dst "small_operands m lhs rhs" "\<lambda>h (x, y). binary_op L h Add (SmallInt x) (SmallInt y)"]
      by (simp add: regs op_good_binary split_beta)
  next
    case (CompareOp dst op lhs rhs site)
    then show ?thesis using readable [of lhs] readable [of rhs] reg [of dst]
      by (auto simp: regs intro!: store_heap_read [OF m A] dest: compare_op_initialised)
  next
    case (Length dst obj)
    then show ?thesis using readable [of obj] reg [of dst]
      by (auto simp: regs intro!: store_heap_read [OF m A] dest: length_op_initialised)
  next
    case (BooleanOp dst op lhs rhs)
    then show ?thesis using readable reg [of dst] rd_bool_initialised
      by (auto simp: regs intro!: store_pure [OF m A] quiet_and_then)
  next
    case (Move dst src)
    then show ?thesis using readable reg [of dst] by (auto simp: regs intro!: store_pure [OF m A])
  next
    case (BuildTuple dst items)
    then show ?thesis using readable reg [of dst] heap
      by (auto simp: instr_reads_def instr_writes_def image_image intro!: store_heap_op [OF m A] op_good_build)
  next
    case (BuildList dst items)
    then show ?thesis using readable reg [of dst] heap
      by (auto simp: instr_reads_def instr_writes_def image_image intro!: store_heap_op [OF m A] op_good_build)
  next
    case (UnaryOp dst op src)
    then show ?thesis using readable [of src] reg [of dst] heap
      by (auto simp: regs intro!: store_heap_op [OF m A] op_good_unary)
  next
    case (BinaryOp dst op lhs rhs site)
    then show ?thesis using readable [of lhs] readable [of rhs] reg [of dst] heap
      by (auto simp: regs intro!: store_heap_op [OF m A] op_good_binary)
  next
    case (GetItem dst obj key)
    then show ?thesis using readable [of obj] readable [of key] reg [of dst] heap
      by (auto simp: regs intro!: store_heap_op [OF m A] op_good_get_item)
  next
    case (SetItem obj key v)
    then show ?thesis using readable [of obj] readable [of key] readable [of v] heap
      by (auto simp: regs intro!: heap_op_good [OF m A] op_good_set_item)
  next
    case (ListAppend obj v)
    then show ?thesis using readable [of obj] readable [of v] heap
      by (auto simp: regs intro!: heap_op_good [OF m A] op_good_append)
  next
    case (ListInsert obj index v)
    then show ?thesis using readable [of obj] readable [of index] readable [of v] heap
      by (auto simp: regs intro!: heap_op_good [OF m A] op_good_insert)
  next
    case (ListPop dst obj index)
    then show ?thesis using readable [of obj] readable [of index] reg [of dst] heap
      by (auto simp: regs intro!: store_heap_op [OF m A] op_good_pop)
  qed
qed

end
