(* ===== verification/Evaluation.thy ===== *)
theory Evaluation
  imports Vm_Interpreter
begin

text \<open>
  Evaluation of the verifier and of the machine on concrete programs by the simplifier: the
  unfolding equations, congruences that keep it from working under a binder before the value
  before it is known, and two sample programs. \<open>mutual_body\<close> calls its constant \<open>relay_body\<close> with
  itself, \<open>relay_body\<close> calls it back, and then it calls itself.
\<close>

lemma then_with_weak: "r = r' \<Longrightarrow> then_with r f = then_with r' f"
  by simp

lemma and_then_weak: "r = r' \<Longrightarrow> and_then r f = and_then r' f"
  by simp

lemma run_numeral:
  "execute_with_runtime (numeral k) L e m =
     then_with (execute_step L (execute_with_runtime (pred_numeral k) L) e m) (\<lambda>m r.
       case r of Some v \<Rightarrow> (m, Inr v) | None \<Rightarrow> execute_with_runtime (pred_numeral k) L e m)"
  by (simp add: numeral_eq_Suc)

lemma get_at_eval:
  "get_at [] n = None" "get_at (x # xs) 0 = Some x" "get_at (x # xs) (Suc n) = get_at xs n"
  "get_at (x # xs) (numeral k) = get_at xs (pred_numeral k)"
  by (simp_all add: get_at_def numeral_eq_Suc)

lemma replicate_num: "replicate (numeral k) x = x # replicate (pred_numeral k) x"
  by (simp add: numeral_eq_Suc)

lemmas eval_verify = verify_def verify_parameters_def verify_instruction_def verify_extra_def
  verify_register_def verify_target_def ensure_def verify_structure_map_def verify_analysis_def verify_cfg_def
  empty_structure_map_def loop_regions_def MAX_REGISTER_COUNT_def verify_definite_assignment_def
  assign_states_def parameter_registers_def assign_round_def propagate_def instr_writes_def
  check_reads_def verify_reads_def verify_read_def replicate_num get_at_eval Let_def

lemmas eval_vm = execute_with_args_def execute_function_def at_depth_def execute_function_at_depth_def
  verify_once_def take_frame_def new_frame_def initialize_registers_def clear_registers_def
  validate_argument_def run_checked_out_def return_frame_def runtime_new_def runtime_with_def
  execute_step_def try_quick_def quick_code_get_def read_bool_def read_register_def write_register_def
  write_dst_def store_to_def advance_def move_pc_def load_constant_def load_current_function_def
  heap_op_def allocate_object_def heap_allocate_def validate_host_object_def allocate_validated_def
  heap_new_def u32_of_len_def perform_call_def read_many_def invoke_callable_def cached_target_def
  empty_call_site_def find_target_def flatten_def heap_kind_def heap_get_def live_slot_def slot_at_def
  validate_heap_def validate_generation_def
  prepared_callable_def call_site_at_def function_at_def prepared_leaf_def interpreter_leaf_eligible_def
  remember_target_def report_guard_miss_def set_call_site_def with_report_def with_heap_def invoke_def
  execute_prepared_function_def report_prepared_hit_def report_guest_call_def vm_interpreter_def
  MAX_GUEST_CALL_DEPTH_def reference_kind_def ensure_def run_numeral replicate_num get_at_eval
  record_function_call_def record_interpreter_guest_call_def Let_def

section \<open>Sample programs\<close>

definition relay_body :: executable where
  "relay_body =
     Executable (ExecutableId 21) None
       \<lparr>code = [ConstBool 1 False, Call 2 0 [1], Return 2], register_count = 3\<rparr>
       empty_structure_map [\<lparr>param_name = ''f'', param_register = 0, param_ty = SlotAny\<rparr>] []"

definition mutual_body :: executable where
  "mutual_body =
     Executable (ExecutableId 20) None
       \<lparr>code = [Branch 0 1 6, LoadConstant 1 (ConstantId 0), LoadCurrentFunction 2, Call 3 1 [2],
                ConstBool 4 False, Call 3 2 [4], Return 0], register_count = 5\<rparr>
       empty_structure_map [\<lparr>param_name = ''again'', param_register = 0, param_ty = SlotBool\<rparr>]
       [ConstantFunction relay_body]"

lemma relay_verified [simp]: "verify relay_body = Inr ()"
  by (simp add: eval_verify relay_body_def cong: and_then_weak)

lemma mutual_verified [simp]: "verify mutual_body = Inr ()"
  by (simp add: eval_verify mutual_body_def cong: and_then_weak)

lemma sample_bodies [simp]:
  "exec_id mutual_body = ExecutableId 20" "exec_name mutual_body = None"
  "exec_code mutual_body = [Branch 0 1 6, LoadConstant 1 (ConstantId 0), LoadCurrentFunction 2,
     Call 3 1 [2], ConstBool 4 False, Call 3 2 [4], Return 0]"
  "register_count (exec_bytecode mutual_body) = 5"
  "quick_code_interpreter (exec_bytecode mutual_body) = replicate 7 None"
  "exec_parameters mutual_body = [\<lparr>param_name = ''again'', param_register = 0, param_ty = SlotBool\<rparr>]"
  "exec_constants mutual_body = [ConstantFunction relay_body]"
  "exec_id relay_body = ExecutableId 21" "exec_name relay_body = None"
  "exec_code relay_body = [ConstBool 1 False, Call 2 0 [1], Return 2]"
  "register_count (exec_bytecode relay_body) = 3"
  "quick_code_interpreter (exec_bytecode relay_body) = replicate 3 None"
  "exec_parameters relay_body = [\<lparr>param_name = ''f'', param_register = 0, param_ty = SlotAny\<rparr>]"
  "exec_constants relay_body = []"
  by (simp_all add: mutual_body_def relay_body_def quick_code_interpreter_def eval_nat_numeral)

lemma mutual_run:
  "snd (execute_with_args 20 L mutual_body [Bool True] (vm_interpreter 1))
    = Inl (Msg ''active function runtime is already cached'')"
  "snd (execute_with_args 20 L mutual_body [Bool False] (vm_interpreter 1)) = Inr (Bool False)"
  by (simp_all add: eval_vm del: execute_with_runtime.simps cong: then_with_weak and_then_weak)

end
