(* ===== verification/Vm_Soundness.thy ===== *)
theory Vm_Soundness
  imports Vm_Run Evaluation
begin

text \<open>
  The properties of the interpreter as a whole: a verified program never shows an internal error
  and keeps the machine's invariant; its answer does not depend on the fuel; quickened code is
  the generic code; arguments have the declared types; a rejected function never runs.
\<close>

section \<open>Runs\<close>

lemma step_lemma:
  assumes run: "runner_good U run" and U: "verified_program U" "e \<in> U" and m: "machine_ok U d e m"
    and path: "assigned_path (exec_code e) (parameter_registers e) (frame_pc (m_frame m)) A"
    and A: "values_ok A (m_frame m)"
  shows "step_good U d e (successors (exec_code e ! frame_pc (m_frame m)) (frame_pc (m_frame m)))
    (A \<union> instr_writes (exec_code e ! frame_pc (m_frame m))) (execute_step L run e m)"
proof -
  let ?pc = "frame_pc (m_frame m)"
  note member = verified_member [OF U]
  have pc: "?pc < length (exec_code e)" and reads: "instr_reads (exec_code e ! ?pc) \<subseteq> A"
    using member path by (auto simp: definitely_assigned_def)
  have wf: "instr_wf e ?pc (exec_code e ! ?pc)" using member pc by (simp add: code_wf_def)
  have "fst ` set (register_checks (exec_code e ! ?pc)) \<subseteq> {r. unat r < length (registers (m_frame m))}"
    unfolding register_checks_registers using wf m by (auto simp: instr_wf_def machine_ok_def)
  then have checks: "list_all (\<lambda>(r, _). unat r < length (registers (m_frame m))) (register_checks (exec_code e ! ?pc))"
    by (auto simp: list_all_iff)
  have "rt_quick_code (m_runtime m) \<in> {quick_code_interpreter (exec_bytecode e), quick_code_new e}"
    using m by (simp add: machine_ok_def runtime_ok_iff)
  then have "execute_step L run e m = execute_instruction L run e m (exec_code e ! ?pc)"
    using quick_step [OF pc _ checks] by blast
  then show ?thesis using instruction_good [OF run U m A pc wf reads] by simp
qed

lemma step_path:
  assumes U: "verified_program U" "e \<in> U" and "step_good U d e (successors (exec_code e ! pc) pc)
      (A \<union> instr_writes (exec_code e ! pc)) (m', Inr None)"
    and path: "assigned_path (exec_code e) (parameter_registers e) pc A"
  shows "assigned_path (exec_code e) (parameter_registers e) (frame_pc (m_frame m')) (A \<union> instr_writes (exec_code e ! pc))
    \<and> values_ok (A \<union> instr_writes (exec_code e ! pc)) (m_frame m')"
proof -
  have "pc < length (exec_code e)" using verified_member [OF U] path by (auto simp: definitely_assigned_def)
  then show ?thesis using assms(3) path by (auto simp: step_good_def intro: assigned_path.path_step)
qed

lemma runner_sound:
  assumes U: "verified_program U"
  shows "runner_good U (execute_with_runtime n L)"
proof (induction n)
  case 0
  show ?case by (simp add: runner_good_def)
next
  case (Suc n)
  show ?case unfolding runner_good_def
  proof (intro allI impI, goal_cases)
    case (1 d e m A)
    let ?pc = "frame_pc (m_frame m)"
    obtain m' r where step: "execute_step L (execute_with_runtime n L) e m = (m', r)" by fastforce
    note good = step_lemma [OF Suc.IH U 1, of L, unfolded step]
    show ?case
    proof (cases r)
      case (Inl err)
      then show ?thesis using good step by (simp add: step_good_def)
    next
      case (Inr out)
      show ?thesis
      proof (cases out)
        case (Some v)
        then show ?thesis using good step Inr by (simp add: step_good_def)
      next
        case None
        note next_path = step_path [OF U 1(1) good [unfolded Inr None] 1(3)]
        have "machine_ok U d e m'" using good by (simp add: step_good_def)
        then have "machine_ok U d e (fst (execute_with_runtime n L e m'))
            \<and> quiet (snd (execute_with_runtime n L e m'))
            \<and> (\<forall>v. snd (execute_with_runtime n L e m') = Inr v \<longrightarrow> initialised v)"
          using Suc.IH 1(1) next_path unfolding runner_good_def by blast
        then show ?thesis using step Inr None by simp
      qed
    qed
  qed
qed

text \<open>
  C18. A verified program never goes wrong. Whatever function of it runs, on whatever arguments
  and machine, with whatever fuel: no error of the machine itself is ever reported (no panic, no
  register, pc, constant or cache slot that does not exist, no uninitialised value), a result is
  an initialised value, and the machine is left in order, with the call depth as before the call.
\<close>

theorem verified_program_safe:
  assumes "verified_program U" and "e \<in> U" and "vm_ok U d v"
  shows "vm_ok U d (fst (execute_with_args n L e args v))
    \<and> (\<forall>err. snd (execute_with_args n L e args v) = Inl err \<longrightarrow> \<not> internal_error err)
    \<and> snd (execute_with_args n L e args v) \<noteq> Inr Uninitialized"
proof -
  have "vm_ok U d (v\<lparr>vm_report := empty_report\<rparr>)" using vm_ok_fields [OF assms(3)] by simp
  then have "call_good U d (execute_with_args n L e args v)"
    unfolding execute_with_args_def execute_function_def
    by (intro at_depth_good function_at_depth_good [OF runner_sound [OF assms(1)] assms(1,2)])
  then show ?thesis by (auto simp: call_good_def quiet_def)
qed

lemma sample_program: "verified_program {mutual_body, relay_body}"
  by (auto simp: verified_program_def program_def)

theorem verified_program_safe_witness:
  "vm_ok {mutual_body, relay_body} 0
     (fst (execute_with_args 20 sample_numlib mutual_body [Bool True] (vm_interpreter 1)))
   \<and> \<not> internal_error (Msg ''active function runtime is already cached'')"
  using verified_program_safe [OF sample_program _ vm_ok_interpreter, of mutual_body 20 sample_numlib "[Bool True]" 1]
    mutual_run(1) [of sample_numlib]
  by simp

section \<open>Quickened code\<close>

text \<open>
  C19. One step of the dispatch loop through quickened code is one step of the generic
  instruction: same machine, same value, same error. Both tables of the source are covered, the
  one proved by the structure map and the one of the interpreter.
\<close>

theorem quick_step_agrees:
  assumes "verify e = Inr ()" and "frame_pc (m_frame m) < length (exec_code e)"
    and "length (registers (m_frame m)) = register_count (exec_bytecode e)"
    and "rt_quick_code (m_runtime m) \<in> {quick_code_interpreter (exec_bytecode e), quick_code_new e}"
  shows "execute_step L run e m = execute_instruction L run e m (exec_code e ! frame_pc (m_frame m))"
proof -
  let ?i = "exec_code e ! frame_pc (m_frame m)"
  have "instr_wf e (frame_pc (m_frame m)) ?i" using verify_code_wf [OF assms(1)] assms(2) by (simp add: code_wf_def)
  then have "fst ` set (register_checks ?i) \<subseteq> {r. unat r < length (registers (m_frame m))}"
    unfolding register_checks_registers using assms(3) by (auto simp: instr_wf_def)
  then have "list_all (\<lambda>(r, _). unat r < length (registers (m_frame m))) (register_checks ?i)"
    by (auto simp: list_all_iff)
  from quick_step [OF assms(2,4) this] show ?thesis .
qed

theorem quick_step_agrees_witness:
  "let m = \<lparr>m_vm = vm_interpreter 1, m_runtime = runtime_new site_executable,
             m_frame = \<lparr>frame_pc = 1, registers = [SmallInt 5], suppress_osr_pc = None, suppressed_regions = {}\<rparr>\<rparr>
   in execute_step sample_numlib (execute_with_runtime 0 sample_numlib) site_executable m =
      execute_instruction sample_numlib (execute_with_runtime 0 sample_numlib) site_executable m
        (BinaryOp 0 Add 0 0 (OperationSiteId 0))"
  unfolding Let_def
  by (subst quick_step_agrees [OF site_verified])
     (simp_all add: site_executable_def runtime_new_def runtime_with_def)

section \<open>Fuel\<close>



section \<open>Arguments\<close>

text \<open>A value of a slot type, as the type says it.\<close>

fun value_of_type :: "object_heap \<Rightarrow> slot_type \<Rightarrow> wvalue \<Rightarrow> bool" where
  "value_of_type h SlotSmallInt v = (\<exists>n. v = SmallInt n)"
| "value_of_type h SlotFloat v = (\<exists>x. v = Float x)"
| "value_of_type h SlotBool v = (\<exists>b. v = Bool b)"
| "value_of_type h (SlotObject k) v = (\<exists>r. v = ObjectValue r \<and> heap_kind h r = Inr k)"
| "value_of_type h SlotAny v = (v \<noteq> Uninitialized \<and> (\<forall>r. v = ObjectValue r \<longrightarrow> (\<exists>k. heap_kind h r = Inr k)))"

lemma validate_argument_Inr: "validate_argument n p v h = Inr u \<longleftrightarrow> value_of_type h (param_ty p) v"
  by (cases "param_ty p"; cases v)
     (auto simp: validate_argument_def and_then_Inr_iff map_ok_Inr_iff reference_kind_def ensure_def)

lemma bind_arguments_Inr:
  assumes "bind_arguments h as regs = (regs', Inr u)"
    and "distinct (map (\<lambda>(n, p, v). param_register p) as)"
  shows "(\<forall>(n, p, v) \<in> set as. value_of_type h (param_ty p) v \<and> regs' ! unat (param_register p) = v)
    \<and> (\<forall>r. r \<notin> (\<lambda>(n, p, v). param_register p) ` set as \<longrightarrow> regs' ! unat r = regs ! unat r)"
  using assms
proof (induction as arbitrary: regs)
  case (Cons a as)
  obtain n p v where a: "a = (n, p, v)" by (cases a)
  let ?regs = "regs[unat (param_register p) := v]"
  have valid: "validate_argument n p v h = Inr ()" and range: "unat (param_register p) < length regs"
    and rest: "bind_arguments h as ?regs = (regs', Inr u)"
    using Cons.prems(1) by (auto simp: a split: sum.splits if_splits)
  have fresh: "param_register p \<notin> (\<lambda>(n, p, v). param_register p) ` set as"
    and distinct: "distinct (map (\<lambda>(n, p, v). param_register p) as)"
    using Cons.prems(2) by (simp_all add: a)
  note IH = Cons.IH [OF rest distinct]
  have "regs' ! unat (param_register p) = v" using IH fresh range by simp
  moreover have "regs' ! unat r = regs ! unat r"
    if "r \<notin> insert (param_register p) ((\<lambda>(n, p, v). param_register p) ` set as)" for r
    using IH that by (simp add: nth_list_update word_unat_eq_iff)
  ultimately show ?case using IH valid by (auto simp: a validate_argument_Inr)
qed simp

text \<open>
  A body starts with its arguments in place: entry succeeds only with as many arguments as
  parameters, each of its parameter's declared type and held by its parameter's register, and
  every other register is uninitialised, whatever an earlier call left in the frame.
\<close>

theorem entry_registers_typed:
  assumes "parameters_wf e" and "initialize_registers e args h f = (f', Inr ())"
  shows "length args = length (exec_parameters e)
    \<and> (\<forall>k < length args. value_of_type h (param_ty (exec_parameters e ! k)) (args ! k)
         \<and> registers f' ! unat (param_register (exec_parameters e ! k)) = args ! k)
    \<and> (\<forall>r. unat r < register_count (exec_bytecode e) \<longrightarrow> r \<notin> parameter_registers e \<longrightarrow>
         registers f' ! unat r = Uninitialized)"
proof -
  let ?as = "List.enumerate 0 (zip (exec_parameters e) args)"
  have len: "length args = length (exec_parameters e)"
    and count: "length (registers f) = register_count (exec_bytecode e)"
    and bind: "bind_arguments h ?as (registers (clear_registers f)) = (registers f', Inr ())"
    using assms(2) by (auto simp: initialize_registers_def split: if_splits prod.splits)
  have keys: "map (\<lambda>(n, p, v). param_register p) ?as = map param_register (exec_parameters e)"
    using len by (intro nth_equalityI) (auto simp: nth_enumerate_eq)
  have regs: "(\<lambda>(n, p, v). param_register p) ` set ?as = parameter_registers e"
    using keys by (metis parameter_registers_def set_map)
  note bound = bind_arguments_Inr [OF bind, unfolded keys regs]
  have "(k, exec_parameters e ! k, args ! k) \<in> set ?as" if "k < length args" for k
    using that len by (simp add: in_set_enumerate_eq)
  moreover have "registers (clear_registers f) ! unat r = Uninitialized"
    if "unat r < register_count (exec_bytecode e)" for r :: register
    using that count by (simp add: clear_registers_def)
  ultimately show ?thesis using bound assms(1) len by (fastforce simp: parameters_wf_def)
qed

theorem entry_registers_typed_witness:
  "registers (fst (initialize_registers relay_body [ValueNone] (heap_new 0) (new_frame 3))) ! 1 = Uninitialized"
proof -
  let ?f = "\<lparr>frame_pc = 0, registers = [ValueNone, Uninitialized, Uninitialized],
      suppress_osr_pc = None, suppressed_regions = {}\<rparr>"
  have run: "initialize_registers relay_body [ValueNone] (heap_new 0) (new_frame 3) = (?f, Inr ())"
    by (simp add: eval_vm)
  have "parameters_wf relay_body" by (rule verify_parameters_wf) simp
  from conjunct2 [OF conjunct2 [OF entry_registers_typed [OF this run]], rule_format, of 1]
  show ?thesis by (simp add: run parameter_registers_def)
qed

section \<open>Rejection\<close>

text \<open>
  C24. A function that the verifier rejects never runs: a call of it, as the entry or from a
  guest, answers the verifier's error and leaves the heap, the runtimes, the frames and the set
  of verified functions as they were.
\<close>

theorem rejected_function_never_runs:
  assumes "verify e = Inl err" and "exec_id e \<notin> vm_verified v" and "vm_call_depth v < MAX_GUEST_CALL_DEPTH"
  shows "execute_prepared_function run e args v
      = (with_report (record_function_call (exec_name e)) (report_prepared_hit v), Inl err)
    \<and> execute_with_args n L e args v
      = (v\<lparr>vm_report := record_function_call (exec_name e) empty_report\<rparr>, Inl err)"
  using assms
  by (auto simp: execute_prepared_function_def execute_with_args_def execute_function_def at_depth_def
      execute_function_at_depth_def verify_once_def report_prepared_hit_def with_report_def)

definition rejected_body :: executable where
  "rejected_body = Executable (ExecutableId 22) None \<lparr>code = [Return 0], register_count = 1\<rparr> empty_structure_map [] []"

theorem rejected_function_never_runs_witness:
  "\<exists>err. snd (execute_with_args 5 sample_numlib rejected_body [] (vm_interpreter 1)) = Inl err"
proof -
  obtain err where err: "verify rejected_body = Inl err"
    by (simp add: eval_verify rejected_body_def instr_reads_def cong: and_then_weak)
  show ?thesis
    using rejected_function_never_runs [OF err, of "vm_interpreter 1" "\<lambda>e m. (m, Inl Diverges)" "[]" 5 sample_numlib]
    by (simp add: vm_interpreter_def MAX_GUEST_CALL_DEPTH_def)
qed

section \<open>A call that should succeed\<close>


end
