(* ===== verification/Vm_Leaf.thy ===== *)
theory Vm_Leaf
  imports Vm_Soundness
begin

text \<open>
  Prepared leaves: functions of scalar parameters whose instructions neither jump nor call. They
  are run on a frame of their own without a check for loops; the theorem is that they need none.
\<close>

definition ends :: "vm_error + 'a \<Rightarrow> bool" where
  "ends m \<longleftrightarrow> m \<noteq> Inl Diverges"

named_theorems ends_intros \<open>computations that answer\<close>

lemma ends_simps [simp]:
  "ends (Inr x)" "ends (Inl e) \<longleftrightarrow> e \<noteq> Diverges" "ends (map_ok f m) = ends m"
  "ends (ensure b e) \<longleftrightarrow> b \<or> e \<noteq> Diverges" "ends (ok_or p e) \<longleftrightarrow> p \<noteq> None \<or> e \<noteq> Diverges"
  by (cases b; cases p; simp add: ends_def ensure_def)+

lemma ends_map_err [simp]: "ends (map_err HeapError m)"
  by (cases m) (simp_all add: ends_def)

lemma ends_and_then [ends_intros]:
  "ends m \<Longrightarrow> (\<And>x. m = Inr x \<Longrightarrow> ends (f x)) \<Longrightarrow> ends (and_then m f)"
  by (cases m) (simp_all add: ends_def)

lemma ends_then_with [ends_intros]:
  "ends (snd r) \<Longrightarrow> (\<And>s x. r = (s, Inr x) \<Longrightarrow> ends (snd (f s x))) \<Longrightarrow> ends (snd (then_with r f))"
  by (cases r; cases "snd r") (auto simp: ends_def)

lemma ends_apsnd [simp]: "ends (snd (apsnd (map_ok f) r)) = ends (snd r)"
  by (cases r) simp

lemma ends_Inl: "ends m \<Longrightarrow> m = Inl e \<Longrightarrow> e \<noteq> Diverges"
  by (simp add: ends_def)

section \<open>Operators\<close>

lemma ends_numbers [simp]: "ends (number_to_big a)" "ends (number_to_f64 L a)"
  by (cases a; simp)+

lemma ends_optional [simp]: "ends (number_optional h v)"
  by (auto simp: number_optional_def split: wvalue.split sum.split object.split)

lemma ends_operand [simp]: "ends (number_operand h v)"
  by (auto simp: number_operand_def intro!: ends_intros)

lemma ends_ratio [simp]: "ends (integer_ratio_to_f64 L m n)"
  by (auto simp: integer_ratio_to_f64_def magnitude_ratio_def Let_def intro!: ends_intros)

lemma ends_allocate [simp]: "ends (snd (allocate_object L h x))" "ends (snd (allocate_big L h n))"
  by (cases "heap_allocate L h x"; cases "heap_allocate L h (BigIntObject n)";
      simp add: allocate_object_def allocate_big_def)+

lemma ends_compare_numbers [simp]: "ends (compare_numbers L a b)"
  by (cases a; cases b)
     (auto simp: compare_integer_float_def split: ordering.splits if_splits intro!: ends_intros)

lemma ends_values_equal [simp]: "ends (values_equal L h a b)"
proof -
  have "card (live_refs h \<times> live_refs h - {}) \<le> equality_fuel h"
    using mult_le_mono [OF card_live_refs card_live_refs]
    by (simp add: card_cartesian_product equality_fuel_def)
  then show ?thesis unfolding values_equal_def ends_def by (rule values_equal_with_terminates)
qed

lemma ends_compare_op [simp]: "ends (compare_op L h op a b)"
  by (auto simp: compare_op_def compare_strings_def split: option.splits wvalue.splits object.splits
      intro!: ends_intros)

lemma ends_big [simp]: "ends (snd (big_operation L h f a b))"
proof -
  have "ends (and_then (number_to_big a) (\<lambda>m. and_then (number_to_big b) (\<lambda>n. Inr (f m n))))"
    by (intro ends_intros) simp_all
  then show ?thesis by (auto simp: big_operation_def split: sum.split dest: ends_Inl)
qed

lemma ends_floor_big [simp]: "ends (snd (floor_divide_big L h m n))"
  by (simp add: floor_divide_big_def Let_def split: option.split)

lemma ends_floor [simp]: "ends (snd (floor_divide_numbers L h a b))"
proof -
  have "ends (and_then (number_to_big a) (\<lambda>m. and_then (number_to_big b) (\<lambda>n. Inr (m, n))))"
    by (intro ends_intros) simp_all
  then show ?thesis
    by (auto simp: floor_divide_numbers_def split: sum.split option.split dest: ends_Inl intro!: ends_intros)
qed

lemma ends_number_operation [simp]: "ends (snd (number_operation L h op a b))"
  by (cases op; cases a; cases b)
     (auto simp: smallint_add_def divide_numbers_def power_numbers_def split: option.split intro!: ends_intros)

lemma ends_sequence_add [simp]: "ends (snd (sequence_add L h a b))"
  by (auto simp: sequence_add_def split: wvalue.split sum.split object.split)

lemma ends_repeat [simp]: "ends (repeat_in_order h a b)"
  by (auto simp: repeat_in_order_def repeat_count_def repeated_object_def intro!: ends_intros
      split: wvalue.splits sum.splits object.splits option.splits)

lemma ends_sequence_repeat [simp]: "ends (snd (sequence_repeat L h a b))"
proof -
  have "ends (and_then (repeat_in_order h a b) (\<lambda>r.
      case r of Some obj \<Rightarrow> Inr (Some obj) | None \<Rightarrow> repeat_in_order h b a))"
    by (intro ends_intros) (simp_all split: option.split)
  then show ?thesis by (auto simp: sequence_repeat_def split: sum.split option.split dest: ends_Inl)
qed

lemma ends_binary_op [simp]: "ends (snd (binary_op L h op a b))"
  by (auto simp: binary_op_def simp del: number_operation.simps intro!: ends_intros split: option.split)

lemma ends_unary_op [simp]: "ends (snd (unary_op L h op v))"
  by (cases op; cases v) (auto split: option.split sum.split object.split)

section \<open>Steps of a leaf\<close>

text \<open>An outcome that ends, and moves to the next instruction when the body goes on.\<close>

definition leaf_step :: "nat \<Rightarrow> machine \<times> (vm_error + wvalue option) \<Rightarrow> bool" where
  "leaf_step pc r \<longleftrightarrow> ends (snd r) \<and> (snd r = Inr None \<longrightarrow> frame_pc (m_frame (fst r)) = Suc pc)"

lemma ends_rd [simp]: "ends (rd m r)" "ends (rd2 m a b)" "ends (rd_bool m r)" "ends (small_operands m a b)"
proof -
  show rd: "ends (rd m r)" for r by (simp add: read_register_def)
  show "ends (rd2 m a b)" using rd by (auto simp: rd2_def intro!: ends_intros)
  show "ends (rd_bool m r)" using rd by (auto simp: rd_bool_def intro!: ends_intros split: wvalue.split)
  show "ends (small_operands m a b)"
    using rd by (auto simp: small_operands_def read_small_int_def intro!: ends_intros split: wvalue.split)
qed

lemma heap_op_ends:
  "ends arg \<Longrightarrow> (\<And>x. arg = Inr x \<Longrightarrow> ends (snd (f (m_heap m) x))) \<Longrightarrow> ends (snd (heap_op m arg f))"
  by (cases arg; cases "f (m_heap m) (projr arg)") (auto simp: heap_op_def)

lemma heap_op_frame: "m_frame (fst (heap_op m arg f)) = m_frame m"
  by (auto simp: heap_op_def with_heap_def split: sum.split prod.split)

lemma heap_read_ends:
  "ends arg \<Longrightarrow> (\<And>x. arg = Inr x \<Longrightarrow> ends (f (m_heap m) x)) \<Longrightarrow> ends (snd (heap_read m arg f))"
  by (simp add: heap_read_def ends_and_then)

lemma heap_read_frame: "m_frame (fst (heap_read m arg f)) = m_frame m"
  by (simp add: heap_read_def)

lemma leaf_store:
  assumes "ends (snd r)" and "frame_pc (m_frame (fst r)) = pc"
  shows "leaf_step pc (advance (store_to dst r))"
  using assms
  by (cases r; cases "snd r")
     (auto simp: leaf_step_def advance_def store_to_def write_dst_def write_register_def move_pc_def)

lemma leaf_write: "frame_pc (m_frame m) = pc \<Longrightarrow> leaf_step pc (advance (write_dst dst m v))"
  using leaf_store [of "(m, Inr v)"] by (simp add: store_to_def)

lemma leaf_instruction_step:
  assumes "leaf_instruction i"
  shows "leaf_step (frame_pc (m_frame m)) (execute_instruction L run e m i)"
proof (cases i)
  case (Return src)
  then show ?thesis by (auto simp: leaf_step_def map_ok_Inr_iff)
qed (use assms in \<open>auto intro!: leaf_store leaf_write heap_op_ends heap_read_ends ends_intros
  simp: heap_op_frame heap_read_frame\<close>)

lemma try_quick_leaf:
  "ends (snd (try_quick L m))
    \<and> (snd (try_quick L m) = Inr Handled \<longrightarrow> frame_pc (m_frame (fst (try_quick L m))) = Suc (frame_pc (m_frame m)))
    \<and> (snd (try_quick L m) = Inr GuardMiss \<longrightarrow> m_frame (fst (try_quick L m)) = m_frame m)"
proof (cases "quick_code_get (rt_quick_code (m_runtime m)) (frame_pc (m_frame m))")
  case None
  then show ?thesis by (simp add: try_quick_def)
next
  case (Some q)
  obtain dst lhs rhs where regs: "quick_registers q = (dst, lhs, rhs)" by (cases "quick_registers q")
  let ?args = "and_then (rd m dst) (\<lambda>_. and_then (rd m lhs) (\<lambda>a. map_ok (Pair a) (rd m rhs)))"
  have args: "ends ?args" by (intro ends_intros) simp_all
  show ?thesis
  proof (cases ?args)
    case (Inl err)
    then show ?thesis using Some regs args by (auto simp: try_quick_def execute_quick_def with_heap_def)
  next
    case (Inr ab)
    obtain a b where ab: "ab = (a, b)" by fastforce
    obtain h r where v: "quick_value L (m_heap m) q a b = (h, r)" by fastforce
    have "ends (snd (quick_value L (m_heap m) q a b))"
      by (auto simp: quick_value_def immediate_binary_def split: sum.split option.split wvalue.split)
    then have "ends r" using v by simp
    then show ?thesis using Some regs Inr ab v
      by (cases r)
         (auto simp: try_quick_def execute_quick_def with_heap_def write_register_def split: option.split)
  qed
qed

lemma leaf_execute_step:
  assumes "list_all leaf_instruction (exec_code e)"
  shows "leaf_step (frame_pc (m_frame m)) (execute_step L run e m)"
proof (cases "frame_pc (m_frame m) < length (exec_code e)")
  case False
  then show ?thesis by (simp add: execute_step_def leaf_step_def)
next
  case True
  obtain m' q where quick: "try_quick L m = (m', q)" by fastforce
  have leaf: "leaf_instruction (exec_code e ! frame_pc (m_frame m))" using assms True by (simp add: list_all_length)
  show ?thesis
  proof (cases q)
    case (Inl err)
    then show ?thesis using True quick try_quick_leaf [of L m] by (auto simp: execute_step_def leaf_step_def)
  next
    case (Inr outcome)
    then show ?thesis
      using True quick try_quick_leaf [of L m] leaf_instruction_step [OF leaf, of m' L run e]
      by (cases outcome) (auto simp: execute_step_def leaf_step_def get_at_def)
  qed
qed

lemma leaf_run_ends:
  assumes "list_all leaf_instruction (exec_code e)"
    and "length (exec_code e) - frame_pc (m_frame m) < n"
  shows "ends (snd (execute_with_runtime n L e m))"
  using assms(2)
proof (induction n arbitrary: m)
  case (Suc n)
  note step = leaf_execute_step [OF assms(1), of m L "execute_with_runtime n L"]
  obtain m' r where r: "execute_step L (execute_with_runtime n L) e m = (m', r)" by fastforce
  show ?case
  proof (cases r)
    case (Inl err)
    then show ?thesis using r step by (simp add: leaf_step_def)
  next
    case (Inr out)
    show ?thesis
    proof (cases out)
      case None
      have "frame_pc (m_frame m) < length (exec_code e)"
        using r Inr None by (rule_tac ccontr) (simp add: execute_step_def)
      then have "length (exec_code e) - frame_pc (m_frame m') < n"
        using Suc.prems r Inr None step by (simp add: leaf_step_def)
      from Suc.IH [OF this] show ?thesis using r Inr None by simp
    qed (use r Inr in simp)
  qed
qed simp

lemma validate_argument_ends: "ends (validate_argument n p v h)"
proof -
  have "ends (reference_kind n p h r)" for r
    by (auto simp: reference_kind_def argument_error_def ends_def map_err_Inl_iff)
  then show ?thesis
    by (auto simp: validate_argument_def argument_error_def intro!: ends_intros split: slot_type.split wvalue.split)
qed

lemma initialize_registers_ends: "ends (snd (initialize_registers e args h f))"
proof -
  have "ends (snd (bind_arguments h as regs))" for as regs
  proof (induction h as regs rule: bind_arguments.induct)
    case (2 h n p v rest regs)
    then show ?case using validate_argument_ends [of n p v h] by (auto split: sum.split simp: ends_def)
  qed simp
  then show ?thesis by (simp add: initialize_registers_def Let_def split: prod.split) (metis snd_conv)
qed

text \<open>
  C22. A prepared leaf always returns: called on any arguments, on any machine, it answers with
  as much fuel as it has instructions and one more.
\<close>

theorem leaf_call_terminates:
  assumes "interpreter_leaf_eligible f" and "length (exec_code f) < n"
    and "frame_pc (leaf_frame leaf) = 0"
  shows "snd (execute_interpreter_leaf (execute_with_runtime n L) f leaf args v) \<noteq> Inl Diverges"
proof -
  have code: "list_all leaf_instruction (exec_code f)"
    using assms(1) by (simp add: interpreter_leaf_eligible_def)
  obtain fr i where init: "initialize_registers f args (vm_heap v) (leaf_frame leaf) = (fr, i)" by fastforce
  have "ends i" using initialize_registers_ends init by (metis snd_conv)
  moreover have "frame_pc fr = 0" using init assms(3)
    by (auto simp: initialize_registers_def Let_def clear_registers_def split: if_splits prod.splits)
  then have "ends (snd (execute_with_runtime n L f \<lparr>m_vm = w, m_runtime = leaf_runtime leaf, m_frame = fr\<rparr>))" for w
    using leaf_run_ends [OF code] assms(2) by simp
  ultimately have "ends (snd (case i of
      Inl err \<Rightarrow> (\<lparr>m_vm = w, m_runtime = leaf_runtime leaf, m_frame = fr\<rparr>, Inl err)
    | Inr _ \<Rightarrow> execute_with_runtime n L f \<lparr>m_vm = w, m_runtime = leaf_runtime leaf, m_frame = fr\<rparr>))" for w
    by (cases i) simp_all
  then show ?thesis using init
    by (cases i) (simp_all add: execute_interpreter_leaf_def ends_def Let_def report_prepared_hit_def split_beta)
qed

theorem leaf_call_terminates_witness:
  "snd (execute_interpreter_leaf (execute_with_runtime 4 sample_numlib) sample_executable
      (leaf_new sample_executable) [] (vm_interpreter 1)) \<noteq> Inl Diverges"
  by (rule leaf_call_terminates)
     (simp_all add: interpreter_leaf_eligible_def sample_executable_def leaf_new_def new_frame_def)

end
