(* ===== verification/Attribute_Cache.thy ===== *)
theory Attribute_Cache
  imports Vm_Safety
begin

text \<open>
  The attribute inline caches. A cached target pairs a shape with the index of the attribute in
  every instance of that shape, so a hit answers what the lookup by name would. The shapes of the
  heap stay faithful under the operations that change instances, as long as the shape counter has
  not reached its maximum.
\<close>

section \<open>Faithful shapes\<close>

text \<open>Different layouts have different shapes, and an instance has the shape of its layout.\<close>

definition shapes_ok :: "object_heap \<Rightarrow> bool" where
  "shapes_ok h \<longleftrightarrow>
     (\<forall>k s. shapes h k = Some s \<longrightarrow> (\<exists>w. s = ShapeId w \<and> w < next_shape h))
     \<and> (\<forall>k l s. shapes h k = Some s \<longrightarrow> shapes h l = Some s \<longrightarrow> k = l)
     \<and> (\<forall>r i. heap_get h r = Inr (InstanceObj i) \<longrightarrow>
          shapes h (inst_class_id i, map fst (inst_fields i)) = Some (inst_shape i))"

lemma shapes_ok_inj: "shapes_ok h \<Longrightarrow> shapes h k = Some s \<Longrightarrow> shapes h l = Some s \<Longrightarrow> k = l"
proof -
  assume "shapes_ok h" and same: "shapes h k = Some s" "shapes h l = Some s"
  then have "\<forall>k l s. shapes h k = Some s \<longrightarrow> shapes h l = Some s \<longrightarrow> k = l"
    unfolding shapes_ok_def by (elim conjE)
  from this [rule_format, OF same] show "k = l" .
qed

definition shapes_extend :: "object_heap \<Rightarrow> object_heap \<Rightarrow> bool" where
  "shapes_extend h h' \<longleftrightarrow> (\<forall>k s. shapes h k = Some s \<longrightarrow> shapes h' k = Some s)"

lemma shapes_ok_new [simp]: "shapes_ok (heap_new i)"
proof -
  have "heap_get (heap_new i) r \<noteq> Inr x" for r x by (simp add: heap_get_Inr_iff heap_new_def)
  then show ?thesis by (simp add: shapes_ok_def heap_new_def)
qed

lemma saturating_inc_less: "w \<noteq> - 1 \<Longrightarrow> (w :: u64) < saturating_inc w"
  using unat_saturating_inc [of w] by (simp add: word_less_nat_alt)

lemma intern_shape_ok:
  assumes "shapes_ok h" and "next_shape h \<noteq> - 1" and "intern_shape h c names = (h', s)"
  shows "shapes_ok h' \<and> shapes_extend h h' \<and> shapes h' (c, names) = Some s"
proof (cases "shapes h (c, names)")
  case (Some t)
  then show ?thesis using assms by (simp add: intern_shape_def shapes_extend_def)
next
  case None
  then have h': "shapes h' = (shapes h)((c, names) \<mapsto> ShapeId (next_shape h))" "s = ShapeId (next_shape h)"
    "next_shape h' = saturating_inc (next_shape h)"
    using assms(3) by (auto simp: intern_shape_def)
  have less: "next_shape h < next_shape h'" using saturating_inc_less [OF assms(2)] h'(3) by simp
  have fresh: "shapes h k \<noteq> Some (ShapeId (next_shape h))" for k
    using assms(1) less_irrefl unfolding shapes_ok_def by (metis shape_id.inject)
  have "heap_get h' r = heap_get h r" for r using intern_shape_heap(1) [OF assms(3)] .
  then have live: "shapes h' (inst_class_id i, map fst (inst_fields i)) = Some (inst_shape i)"
    if "heap_get h' r = Inr (InstanceObj i)" for r i
    using that assms(1) None by (fastforce simp: shapes_ok_def h'(1))
  have bound: "\<exists>w. t = ShapeId w \<and> w < next_shape h'" if "shapes h' k = Some t" for k t
  proof (cases "k = (c, names)")
    case True
    then show ?thesis using that less by (auto simp: h'(1))
  next
    case False
    then have "shapes h k = Some t" using that by (simp add: h'(1))
    then obtain w where "t = ShapeId w" "w < next_shape h" using assms(1) unfolding shapes_ok_def by metis
    then show ?thesis using less order_less_trans by blast
  qed
  have inj: "k = l" if k: "shapes h' k = Some t" and l: "shapes h' l = Some t" for k l t
  proof -
    have old: "j = (c, names) \<and> t = ShapeId (next_shape h) \<or> shapes h j = Some t" if "shapes h' j = Some t" for j
      using that by (auto simp: h'(1) split: if_splits)
    show ?thesis
    proof (cases "shapes h k = Some t \<and> shapes h l = Some t")
      case True
      then show ?thesis using shapes_ok_inj [OF assms(1)] by blast
    next
      case False
      then have t: "t = ShapeId (next_shape h)" using old [OF k] old [OF l] by blast
      have "k = (c, names)" using old [OF k] fresh [of k] t by simp
      moreover have "l = (c, names)" using old [OF l] fresh [of l] t by simp
      ultimately show ?thesis by simp
    qed
  qed
  have "shapes_ok h'" unfolding shapes_ok_def
    by (intro conjI allI impI, rule bound, assumption, rule inj, assumption+, rule live)
  moreover have "shapes_extend h h'" using None by (auto simp: shapes_extend_def h'(1))
  ultimately show ?thesis by (simp add: h'(1,2))
qed

text \<open>A put or an allocation keeps faithful shapes when the object stored has its own.\<close>

definition own_shape :: "object_heap \<Rightarrow> object \<Rightarrow> bool" where
  "own_shape h x \<longleftrightarrow>
     (\<forall>i. x = InstanceObj i \<longrightarrow> shapes h (inst_class_id i, map fst (inst_fields i)) = Some (inst_shape i))"

lemma shapes_ok_put:
  assumes "shapes_ok h" and "heap_get h r = Inr x" and "own_shape h y"
  shows "shapes_ok (heap_put h r y)"
proof -
  have "shapes h (inst_class_id i, map fst (inst_fields i)) = Some (inst_shape i)"
    if "heap_get (heap_put h r y) q = Inr (InstanceObj i)" for q i
    using that assms heap_get_put_same [OF assms(2)] heap_get_put_other [OF assms(2)]
    by (cases "q = r") (auto simp: shapes_ok_def own_shape_def)
  then show ?thesis using assms(1) by (simp add: shapes_ok_def)
qed

lemma allocate_keeps_shapes:
  assumes "allocate_validated h x = (h', res)"
  shows "shapes h' = shapes h \<and> next_shape h' = next_shape h"
  using assms by (auto simp: allocate_validated_def Let_def split: if_splits sum.splits option.splits)

lemma shapes_ok_allocate:
  assumes "shapes_ok h" and "heap_wf h" and "own_shape h x" and "allocate_validated h x = (h', res)"
  shows "shapes_ok h'"
proof -
  note same = allocate_keeps_shapes [OF assms(4)]
  have "shapes h (inst_class_id i, map fst (inst_fields i)) = Some (inst_shape i)"
    if "heap_get h' q = Inr (InstanceObj i)" for q i
    using allocate_origin [OF assms(2,4) that] assms(1,3) by (auto simp: shapes_ok_def own_shape_def)
  then show ?thesis using assms(1) same by (simp add: shapes_ok_def)
qed

lemma shapes_extend_refl [simp]: "shapes_extend h h"
  by (simp add: shapes_extend_def)

lemma instantiate_shapes:
  assumes "shapes_ok h" and "heap_wf h" and "next_shape h \<noteq> - 1" and "instantiate h cls = (g, res)"
  shows "shapes_ok g \<and> shapes_extend h g"
proof (cases "\<exists>c. heap_get h cls = Inr (ClassObj c)")
  case True
  then obtain c where c: "heap_get h cls = Inr (ClassObj c)" by blast
  obtain h1 s where h1: "intern_shape h (class_object_id c) [] = (h1, s)" by fastforce
  let ?i = "InstanceObj \<lparr>inst_class = cls, inst_class_id = class_object_id c, inst_shape = s, inst_fields = []\<rparr>"
  note ok = intern_shape_ok [OF assms(1,3) h1]
  have "heap_wf h1" using h1 assms(2)
    by (auto simp: intern_shape_def heap_wf_def free_ok_def objects_ok_def split: option.splits)
  moreover have alloc: "allocate_validated h1 ?i = (g, res)" using assms(4) c h1 by (simp add: instantiate_def)
  moreover have "own_shape h1 ?i" using ok by (simp add: own_shape_def)
  ultimately have "shapes_ok g" using ok shapes_ok_allocate by blast
  moreover have "shapes_extend h g" using ok allocate_keeps_shapes [OF alloc] by (simp add: shapes_extend_def)
  ultimately show ?thesis by blast
next
  case False
  then have "g = h" using assms(4) by (auto simp: instantiate_def split: sum.splits object.splits)
  then show ?thesis using assms(1) by simp
qed

lemma set_attribute_shapes:
  assumes "shapes_ok h" and "next_shape h \<noteq> - 1" and "set_attribute h r name v = (g, res)"
  shows "shapes_ok g \<and> shapes_extend h g"
proof (cases "\<exists>u i. validate_value h v = Inr u \<and> get_instance h r = Inr i")
  case True
  then obtain u i where valid: "validate_value h v = Inr u" and i: "get_instance h r = Inr i" by blast
  then have live: "heap_get h r = Inr (InstanceObj i)" by (simp add: get_instance_Inr)
  then have own: "shapes h (inst_class_id i, map fst (inst_fields i)) = Some (inst_shape i)"
    using assms(1) by (simp add: shapes_ok_def)
  show ?thesis
  proof (cases "find_field (inst_fields i) name")
    case (Some n)
    let ?y = "InstanceObj (i\<lparr>inst_fields := (inst_fields i)[n := (fst (inst_fields i ! n), v)]\<rparr>)"
    have g: "g = heap_put h r ?y" using assms(3) valid i Some by (simp add: set_attribute_def)
    have "map fst ((inst_fields i)[n := (fst (inst_fields i ! n), v)]) = map fst (inst_fields i)"
      using find_field_bound [OF Some] by (simp add: map_update) (metis list_update_id nth_map)
    then have "own_shape h ?y" using own by (simp add: own_shape_def)
    then show ?thesis using g shapes_ok_put [OF assms(1) live] by (simp add: shapes_extend_def)
  next
    case None
    obtain h1 s where h1: "intern_shape h (inst_class_id i) (map fst (inst_fields i) @ [name]) = (h1, s)"
      by fastforce
    let ?y = "InstanceObj (i\<lparr>inst_shape := s, inst_fields := inst_fields i @ [(name, v)]\<rparr>)"
    note ok = intern_shape_ok [OF assms(1,2) h1]
    have "heap_get h1 r = Inr (InstanceObj i)" using intern_shape_heap(1) [OF h1] live by simp
    then have "shapes_ok (heap_put h1 r ?y)" using ok by (intro shapes_ok_put) (auto simp: own_shape_def)
    moreover have "g = heap_put h1 r ?y" using assms(3) valid i None h1 by (simp add: set_attribute_def)
    ultimately show ?thesis using ok by (simp add: shapes_extend_def)
  qed
next
  case False
  then have "g = h" using assms(3) by (auto simp: set_attribute_def split: sum.splits)
  then show ?thesis using assms(1) by simp
qed

lemma get_attribute_shapes:
  assumes "shapes_ok h" and "heap_wf h" and "get_attribute h r name = (g, res)"
  shows "shapes_ok g \<and> shapes_extend h g"
proof (cases "\<exists>f. g = fst (allocate_validated h (BoundMethodObj \<lparr>bm_receiver = r, bm_function = f\<rparr>))")
  case True
  then obtain f res' where "allocate_validated h (BoundMethodObj \<lparr>bm_receiver = r, bm_function = f\<rparr>) = (g, res')"
    by (metis prod.collapse)
  then show ?thesis using shapes_ok_allocate [OF assms(1,2)] allocate_keeps_shapes
    by (fastforce simp: own_shape_def shapes_extend_def)
next
  case False
  have "g = fst (allocate_validated h x)" if "apsnd (map_ok ObjectValue) (allocate_validated h x) = (g, res)" for x
    using that by (cases "allocate_validated h x") simp
  with False have "g = h" using assms(3) by (auto simp: get_attribute_def split: sum.splits option.splits)
  then show ?thesis using assms(1) by simp
qed

text \<open>An instance with one attribute, read through a fresh cache.\<close>

definition sample_instance :: instance_object where
  "sample_instance = \<lparr>inst_class = \<lparr>ref_heap_id = 0, ref_slot = 9, ref_generation = 0\<rparr>,
     inst_class_id = ClassId 1, inst_shape = ShapeId 1, inst_fields = [(''x'', SmallInt 7)]\<rparr>"

definition instance_heap :: object_heap where
  "instance_heap = \<lparr>heap_id = 0, slots = [\<lparr>slot_generation = 0, slot_object = Some (InstanceObj sample_instance)\<rparr>],
     free_slots = [], shapes = [(ClassId 1, [''x'']) \<mapsto> ShapeId 1], next_shape = 2\<rparr>"

lemma instance_heap_get:
  "heap_get instance_heap r = Inr x \<longleftrightarrow>
     r = \<lparr>ref_heap_id = 0, ref_slot = 0, ref_generation = 0\<rparr> \<and> x = InstanceObj sample_instance"
  by (cases r) (auto simp: heap_get_Inr_iff instance_heap_def unat_eq_0)

lemma instance_heap_ok: "shapes_ok instance_heap" "heap_wf instance_heap"
proof -
  show "shapes_ok instance_heap"
    by (auto simp: shapes_ok_def instance_heap_get) (auto simp: instance_heap_def sample_instance_def split: if_splits)
  show "heap_wf instance_heap"
    by (auto simp: heap_wf_def free_ok_def objects_ok_def instance_heap_def sample_instance_def)
qed

text \<open>
  C21. Shapes stay faithful: creating an instance, writing an attribute and reading one keep the
  correspondence between instance layouts and shapes, and never change the shape of a layout.
\<close>

theorem shapes_stay_faithful:
  assumes "shapes_ok h" and "heap_wf h" and "next_shape h \<noteq> - 1"
    and "h' \<in> {fst (instantiate h cls), fst (set_attribute h r name v), fst (get_attribute h r name)}"
  shows "shapes_ok h' \<and> shapes_extend h h'"
  using assms(4) instantiate_shapes [OF assms(1-3)] set_attribute_shapes [OF assms(1,3)]
    get_attribute_shapes [OF assms(1,2)]
  by (metis empty_iff insert_iff prod.collapse)

theorem shapes_stay_faithful_witness:
  "shapes_ok (fst (set_attribute instance_heap \<lparr>ref_heap_id = 0, ref_slot = 0, ref_generation = 0\<rparr> ''y'' ValueNone))"
proof -
  have "next_shape instance_heap \<noteq> - 1" by (simp add: instance_heap_def)
  from shapes_stay_faithful [OF instance_heap_ok this insertI2 [OF insertI1]] show ?thesis by blast
qed

section \<open>Faithful caches\<close>

text \<open>Every target of the site holds the index of the attribute in the layout of its shape.\<close>

definition attribute_site_ok :: "object_heap \<Rightarrow> string \<Rightarrow> attribute_site \<Rightarrow> bool" where
  "attribute_site_ok h name site \<longleftrightarrow>
     (\<forall>t \<in> set (flatten (as_targets site)). \<exists>c names. shapes h (c, names) = Some (at_shape t)
        \<and> position (\<lambda>n. n = name) names = Some (at_index t))"

lemma attribute_site_ok_extend:
  "attribute_site_ok h name site \<Longrightarrow> shapes_extend h h' \<Longrightarrow> attribute_site_ok h' name site"
  by (fastforce simp: attribute_site_ok_def shapes_extend_def)

lemma find_field_names: "find_field fs name = position (\<lambda>n. n = name) (map fst fs)"
  by (induction fs) (auto simp: find_field_def split: prod.split)

text \<open>What a cached target says of an instance of its shape.\<close>

lemma cached_index:
  assumes "shapes_ok h" and "attribute_site_ok h name site" and "heap_get h r = Inr (InstanceObj i)"
    and "find (\<lambda>t. at_shape t = inst_shape i) (flatten (as_targets site)) = Some t"
  shows "find_field (inst_fields i) name = Some (at_index t)"
proof -
  have t: "t \<in> set (flatten (as_targets site))" "at_shape t = inst_shape i"
    using assms(4) by (auto simp: find_Some_iff dest: nth_mem)
  then obtain c names where names: "shapes h (c, names) = Some (inst_shape i)"
      "position (\<lambda>n. n = name) names = Some (at_index t)"
    using assms(2) by (fastforce simp: attribute_site_ok_def)
  have "shapes h (inst_class_id i, map fst (inst_fields i)) = Some (inst_shape i)"
    using assms(1,3) by (simp add: shapes_ok_def)
  then have "names = map fst (inst_fields i)" using shapes_ok_inj [OF assms(1) _ names(1)] by blast
  then show ?thesis using names(2) by (simp add: find_field_names)
qed

lemma remember_attribute_vm [simp]: "m_vm (remember_attribute pc site t m) = m_vm m"
  by (simp add: remember_attribute_def split: option.split)

lemma remember_attribute_sites:
  assumes "pc < length (rt_attribute_sites (m_runtime m))"
  shows "rt_attribute_sites (m_runtime (remember_attribute pc site t m)) =
    (if as_megamorphic site then rt_attribute_sites (m_runtime m)
     else (rt_attribute_sites (m_runtime m))[pc :=
       (case fill_slot t (as_targets site) of Some ts \<Rightarrow> site\<lparr>as_targets := ts\<rparr> | None \<Rightarrow> site\<lparr>as_megamorphic := True\<rparr>)])"
  by (simp_all add: remember_attribute_def set_attribute_site_def split: option.split)

lemma attribute_site_ok_fill:
  assumes "attribute_site_ok h name site" and "shapes_ok h" and "heap_get h r = Inr (InstanceObj i)"
    and "find_field (inst_fields i) name = Some n"
  shows "attribute_site_ok h name (case fill_slot \<lparr>at_shape = inst_shape i, at_index = n\<rparr> (as_targets site) of
      Some ts \<Rightarrow> site\<lparr>as_targets := ts\<rparr> | None \<Rightarrow> site\<lparr>as_megamorphic := True\<rparr>)"
proof -
  have "shapes h (inst_class_id i, map fst (inst_fields i)) = Some (inst_shape i)"
    using assms(2,3) by (simp add: shapes_ok_def)
  then have "\<exists>c names. shapes h (c, names) = Some (inst_shape i) \<and> position (\<lambda>n. n = name) names = Some n"
    using assms(4) find_field_names by metis
  then show ?thesis using assms(1) fill_slot_set [of "\<lparr>at_shape = inst_shape i, at_index = n\<rparr>" "as_targets site"]
    by (cases "fill_slot \<lparr>at_shape = inst_shape i, at_index = n\<rparr> (as_targets site)")
       (simp_all add: attribute_site_ok_def)
qed

text \<open>
  C20. The attribute cache is exact: reading an attribute through the cache answers what the
  lookup by name answers, leaves the heap as that lookup does, and leaves the cache of the
  instruction exact, whether the cache hits, misses, fills or is full.
\<close>

theorem attribute_cache_exact:
  assumes "shapes_ok (m_heap m)" and "heap_wf (m_heap m)" and "pc < length (rt_attribute_sites (m_runtime m))"
    and "attribute_site_ok (m_heap m) name (rt_attribute_sites (m_runtime m) ! pc)"
  shows "m_heap (fst (prepared_attribute m pc (ObjectValue r) name)) = fst (get_attribute (m_heap m) r name)
    \<and> snd (prepared_attribute m pc (ObjectValue r) name) = map_err HeapError (snd (get_attribute (m_heap m) r name))
    \<and> attribute_site_ok (fst (get_attribute (m_heap m) r name)) name
        (rt_attribute_sites (m_runtime (fst (prepared_attribute m pc (ObjectValue r) name))) ! pc)"
proof -
  let ?h = "m_heap m" and ?site = "rt_attribute_sites (m_runtime m) ! pc"
  have at: "attribute_site_at m pc = Inr ?site" using assms(3) by (simp add: attribute_site_at_def get_at_def)
  show ?thesis
  proof (cases "get_instance ?h r")
    case (Inl err)
    then show ?thesis using assms(4) by (simp add: prepared_attribute_def instance_shape_def get_attribute_def)
  next
    case (Inr i)
    then have live: "heap_get ?h r = Inr (InstanceObj i)" by (simp add: get_instance_Inr)
    show ?thesis
    proof (cases "find_field (inst_fields i) name")
      case None
      then have "find (\<lambda>t. at_shape t = inst_shape i) (flatten (as_targets ?site)) = None"
        using cached_index [OF assms(1,4) live] by fastforce
      moreover have "attribute_site_ok (fst (get_attribute ?h r name)) name ?site"
        using get_attribute_shapes [OF assms(1,2)] attribute_site_ok_extend [OF assms(4)] by (metis prod.collapse)
      ultimately show ?thesis using Inr at None
        by (cases "get_attribute ?h r name")
           (simp add: prepared_attribute_def instance_shape_def attribute_miss_def lookup_instance_field_def
             heap_op_def with_heap_def)
    next
      case (Some n)
      have n: "n < length (inst_fields i)" using find_field_bound [OF Some] .
      note fill = attribute_site_ok_fill [OF assms(4,1) live Some]
      show ?thesis
      proof (cases "find (\<lambda>t. at_shape t = inst_shape i) (flatten (as_targets ?site))")
        case hit: (Some t)
        have "at_index t = n" using cached_index [OF assms(1,4) live hit] Some by simp
        then show ?thesis using Inr at Some hit n assms(4)
          by (simp add: prepared_attribute_def instance_shape_def instance_field_at_def get_attribute_def get_at_def)
      next
        case miss: None
        then show ?thesis using Inr at Some n assms(3,4) fill
          by (simp add: prepared_attribute_def instance_shape_def attribute_miss_def lookup_instance_field_def
              get_attribute_def remember_attribute_sites)
      qed
    qed
  qed
qed

theorem attribute_cache_exact_witness:
  "let m = \<lparr>m_vm = (vm_interpreter 0)\<lparr>vm_heap := instance_heap\<rparr>, m_runtime = runtime_new sample_executable,
            m_frame = new_frame 2\<rparr>
   in snd (prepared_attribute m 0 (ObjectValue \<lparr>ref_heap_id = 0, ref_slot = 0, ref_generation = 0\<rparr>) ''x'')
      = Inr (SmallInt 7)"
proof -
  let ?m = "\<lparr>m_vm = (vm_interpreter 0)\<lparr>vm_heap := instance_heap\<rparr>, m_runtime = runtime_new sample_executable,
            m_frame = new_frame 2\<rparr>"
  let ?r = "\<lparr>ref_heap_id = 0, ref_slot = 0, ref_generation = 0\<rparr>"
  have "shapes_ok (m_heap ?m)" "heap_wf (m_heap ?m)" using instance_heap_ok by simp_all
  moreover have "0 < length (rt_attribute_sites (m_runtime ?m))"
      "attribute_site_ok (m_heap ?m) ''x'' (rt_attribute_sites (m_runtime ?m) ! 0)"
    by (simp_all add: runtime_new_def runtime_with_def sample_executable_def attribute_site_ok_def
        empty_attribute_site_def)
  moreover have "get_attribute (m_heap ?m) ?r ''x'' = (instance_heap, Inr (SmallInt 7))"
  proof -
    have "get_instance instance_heap ?r = Inr sample_instance" by (simp add: get_instance_Inr instance_heap_get)
    then show ?thesis by (simp add: get_attribute_def sample_instance_def find_field_def)
  qed
  ultimately show ?thesis using attribute_cache_exact [of ?m 0 "''x''" ?r] by simp
qed

end
