(* ===== verification/Stable_Handles.thy ===== *)
theory Stable_Handles
  imports Wustite_Prelude
begin

text \<open>
  The handle table of the adaptive engine (\<open>adaptive_v2/handles.rs\<close>): slots that are vacant, live or
  retired, a stack of free slots, and handles that name a slot together with the generation of
  the value it held. A released slot is offered again under the next generation, and a slot
  whose generation is exhausted is retired. The second part shows the table to be a finite map
  from handles to values, and a released handle to be dead for ever.
\<close>

unbundle bit_operations_syntax

record stable_handle =
  owner_runtime :: u64
  local_slot :: u32
  local_generation :: u16

datatype handle_error = CapacityExhausted | WrongRuntime | StaleHandle

datatype 'a table_entry = VacantEntry u16 | LiveEntry u16 'a | RetiredEntry

record 'a handle_table =
  table_runtime :: u64
  table_capacity :: nat
  table_entries :: "'a table_entry list"
  table_free :: "u32 list"
  table_retired :: nat

definition table_new :: "u64 \<Rightarrow> nat \<Rightarrow> 'a handle_table" where
  "table_new r n = \<lparr>table_runtime = r, table_capacity = n, table_entries = [], table_free = [],
                    table_retired = 0\<rparr>"

section \<open>Packed handles\<close>

definition packed_local :: "stable_handle \<Rightarrow> u64" where
  "packed_local h = ucast (local_slot h) OR push_bit 32 (ucast (local_generation h))"

definition local_handle :: "'a handle_table \<Rightarrow> u64 \<Rightarrow> stable_handle" where
  "local_handle t p = \<lparr>owner_runtime = table_runtime t, local_slot = ucast p,
                       local_generation = ucast (drop_bit 32 p)\<rparr>"

section \<open>Lookup\<close>

definition handle_index :: "'a handle_table \<Rightarrow> stable_handle \<Rightarrow> handle_error + nat" where
  "handle_index t h =
     (if owner_runtime h \<noteq> table_runtime t then Inl WrongRuntime
      else case get_at (table_entries t) (unat (local_slot h)) of
             Some (LiveEntry g v) \<Rightarrow>
               if g = local_generation h then Inr (unat (local_slot h)) else Inl StaleHandle
           | _ \<Rightarrow> Inl StaleHandle)"

definition handle_resolve :: "'a handle_table \<Rightarrow> stable_handle \<Rightarrow> handle_error + 'a" where
  "handle_resolve t h =
     and_then (handle_index t h) (\<lambda>i.
       case table_entries t ! i of
         LiveEntry g v \<Rightarrow> Inr v
       | _ \<Rightarrow> Inl StaleHandle)"

text \<open>Writing through the reference that \<open>resolve_mut\<close> answers.\<close>

definition handle_assign ::
  "'a handle_table \<Rightarrow> stable_handle \<Rightarrow> 'a \<Rightarrow> 'a handle_table \<times> (handle_error + unit)" where
  "handle_assign t h v =
     (case handle_index t h of
        Inl e \<Rightarrow> (t, Inl e)
      | Inr i \<Rightarrow>
          (case table_entries t ! i of
             LiveEntry g old \<Rightarrow>
               (t\<lparr>table_entries := (table_entries t)[i := LiveEntry g v]\<rparr>, Inr ())
           | _ \<Rightarrow> (t, Inl StaleHandle)))"

section \<open>Allocation and release\<close>

definition claim_slot :: "'a handle_table \<Rightarrow> 'a handle_table \<times> (handle_error + u32)" where
  "claim_slot t =
     (if table_free t \<noteq> [] then
        (t\<lparr>table_free := butlast (table_free t)\<rparr>, Inr (last (table_free t)))
      else if length (table_entries t) < table_capacity t then
        (case u32_of_len (length (table_entries t)) of
           None \<Rightarrow> (t, Inl CapacityExhausted)
         | Some s \<Rightarrow> (t\<lparr>table_entries := table_entries t @ [VacantEntry 1]\<rparr>, Inr s))
      else (t, Inl CapacityExhausted))"

definition handle_allocate ::
  "'a handle_table \<Rightarrow> 'a \<Rightarrow> 'a handle_table \<times> (handle_error + stable_handle)" where
  "handle_allocate t v =
     (case claim_slot t of
        (t', Inl e) \<Rightarrow> (t', Inl e)
      | (t', Inr s) \<Rightarrow>
          (case get_at (table_entries t') (unat s) of
             Some (VacantEntry g) \<Rightarrow>
               (t'\<lparr>table_entries := (table_entries t')[unat s := LiveEntry g v]\<rparr>,
                Inr \<lparr>owner_runtime = table_runtime t', local_slot = s, local_generation = g\<rparr>)
           | _ \<Rightarrow> (t', Inl StaleHandle)))"

definition allocate_with_generation ::
  "'a handle_table \<Rightarrow> 'a \<Rightarrow> u16 \<Rightarrow> 'a handle_table \<times> (handle_error + stable_handle)" where
  "allocate_with_generation t v g =
     (case handle_allocate t v of
        (t', Inl e) \<Rightarrow> (t', Inl e)
      | (t', Inr h) \<Rightarrow>
          (case get_at (table_entries t') (unat (local_slot h)) of
             Some (LiveEntry old w) \<Rightarrow>
               (t'\<lparr>table_entries := (table_entries t')[unat (local_slot h) := LiveEntry g w]\<rparr>,
                Inr (h\<lparr>local_generation := g\<rparr>))
           | _ \<Rightarrow> (t', Inl StaleHandle)))"

definition handle_release ::
  "'a handle_table \<Rightarrow> stable_handle \<Rightarrow> 'a handle_table \<times> (handle_error + 'a)" where
  "handle_release t h =
     (case handle_index t h of
        Inl e \<Rightarrow> (t, Inl e)
      | Inr i \<Rightarrow>
          (case table_entries t ! i of
             LiveEntry g v \<Rightarrow>
               if g = - 1 then
                 (t\<lparr>table_entries := (table_entries t)[i := RetiredEntry],
                    table_retired := Suc (table_retired t)\<rparr>, Inr v)
               else
                 (t\<lparr>table_entries := (table_entries t)[i := VacantEntry (g + 1)],
                    table_free := table_free t @ [local_slot h]\<rparr>, Inr v)
           | _ \<Rightarrow> (t\<lparr>table_entries := (table_entries t)[i := RetiredEntry]\<rparr>, Inl StaleHandle)))"

definition remaining_capacity :: "'a handle_table \<Rightarrow> nat" where
  "remaining_capacity t = length (table_free t) + (table_capacity t - length (table_entries t))"

definition entry_handle :: "u64 \<Rightarrow> nat \<times> 'a table_entry \<Rightarrow> stable_handle option" where
  "entry_handle r = (\<lambda>(i, e).
     case e of
       LiveEntry g v \<Rightarrow>
         map_option (\<lambda>s. \<lparr>owner_runtime = r, local_slot = s, local_generation = g\<rparr>) (u32_of_len i)
     | _ \<Rightarrow> None)"

definition live_handles :: "'a handle_table \<Rightarrow> stable_handle list" where
  "live_handles t =
     List.map_filter (entry_handle (table_runtime t)) (enumerate 0 (table_entries t))"

section \<open>The table as a finite map\<close>

definition table_map :: "'a handle_table \<Rightarrow> stable_handle \<Rightarrow> 'a option" where
  "table_map t h = (case handle_resolve t h of Inl e \<Rightarrow> None | Inr v \<Rightarrow> Some v)"

fun is_vacant :: "'a table_entry \<Rightarrow> bool" where
  "is_vacant (VacantEntry g) = True"
| "is_vacant _ = False"

definition table_wf :: "'a handle_table \<Rightarrow> bool" where
  "table_wf t \<longleftrightarrow>
     table_capacity t \<le> 2 ^ 32 \<and>
     length (table_entries t) \<le> table_capacity t \<and>
     distinct (table_free t) \<and>
     (\<forall>i < length (table_entries t).
        is_vacant (table_entries t ! i) \<longleftrightarrow> i \<in> unat ` set (table_free t)) \<and>
     (\<forall>s \<in> set (table_free t). unat s < length (table_entries t)) \<and>
     table_retired t = length (filter (\<lambda>e. e = RetiredEntry) (table_entries t))"

lemma table_map_iff:
  "table_map t h = Some v \<longleftrightarrow>
     owner_runtime h = table_runtime t \<and> unat (local_slot h) < length (table_entries t) \<and>
     table_entries t ! unat (local_slot h) = LiveEntry (local_generation h) v"
  by (auto simp: table_map_def handle_resolve_def handle_index_def get_at_def
      split: sum.splits option.splits table_entry.splits if_splits)

lemma resolve_iff: "handle_resolve t h = Inr v \<longleftrightarrow> table_map t h = Some v"
  by (auto simp: table_map_def split: sum.splits)

lemma resolve_None: "table_map t h = None \<longleftrightarrow> (\<exists>e. handle_resolve t h = Inl e)"
  by (auto simp: table_map_def split: sum.splits)

lemma handle_index_iff:
  "handle_index t h = Inr i \<longleftrightarrow> i = unat (local_slot h) \<and> (\<exists>v. table_map t h = Some v)"
  by (auto simp: table_map_iff handle_index_def get_at_def
      split: option.splits table_entry.splits if_splits)

lemma handle_index_Inl: "handle_index t h = Inl e \<Longrightarrow> table_map t h = None"
  by (auto simp: table_map_def handle_resolve_def)

lemma table_new_wf [simp]: "n \<le> 2 ^ 32 \<Longrightarrow> table_wf (table_new r n)"
  by (simp add: table_wf_def table_new_def)

lemma table_new_map [simp]: "table_map (table_new r n) = Map.empty"
  by (rule ext) (metis not_Some_eq table_map_iff table_new_def handle_table.simps(3)
      list.size(3) not_less_zero)

lemma same_slot:
  "table_map t h = Some v \<Longrightarrow> table_map t k = Some w \<Longrightarrow> local_slot h = local_slot k \<Longrightarrow> h = k"
  by (cases h; cases k) (auto simp: table_map_iff)

section \<open>Writing and releasing\<close>

definition put_entry :: "'a handle_table \<Rightarrow> stable_handle \<Rightarrow> 'a table_entry \<Rightarrow> 'a handle_table" where
  "put_entry t h e = t\<lparr>table_entries := (table_entries t)[unat (local_slot h) := e]\<rparr>"

abbreviation entry_of :: "'a handle_table \<Rightarrow> stable_handle \<Rightarrow> 'a table_entry" where
  "entry_of t h \<equiv> table_entries t ! unat (local_slot h)"

abbreviation has_slot :: "'a handle_table \<Rightarrow> stable_handle \<Rightarrow> bool" where
  "has_slot t h \<equiv> unat (local_slot h) < length (table_entries t)"

fun entry_value :: "'a table_entry \<Rightarrow> u16 \<Rightarrow> 'a option" where
  "entry_value (LiveEntry g v) k = (if k = g then Some v else None)"
| "entry_value _ k = None"

lemma table_map_value:
  "table_map t h =
     (if owner_runtime h = table_runtime t \<and> has_slot t h
      then entry_value (entry_of t h) (local_generation h) else None)"
  by (simp add: table_map_def handle_resolve_def handle_index_def get_at_def
      split: table_entry.split)

lemma count_update:
  "i < length xs \<Longrightarrow>
   length (filter P (xs[i := y])) + (if P (xs ! i) then 1 else 0) =
   length (filter P xs) + (if P y then 1 else 0)"
proof (induction xs arbitrary: i)
  case (Cons x xs)
  show ?case
  proof (cases i)
    case (Suc j)
    then show ?thesis using Cons.IH [of j] Cons.prems by simp
  qed simp
qed simp

lemma put_entry_simps [simp]:
  "table_runtime (put_entry t h e) = table_runtime t"
  "table_free (put_entry t h e) = table_free t"
  "table_capacity (put_entry t h e) = table_capacity t"
  "table_retired (put_entry t h e) = table_retired t"
  "length (table_entries (put_entry t h e)) = length (table_entries t)"
  by (simp_all add: put_entry_def)

lemma put_entry_map:
  assumes "owner_runtime h = table_runtime t" "has_slot t h"
    and "\<And>g v. entry_of t h = LiveEntry g v \<Longrightarrow> g = local_generation h"
    and "\<And>g v. e = LiveEntry g v \<Longrightarrow> g = local_generation h"
  shows "table_map (put_entry t h e) = (table_map t)(h := entry_value e (local_generation h))"
proof (rule ext)
  fix k
  show "table_map (put_entry t h e) k = ((table_map t)(h := entry_value e (local_generation h))) k"
  proof (cases "local_slot k = local_slot h")
    case True
    show ?thesis
    proof (cases "k = h")
      case False
      then have "entry_value (entry_of t h) (local_generation k) = None \<or>
                 owner_runtime k \<noteq> table_runtime t"
        and "entry_value e (local_generation k) = None \<or> owner_runtime k \<noteq> table_runtime t"
        using True assms
        by (cases "entry_of t h"; cases e; cases h; cases k; auto)+
      then show ?thesis using True False assms(2) by (auto simp: table_map_value put_entry_def)
    qed (use assms in \<open>simp add: table_map_value put_entry_def\<close>)
  next
    case False
    then have "k \<noteq> h" and "unat (local_slot h) \<noteq> unat (local_slot k)"
      by (auto simp: word_unat_eq_iff [symmetric])
    then show ?thesis by (simp add: table_map_value put_entry_def)
  qed
qed

lemma retired_put:
  assumes "has_slot t h" "entry_of t h \<noteq> RetiredEntry"
  shows "length (filter (\<lambda>x. x = RetiredEntry) (table_entries (put_entry t h e))) =
         length (filter (\<lambda>x. x = RetiredEntry) (table_entries t)) +
         (if e = RetiredEntry then 1 else 0)"
  using count_update [OF assms(1), of "\<lambda>x. x = RetiredEntry" e] assms(2)
  by (simp add: put_entry_def)

lemma assign_live:
  assumes "table_map t h = Some v"
  shows "handle_assign t h w = (put_entry t h (LiveEntry (local_generation h) w), Inr ())"
  using assms
  by (auto simp: handle_assign_def handle_index_def get_at_def table_map_iff put_entry_def)

lemma put_live_wf:
  assumes "table_wf t" "table_map t h = Some v"
  shows "table_wf (put_entry t h (LiveEntry (local_generation h) w))"
proof -
  have e: "has_slot t h" "entry_of t h = LiveEntry (local_generation h) v"
    using assms(2) by (simp_all add: table_map_iff)
  show ?thesis
    using assms(1) e retired_put [OF e(1), of "LiveEntry (local_generation h) w"]
    by (auto simp: table_wf_def put_entry_def nth_list_update)
qed

lemma put_live_map:
  assumes "table_map t h = Some v"
  shows "table_map (put_entry t h (LiveEntry (local_generation h) w)) = (table_map t)(h \<mapsto> w)"
  using put_entry_map [of h t "LiveEntry (local_generation h) w"] assms
  by (auto simp: table_map_iff)

lemma release_live:
  assumes "table_map t h = Some v"
  shows "handle_release t h =
    (if local_generation h = - 1
     then ((put_entry t h RetiredEntry)\<lparr>table_retired := Suc (table_retired t)\<rparr>, Inr v)
     else ((put_entry t h (VacantEntry (local_generation h + 1)))
             \<lparr>table_free := table_free t @ [local_slot h]\<rparr>, Inr v))"
  using assms
  by (auto simp: handle_release_def handle_index_def get_at_def table_map_iff put_entry_def)

lemma release_dead: "table_map t h = None \<Longrightarrow> \<exists>e. handle_release t h = (t, Inl e)"
  by (cases "handle_index t h") (auto simp: handle_release_def handle_index_iff)

lemma map_frame [simp]:
  "table_map (t\<lparr>table_free := f\<rparr>) = table_map t"
  "table_map (t\<lparr>table_retired := n\<rparr>) = table_map t"
  by (rule ext, simp add: table_map_value)+

lemma release_map:
  assumes "table_map t h = Some v" and "handle_release t h = (t', r)"
  shows "r = Inr v" and "table_map t' = (table_map t)(h := None)"
    and "table_runtime t' = table_runtime t"
  using assms put_entry_map [of h t RetiredEntry]
    put_entry_map [of h t "VacantEntry (local_generation h + 1)"]
  by (auto simp: release_live table_map_iff split: if_splits)

lemma live_slot_unlisted:
  "table_wf t \<Longrightarrow> table_map t h = Some v \<Longrightarrow> local_slot h \<notin> set (table_free t)"
  unfolding table_wf_def table_map_iff using is_vacant.simps(2) imageI by metis

lemma release_wf:
  assumes "table_wf t" "table_map t h = Some v" "handle_release t h = (t', r)"
  shows "table_wf t'"
proof -
  have e: "has_slot t h" "entry_of t h = LiveEntry (local_generation h) v"
    using assms(2) by (simp_all add: table_map_iff)
  have new: "local_slot h \<notin> set (table_free t)" using assms by (blast dest: live_slot_unlisted)
  have count: "length (filter (\<lambda>x. x = RetiredEntry) (table_entries (put_entry t h x))) =
         length (filter (\<lambda>x. x = RetiredEntry) (table_entries t)) +
         (if x = RetiredEntry then 1 else 0)" for x
    using retired_put [OF e(1)] e(2) by simp
  have old: "\<not> is_vacant (entry_of t h)" using e(2) by simp
  show ?thesis
  proof (cases "local_generation h = - 1")
    case True
    then have "t' = (put_entry t h RetiredEntry)\<lparr>table_retired := Suc (table_retired t)\<rparr>"
      using assms by (simp add: release_live)
    then show ?thesis using assms(1) e(1) old count [of RetiredEntry]
      by (auto simp: table_wf_def put_entry_def nth_list_update)
  next
    case False
    let ?e = "VacantEntry (local_generation h + 1)"
    have "t' = (put_entry t h ?e)\<lparr>table_free := table_free t @ [local_slot h]\<rparr>"
      using assms False by (simp add: release_live)
    then show ?thesis using assms(1) e(1) old count [of ?e] new
      by (auto simp: table_wf_def put_entry_def nth_list_update word_unat_eq_iff [symmetric])
  qed
qed

section \<open>Allocating\<close>

lemma claim_slot_laws:
  assumes "table_wf t" "claim_slot t = (t', Inr s)"
  shows "unat s < length (table_entries t')" "is_vacant (table_entries t' ! unat s)"
    and "s \<notin> set (table_free t')" "table_map t' = table_map t"
    and "table_runtime t' = table_runtime t"
    and "table_wf (t'\<lparr>table_free := table_free t' @ [s]\<rparr>)"
proof -
  note wf = assms(1) [unfolded table_wf_def]
  have "unat s < length (table_entries t') \<and> is_vacant (table_entries t' ! unat s) \<and>
        s \<notin> set (table_free t') \<and> table_map t' = table_map t \<and>
        table_runtime t' = table_runtime t \<and>
        table_wf (t'\<lparr>table_free := table_free t' @ [s]\<rparr>)"
  proof (cases "table_free t = []")
    case False
    then have t': "t' = t\<lparr>table_free := butlast (table_free t)\<rparr>" and s: "s = last (table_free t)"
      using assms(2) by (auto simp: claim_slot_def)
    have free: "table_free t = butlast (table_free t) @ [s]" using False s by simp
    have mem: "s \<in> set (table_free t)" using False s by simp
    have "distinct (butlast (table_free t) @ [s])" using wf free by metis
    then have "s \<notin> set (butlast (table_free t))" by simp
    moreover have "t'\<lparr>table_free := table_free t' @ [s]\<rparr> = t" using t' free by simp
    ultimately show ?thesis using t' mem wf assms(1) by auto
  next
    case True
    then have len: "length (table_entries t) < table_capacity t"
      and u: "u32_of_len (length (table_entries t)) = Some s"
      and t': "t' = t\<lparr>table_entries := table_entries t @ [VacantEntry 1]\<rparr>"
      using assms(2) by (auto simp: claim_slot_def split: if_splits option.splits)
    have big: "length (table_entries t) < 2 ^ 32" and "s = word_of_nat (length (table_entries t))"
      using u by (auto simp: u32_of_len_def split: if_splits)
    then have idx: "unat s = length (table_entries t)" by (simp add: unat_of_nat)
    have same: "table_map t' = table_map t"
      by (rule ext) (auto simp: t' table_map_value nth_append)
    have "table_wf (t'\<lparr>table_free := table_free t' @ [s]\<rparr>)"
      using wf len big idx True t' by (auto simp: table_wf_def nth_append less_Suc_eq)
    then show ?thesis using t' idx True same by simp
  qed
  then show "unat s < length (table_entries t')" "is_vacant (table_entries t' ! unat s)"
    "s \<notin> set (table_free t')" "table_map t' = table_map t"
    "table_runtime t' = table_runtime t"
    "table_wf (t'\<lparr>table_free := table_free t' @ [s]\<rparr>)" by blast+
qed

lemma claim_slot_error:
  assumes "table_wf t" "claim_slot t = (t', Inl e)"
  shows "t' = t" "e = CapacityExhausted" "remaining_capacity t = 0"
  using assms
  by (auto simp: claim_slot_def u32_of_len_def table_wf_def remaining_capacity_def
      split: if_splits option.splits)

lemma table_allocate_laws:
  assumes "table_wf t" "handle_allocate t v = (t', Inr h)"
  shows "table_map t h = None" "table_map t' = (table_map t)(h \<mapsto> v)"
    and "table_runtime t' = table_runtime t" "table_wf t'"
proof -
  obtain t1 r where claim: "claim_slot t = (t1, r)" by (cases "claim_slot t")
  then obtain s where r: "r = Inr s" using assms(2) by (cases r) (auto simp: handle_allocate_def)
  note laws = claim_slot_laws [OF assms(1) claim [unfolded r]]
  obtain g where g: "table_entries t1 ! unat s = VacantEntry g"
    using laws(2) by (cases "table_entries t1 ! unat s") auto
  have h: "h = \<lparr>owner_runtime = table_runtime t, local_slot = s, local_generation = g\<rparr>"
    and t': "t' = put_entry t1 h (LiveEntry g v)"
    using assms(2) claim r g laws(1,5)
    by (auto simp: handle_allocate_def get_at_def put_entry_def)
  show "table_map t h = None"
    unfolding laws(4) [symmetric] using g h by (simp add: table_map_value)
  show "table_map t' = (table_map t)(h \<mapsto> v)"
    using put_entry_map [of h t1 "LiveEntry g v"] laws g h t' by simp
  show "table_runtime t' = table_runtime t" using t' laws(5) by simp
  show "table_wf t'"
    using laws(6) laws(1,2,3) t' h g retired_put [of h t1 "LiveEntry g v"]
    by (auto simp: table_wf_def put_entry_def nth_list_update word_unat_eq_iff [symmetric])
qed

lemma table_allocate_error:
  assumes "table_wf t" "handle_allocate t v = (t', Inl e)"
  shows "t' = t" "e = CapacityExhausted" "remaining_capacity t = 0"
proof -
  obtain t1 r where claim: "claim_slot t = (t1, r)" by (cases "claim_slot t")
  have "r = Inl e \<and> t1 = t'"
  proof (cases r)
    case (Inr s)
    note laws = claim_slot_laws [OF assms(1) claim [unfolded Inr]]
    obtain g where "table_entries t1 ! unat s = VacantEntry g"
      using laws(2) by (cases "table_entries t1 ! unat s") auto
    then show ?thesis using assms(2) claim Inr laws(1) by (simp add: handle_allocate_def get_at_def)
  qed (use assms(2) claim in \<open>simp add: handle_allocate_def\<close>)
  then show "t' = t" "e = CapacityExhausted" "remaining_capacity t = 0"
    using claim_slot_error [OF assms(1), of t' e] claim by auto
qed

lemma allocate_remaining:
  assumes "handle_allocate t v = (t', Inr h)"
  shows "remaining_capacity t = Suc (remaining_capacity t')"
  using assms
  by (auto simp: handle_allocate_def claim_slot_def remaining_capacity_def
      split: if_splits option.splits table_entry.splits)

section \<open>The live handles\<close>

lemma entry_handle_iff:
  "i < 2 ^ 32 \<Longrightarrow>
   entry_handle r (i, e) = Some h \<longleftrightarrow>
     owner_runtime h = r \<and> unat (local_slot h) = i \<and> (\<exists>v. e = LiveEntry (local_generation h) v)"
  by (cases h; cases e)
     (auto simp: entry_handle_def u32_of_len_def unat_of_nat)

lemma set_live_handles:
  assumes "table_wf t"
  shows "set (live_handles t) = dom (table_map t)"
proof -
  have len: "length (table_entries t) \<le> 2 ^ 32" using assms by (simp add: table_wf_def)
  have "h \<in> set (live_handles t) \<longleftrightarrow> h \<in> dom (table_map t)" for h
  proof -
    have "h \<in> set (live_handles t) \<longleftrightarrow>
          (\<exists>i < length (table_entries t).
             entry_handle (table_runtime t) (i, table_entries t ! i) = Some h)"
      by (force simp: live_handles_def List.map_filter_def in_set_enumerate_eq image_iff)
    also have "\<dots> \<longleftrightarrow> h \<in> dom (table_map t)"
      using len by (auto simp: entry_handle_iff table_map_iff dom_def)
    finally show ?thesis .
  qed
  then show ?thesis by blast
qed

lemma distinct_map_filter:
  "distinct xs \<Longrightarrow> \<forall>x \<in> set xs. \<forall>y \<in> set xs. f x = f y \<longrightarrow> f x \<noteq> None \<longrightarrow> x = y \<Longrightarrow>
   distinct (List.map_filter f xs)"
proof (induction xs)
  case (Cons x xs)
  then have tail: "distinct (List.map_filter f xs)" by simp
  show ?case
  proof (cases "f x")
    case (Some z)
    have "f y \<noteq> Some z" if "y \<in> set xs" for y
      using Cons.prems Some that by (metis distinct.simps(2) list.set_intros option.distinct(1))
    then have "z \<notin> set (List.map_filter f xs)" by (auto simp: List.map_filter_def)
    then show ?thesis using tail Some by (simp add: List.map_filter_simps)
  qed (use tail in \<open>simp add: List.map_filter_simps\<close>)
qed (simp add: List.map_filter_simps)

lemma distinct_live_handles:
  assumes "table_wf t"
  shows "distinct (live_handles t)"
  unfolding live_handles_def
proof (rule distinct_map_filter)
  have len: "length (table_entries t) \<le> 2 ^ 32" using assms by (simp add: table_wf_def)
  show "\<forall>x \<in> set (enumerate 0 (table_entries t)). \<forall>y \<in> set (enumerate 0 (table_entries t)).
          entry_handle (table_runtime t) x = entry_handle (table_runtime t) y \<longrightarrow>
          entry_handle (table_runtime t) x \<noteq> None \<longrightarrow> x = y"
  proof (intro ballI impI)
    fix x y
    assume x: "x \<in> set (enumerate 0 (table_entries t))"
      and y: "y \<in> set (enumerate 0 (table_entries t))"
      and eq: "entry_handle (table_runtime t) x = entry_handle (table_runtime t) y"
      and "entry_handle (table_runtime t) x \<noteq> None"
    then obtain h where h: "entry_handle (table_runtime t) x = Some h" by auto
    obtain i e j f where xy: "x = (i, e)" "y = (j, f)" by (cases x; cases y)
    have "i < length (table_entries t)" "table_entries t ! i = e"
      "j < length (table_entries t)" "table_entries t ! j = f"
      using x y xy by (auto simp: in_set_enumerate_eq)
    moreover from this have "unat (local_slot h) = i" "unat (local_slot h) = j"
      using h eq xy len entry_handle_iff [of i _ e h] entry_handle_iff [of j _ f h] by auto
    ultimately show "x = y" using xy by simp
  qed
qed simp

section \<open>Released handles\<close>

definition spent :: "'a handle_table \<Rightarrow> stable_handle \<Rightarrow> bool" where
  "spent t h \<longleftrightarrow>
     owner_runtime h = table_runtime t \<and> has_slot t h \<and>
     (case entry_of t h of
        VacantEntry g \<Rightarrow> local_generation h < g
      | LiveEntry g v \<Rightarrow> local_generation h < g
      | RetiredEntry \<Rightarrow> True)"

inductive table_step :: "'a handle_table \<Rightarrow> 'a handle_table \<Rightarrow> bool" where
  step_allocate: "handle_allocate t v = (t', r) \<Longrightarrow> table_step t t'"
| step_release: "handle_release t h = (t', r) \<Longrightarrow> table_step t t'"
| step_assign: "handle_assign t h v = (t', r) \<Longrightarrow> table_step t t'"

lemma spent_stale: "spent t h \<Longrightarrow> handle_resolve t h = Inl StaleHandle"
  by (auto simp: spent_def handle_resolve_def handle_index_def get_at_def
      split: table_entry.splits)

lemma less_next_generation: "g \<noteq> - 1 \<Longrightarrow> g < (g :: u16) + 1"
  using unatSuc [of g] by (auto simp: word_less_nat_alt eq_neg_iff_add_eq_0 add.commute)

lemma release_spends:
  assumes "handle_release t h = (t', Inr v)"
  shows "spent t' h"
proof -
  have live: "table_map t h = Some v"
    using assms release_dead [of t h] release_map(1) [of t h _ t' "Inr v"]
    by (cases "table_map t h") fastforce+
  then show ?thesis using assms
    by (auto simp: release_live spent_def put_entry_def table_map_iff less_next_generation
        split: if_splits)
qed

lemma spent_put:
  assumes "spent t h" "table_map t k = Some v"
    and "\<And>g. e = VacantEntry g \<Longrightarrow> local_generation k \<le> g"
    and "\<And>g w. e = LiveEntry g w \<Longrightarrow> local_generation k \<le> g"
  shows "spent (put_entry t k e) h"
proof (cases "local_slot h = local_slot k")
  case True
  then have "entry_of t h = LiveEntry (local_generation k) v" using assms(2) by (simp add: table_map_iff)
  then show ?thesis using assms True
    by (cases e) (auto simp: spent_def put_entry_def intro: less_le_trans)
next
  case False
  then have "unat (local_slot k) \<noteq> unat (local_slot h)" by (simp add: word_unat_eq_iff [symmetric])
  then show ?thesis using assms(1) by (simp add: spent_def put_entry_def)
qed

lemma spent_frame [simp]:
  "spent (t\<lparr>table_free := f\<rparr>) h = spent t h" "spent (t\<lparr>table_retired := n\<rparr>) h = spent t h"
  by (simp_all add: spent_def cong: table_entry.case_cong)

lemma spent_allocate:
  assumes "spent t h" "handle_allocate t v = (t', r)"
  shows "spent t' h"
proof -
  obtain t1 q where claim: "claim_slot t = (t1, q)" by (cases "claim_slot t")
  have t1: "spent t1 h"
    using claim assms(1)
    by (auto simp: claim_slot_def spent_def nth_append split: if_splits option.splits)
  show ?thesis
  proof (cases q)
    case (Inr s)
    have "spent (t1\<lparr>table_entries := (table_entries t1)[unat s := LiveEntry g v]\<rparr>) h"
      if "table_entries t1 ! unat s = VacantEntry g" "unat s < length (table_entries t1)" for g
      using that t1 by (auto simp: spent_def nth_list_update split: table_entry.splits)
    then show ?thesis using assms(2) claim Inr t1
      by (auto simp: handle_allocate_def split: option.splits table_entry.splits)
  qed (use assms(2) claim t1 in \<open>simp add: handle_allocate_def\<close>)
qed

lemma spent_step:
  assumes "table_step t t'" "spent t h"
  shows "spent t' h"
  using assms
proof cases
  case (step_allocate v r)
  then show ?thesis using assms(2) by (blast intro: spent_allocate)
next
  case (step_release k r)
  show ?thesis
  proof (cases "table_map t k")
    case None
    then show ?thesis using release_dead [OF None] step_release assms(2) by auto
  next
    case (Some v)
    have "spent (put_entry t k RetiredEntry) h" using assms(2) Some by (rule spent_put) simp_all
    moreover have "spent (put_entry t k (VacantEntry (local_generation k + 1))) h"
      if "local_generation k \<noteq> - 1"
      using assms(2) Some less_next_generation [OF that] by (intro spent_put [of t h k v]) auto
    ultimately show ?thesis using step_release Some by (auto simp: release_live split: if_splits)
  qed
next
  case (step_assign k w r)
  show ?thesis
  proof (cases "table_map t k")
    case None
    then have "t' = t"
      using step_assign by (auto simp: handle_assign_def handle_index_iff split: sum.splits)
    then show ?thesis using assms(2) by simp
  next
    case (Some v)
    have "spent (put_entry t k (LiveEntry (local_generation k) w)) h"
      using assms(2) Some by (rule spent_put) simp_all
    then show ?thesis using step_assign Some by (simp add: assign_live)
  qed
qed

lemma spent_steps: "table_step\<^sup>*\<^sup>* t t' \<Longrightarrow> spent t h \<Longrightarrow> spent t' h"
  by (induction rule: rtranclp_induct) (auto intro: spent_step)

text \<open>
  The packed form keeps slot and generation, so a handle of this runtime is read back exactly.
\<close>

lemma packed_local_round_trip:
  assumes "owner_runtime h = table_runtime t"
  shows "local_handle t (packed_local h) = h"
proof -
  have "ucast (packed_local h) = local_slot h"
    by (rule bit_word_eqI) (auto simp: packed_local_def bit_simps)
  moreover have "ucast (drop_bit 32 (packed_local h)) = local_generation h"
    by (rule bit_word_eqI)
       (auto simp: packed_local_def bit_simps dest: bit_imp_le_length)
  ultimately show ?thesis using assms by (simp add: local_handle_def)
qed

end
