(* ===== verification/Gc_Heap.thy ===== *)
theory Gc_Heap
  imports Stable_Handles "HOL-Library.AList"
begin

text \<open>
  The collected heap of the adaptive engine (\<open>adaptive_v2/heap.rs\<close>, \<open>heap/types.rs\<close>,
  \<open>heap/transaction.rs\<close>, \<open>heap/borrow.rs\<close>, \<open>adaptive_v2/roots.rs\<close>): a nursery and an old
  generation that stable handles point into, host pins, the remembered set of old objects that
  were given a nursery reference, the barrier of the concurrent marker and the counters. Every
  operation that changes the heap answers the new state with its result. Hash sets are sets
  where the code only tests membership and lists where it iterates over them; the order of such
  a list is arbitrary. Sizes in memory and the clock are arguments.
\<close>

section \<open>Objects\<close>

datatype scalar_value = ScalarInteger i64 | ScalarFloatBits u64

record gc_object =
  object_scalar :: "scalar_value option"
  object_references :: "stable_handle list"

definition gc_object_new :: gc_object where
  "gc_object_new = \<lparr>object_scalar = None, object_references = []\<rparr>"

definition boxed_scalar :: "scalar_value \<Rightarrow> gc_object" where
  "boxed_scalar v = \<lparr>object_scalar = Some v, object_references = []\<rparr>"

definition with_references :: "stable_handle list \<Rightarrow> gc_object" where
  "with_references hs = \<lparr>object_scalar = None, object_references = hs\<rparr>"

text \<open>
  The bytes an object owns, from the sizes of an object and of a handle and from the capacity
  of its vector of references, none of which the source determines.
\<close>

record memory_layout =
  object_bytes :: nat
  handle_bytes :: nat

definition usize_max :: nat where "usize_max = 2 ^ 64 - 1"

definition saturating_add_usize :: "nat \<Rightarrow> nat \<Rightarrow> nat" where
  "saturating_add_usize a b = min usize_max (a + b)"

definition saturating_mul_usize :: "nat \<Rightarrow> nat \<Rightarrow> nat" where
  "saturating_mul_usize a b = min usize_max (a * b)"

definition saturating_add_u64 :: "u64 \<Rightarrow> u64 \<Rightarrow> u64" where
  "saturating_add_u64 a b = (if unat a + unat b < 2 ^ 64 then a + b else - 1)"

definition u64_or_max :: "nat \<Rightarrow> u64" where
  "u64_or_max n = (if n < 2 ^ 64 then word_of_nat n else - 1)"

definition owned_bytes :: "memory_layout \<Rightarrow> nat \<Rightarrow> u64" where
  "owned_bytes m cap =
     u64_or_max (saturating_add_usize (object_bytes m) (saturating_mul_usize cap (handle_bytes m)))"

section \<open>State\<close>

record gc_config =
  collect_every_allocation :: bool
  promotion_age :: "8 word"
  allocation_limit :: "nat option"

definition default_config :: gc_config where
  "default_config = \<lparr>collect_every_allocation = False, promotion_age = 2, allocation_limit = None\<rparr>"

record heap_metrics =
  allocations :: u64
  allocated_bytes :: u64
  minor_collections :: u64
  major_collections :: u64
  pause_micros :: u64
  promotions :: u64

definition metrics_default :: heap_metrics where
  "metrics_default = \<lparr>allocations = 0, allocated_bytes = 0, minor_collections = 0,
                      major_collections = 0, pause_micros = 0, promotions = 0\<rparr>"

datatype gc_error =
    AllocationLimit
  | InvalidHandle handle_error
  | NotScalar
  | SafepointPoisoned
  | MarkerPanicked
  | HostPinOverflow

datatype location = Nursery nat | Old nat

fun is_nursery :: "location \<Rightarrow> bool" where
  "is_nursery (Nursery i) = True"
| "is_nursery (Old i) = False"

record nursery_cell =
  cell_object :: gc_object
  cell_age :: "8 word"

record gc_state =
  gc_handles :: "location handle_table"
  gc_nursery :: "nursery_cell option list"
  gc_old :: "gc_object option list"
  host_pins :: "(stable_handle \<times> nat) list"
  remembered :: "stable_handle list"
  concurrent_barrier :: "stable_handle list"
  marking :: bool
  live_count :: nat
  gc_metrics :: heap_metrics

definition gc_new :: "u64 \<Rightarrow> gc_config \<Rightarrow> gc_state" where
  "gc_new r cfg =
     \<lparr>gc_handles = table_new r (case allocation_limit cfg of None \<Rightarrow> 2 ^ 32 - 1 | Some n \<Rightarrow> n),
      gc_nursery = [], gc_old = [], host_pins = [], remembered = [], concurrent_barrier = [],
      marking = False, live_count = 0, gc_metrics = metrics_default\<rparr>"

section \<open>Roots\<close>

datatype root_kind =
    FrameRegisterRoot | FunctionConstantRoot | CurrentFunctionRoot | ArgumentRoot | ResultRoot
  | InlineCacheRoot | PreparedLeafCallTargetRoot | NativeSpillRoot | DeoptMaterializationRoot
  | HostPinnedRoot

type_synonym root_inventory = "(root_kind \<times> stable_handle) list"

definition root_insert :: "root_inventory \<Rightarrow> root_kind \<Rightarrow> stable_handle \<Rightarrow> root_inventory" where
  "root_insert roots k h = roots @ [(k, h)]"

definition root_handles :: "root_inventory \<Rightarrow> stable_handle list" where
  "root_handles roots = map snd roots"

definition root_kinds :: "root_inventory \<Rightarrow> root_kind list" where
  "root_kinds roots = map fst roots"

definition pinned_handles :: "gc_state \<Rightarrow> stable_handle list" where
  "pinned_handles st = map fst (host_pins st)"

definition host_root_inventory :: "gc_state \<Rightarrow> root_inventory" where
  "host_root_inventory st = map (\<lambda>h. (HostPinnedRoot, h)) (pinned_handles st)"

section \<open>Lookup\<close>

definition object_in :: "gc_state \<Rightarrow> location \<Rightarrow> gc_object option" where
  "object_in st l =
     (case l of
        Nursery i \<Rightarrow> (case get_at (gc_nursery st) i of
                       Some (Some cell) \<Rightarrow> Some (cell_object cell) | _ \<Rightarrow> None)
      | Old i \<Rightarrow> (case get_at (gc_old st) i of Some (Some obj) \<Rightarrow> Some obj | _ \<Rightarrow> None))"

definition gc_resolve :: "gc_state \<Rightarrow> stable_handle \<Rightarrow> gc_error + location" where
  "gc_resolve st h = map_err InvalidHandle (handle_resolve (gc_handles st) h)"

definition object_at :: "gc_state \<Rightarrow> stable_handle \<Rightarrow> gc_error + gc_object" where
  "object_at st h =
     and_then (gc_resolve st h) (\<lambda>l. ok_or (object_in st l) (InvalidHandle StaleHandle))"

definition scalar_at :: "gc_state \<Rightarrow> stable_handle \<Rightarrow> gc_error + scalar_value" where
  "scalar_at st h = and_then (object_at st h) (\<lambda>obj. ok_or (object_scalar obj) NotScalar)"

definition is_old :: "gc_state \<Rightarrow> stable_handle \<Rightarrow> bool" where
  "is_old st h = (case handle_resolve (gc_handles st) h of Inr (Old i) \<Rightarrow> True | _ \<Rightarrow> False)"

text \<open>A borrow gives an operation the epoch of the mutator and the object for its duration.\<close>

definition with_borrow ::
  "gc_state \<Rightarrow> u64 \<Rightarrow> stable_handle \<Rightarrow> (u64 \<times> gc_object \<Rightarrow> 'r) \<Rightarrow> gc_error + 'r" where
  "with_borrow st epoch h operation = map_ok (\<lambda>obj. operation (epoch, obj)) (object_at st h)"

text \<open>Writing through \<open>object_at_mut\<close>.\<close>

definition write_object :: "gc_state \<Rightarrow> location \<Rightarrow> gc_object \<Rightarrow> gc_state" where
  "write_object st l obj =
     (case l of
        Nursery i \<Rightarrow>
          st\<lparr>gc_nursery := (gc_nursery st)
               [i := map_option (\<lambda>cell. cell\<lparr>cell_object := obj\<rparr>) (gc_nursery st ! i)]\<rparr>
      | Old i \<Rightarrow> st\<lparr>gc_old := (gc_old st)[i := Some obj]\<rparr>)"

section \<open>Pins and stores\<close>

definition pin_host :: "gc_state \<Rightarrow> stable_handle \<Rightarrow> gc_state \<times> (gc_error + unit)" where
  "pin_host st h =
     (case gc_resolve st h of
        Inl e \<Rightarrow> (st, Inl e)
      | Inr l \<Rightarrow>
          let n = (case map_of (host_pins st) h of None \<Rightarrow> 0 | Some n \<Rightarrow> n);
              st' = st\<lparr>host_pins := AList.update h n (host_pins st)\<rparr>
          in if n = usize_max then (st', Inl HostPinOverflow)
             else (st\<lparr>host_pins := AList.update h (Suc n) (host_pins st)\<rparr>, Inr ()))"

definition unpin_host :: "gc_state \<Rightarrow> stable_handle \<Rightarrow> gc_state \<times> (gc_error + unit)" where
  "unpin_host st h =
     (case gc_resolve st h of
        Inl e \<Rightarrow> (st, Inl e)
      | Inr l \<Rightarrow>
          (case map_of (host_pins st) h of
             Some n \<Rightarrow>
               if n > 1 then (st\<lparr>host_pins := AList.update h (n - 1) (host_pins st)\<rparr>, Inr ())
               else (st\<lparr>host_pins := AList.delete h (host_pins st)\<rparr>, Inr ())
           | None \<Rightarrow> (st, Inr ())))"

definition store_reference ::
  "gc_state \<Rightarrow> stable_handle \<Rightarrow> stable_handle \<Rightarrow> gc_state \<times> (gc_error + unit)" where
  "store_reference st own tgt =
     (case gc_resolve st own of
        Inl e \<Rightarrow> (st, Inl e)
      | Inr own_location \<Rightarrow>
          (case gc_resolve st tgt of
             Inl e \<Rightarrow> (st, Inl e)
           | Inr tgt_location \<Rightarrow>
               (case object_at st own of
                  Inl e \<Rightarrow> (st, Inl e)
                | Inr obj \<Rightarrow>
                    let st1 = write_object st own_location
                                (obj\<lparr>object_references := object_references obj @ [tgt]\<rparr>);
                        st2 = (if \<not> is_nursery own_location \<and> is_nursery tgt_location
                               then st1\<lparr>remembered := List.insert own (remembered st1)\<rparr> else st1);
                        st3 = (if marking st2
                               then st2\<lparr>concurrent_barrier := List.insert tgt (concurrent_barrier st2)\<rparr>
                               else st2)
                    in (st3, Inr ()))))"

end
