(* ===== verification/Gc_Collection.thy ===== *)
theory Gc_Collection
  imports Gc_Heap
begin

text \<open>
  The collections of the adaptive heap (\<open>heap/collection.rs\<close>, \<open>heap/major.rs\<close>) and the
  allocations that may start one (\<open>heap.rs\<close>, \<open>heap/transaction.rs\<close>): the breadth-first traces,
  the copying of the nursery with promotion by age, and the major cycle, whose marker works on
  a snapshot of the objects while the mutator goes on and whose end sweeps the old generation.
\<close>

section \<open>Traces\<close>

text \<open>
  The three traces take the queue from the front and append the references of what they visit.
  Their termination is the finiteness of the handles that occur in the heap.
\<close>

definition snapshot_children ::
  "(stable_handle \<times> gc_object) list \<Rightarrow> stable_handle \<Rightarrow> stable_handle list" where
  "snapshot_children objs h =
     (case map_of objs h of None \<Rightarrow> [] | Some obj \<Rightarrow> object_references obj)"

definition current_children :: "gc_state \<Rightarrow> stable_handle \<Rightarrow> stable_handle list" where
  "current_children st h = (case object_at st h of Inl e \<Rightarrow> [] | Inr obj \<Rightarrow> object_references obj)"

definition nursery_objects :: "gc_state \<Rightarrow> gc_object set" where
  "nursery_objects st = {cell_object cell |cell. Some cell \<in> set (gc_nursery st)}"

definition old_objects :: "gc_state \<Rightarrow> gc_object set" where
  "old_objects st = {obj. Some obj \<in> set (gc_old st)}"

definition heap_references :: "gc_state \<Rightarrow> stable_handle set" where
  "heap_references st =
     (\<Union>obj \<in> nursery_objects st \<union> old_objects st. set (object_references obj))"

lemma finite_heap_references [simp]: "finite (heap_references st)"
proof -
  have "nursery_objects st = cell_object ` (the ` (set (gc_nursery st) \<inter> {c. c \<noteq> None}))"
    by (force simp: nursery_objects_def image_iff)
  moreover have "old_objects st = the ` (set (gc_old st) \<inter> {c. c \<noteq> None})"
    by (force simp: old_objects_def image_iff)
  ultimately show ?thesis by (simp add: heap_references_def)
qed

lemma object_in_objects:
  "object_in st l = Some obj \<Longrightarrow> obj \<in> nursery_objects st \<union> old_objects st"
  by (auto simp: object_in_def nursery_objects_def old_objects_def split: location.splits option.splits)
     (metis nth_mem)+

lemma object_at_references:
  "object_at st h = Inr obj \<Longrightarrow> set (object_references obj) \<subseteq> heap_references st"
  by (auto simp: object_at_def and_then_Inr_iff heap_references_def dest: object_in_objects)

lemma current_children_references: "set (current_children st h) \<subseteq> heap_references st"
  using object_at_references [of st h] by (cases "object_at st h") (auto simp: current_children_def)

definition snapshot_references :: "(stable_handle \<times> gc_object) list \<Rightarrow> stable_handle set" where
  "snapshot_references objs = (\<Union>p \<in> set objs. set (object_references (snd p)))"

lemma snapshot_children_references: "set (snapshot_children objs h) \<subseteq> snapshot_references objs"
proof (cases "map_of objs h")
  case (Some obj)
  then have "(h, obj) \<in> set objs" by (rule map_of_SomeD)
  then show ?thesis using Some by (force simp: snapshot_children_def snapshot_references_def)
qed (simp add: snapshot_children_def)

function mark_snapshot ::
  "(stable_handle \<times> gc_object) list \<Rightarrow> stable_handle set \<Rightarrow> stable_handle list \<Rightarrow> stable_handle set" where
  "mark_snapshot objs marked [] = marked"
| "mark_snapshot objs marked (h # queue) =
     (if h \<in> marked then mark_snapshot objs marked queue
      else mark_snapshot objs (insert h marked) (queue @ snapshot_children objs h))"
  by pat_completeness auto

termination mark_snapshot
proof (relation "measures [\<lambda>(objs, marked, queue). card ((snapshot_references objs \<union> set queue) - marked),
                           \<lambda>(objs, marked, queue). length queue]", goal_cases)
  case (2 objs marked h queue)
  have "finite (snapshot_references objs)" by (simp add: snapshot_references_def)
  then show ?case using 2 skip_decreases [of "snapshot_references objs" h marked queue] by auto
next
  case (3 objs marked h queue)
  have "finite (snapshot_references objs)" by (simp add: snapshot_references_def)
  then show ?case
    using visit_decreases [OF _ 3 snapshot_children_references, of objs queue h] by simp
qed simp

function trace_current ::
  "gc_state \<Rightarrow> stable_handle set \<Rightarrow> stable_handle list \<Rightarrow> stable_handle set" where
  "trace_current st marked [] = marked"
| "trace_current st marked (h # queue) =
     (if h \<in> marked then trace_current st marked queue
      else trace_current st (insert h marked) (queue @ current_children st h))"
  by pat_completeness auto

termination trace_current
proof (relation "measures [\<lambda>(st, marked, queue). card ((heap_references st \<union> set queue) - marked),
                           \<lambda>(st, marked, queue). length queue]", goal_cases)
  case (2 st marked h queue)
  then show ?case using skip_decreases [of "heap_references st" h marked queue] by auto
next
  case (3 st marked h queue)
  then show ?case
    using visit_decreases [OF _ 3 current_children_references, of st queue h] by simp
qed simp

function trace_nursery ::
  "gc_state \<Rightarrow> stable_handle set \<Rightarrow> stable_handle set \<Rightarrow> stable_handle list \<Rightarrow>
     gc_error + stable_handle set" where
  "trace_nursery st visited reachable [] = Inr reachable"
| "trace_nursery st visited reachable (h # queue) =
     (if h \<in> visited then trace_nursery st visited reachable queue
      else
        case gc_resolve st h of
          Inl e \<Rightarrow> trace_nursery st (insert h visited) reachable queue
        | Inr l \<Rightarrow>
            (case object_at st h of
               Inl e \<Rightarrow> Inl e
             | Inr obj \<Rightarrow>
                 trace_nursery st (insert h visited)
                   (if is_nursery l then insert h reachable else reachable)
                   (queue @ object_references obj)))"
  by pat_completeness auto

termination trace_nursery
proof (relation "measures [\<lambda>(st, visited, reachable, queue).
                             card ((heap_references st \<union> set queue) - visited),
                           \<lambda>(st, visited, reachable, queue). length queue]", goal_cases)
  case (2 st visited reachable h queue)
  then show ?case using skip_decreases [of "heap_references st" h visited queue] by auto
next
  case (3 st visited reachable h queue e)
  then show ?case using visit_decreases [of "heap_references st" h visited "[]" queue] by simp
next
  case (4 st visited reachable h queue l obj)
  then show ?case
    using visit_decreases [OF _ 4(1) object_at_references [OF 4(3)], of queue] by simp
qed simp

section \<open>Minor collection\<close>

definition completed_pause_micros :: "nat \<Rightarrow> u64" where
  "completed_pause_micros micros = (if micros < 2 ^ 64 then max (word_of_nat micros) 1 else - 1)"

fun sweep_nursery ::
  "gc_config \<Rightarrow> stable_handle set \<Rightarrow> gc_state \<Rightarrow> nursery_cell option list \<Rightarrow> u64 \<Rightarrow>
     stable_handle list \<Rightarrow> gc_state \<times> (gc_error + nursery_cell option list \<times> u64)" where
  "sweep_nursery cfg reachable st to_space n [] = (st, Inr (to_space, n))"
| "sweep_nursery cfg reachable st to_space n (h # hs) =
     (case gc_resolve st h of
        Inl e \<Rightarrow> (st, Inl e)
      | Inr (Old i) \<Rightarrow> sweep_nursery cfg reachable st to_space n hs
      | Inr (Nursery i) \<Rightarrow>
          (case get_at (gc_nursery st) i of
             None \<Rightarrow> sweep_nursery cfg reachable st to_space n hs
           | Some None \<Rightarrow> sweep_nursery cfg reachable st to_space n hs
           | Some (Some cell) \<Rightarrow>
               let st1 = st\<lparr>gc_nursery := (gc_nursery st)[i := None]\<rparr> in
               if h \<notin> reachable then
                 (case handle_release (gc_handles st1) h of
                    (t, Inl e) \<Rightarrow> (st1\<lparr>gc_handles := t\<rparr>, Inl (InvalidHandle e))
                  | (t, Inr l) \<Rightarrow>
                      sweep_nursery cfg reachable
                        (st1\<lparr>gc_handles := t, live_count := live_count st1 - 1\<rparr>) to_space n hs)
               else
                 let age = saturating_inc (cell_age cell) in
                 if promotion_age cfg \<le> age then
                   (case handle_assign (gc_handles st1) h (Old (length (gc_old st1))) of
                      (t, Inl e) \<Rightarrow>
                        (st1\<lparr>gc_handles := t, gc_old := gc_old st1 @ [Some (cell_object cell)]\<rparr>,
                         Inl (InvalidHandle e))
                    | (t, Inr u) \<Rightarrow>
                        sweep_nursery cfg reachable
                          (st1\<lparr>gc_handles := t, gc_old := gc_old st1 @ [Some (cell_object cell)]\<rparr>)
                          to_space (n + 1) hs)
                 else
                   (case handle_assign (gc_handles st1) h (Nursery (length to_space)) of
                      (t, Inl e) \<Rightarrow> (st1\<lparr>gc_handles := t\<rparr>, Inl (InvalidHandle e))
                    | (t, Inr u) \<Rightarrow>
                        sweep_nursery cfg reachable (st1\<lparr>gc_handles := t\<rparr>)
                          (to_space @ [Some (cell\<lparr>cell_age := age\<rparr>)]) n hs)))"

definition retain_remembered :: "gc_state \<Rightarrow> gc_state" where
  "retain_remembered st =
     st\<lparr>remembered := filter (\<lambda>h. h \<in> set (live_handles (gc_handles st))) (remembered st)\<rparr>"

definition count_minor :: "u64 \<Rightarrow> u64 \<Rightarrow> heap_metrics \<Rightarrow> heap_metrics" where
  "count_minor n pause m =
     m\<lparr>minor_collections := minor_collections m + 1, promotions := promotions m + n,
       pause_micros := saturating_add_u64 (pause_micros m) pause\<rparr>"

definition minor_seed :: "gc_state \<Rightarrow> root_inventory \<Rightarrow> stable_handle list" where
  "minor_seed st roots = root_handles roots @ pinned_handles st @ remembered st"

text \<open>The last argument is the time the collection took, in microseconds.\<close>

definition copy_nursery ::
  "gc_config \<Rightarrow> root_inventory \<Rightarrow> nat \<Rightarrow> gc_state \<Rightarrow> gc_state \<times> (gc_error + unit)" where
  "copy_nursery cfg roots elapsed st =
     (case trace_nursery st {} {} (minor_seed st roots) of
        Inl e \<Rightarrow> (st, Inl e)
      | Inr reachable \<Rightarrow>
          (case sweep_nursery cfg reachable st [] 0 (live_handles (gc_handles st)) of
             (st1, Inl e) \<Rightarrow> (st1, Inl e)
           | (st1, Inr (to_space, n)) \<Rightarrow>
               let st2 = retain_remembered (st1\<lparr>gc_nursery := to_space\<rparr>)
               in (st2\<lparr>gc_metrics := count_minor n (completed_pause_micros elapsed) (gc_metrics st2)\<rparr>,
                   Inr ())))"

section \<open>Major collection\<close>

record major_cycle =
  cycle_roots :: root_inventory
  cycle_objects :: "(stable_handle \<times> gc_object) list"
  cycle_seed :: "stable_handle list"

definition snapshot_objects :: "gc_state \<Rightarrow> gc_error + (stable_handle \<times> gc_object) list" where
  "snapshot_objects st =
     try_map (\<lambda>h. map_ok (\<lambda>obj. (h, obj)) (object_at st h)) (live_handles (gc_handles st))"

definition start_major ::
  "root_inventory \<Rightarrow> gc_state \<Rightarrow> gc_state \<times> (gc_error + major_cycle)" where
  "start_major roots st =
     (let st1 = st\<lparr>marking := True, concurrent_barrier := []\<rparr> in
      case snapshot_objects st1 of
        Inl e \<Rightarrow> (st1, Inl e)
      | Inr objs \<Rightarrow>
          (st1, Inr \<lparr>cycle_roots = roots, cycle_objects = objs,
                     cycle_seed = root_handles roots @ pinned_handles st1\<rparr>))"

text \<open>
  The marker thread computes \<open>mark_snapshot\<close> on data it owns, so its answer does not depend on
  when it runs; the cycle ends by joining it.
\<close>

definition cycle_marks :: "major_cycle \<Rightarrow> stable_handle set" where
  "cycle_marks c = mark_snapshot (cycle_objects c) {} (cycle_seed c)"

fun sweep_old ::
  "stable_handle set \<Rightarrow> gc_state \<Rightarrow> stable_handle list \<Rightarrow> gc_state \<times> (gc_error + unit)" where
  "sweep_old live st [] = (st, Inr ())"
| "sweep_old live st (h # hs) =
     (if (case gc_resolve st h of Inr (Old i) \<Rightarrow> True | _ \<Rightarrow> False) \<and> h \<notin> live then
        (case handle_release (gc_handles st) h of
           (t, Inl e) \<Rightarrow> (st\<lparr>gc_handles := t\<rparr>, Inl (InvalidHandle e))
         | (t, Inr (Nursery i)) \<Rightarrow> sweep_old live (st\<lparr>gc_handles := t\<rparr>) hs
         | (t, Inr (Old i)) \<Rightarrow>
             sweep_old live
               (st\<lparr>gc_handles := t, gc_old := (gc_old st)[i := None],
                  live_count := live_count st - 1\<rparr>) hs)
      else sweep_old live st hs)"

definition finish_seed :: "major_cycle \<Rightarrow> gc_state \<Rightarrow> stable_handle list" where
  "finish_seed c st = root_handles (cycle_roots c) @ pinned_handles st @ concurrent_barrier st"

definition count_major :: "u64 \<Rightarrow> heap_metrics \<Rightarrow> heap_metrics" where
  "count_major pause m =
     m\<lparr>major_collections := major_collections m + 1,
       pause_micros := saturating_add_u64 (pause_micros m) pause\<rparr>"

text \<open>Dropping a cycle, which also ends a cycle that is finished, resets the marking state.\<close>

definition drop_cycle :: "gc_state \<Rightarrow> gc_state" where
  "drop_cycle st = st\<lparr>marking := False, concurrent_barrier := []\<rparr>"

definition finish_major ::
  "major_cycle \<Rightarrow> nat \<Rightarrow> gc_state \<Rightarrow> gc_state \<times> (gc_error + unit)" where
  "finish_major c elapsed st =
     (let live = trace_current st {} (finish_seed c st) \<union> cycle_marks c in
      case sweep_old live st (live_handles (gc_handles st)) of
        (st1, Inl e) \<Rightarrow> (drop_cycle st1, Inl e)
      | (st1, Inr u) \<Rightarrow>
          let st2 = retain_remembered (st1\<lparr>marking := False, concurrent_barrier := []\<rparr>)
          in (drop_cycle (st2\<lparr>gc_metrics := count_major (completed_pause_micros elapsed) (gc_metrics st2)\<rparr>),
              Inr ()))"

section \<open>Allocation\<close>

definition count_allocation :: "u64 \<Rightarrow> heap_metrics \<Rightarrow> heap_metrics" where
  "count_allocation n m =
     m\<lparr>allocations := allocations m + 1,
       allocated_bytes := saturating_add_u64 (allocated_bytes m) n\<rparr>"

definition forced_minor ::
  "gc_config \<Rightarrow> root_inventory \<Rightarrow> nat \<Rightarrow> gc_state \<Rightarrow> gc_state \<times> (gc_error + unit)" where
  "forced_minor cfg roots elapsed st =
     (if collect_every_allocation cfg then copy_nursery cfg roots elapsed st else (st, Inr ()))"

definition push_nursery :: "gc_state \<Rightarrow> gc_object \<Rightarrow> gc_state \<times> (gc_error + stable_handle)" where
  "push_nursery st obj =
     (case handle_allocate (gc_handles st) (Nursery (length (gc_nursery st))) of
        (t, Inl e) \<Rightarrow> (st\<lparr>gc_handles := t\<rparr>, Inl (InvalidHandle e))
      | (t, Inr h) \<Rightarrow>
          (st\<lparr>gc_handles := t,
             gc_nursery := gc_nursery st @ [Some \<lparr>cell_object = obj, cell_age = 0\<rparr>]\<rparr>, Inr h))"

text \<open>\<open>bytes\<close> is what \<open>owned_bytes\<close> answers for the object; \<open>elapsed\<close> times a forced collection.\<close>

definition allocate_with_roots ::
  "gc_config \<Rightarrow> gc_object \<Rightarrow> u64 \<Rightarrow> root_inventory \<Rightarrow> nat \<Rightarrow> gc_state \<Rightarrow>
     gc_state \<times> (gc_error + stable_handle)" where
  "allocate_with_roots cfg obj bytes roots elapsed st =
     (case forced_minor cfg roots elapsed st of
        (st1, Inl e) \<Rightarrow> (st1, Inl e)
      | (st1, Inr u) \<Rightarrow>
          if (case allocation_limit cfg of None \<Rightarrow> False | Some limit \<Rightarrow> limit \<le> live_count st1)
          then (st1, Inl AllocationLimit)
          else
            (case push_nursery st1 obj of
               (st2, Inl e) \<Rightarrow> (st2, Inl e)
             | (st2, Inr h) \<Rightarrow>
                 (st2\<lparr>live_count := Suc (live_count st2),
                     gc_metrics := count_allocation bytes (gc_metrics st2)\<rparr>, Inr h)))"

datatype batch_reference = BatchObjectAt nat | BatchExternal stable_handle

type_synonym batch_object = "batch_reference list"

definition check_batch_reference ::
  "gc_state \<Rightarrow> nat \<Rightarrow> batch_reference \<Rightarrow> gc_error + unit" where
  "check_batch_reference st n r =
     (case r of
        BatchObjectAt i \<Rightarrow> ensure (i < n) (InvalidHandle StaleHandle)
      | BatchExternal h \<Rightarrow> map_ok (\<lambda>l. ()) (gc_resolve st h))"

fun push_blanks ::
  "nat \<Rightarrow> gc_state \<Rightarrow> stable_handle list \<Rightarrow> gc_state \<times> (gc_error + stable_handle list)" where
  "push_blanks 0 st hs = (st, Inr hs)"
| "push_blanks (Suc n) st hs =
     (case push_nursery st gc_object_new of
        (st1, Inl e) \<Rightarrow> (st1, Inl e)
      | (st1, Inr h) \<Rightarrow> push_blanks n st1 (hs @ [h]))"

definition batch_target :: "stable_handle list \<Rightarrow> batch_reference \<Rightarrow> stable_handle" where
  "batch_target hs r = (case r of BatchObjectAt i \<Rightarrow> hs ! i | BatchExternal h \<Rightarrow> h)"

fun fill_batch ::
  "stable_handle list \<Rightarrow> nat \<Rightarrow> batch_object list \<Rightarrow> gc_state \<Rightarrow> gc_state" where
  "fill_batch hs i [] st = st"
| "fill_batch hs i (obj # objs) st =
     fill_batch hs (Suc i) objs
       (case get_at (gc_nursery st) i of
          Some (Some cell) \<Rightarrow>
            st\<lparr>gc_nursery := (gc_nursery st)
                 [i := Some (cell\<lparr>cell_object := with_references (map (batch_target hs) obj)\<rparr>)]\<rparr>
        | _ \<Rightarrow> st)"

definition allocate_graph_with_roots ::
  "gc_config \<Rightarrow> batch_object list \<Rightarrow> root_inventory \<Rightarrow> nat \<Rightarrow> gc_state \<Rightarrow>
     gc_state \<times> (gc_error + stable_handle list)" where
  "allocate_graph_with_roots cfg objs roots elapsed st =
     (case forced_minor cfg roots elapsed st of
        (st1, Inl e) \<Rightarrow> (st1, Inl e)
      | (st1, Inr u) \<Rightarrow>
          let n = length objs;
              within = (case allocation_limit cfg of None \<Rightarrow> True
                        | Some limit \<Rightarrow> saturating_add_usize (live_count st1) n \<le> limit)
          in if \<not> within \<or> remaining_capacity (gc_handles st1) < n then (st1, Inl AllocationLimit)
             else
               (case try_all (try_all (check_batch_reference st1 n)) objs of
                  Inl e \<Rightarrow> (st1, Inl e)
                | Inr v \<Rightarrow>
                    (case push_blanks n st1 [] of
                       (st2, Inl e) \<Rightarrow> (st2, Inl e)
                     | (st2, Inr hs) \<Rightarrow>
                         let st3 = fill_batch hs (length (gc_nursery st2) - n) objs st2
                         in (st3\<lparr>live_count := live_count st3 + n\<rparr>, Inr hs))))"

end
