(* ===== verification/Gc_Trace_Laws.thy ===== *)
theory Gc_Trace_Laws
  imports Gc_Collection
begin

text \<open>
  What the traces of the adaptive heap compute: the handles reachable from their queue. The
  argument is made once, for any loop that takes a handle from the front of a queue, skips it
  when it is marked and otherwise marks it and appends its children; the three traces of the
  collector are instances.
\<close>

section \<open>Breadth-first marking\<close>

definition edges :: "('h \<Rightarrow> 'h list) \<Rightarrow> ('h \<times> 'h) set" where
  "edges ch = {(a, b). b \<in> set (ch a)}"

lemma edges_iff [simp]: "(a, b) \<in> edges ch \<longleftrightarrow> b \<in> set (ch a)"
  by (simp add: edges_def)

definition reach :: "('h \<Rightarrow> 'h list) \<Rightarrow> 'h set \<Rightarrow> 'h set" where
  "reach ch S = (edges ch)\<^sup>* `` S"

lemma reach_start: "x \<in> S \<Longrightarrow> x \<in> reach ch S"
  by (auto simp: reach_def)

lemma reach_step: "x \<in> reach ch S \<Longrightarrow> y \<in> set (ch x) \<Longrightarrow> y \<in> reach ch S"
  unfolding reach_def Image_iff by (meson edges_iff rtrancl_into_rtrancl)

lemma reach_least:
  assumes "S \<subseteq> M" "\<And>x. x \<in> M \<Longrightarrow> set (ch x) \<subseteq> M"
  shows "reach ch S \<subseteq> M"
proof
  fix y assume "y \<in> reach ch S"
  then obtain x where "x \<in> S" "(x, y) \<in> (edges ch)\<^sup>*" by (auto simp: reach_def)
  from this(2) show "y \<in> M"
    by induction (use \<open>x \<in> S\<close> assms in \<open>auto dest: subsetD\<close>)
qed

locale marking_loop =
  fixes children :: "'h \<Rightarrow> 'h list"
    and universe :: "'h set"
    and loop :: "'h set \<Rightarrow> 'h list \<Rightarrow> 'h set"
  assumes finite_universe: "finite universe"
    and in_universe: "set (children h) \<subseteq> universe"
    and loop_Nil: "loop V [] = V"
    and loop_Cons: "loop V (h # q) =
                      (if h \<in> V then loop V q else loop (insert h V) (q @ children h))"
begin

lemma loop_induct [case_names Nil Cons]:
  assumes "\<And>V. P V []"
    and "\<And>V h q. (h \<in> V \<Longrightarrow> P V q) \<Longrightarrow> (h \<notin> V \<Longrightarrow> P (insert h V) (q @ children h)) \<Longrightarrow> P V (h # q)"
  shows "P V q"
proof (induction "(V, q)" arbitrary: V q
       rule: wf_induct [OF wf_measures, of "[\<lambda>(V, q). card ((universe \<union> set q) - V), \<lambda>(V, q). length q]"])
  case (1 V q)
  show ?case
  proof (cases q)
    case (Cons h q')
    have "P V q'" if "h \<in> V"
      using 1 Cons skip_decreases [OF finite_universe that, of q']
      by (auto simp: le_less)
    moreover have "P (insert h V) (q' @ children h)" if "h \<notin> V"
      using 1 Cons visit_decreases [OF finite_universe that in_universe, of q' h] by simp
    ultimately show ?thesis using assms(2) Cons by simp
  qed (simp add: assms(1))
qed

lemma loop_reach: "(\<And>x. x \<in> V \<Longrightarrow> set (children x) \<subseteq> V \<union> set q) \<Longrightarrow> loop V q = reach children (V \<union> set q)"
proof (induction V q rule: loop_induct)
  case (Nil V)
  then have "reach children V \<subseteq> V" by (intro reach_least) auto
  then show ?case by (auto simp: loop_Nil intro: reach_start)
next
  case (Cons V h q)
  show ?case
  proof (cases "h \<in> V")
    case True
    then have "V \<union> set (h # q) = V \<union> set q" by auto
    then show ?thesis using Cons True by (simp add: loop_Cons)
  next
    case False
    have closed: "set (children x) \<subseteq> insert h V \<union> set (q @ children h)" if "x \<in> insert h V" for x
      using Cons.prems [of x] that by auto
    have "reach children (insert h V \<union> set (q @ children h)) = reach children (V \<union> set (h # q))"
      (is "reach children ?A = reach children ?B")
    proof
      have "?A \<subseteq> reach children ?B"
        by (auto intro: reach_start reach_step [of h])
      then show "reach children ?A \<subseteq> reach children ?B"
        by (rule reach_least) (auto intro: reach_step)
      have "?B \<subseteq> reach children ?A" by (auto intro: reach_start)
      then show "reach children ?B \<subseteq> reach children ?A"
        by (rule reach_least) (auto intro: reach_step)
    qed
    then show ?thesis using Cons.IH(2) [OF False closed] False by (simp add: loop_Cons)
  qed
qed

lemma loop_marks: "loop {} q = reach children (set q)"
  using loop_reach [of "{}" q] by simp

end

interpretation snapshot_loop: marking_loop "snapshot_children objs" "snapshot_references objs"
    "mark_snapshot objs"
  for objs
  by unfold_locales
     (simp_all add: snapshot_children_references, simp add: snapshot_references_def)

interpretation current_loop: marking_loop "current_children st" "heap_references st"
    "trace_current st"
  for st
  by unfold_locales (simp_all add: current_children_references)

section \<open>The heap as a map from handles to objects\<close>

definition gc_map :: "gc_state \<Rightarrow> stable_handle \<Rightarrow> gc_object option" where
  "gc_map st h = (case object_at st h of Inl e \<Rightarrow> None | Inr obj \<Rightarrow> Some obj)"

definition gc_reach :: "gc_state \<Rightarrow> stable_handle set \<Rightarrow> stable_handle set" where
  "gc_reach st S = reach (current_children st) S"

abbreviation gc_table :: "gc_state \<Rightarrow> stable_handle \<Rightarrow> location option" where
  "gc_table st \<equiv> table_map (gc_handles st)"

definition gc_ok :: "gc_state \<Rightarrow> bool" where
  "gc_ok st \<longleftrightarrow>
     table_wf (gc_handles st) \<and>
     (\<forall>h l. gc_table st h = Some l \<longrightarrow> object_in st l \<noteq> None) \<and>
     (\<forall>h k l. gc_table st h = Some l \<longrightarrow> gc_table st k = Some l \<longrightarrow> h = k) \<and>
     live_count st = card (dom (gc_table st)) \<and>
     distinct (pinned_handles st) \<and>
     set (pinned_handles st) \<subseteq> dom (gc_table st) \<and>
     set (remembered st) \<subseteq> dom (gc_table st)"

lemma gc_resolve_iff: "gc_resolve st h = Inr l \<longleftrightarrow> gc_table st h = Some l"
  by (simp add: gc_resolve_def resolve_iff)

lemma gc_resolve_None: "gc_table st h = None \<Longrightarrow> \<exists>e. gc_resolve st h = Inl (InvalidHandle e)"
  by (auto simp: gc_resolve_def resolve_None)

lemma gc_map_table: "gc_map st h = Option.bind (gc_table st h) (object_in st)"
proof (cases "gc_table st h")
  case None
  then show ?thesis using gc_resolve_None [OF None] by (auto simp: gc_map_def object_at_def)
next
  case (Some l)
  then have "gc_resolve st h = Inr l" by (simp add: gc_resolve_iff)
  then show ?thesis using Some by (cases "object_in st l") (auto simp: gc_map_def object_at_def)
qed

lemma gc_ok_dom: "gc_ok st \<Longrightarrow> dom (gc_map st) = dom (gc_table st)"
  unfolding gc_ok_def dom_def gc_map_table by (fastforce simp: bind_eq_Some_conv)

lemma object_at_iff: "object_at st h = Inr obj \<longleftrightarrow> gc_map st h = Some obj"
  by (auto simp: gc_map_def split: sum.splits)

lemma current_children_map:
  "current_children st h = (case gc_map st h of None \<Rightarrow> [] | Some obj \<Rightarrow> object_references obj)"
  by (auto simp: current_children_def gc_map_def split: sum.splits)

lemma gc_reach_cong: "gc_map st = gc_map st' \<Longrightarrow> gc_reach st S = gc_reach st' S"
  by (simp add: gc_reach_def current_children_map fun_eq_iff edges_def reach_def)

definition nursery_handle :: "gc_state \<Rightarrow> stable_handle \<Rightarrow> bool" where
  "nursery_handle st h \<longleftrightarrow> (\<exists>i. gc_table st h = Some (Nursery i))"

lemma trace_current_mono: "V \<subseteq> trace_current st V q"
  by (induction V q rule: current_loop.loop_induct [of _ st]) (auto split: if_splits)

text \<open>The trace of the minor collection adds the nursery handles among those it marks.\<close>

lemma trace_nursery_current:
  assumes "gc_ok st"
  shows "trace_nursery st V R q =
           Inr (R \<union> {h \<in> trace_current st V q - V. nursery_handle st h})"
proof (induction V q arbitrary: R rule: current_loop.loop_induct [of _ st])
  case (Cons V h q)
  show ?case
  proof (cases "h \<in> V")
    case False
    note mono = trace_current_mono [of "insert h V" st "q @ current_children st h"]
    show ?thesis
    proof (cases "gc_table st h")
      case None
      then have "current_children st h = []" and "\<not> nursery_handle st h"
        and "\<exists>e. gc_resolve st h = Inl e"
        using gc_resolve_None [OF None] by (auto simp: current_children_map gc_map_table nursery_handle_def)
      then show ?thesis using Cons.IH(2) [OF False, of R] False mono by auto
    next
      case (Some l)
      then obtain obj where obj: "object_at st h = Inr obj"
        using gc_ok_dom [OF assms] by (metis domD domI object_at_iff)
      have l: "gc_resolve st h = Inr l" using Some by (simp add: gc_resolve_iff)
      have n: "nursery_handle st h \<longleftrightarrow> is_nursery l"
        using Some by (cases l) (auto simp: nursery_handle_def)
      have ch: "current_children st h = object_references obj" using obj by (simp add: current_children_def)
      show ?thesis
        using Cons.IH(2) [OF False, of "if is_nursery l then insert h R else R"] False mono l obj ch n
        by auto
    qed
  qed (use Cons in simp)
qed simp

lemma trace_nursery_reach:
  "gc_ok st \<Longrightarrow> trace_nursery st {} {} q = Inr {h \<in> gc_reach st (set q). nursery_handle st h}"
  by (simp add: trace_nursery_current current_loop.loop_marks gc_reach_def)

end
