(* ===== verification/Gc_Laws.thy ===== *)
theory Gc_Laws
  imports Gc_Trace_Laws
begin

text \<open>
  The collections of the adaptive heap as operations on the map from handles to objects: a minor
  collection restricts it to the old generation and to what the roots reach, a major cycle to
  the nursery and to what was marked, and an allocation adds one fresh handle.
\<close>

section \<open>The sweep of the nursery\<close>

text \<open>
  During the sweep the handles still to be visited (\<open>todo\<close>) refer to the old nursery and the
  visited ones to the new one. No two handles of the same side share a location, and every
  location holds an object.
\<close>

definition placed ::
  "(stable_handle \<Rightarrow> location option) \<Rightarrow> (stable_handle \<Rightarrow> location \<Rightarrow> gc_object option) \<Rightarrow>
     stable_handle set \<Rightarrow> bool" where
  "placed tm at todo \<longleftrightarrow>
     (\<forall>h l. tm h = Some l \<longrightarrow> at h l \<noteq> None) \<and>
     (\<forall>h k l. tm h = Some l \<longrightarrow> tm k = Some l \<longrightarrow>
        (is_nursery l \<longrightarrow> (h \<in> todo \<longleftrightarrow> k \<in> todo)) \<longrightarrow> h = k)"

lemma placed_object: "placed tm at todo \<Longrightarrow> tm h = Some l \<Longrightarrow> \<exists>obj. at h l = Some obj"
  by (auto simp: placed_def)

lemma placed_unique:
  "placed tm at todo \<Longrightarrow> tm h = Some l \<Longrightarrow> tm k = Some l \<Longrightarrow>
   (is_nursery l \<Longrightarrow> (h \<in> todo \<longleftrightarrow> k \<in> todo)) \<Longrightarrow> h = k"
  unfolding placed_def by blast

lemma placed_update:
  assumes p: "placed tm at todo"
    and same: "\<And>k l. k \<noteq> h \<Longrightarrow> tm k = Some l \<Longrightarrow> at' k l = at k l"
    and new: "\<And>l. new = Some l \<Longrightarrow> at' h l \<noteq> None"
    and fresh: "\<And>k l. k \<noteq> h \<Longrightarrow> tm k = Some l \<Longrightarrow> new = Some l \<Longrightarrow> is_nursery l \<and> k \<in> todo"
  shows "placed (tm(h := new)) at' (todo - {h})"
  unfolding placed_def
proof (intro conjI allI impI)
  fix k l assume "(tm(h := new)) k = Some l"
  then show "at' k l \<noteq> None"
    using new same placed_object [OF p] by (cases "k = h") fastforce+
next
  fix k j l
  assume k: "(tm(h := new)) k = Some l" and j: "(tm(h := new)) j = Some l"
    and side: "is_nursery l \<longrightarrow> (k \<in> todo - {h}) = (j \<in> todo - {h})"
  have apart: False if "m \<noteq> h" "tm m = Some l" "new = Some l"
    and "is_nursery l \<longrightarrow> (m \<in> todo - {h}) = (h \<in> todo - {h})" for m
    using fresh [OF that(1-3)] that(1,4) by simp
  show "k = j"
  proof (cases "k = h \<or> j = h")
    case True
    then consider "k = h" "j = h" | "k = h" "j \<noteq> h" | "k \<noteq> h" "j = h" by blast
    then show ?thesis
    proof cases
      case 2
      then show ?thesis using apart [of j] k j side by simp
    next
      case 3
      then show ?thesis using apart [of k] k j side by simp
    qed simp
  next
    case False
    then show ?thesis using k j side by (intro placed_unique [OF p]) auto
  qed
qed

definition located :: "gc_state \<Rightarrow> nursery_cell option list \<Rightarrow> stable_handle set \<Rightarrow> stable_handle \<Rightarrow> location \<Rightarrow> gc_object option" where
  "located st to_space todo h l =
     object_in (if h \<in> todo then st else st\<lparr>gc_nursery := to_space\<rparr>) l"

definition mixed_map :: "gc_state \<Rightarrow> nursery_cell option list \<Rightarrow> stable_handle set \<Rightarrow> stable_handle \<Rightarrow> gc_object option" where
  "mixed_map st to_space todo h =
     (case gc_table st h of None \<Rightarrow> None | Some l \<Rightarrow> located st to_space todo h l)"

definition sweep_ok :: "gc_state \<Rightarrow> nursery_cell option list \<Rightarrow> stable_handle set \<Rightarrow> bool" where
  "sweep_ok st to_space todo \<longleftrightarrow>
     table_wf (gc_handles st) \<and> todo \<subseteq> dom (gc_table st) \<and>
     placed (gc_table st) (located st to_space todo) todo \<and>
     live_count st = card (dom (gc_table st))"

lemma finite_gc_table [simp]: "table_wf (gc_handles st) \<Longrightarrow> finite (dom (gc_table st))"
  by (metis List.finite_set set_live_handles)

text \<open>A step of the sweep that gives one handle a new location, or none.\<close>

lemma sweep_step:
  assumes ok: "sweep_ok st ts todo" and live: "h \<in> dom (gc_table st)"
    and wf: "table_wf (gc_handles st')" and tab: "gc_table st' = (gc_table st)(h := new)"
    and count: "live_count st' = live_count st - (if new = None then 1 else 0)"
    and same: "\<And>k l. k \<noteq> h \<Longrightarrow> gc_table st k = Some l \<Longrightarrow>
                 located st' ts' (todo - {h}) k l = located st ts todo k l"
    and new: "\<And>l. new = Some l \<Longrightarrow> located st' ts' (todo - {h}) h l = Some obj"
    and fresh: "\<And>k l. k \<noteq> h \<Longrightarrow> gc_table st k = Some l \<Longrightarrow> new = Some l \<Longrightarrow> is_nursery l \<and> k \<in> todo"
  shows "sweep_ok st' ts' (todo - {h})"
    "mixed_map st' ts' (todo - {h}) =
       (mixed_map st ts todo)(h := (if new = None then None else Some obj))"
proof -
  have "placed ((gc_table st)(h := new)) (located st' ts' (todo - {h})) (todo - {h})"
    using ok same new fresh by (intro placed_update [of _ "located st ts todo"]) (auto simp: sweep_ok_def)
  moreover have "card (dom ((gc_table st)(h := new))) = live_count st - (if new = None then 1 else 0)"
    using ok live by (cases new) (auto simp: sweep_ok_def card_Diff_singleton insert_absorb)
  ultimately show "sweep_ok st' ts' (todo - {h})"
    using ok wf count unfolding sweep_ok_def tab by auto
  show "mixed_map st' ts' (todo - {h}) =
          (mixed_map st ts todo)(h := (if new = None then None else Some obj))"
  proof (rule ext)
    fix k
    show "mixed_map st' ts' (todo - {h}) k =
            ((mixed_map st ts todo)(h := (if new = None then None else Some obj))) k"
      using same [of k] new by (cases "k = h") (auto simp: mixed_map_def tab split: option.split)
  qed
qed

definition take_cell :: "gc_state \<Rightarrow> nat \<Rightarrow> gc_state" where
  "take_cell st i = st\<lparr>gc_nursery := (gc_nursery st)[i := None]\<rparr>"

lemma take_cell_simps [simp]:
  "gc_handles (take_cell st i) = gc_handles st" "gc_old (take_cell st i) = gc_old st"
  "live_count (take_cell st i) = live_count st" "host_pins (take_cell st i) = host_pins st"
  "remembered (take_cell st i) = remembered st" "marking (take_cell st i) = marking st"
  "concurrent_barrier (take_cell st i) = concurrent_barrier st"
  "gc_metrics (take_cell st i) = gc_metrics st"
  by (simp_all add: take_cell_def)

lemma taken_elsewhere:
  assumes ok: "sweep_ok st ts todo" and h: "gc_table st h = Some (Nursery i)" "h \<in> todo"
    and k: "k \<noteq> h" "k \<in> todo" "gc_table st k = Some l"
  shows "object_in (take_cell st i) l = object_in st l"
proof -
  have "l \<noteq> Nursery i"
    using ok h k placed_unique [of "gc_table st" "located st ts todo" todo k l h]
    by (auto simp: sweep_ok_def)
  then show ?thesis by (cases l) (simp_all add: object_in_def take_cell_def get_at_def)
qed

lemma sweep_okD:
  assumes "sweep_ok st ts todo"
  shows "table_wf (gc_handles st)" "todo \<subseteq> dom (gc_table st)"
    "placed (gc_table st) (located st ts todo) todo"
    "live_count st = card (dom (gc_table st))"
  using assms unfolding sweep_ok_def by blast+

lemma sweep_old:
  assumes "sweep_ok st ts todo" "gc_table st h = Some (Old i)" "h \<in> todo"
  shows "sweep_ok st ts (todo - {h})" "mixed_map st ts (todo - {h}) = mixed_map st ts todo"
proof -
  note ok = sweep_okD [OF assms(1)]
  obtain obj where obj: "located st ts todo h (Old i) = Some obj"
    using placed_object [OF ok(3) assms(2)] by blast
  have tab: "gc_table st = (gc_table st)(h := Some (Old i))" using assms(2) by auto
  have unique: "is_nursery l \<and> k \<in> todo"
    if "k \<noteq> h" "gc_table st k = Some l" "Some (Old i) = Some l" for k l
    using placed_unique [OF ok(3), of k l h] that assms(2) by auto
  have same: "located st ts (todo - {h}) k l = located st ts todo k l" if "k \<noteq> h" for k l
    using that by (simp add: located_def)
  have at: "located st ts (todo - {h}) h l = Some obj" if "Some (Old i) = Some l" for l
    using obj that assms(3) by (auto simp: located_def object_in_def)
  show "sweep_ok st ts (todo - {h})"
    by (rule sweep_step(1) [OF assms(1) _ ok(1) tab _ same at unique]) (use assms(2) in auto)
  have "mixed_map st ts (todo - {h}) = (mixed_map st ts todo)(h := Some obj)"
    by (subst sweep_step(2) [OF assms(1) _ ok(1) tab _ same at unique]) (use assms(2) in auto)
  moreover have "mixed_map st ts todo h = Some obj" using assms(2) obj by (simp add: mixed_map_def)
  ultimately show "mixed_map st ts (todo - {h}) = mixed_map st ts todo"
    by (simp add: fun_upd_idem)
qed

lemma sweep_release:
  assumes ok: "sweep_ok st ts todo" and h: "gc_table st h = Some (Nursery i)" "h \<in> todo"
    and rel: "handle_release (gc_handles st) h = (t, r)"
  defines "st' \<equiv> (take_cell st i)\<lparr>gc_handles := t, live_count := live_count st - 1\<rparr>"
  shows "r = Inr (Nursery i)" "gc_table st' = (gc_table st)(h := None)"
    "sweep_ok st' ts (todo - {h})"
    "mixed_map st' ts (todo - {h}) = (mixed_map st ts todo)(h := None)"
proof -
  note rm = release_map [OF h(1) rel]
  show "r = Inr (Nursery i)" by (rule rm(1))
  show tab: "gc_table st' = (gc_table st)(h := None)" using rm(2) by (simp add: st'_def)
  have wf: "table_wf (gc_handles st')"
    using release_wf [OF sweep_okD(1) [OF ok] h(1) rel] by (simp add: st'_def)
  have same: "located st' ts (todo - {h}) k l = located st ts todo k l"
    if "k \<noteq> h" "gc_table st k = Some l" for k l
    using taken_elsewhere [OF ok h that(1) _ that(2)] that(1)
    by (auto simp: located_def st'_def object_in_def take_cell_def cong: location.case_cong)
  show "sweep_ok st' ts (todo - {h})"
    by (rule sweep_step(1) [OF ok _ wf tab _ same]) (use h in \<open>auto simp: st'_def take_cell_def\<close>)
  show "mixed_map st' ts (todo - {h}) = (mixed_map st ts todo)(h := None)"
    by (subst sweep_step(2) [OF ok _ wf tab _ same])
       (use h in \<open>auto simp: st'_def take_cell_def\<close>)
qed

lemma sweep_move:
  assumes ok: "sweep_ok st ts todo" and h: "gc_table st h = Some (Nursery i)" "h \<in> todo"
    and cell: "get_at (gc_nursery st) i = Some (Some cell)"
    and move: "handle_assign (gc_handles st) h new = (t, r)"
    and rest: "gc_handles st' = t" "live_count st' = live_count st"
      "gc_nursery st' = (gc_nursery st)[i := None]"
    and keep: "\<And>k l. gc_table st k = Some l \<Longrightarrow> l \<noteq> Nursery i \<or> k \<notin> todo \<Longrightarrow>
                 located st' ts' (todo - {h}) k l = located (take_cell st i) ts todo k l"
    and at: "located st' ts' (todo - {h}) h new = Some (cell_object cell)"
    and fresh: "\<And>k. k \<noteq> h \<Longrightarrow> gc_table st k = Some new \<Longrightarrow> is_nursery new \<and> k \<in> todo"
  shows "r = Inr ()" "gc_table st' = (gc_table st)(h \<mapsto> new)"
    "sweep_ok st' ts' (todo - {h})" "mixed_map st' ts' (todo - {h}) = mixed_map st ts todo"
proof -
  have t: "t = put_entry (gc_handles st) h (LiveEntry (local_generation h) new)" and r: "r = Inr ()"
    using move assign_live [OF h(1)] by simp_all
  show "r = Inr ()" by (rule r)
  show tab: "gc_table st' = (gc_table st)(h \<mapsto> new)" using t rest put_live_map [OF h(1)] by simp
  have wf: "table_wf (gc_handles st')"
    using put_live_wf [OF sweep_okD(1) [OF ok] h(1)] t rest by simp
  have same: "located st' ts' (todo - {h}) k l = located st ts todo k l"
    if "k \<noteq> h" "gc_table st k = Some l" for k l
  proof -
    have "l \<noteq> Nursery i \<or> k \<notin> todo"
      using placed_unique [OF sweep_okD(3) [OF ok], of k l h] h that by auto
    moreover have "located (take_cell st i) ts todo k l = located st ts todo k l"
      using taken_elsewhere [OF ok h that(1) _ that(2)]
      by (auto simp: located_def take_cell_def object_in_def cong: location.case_cong)
    ultimately show ?thesis using keep [OF that(2)] by simp
  qed
  have old: "mixed_map st ts todo h = Some (cell_object cell)"
    using h cell by (simp add: mixed_map_def located_def object_in_def get_at_def)
  show "sweep_ok st' ts' (todo - {h})"
    by (rule sweep_step(1) [OF ok _ wf tab _ same, where obj = "cell_object cell"])
       (use h rest at fresh in auto)
  have "mixed_map st' ts' (todo - {h}) = (mixed_map st ts todo)(h := Some (cell_object cell))"
    by (subst sweep_step(2) [OF ok _ wf tab _ same, where obj = "cell_object cell"])
       (use h rest at fresh in auto)
  then show "mixed_map st' ts' (todo - {h}) = mixed_map st ts todo"
    using old by (simp add: fun_upd_idem)
qed

definition sweep_frame :: "gc_state \<Rightarrow> gc_state \<Rightarrow> bool" where
  "sweep_frame st st' \<longleftrightarrow>
     host_pins st' = host_pins st \<and> remembered st' = remembered st \<and>
     concurrent_barrier st' = concurrent_barrier st \<and> marking st' = marking st \<and>
     gc_metrics st' = gc_metrics st \<and> table_runtime (gc_handles st') = table_runtime (gc_handles st)"

lemma sweep_frame_trans: "sweep_frame a b \<Longrightarrow> sweep_frame b c \<Longrightarrow> sweep_frame a c"
  by (simp add: sweep_frame_def)

text \<open>What the sweep leaves out: the nursery handles that were not reached.\<close>

definition dropped :: "gc_state \<Rightarrow> stable_handle set \<Rightarrow> stable_handle list \<Rightarrow> stable_handle \<Rightarrow> bool" where
  "dropped st R hs h \<longleftrightarrow> h \<in> set hs \<and> nursery_handle st h \<and> h \<notin> R"

lemma sweep_nursery_restricts:
  assumes "sweep_ok st ts (set hs)" "distinct hs"
  shows "\<exists>st' ts' m. sweep_nursery cfg R st ts n hs = (st', Inr (ts', m)) \<and>
           sweep_ok st' ts' {} \<and> sweep_frame st st' \<and>
           mixed_map st' ts' {} =
             (\<lambda>h. if dropped st R hs h then None else mixed_map st ts (set hs) h)"
  using assms
proof (induction hs arbitrary: st ts n)
  case Nil
  then show ?case by (simp add: dropped_def sweep_frame_def)
next
  case (Cons h hs)
  have rest: "set (h # hs) - {h} = set hs" and tail: "distinct hs" and new: "h \<notin> set hs"
    using Cons.prems by auto
  have mem: "h \<in> set (h # hs)" by simp
  note ok = sweep_okD [OF Cons.prems(1)]
  obtain l where l: "gc_table st h = Some l" using ok(2) by auto
  then have res: "gc_resolve st h = Inr l" by (simp add: gc_resolve_iff)
  obtain obj where obj: "object_in st l = Some obj"
    using placed_object [OF ok(3) l] by (auto simp: located_def)
  show ?case
  proof (cases l)
    case (Old i)
    note step = sweep_old [OF Cons.prems(1) l [unfolded Old] mem, unfolded rest]
    have "dropped st R (h # hs) = dropped st R hs"
      using l Old by (auto simp: fun_eq_iff dropped_def nursery_handle_def)
    then show ?thesis using Cons.IH [OF step(1) tail, of n] res Old step(2)
      by (simp cong: if_cong)
  next
    case (Nursery i)
    then obtain cell where cell: "get_at (gc_nursery st) i = Some (Some cell)"
      using obj by (auto simp: object_in_def split: option.splits)
    note lN = l [unfolded Nursery]
    have take: "st\<lparr>gc_nursery := (gc_nursery st)[i := None]\<rparr> = take_cell st i"
      by (simp add: take_cell_def)
    show ?thesis
    proof (cases "h \<in> R")
      case False
      obtain t r where rel: "handle_release (gc_handles st) h = (t, r)" by fastforce
      define st1 where "st1 = (take_cell st i)\<lparr>gc_handles := t, live_count := live_count st - 1\<rparr>"
      note step = sweep_release [OF Cons.prems(1) lN mem rel, unfolded rest, folded st1_def]
      have frame: "sweep_frame st st1"
        using release_map(3) [OF l rel] by (simp add: sweep_frame_def st1_def)
      have drop: "dropped st1 R hs k \<longleftrightarrow> dropped st R (h # hs) k \<and> k \<noteq> h" for k
        using new step(2) by (auto simp: dropped_def nursery_handle_def)
      have "dropped st R (h # hs) h" using lN False by (simp add: dropped_def nursery_handle_def)
      then have "(\<lambda>k. if dropped st1 R hs k then None else mixed_map st1 ts (set hs) k) =
          (\<lambda>k. if dropped st R (h # hs) k then None else mixed_map st ts (set (h # hs)) k)"
        using step(4) drop by (auto simp: fun_eq_iff)
      moreover have "sweep_nursery cfg R st ts n (h # hs) = sweep_nursery cfg R st1 ts n hs"
        using res Nursery cell False rel step(1) by (simp add: take Let_def get_at_def st1_def)
      ultimately show ?thesis
        using Cons.IH [OF step(3) tail, of n]
        by (auto simp del: sweep_nursery.simps list.set intro: sweep_frame_trans [OF frame])
    next
      case True
      let ?age = "saturating_inc (cell_age cell)"
      define new_loc where
        "new_loc = (if promotion_age cfg \<le> ?age then Old (length (gc_old st)) else Nursery (length ts))"
      obtain t r where move: "handle_assign (gc_handles st) h new_loc = (t, r)" by fastforce
      define st1 where
        "st1 = (if promotion_age cfg \<le> ?age
                then (take_cell st i)\<lparr>gc_handles := t, gc_old := gc_old st @ [Some (cell_object cell)]\<rparr>
                else (take_cell st i)\<lparr>gc_handles := t\<rparr>)"
      define ts1 where
        "ts1 = (if promotion_age cfg \<le> ?age then ts else ts @ [Some (cell\<lparr>cell_age := ?age\<rparr>)])"
      have keep: "located st1 ts1 (set (h # hs) - {h}) k m = located (take_cell st i) ts (set (h # hs)) k m"
        if "gc_table st k = Some m" "m \<noteq> Nursery i \<or> k \<notin> set (h # hs)" for k m
      proof -
        note k = that
        have "k \<noteq> h" using k lN by auto
        moreover obtain x where "located st ts (set (h # hs)) k m = Some x"
          using placed_object [OF ok(3) k(1)] by blast
        ultimately show ?thesis
          by (cases m) (auto simp: located_def object_in_def st1_def ts1_def take_cell_def get_at_def
              nth_append split: if_splits option.splits)
      qed
      have at: "located st1 ts1 (set (h # hs) - {h}) h new_loc = Some (cell_object cell)"
        by (simp add: located_def object_in_def st1_def ts1_def new_loc_def get_at_def)
      have fresh: "is_nursery new_loc \<and> k \<in> set (h # hs)" if "k \<noteq> h" "gc_table st k = Some new_loc" for k
        using placed_object [OF ok(3) that(2)]
        by (auto simp: located_def object_in_def new_loc_def get_at_def split: if_splits)
      have parts: "gc_handles st1 = t" "live_count st1 = live_count st"
        "gc_nursery st1 = (gc_nursery st)[i := None]"
        by (simp_all add: st1_def take_cell_def)
      note move_step = sweep_move [OF Cons.prems(1) lN mem cell move parts, of ts1, unfolded rest]
      have step: "r = Inr ()" "gc_table st1 = (gc_table st)(h \<mapsto> new_loc)"
        "sweep_ok st1 ts1 (set hs)" "mixed_map st1 ts1 (set hs) = mixed_map st ts (set (h # hs))"
        by (rule move_step, fact keep [unfolded rest], fact at [unfolded rest], fact fresh)+
      have frame: "sweep_frame st st1"
        using assign_live [OF l, of new_loc] move by (simp add: sweep_frame_def st1_def)
      have "dropped st1 R hs = dropped st R (h # hs)"
      proof (rule ext)
        fix k
        have "gc_table st1 k = gc_table st k" if "k \<noteq> h"
          unfolding step(2) using that by (rule fun_upd_other)
        then show "dropped st1 R hs k = dropped st R (h # hs) k"
          using True new by (cases "k = h") (simp_all add: dropped_def nursery_handle_def)
      qed
      moreover obtain m where "sweep_nursery cfg R st ts n (h # hs) = sweep_nursery cfg R st1 ts1 m hs"
      proof (cases "promotion_age cfg \<le> ?age")
        case promote: True
        have "st1 = (take_cell st i)\<lparr>gc_handles := t, gc_old := gc_old st @ [Some (cell_object cell)]\<rparr>"
          and "ts1 = ts" and "handle_assign (gc_handles st) h (Old (length (gc_old st))) = (t, Inr ())"
          using promote move step(1) by (simp_all add: st1_def ts1_def new_loc_def)
        then have "sweep_nursery cfg R st ts n (h # hs) = sweep_nursery cfg R st1 ts1 (n + 1) hs"
          using res [unfolded Nursery] cell True promote by (simp add: take get_at_def)
        then show thesis by (rule that)
      next
        case stay: False
        have "st1 = (take_cell st i)\<lparr>gc_handles := t\<rparr>"
          and "ts1 = ts @ [Some (cell\<lparr>cell_age := ?age\<rparr>)]"
          and "handle_assign (gc_handles st) h (Nursery (length ts)) = (t, Inr ())"
          using stay move step(1) by (simp_all add: st1_def ts1_def new_loc_def)
        then have "sweep_nursery cfg R st ts n (h # hs) = sweep_nursery cfg R st1 ts1 n hs"
          using res [unfolded Nursery] cell True stay by (simp add: take get_at_def)
        then show thesis by (rule that)
      qed
      ultimately show ?thesis
        using Cons.IH [OF step(3) tail, of m] frame step(4)
        by (auto simp del: sweep_nursery.simps list.set intro: sweep_frame_trans [OF frame] cong: if_cong)
    qed
  qed
qed

section \<open>Minor collection\<close>

lemma gc_okD:
  assumes "gc_ok st"
  shows "table_wf (gc_handles st)" "gc_table st h = Some l \<Longrightarrow> \<exists>obj. object_in st l = Some obj"
    "gc_table st h = Some l \<Longrightarrow> gc_table st k = Some l \<Longrightarrow> h = k"
    "live_count st = card (dom (gc_table st))"
    "distinct (pinned_handles st)" "set (pinned_handles st) \<subseteq> dom (gc_table st)"
    "set (remembered st) \<subseteq> dom (gc_table st)"
  using assms unfolding gc_ok_def by blast+

lemma gc_ok_sweep:
  assumes "gc_ok st"
  shows "sweep_ok st [] (dom (gc_table st))" "mixed_map st [] (dom (gc_table st)) = gc_map st"
proof -
  have "placed (gc_table st) (located st [] (dom (gc_table st))) (dom (gc_table st))"
    using gc_okD(2,3) [OF assms] by (fastforce simp: placed_def located_def domI)
  then show "sweep_ok st [] (dom (gc_table st))"
    using gc_okD(1,4) [OF assms] by (simp add: sweep_ok_def)
  show "mixed_map st [] (dom (gc_table st)) = gc_map st"
    by (rule ext) (auto simp: mixed_map_def gc_map_table located_def split: option.split)
qed

lemma object_in_frame [simp]:
  "object_in (st\<lparr>remembered := x\<rparr>) = object_in st"
  "object_in (st\<lparr>gc_metrics := m\<rparr>) = object_in st"
  "object_in (st\<lparr>marking := b\<rparr>) = object_in st"
  "object_in (st\<lparr>concurrent_barrier := y\<rparr>) = object_in st"
  "object_in (st\<lparr>live_count := n\<rparr>) = object_in st"
  "object_in (st\<lparr>host_pins := p\<rparr>) = object_in st"
  "object_in (st\<lparr>gc_handles := t\<rparr>) = object_in st"
  by (simp_all add: fun_eq_iff object_in_def cong: location.case_cong)

lemma sweep_done_ok:
  assumes "sweep_ok st ts {}" "distinct (pinned_handles st)"
    and "set (pinned_handles st) \<subseteq> dom (gc_table st)"
  shows "gc_ok (retain_remembered (st\<lparr>gc_nursery := ts\<rparr>))"
    "gc_map (retain_remembered (st\<lparr>gc_nursery := ts\<rparr>)) = mixed_map st ts {}"
proof -
  note ok = sweep_okD [OF assms(1)]
  have obj: "\<exists>obj. object_in (st\<lparr>gc_nursery := ts\<rparr>) l = Some obj" if "gc_table st h = Some l" for h l
    using placed_object [OF ok(3) that] by (simp add: located_def)
  have unique: "h = k" if "gc_table st h = Some l" "gc_table st k = Some l" for h k l
    using placed_unique [OF ok(3) that] by simp
  show "gc_ok (retain_remembered (st\<lparr>gc_nursery := ts\<rparr>))"
    using ok(1,4) assms(2,3) obj unique
    by (force simp: gc_ok_def retain_remembered_def pinned_handles_def set_live_handles)
  show "gc_map (retain_remembered (st\<lparr>gc_nursery := ts\<rparr>)) = mixed_map st ts {}"
    by (rule ext)
       (simp add: gc_map_table retain_remembered_def mixed_map_def located_def split: option.split)
qed

lemma gc_ok_metrics [simp]: "gc_ok (st\<lparr>gc_metrics := m\<rparr>) = gc_ok st"
  by (simp add: gc_ok_def pinned_handles_def)

lemma gc_map_metrics [simp]: "gc_map (st\<lparr>gc_metrics := m\<rparr>) = gc_map st"
  by (rule ext) (simp add: gc_map_table)

definition survives_minor :: "gc_state \<Rightarrow> root_inventory \<Rightarrow> stable_handle set" where
  "survives_minor st roots =
     {h. is_old st h} \<union> gc_reach st (set (minor_seed st roots))"

lemma is_old_iff: "is_old st h \<longleftrightarrow> (\<exists>i. gc_table st h = Some (Old i))"
  by (auto simp: is_old_def table_map_def split: sum.splits location.splits)

lemma copy_nursery_restricts:
  assumes "gc_ok st"
  shows "\<exists>st'. copy_nursery cfg roots elapsed st = (st', Inr ()) \<and> gc_ok st' \<and>
           gc_map st' = gc_map st |` survives_minor st roots \<and>
           host_pins st' = host_pins st \<and> marking st' = marking st"
proof -
  let ?hs = "live_handles (gc_handles st)"
  let ?seed = "set (minor_seed st roots)"
  define R where "R = {h \<in> gc_reach st ?seed. nursery_handle st h}"
  have wf: "table_wf (gc_handles st)" by (rule gc_okD(1) [OF assms])
  have hs: "set ?hs = dom (gc_table st)" using wf by (rule set_live_handles)
  have dist: "distinct ?hs" using wf by (rule distinct_live_handles)
  obtain st1 ts m where sweep: "sweep_nursery cfg R st [] 0 ?hs = (st1, Inr (ts, m))"
    and ok1: "sweep_ok st1 ts {}" and frame: "sweep_frame st st1"
    and map1: "mixed_map st1 ts {} =
                 (\<lambda>h. if dropped st R ?hs h then None else mixed_map st [] (set ?hs) h)"
    using sweep_nursery_restricts [of st "[]" ?hs cfg R 0] gc_ok_sweep(1) [OF assms] hs dist by auto
  have kept: "mixed_map st1 ts {} = gc_map st |` survives_minor st roots"
  proof (rule ext)
    fix h
    have "dropped st R ?hs h \<longleftrightarrow> h \<in> dom (gc_table st) \<and> h \<notin> survives_minor st roots"
      using hs
      by (auto simp: dropped_def R_def survives_minor_def is_old_iff nursery_handle_def)
         (metis location.exhaust)
    moreover have "gc_map st h = None" if "h \<notin> dom (gc_table st)"
      using that gc_ok_dom [OF assms] by (metis domIff)
    ultimately show "mixed_map st1 ts {} h = (gc_map st |` survives_minor st roots) h"
      using map1 gc_ok_sweep(2) [OF assms] hs by (auto simp: restrict_map_def)
  qed
  have dom1: "dom (mixed_map st1 ts {}) = dom (gc_table st1)"
    using placed_object [OF sweep_okD(3) [OF ok1]]
    by (fastforce simp: mixed_map_def dom_def split: option.splits)
  have pins: "pinned_handles st1 = pinned_handles st"
    using frame by (simp add: sweep_frame_def pinned_handles_def)
  have "set (pinned_handles st) \<subseteq> dom (gc_table st1)"
    using gc_okD(6) [OF assms] gc_ok_dom [OF assms] unfolding dom1 [symmetric] kept
    by (auto simp: survives_minor_def gc_reach_def minor_seed_def intro: reach_start)
  then have fin: "gc_ok (retain_remembered (st1\<lparr>gc_nursery := ts\<rparr>))"
    "gc_map (retain_remembered (st1\<lparr>gc_nursery := ts\<rparr>)) = gc_map st |` survives_minor st roots"
    using sweep_done_ok [OF ok1] gc_okD(5) [OF assms] pins kept by simp_all
  have "copy_nursery cfg roots elapsed st =
      ((retain_remembered (st1\<lparr>gc_nursery := ts\<rparr>))
         \<lparr>gc_metrics := count_minor m (completed_pause_micros elapsed)
            (gc_metrics (retain_remembered (st1\<lparr>gc_nursery := ts\<rparr>)))\<rparr>, Inr ())"
    using trace_nursery_reach [OF assms] sweep by (simp add: copy_nursery_def Let_def R_def)
  then show ?thesis using fin frame by (auto simp: retain_remembered_def sweep_frame_def)
qed

end
