(* ===== verification/Gc_Major_Laws.thy ===== *)
theory Gc_Major_Laws
  imports Gc_Laws
begin

text \<open>
  The major cycle of the adaptive heap and the operations of the mutator that run between its
  start and its end, each with its effect on the map from handles to objects.
\<close>

section \<open>The sweep of the old generation\<close>

abbreviation gc_core :: "gc_state \<Rightarrow> bool" where
  "gc_core st \<equiv> sweep_ok st (gc_nursery st) {}"

lemma mixed_map_all [simp]: "mixed_map st (gc_nursery st) {} = gc_map st"
  by (rule ext) (simp add: mixed_map_def gc_map_table located_def split: option.split)

lemma gc_ok_core: "gc_ok st \<Longrightarrow> gc_core st"
  using gc_okD(1-4) [of st]
  by (fastforce simp: sweep_ok_def placed_def located_def)

lemma core_object: "gc_core st \<Longrightarrow> gc_table st h = Some l \<Longrightarrow> \<exists>obj. object_in st l = Some obj"
  using placed_object [OF sweep_okD(3)] by (fastforce simp: located_def)

lemma core_unique: "gc_core st \<Longrightarrow> gc_table st h = Some l \<Longrightarrow> gc_table st k = Some l \<Longrightarrow> h = k"
  using placed_unique [OF sweep_okD(3)] by blast

lemma core_dom: "gc_core st \<Longrightarrow> dom (gc_map st) = dom (gc_table st)"
  using core_object by (fastforce simp: dom_def gc_map_table bind_eq_Some_conv)

lemma core_ok:
  assumes "gc_core st" "distinct (pinned_handles st)"
    "set (pinned_handles st) \<subseteq> dom (gc_table st)" "set (remembered st) \<subseteq> dom (gc_table st)"
  shows "gc_ok st"
  using assms(2-4) sweep_okD(1,4) [OF assms(1)] core_object [OF assms(1)] core_unique [OF assms(1)]
  by (fastforce simp: gc_ok_def)

lemma release_old:
  assumes core: "gc_core st" and h: "gc_table st h = Some (Old i)"
    and rel: "handle_release (gc_handles st) h = (t, r)"
  defines "st' \<equiv> st\<lparr>gc_handles := t, gc_old := (gc_old st)[i := None], live_count := live_count st - 1\<rparr>"
  shows "r = Inr (Old i)" "gc_table st' = (gc_table st)(h := None)" "gc_core st'"
    "gc_map st' = (gc_map st)(h := None)"
proof -
  note rm = release_map [OF h rel]
  show "r = Inr (Old i)" by (rule rm(1))
  show tab: "gc_table st' = (gc_table st)(h := None)" using rm(2) by (simp add: st'_def)
  have wf: "table_wf (gc_handles st')"
    using release_wf [OF sweep_okD(1) [OF core] h rel] by (simp add: st'_def)
  have nursery: "gc_nursery st' = gc_nursery st" by (simp add: st'_def)
  have same: "located st' (gc_nursery st) ({} - {h}) k l = located st (gc_nursery st) {} k l"
    if "k \<noteq> h" "gc_table st k = Some l" for k l
  proof -
    have "l \<noteq> Old i" using core_unique [OF core that(2), of h] h that(1) by auto
    then show ?thesis by (cases l) (simp_all add: located_def st'_def object_in_def get_at_def)
  qed
  have count: "live_count st' = live_count st - (if (None :: location option) = None then 1 else 0)"
    by (simp add: st'_def)
  have step: "sweep_ok st' (gc_nursery st) ({} - {h})"
    by (rule sweep_step(1) [OF core _ wf tab count same]) (use h in auto)
  then show "gc_core st'" using nursery by simp
  have "mixed_map st' (gc_nursery st) ({} - {h}) = (mixed_map st (gc_nursery st) {})(h := None)"
    by (subst sweep_step(2) [OF core _ wf tab count same]) (use h in auto)
  then show "gc_map st' = (gc_map st)(h := None)"
    using mixed_map_all [of st'] nursery by simp
qed

lemma is_old_resolve: "(case gc_resolve st h of Inr (Old i) \<Rightarrow> True | _ \<Rightarrow> False) = is_old st h"
  by (simp add: gc_resolve_def is_old_def split: sum.split)

definition major_frame :: "gc_state \<Rightarrow> gc_state \<Rightarrow> bool" where
  "major_frame st st' \<longleftrightarrow>
     host_pins st' = host_pins st \<and> remembered st' = remembered st \<and>
     gc_nursery st' = gc_nursery st"

lemma sweep_old_restricts:
  assumes "gc_core st" "distinct hs" "set hs \<subseteq> dom (gc_table st)"
  shows "\<exists>st'. sweep_old live st hs = (st', Inr ()) \<and> gc_core st' \<and> major_frame st st' \<and>
           gc_map st' = gc_map st |` (- {h \<in> set hs. is_old st h \<and> h \<notin> live})"
  using assms
proof (induction hs arbitrary: st)
  case Nil
  then show ?case by (simp add: major_frame_def)
next
  case (Cons h hs)
  show ?case
  proof (cases "is_old st h \<and> h \<notin> live")
    case False
    have "{k \<in> set (h # hs). is_old st k \<and> k \<notin> live} = {k \<in> set hs. is_old st k \<and> k \<notin> live}"
      using False by auto
    moreover have "sweep_old live st (h # hs) = sweep_old live st hs"
      by (simp only: sweep_old.simps is_old_resolve False if_False)
    ultimately show ?thesis
      using Cons.IH [OF Cons.prems(1)] Cons.prems(2,3) by (simp del: sweep_old.simps)
  next
    case True
    then obtain i where h: "gc_table st h = Some (Old i)" by (auto simp: is_old_iff)
    obtain t r where rel: "handle_release (gc_handles st) h = (t, r)" by fastforce
    define st1 where
      "st1 = st\<lparr>gc_handles := t, gc_old := (gc_old st)[i := None], live_count := live_count st - 1\<rparr>"
    note step = release_old [OF Cons.prems(1) h rel, folded st1_def]
    have sweep: "sweep_old live st (h # hs) = sweep_old live st1 hs"
      using True rel step(1) by (simp add: is_old_resolve st1_def)
    have live: "set hs \<subseteq> dom (gc_table st1)" using Cons.prems(2,3) step(2) by auto
    have old: "is_old st1 k \<longleftrightarrow> is_old st k" if "k \<noteq> h" for k
      using step(2) that by (simp add: is_old_iff)
    obtain st' where st': "sweep_old live st1 hs = (st', Inr ())" "gc_core st'" "major_frame st1 st'"
      "gc_map st' = gc_map st1 |` (- {k \<in> set hs. is_old st1 k \<and> k \<notin> live})"
      using Cons.IH [OF step(3) _ live] Cons.prems(2) by auto
    have "gc_map st' = gc_map st |` (- {k \<in> set (h # hs). is_old st k \<and> k \<notin> live})"
    proof (rule ext)
      fix k
      show "gc_map st' k = (gc_map st |` (- {k \<in> set (h # hs). is_old st k \<and> k \<notin> live})) k"
        using st'(4) step(4) old [of k] True Cons.prems(2)
        by (cases "k = h") (auto simp: restrict_map_def)
    qed
    moreover have "major_frame st st'" using st'(3) by (simp add: major_frame_def st1_def)
    ultimately show ?thesis using sweep st'(1,2) by auto
  qed
qed

section \<open>The cycle\<close>

lemma gc_ok_flags [simp]:
  "gc_ok (st\<lparr>marking := b\<rparr>) = gc_ok st" "gc_ok (st\<lparr>concurrent_barrier := hs\<rparr>) = gc_ok st"
  by (simp_all add: gc_ok_def pinned_handles_def)

lemma gc_map_flags [simp]:
  "gc_map (st\<lparr>marking := b\<rparr>) = gc_map st" "gc_map (st\<lparr>concurrent_barrier := hs\<rparr>) = gc_map st"
  by (rule ext, simp add: gc_map_table)+

definition survives_major :: "major_cycle \<Rightarrow> gc_state \<Rightarrow> stable_handle set" where
  "survives_major c st =
     {h. nursery_handle st h} \<union> gc_reach st (set (finish_seed c st)) \<union> cycle_marks c"

lemma finish_major_restricts:
  assumes "gc_ok st"
  shows "\<exists>st'. finish_major c elapsed st = (st', Inr ()) \<and> gc_ok st' \<and>
           gc_map st' = gc_map st |` survives_major c st \<and>
           host_pins st' = host_pins st \<and> \<not> marking st' \<and> concurrent_barrier st' = []"
proof -
  let ?hs = "live_handles (gc_handles st)"
  define live where "live = trace_current st {} (finish_seed c st) \<union> cycle_marks c"
  have core: "gc_core st" by (rule gc_ok_core [OF assms])
  have wf: "table_wf (gc_handles st)" by (rule gc_okD(1) [OF assms])
  have hs: "set ?hs = dom (gc_table st)" using wf by (rule set_live_handles)
  have marks: "live = gc_reach st (set (finish_seed c st)) \<union> cycle_marks c"
    by (simp add: live_def current_loop.loop_marks gc_reach_def)
  obtain st1 where st1: "sweep_old live st ?hs = (st1, Inr ())" "gc_core st1" "major_frame st st1"
    "gc_map st1 = gc_map st |` (- {h \<in> set ?hs. is_old st h \<and> h \<notin> live})"
    using sweep_old_restricts [OF core distinct_live_handles [OF wf], of live] hs by auto
  have kept: "gc_map st1 = gc_map st |` survives_major c st"
  proof (rule ext)
    fix h
    have "h \<in> dom (gc_table st) \<Longrightarrow> (is_old st h \<and> h \<notin> live) = (h \<notin> survives_major c st)"
      by (auto simp: survives_major_def is_old_iff nursery_handle_def marks) (metis location.exhaust)
    moreover have "gc_map st h = None" if "h \<notin> dom (gc_table st)"
      using that gc_ok_dom [OF assms] by (metis domIff)
    ultimately show "gc_map st1 h = (gc_map st |` survives_major c st) h"
      by (cases "h \<in> dom (gc_table st)"; cases "h \<in> survives_major c st")
         (auto simp: restrict_map_def st1(4) hs)
  qed
  have pins: "pinned_handles st1 = pinned_handles st"
    using st1(3) by (simp add: major_frame_def pinned_handles_def)
  have "set (pinned_handles st) \<subseteq> dom (gc_table st1)"
    using gc_okD(6) [OF assms] gc_ok_dom [OF assms] unfolding core_dom [OF st1(2), symmetric] kept
    by (auto simp: survives_major_def gc_reach_def finish_seed_def intro: reach_start)
  then have fin: "gc_ok (retain_remembered (st1\<lparr>gc_nursery := gc_nursery st1\<rparr>))"
    "gc_map (retain_remembered (st1\<lparr>gc_nursery := gc_nursery st1\<rparr>)) = gc_map st |` survives_major c st"
    using sweep_done_ok [OF st1(2)] gc_okD(5) [OF assms] pins kept by simp_all
  define st2 where "st2 = retain_remembered (st1\<lparr>marking := False, concurrent_barrier := []\<rparr>)"
  have st2: "st2 = (retain_remembered st1)\<lparr>marking := False, concurrent_barrier := []\<rparr>"
    by (simp add: st2_def retain_remembered_def)
  have "finish_major c elapsed st =
      (drop_cycle (st2\<lparr>gc_metrics := count_major (completed_pause_micros elapsed) (gc_metrics st2)\<rparr>), Inr ())"
    using st1(1) by (simp add: finish_major_def live_def st2_def Let_def)
  moreover have "host_pins st2 = host_pins st"
    using st1(3) by (simp add: st2 major_frame_def retain_remembered_def)
  ultimately show ?thesis using fin by (simp add: drop_cycle_def st2)
qed

lemma snapshot_objects_map:
  assumes "gc_ok st"
  shows "\<exists>objs. snapshot_objects st = Inr objs \<and> map_of objs = gc_map st"
proof -
  let ?hs = "live_handles (gc_handles st)"
  have hs: "set ?hs = dom (gc_map st)"
    using set_live_handles [OF gc_okD(1) [OF assms]] gc_ok_dom [OF assms] by simp
  let ?objs = "map (\<lambda>h. (h, the (gc_map st h))) ?hs"
  have "list_all2 (\<lambda>h p. map_ok (\<lambda>obj. (h, obj)) (object_at st h) = Inr p) ?hs ?objs"
    using hs by (auto simp: list_all2_conv_all_nth map_ok_Inr_iff object_at_iff dest!: nth_mem)
  then have "snapshot_objects st = Inr ?objs" by (simp add: snapshot_objects_def try_map_Inr_iff)
  moreover have "map_of ?objs = gc_map st"
    by (rule ext) (use hs in \<open>auto simp: map_of_map_restrict restrict_map_def\<close>)
  ultimately show ?thesis by blast
qed

lemma snapshot_marks:
  assumes "map_of objs = gc_map st"
  shows "mark_snapshot objs {} q = gc_reach st (set q)"
proof -
  have "snapshot_children objs = current_children st"
    by (rule ext) (simp add: snapshot_children_def current_children_map assms)
  then show ?thesis by (simp add: snapshot_loop.loop_marks gc_reach_def)
qed

lemma start_major_marks:
  assumes "gc_ok st"
  shows "\<exists>st' c. start_major roots st = (st', Inr c) \<and> gc_ok st' \<and> gc_map st' = gc_map st \<and>
           marking st' \<and> cycle_roots c = roots \<and>
           cycle_marks c = gc_reach st (set (root_handles roots) \<union> set (pinned_handles st))"
proof -
  define st1 where "st1 = st\<lparr>marking := True, concurrent_barrier := []\<rparr>"
  have ok: "gc_ok st1" and same: "gc_map st1 = gc_map st" using assms by (simp_all add: st1_def)
  obtain objs where objs: "snapshot_objects st1 = Inr objs" "map_of objs = gc_map st1"
    using snapshot_objects_map [OF ok] by blast
  have "mark_snapshot objs {} q = gc_reach st (set q)" for q
    using snapshot_marks [OF objs(2)] gc_reach_cong [OF same] by simp
  then show ?thesis using objs ok same
    by (simp add: start_major_def Let_def cycle_marks_def pinned_handles_def flip: st1_def)
       (simp add: st1_def)
qed

section \<open>The mutator\<close>

lemma push_nursery_laws:
  assumes "gc_ok st" "push_nursery st obj = (st', Inr h)"
  shows "gc_map st h = None" "gc_map st' = (gc_map st)(h \<mapsto> obj)"
    "gc_table st' = (gc_table st)(h \<mapsto> Nursery (length (gc_nursery st)))"
    "gc_ok (st'\<lparr>live_count := Suc (live_count st')\<rparr>)"
    "host_pins st' = host_pins st" "marking st' = marking st" "live_count st' = live_count st"
proof -
  obtain t where alloc: "handle_allocate (gc_handles st) (Nursery (length (gc_nursery st))) = (t, Inr h)"
    and st': "st' = st\<lparr>gc_handles := t,
      gc_nursery := gc_nursery st @ [Some \<lparr>cell_object = obj, cell_age = 0\<rparr>]\<rparr>"
    using assms(2) by (auto simp: push_nursery_def split: prod.splits sum.splits)
  note ok = gc_okD [OF assms(1)]
  note laws = table_allocate_laws [OF ok(1) alloc]
  show tab: "gc_table st' = (gc_table st)(h \<mapsto> Nursery (length (gc_nursery st)))"
    using laws(2) st' by simp
  show "gc_map st h = None" using laws(1) by (simp add: gc_map_table)
  have old: "object_in st' l = object_in st l \<and> l \<noteq> Nursery (length (gc_nursery st))"
    if "gc_table st k = Some l" for k l
    using ok(2) [OF that] by (cases l) (auto simp: object_in_def st' get_at_def nth_append split: if_splits)
  have new: "object_in st' (Nursery (length (gc_nursery st))) = Some obj"
    by (simp add: object_in_def st' get_at_def)
  show "gc_map st' = (gc_map st)(h \<mapsto> obj)"
  proof (rule ext)
    fix k
    show "gc_map st' k = ((gc_map st)(h \<mapsto> obj)) k"
      using old [of k] new by (cases "k = h"; cases "gc_table st k") (simp_all add: gc_map_table tab)
  qed
  show "gc_ok (st'\<lparr>live_count := Suc (live_count st')\<rparr>)"
    unfolding gc_ok_def
  proof (intro conjI allI impI)
    show "table_wf (gc_handles (st'\<lparr>live_count := Suc (live_count st')\<rparr>))" using laws(4) st' by simp
    show "live_count (st'\<lparr>live_count := Suc (live_count st')\<rparr>) =
        card (dom (table_map (gc_handles (st'\<lparr>live_count := Suc (live_count st')\<rparr>))))"
      using ok(1,4) laws(1) tab st' by (simp add: card_insert_if domIff)
  next
    fix k l assume "table_map (gc_handles (st'\<lparr>live_count := Suc (live_count st')\<rparr>)) k = Some l"
    then show "object_in (st'\<lparr>live_count := Suc (live_count st')\<rparr>) l \<noteq> None"
      using tab old [of k l] new ok(2) [of k l] by (auto split: if_splits)
  next
    fix k j l
    assume "table_map (gc_handles (st'\<lparr>live_count := Suc (live_count st')\<rparr>)) k = Some l"
      "table_map (gc_handles (st'\<lparr>live_count := Suc (live_count st')\<rparr>)) j = Some l"
    then show "k = j" using tab old [of k l] old [of j l] ok(3) [of k l j] by (auto split: if_splits)
  qed (use ok tab st' in \<open>auto simp: pinned_handles_def\<close>)
  show "host_pins st' = host_pins st" "marking st' = marking st" "live_count st' = live_count st"
    using st' by simp_all
qed

lemma push_nursery_error:
  assumes "gc_ok st" "push_nursery st obj = (st', Inl e)"
  shows "st' = st" "e = InvalidHandle CapacityExhausted"
  using assms table_allocate_error [OF gc_okD(1) [OF assms(1)]]
  by (fastforce simp: push_nursery_def split: prod.splits sum.splits)+

text \<open>Writing the object of a live handle.\<close>

lemma write_object_laws:
  assumes "gc_ok st" "gc_table st h = Some l"
  shows "gc_ok (write_object st l obj)" "gc_map (write_object st l obj) = (gc_map st)(h \<mapsto> obj)"
    "gc_handles (write_object st l obj) = gc_handles st"
    "host_pins (write_object st l obj) = host_pins st"
    "marking (write_object st l obj) = marking st"
    "remembered (write_object st l obj) = remembered st"
proof -
  note ok = gc_okD [OF assms(1)]
  show frame: "gc_handles (write_object st l obj) = gc_handles st"
    "host_pins (write_object st l obj) = host_pins st"
    "marking (write_object st l obj) = marking st"
    "remembered (write_object st l obj) = remembered st"
    by (simp_all add: write_object_def split: location.split)
  have live: "live_count (write_object st l obj) = live_count st"
    by (simp add: write_object_def split: location.split)
  have new: "object_in (write_object st l obj) l = Some obj"
    using ok(2) [OF assms(2)]
    by (auto simp: object_in_def write_object_def get_at_def split: location.splits option.splits if_splits)
  have other: "object_in (write_object st l obj) m = object_in st m" if "m \<noteq> l" for m
    using that by (cases l; cases m) (simp_all add: object_in_def write_object_def get_at_def)
  show "gc_map (write_object st l obj) = (gc_map st)(h \<mapsto> obj)"
  proof (rule ext)
    fix k
    have "m \<noteq> l" if "k \<noteq> h" "gc_table st k = Some m" for m
      using ok(3) [OF that(2), of h] that(1) assms(2) by auto
    then show "gc_map (write_object st l obj) k = ((gc_map st)(h \<mapsto> obj)) k"
      unfolding gc_map_table frame(1) using new other assms(2)
      by (cases "k = h"; cases "gc_table st k") (simp_all add: gc_map_table)
  qed
  have "\<exists>x. object_in (write_object st l obj) m = Some x" if "gc_table st k = Some m" for k m
    using new other ok(2) [OF that] by (cases "m = l") simp_all
  then show "gc_ok (write_object st l obj)"
    using ok(1,4,5,6,7) ok(3) by (simp add: gc_ok_def frame live pinned_handles_def)
qed

end
