(* ===== verification/Gc_Soundness.thy ===== *)
theory Gc_Soundness
  imports Gc_Major_Laws
begin

text \<open>
  The adaptive heap as a whole: every operation keeps its invariant, allocations answer fresh
  handles, a batch builds the graph it was asked for, and a major cycle with any mutator
  activity between its start and its end keeps what was reachable.
\<close>

section \<open>Pins and stores\<close>

lemma gc_map_pins [simp]: "gc_map (st\<lparr>host_pins := p\<rparr>) = gc_map st"
  by (rule ext) (simp add: gc_map_table)

lemma gc_ok_pins:
  "gc_ok st \<Longrightarrow> distinct (map fst p) \<Longrightarrow> fst ` set p \<subseteq> dom (gc_table st) \<Longrightarrow> gc_ok (st\<lparr>host_pins := p\<rparr>)"
  by (simp add: gc_ok_def pinned_handles_def)

lemma pin_host_laws:
  assumes "gc_ok st" "pin_host st h = (st', r)"
  shows "gc_ok st'" "gc_map st' = gc_map st" "marking st' = marking st"
    "concurrent_barrier st' = concurrent_barrier st"
    "r = Inr () \<Longrightarrow> h \<in> set (pinned_handles st')"
proof -
  note ok = gc_okD [OF assms(1)]
  have "gc_ok st' \<and> gc_map st' = gc_map st \<and> marking st' = marking st \<and>
        concurrent_barrier st' = concurrent_barrier st \<and>
        (r = Inr () \<longrightarrow> h \<in> set (pinned_handles st'))"
  proof (cases "gc_resolve st h")
    case (Inr l)
    then have "h \<in> dom (gc_table st)" by (auto simp: gc_resolve_iff)
    then have "gc_ok (st\<lparr>host_pins := AList.update h n (host_pins st)\<rparr>)" for n
      using ok(5,6) by (intro gc_ok_pins [OF assms(1)])
        (simp_all add: pinned_handles_def distinct_update dom_update)
    then show ?thesis
      using assms Inr by (auto simp: pin_host_def Let_def pinned_handles_def dom_update split: if_splits)
  qed (use assms in \<open>auto simp: pin_host_def\<close>)
  then show "gc_ok st'" "gc_map st' = gc_map st" "marking st' = marking st"
    "concurrent_barrier st' = concurrent_barrier st"
    "r = Inr () \<Longrightarrow> h \<in> set (pinned_handles st')" by simp_all
qed

lemma unpin_host_laws:
  assumes "gc_ok st" "unpin_host st h = (st', r)"
  shows "gc_ok st'" "gc_map st' = gc_map st" "marking st' = marking st"
    "concurrent_barrier st' = concurrent_barrier st"
proof -
  note ok = gc_okD [OF assms(1)]
  have "gc_ok st' \<and> gc_map st' = gc_map st \<and> marking st' = marking st \<and>
        concurrent_barrier st' = concurrent_barrier st"
  proof (cases "gc_resolve st h")
    case (Inr l)
    then have live: "h \<in> dom (gc_table st)" by (auto simp: gc_resolve_iff)
    have "gc_ok (st\<lparr>host_pins := AList.update h n (host_pins st)\<rparr>)" for n
      using ok(5,6) live by (intro gc_ok_pins [OF assms(1)])
        (simp_all add: pinned_handles_def distinct_update dom_update)
    moreover have "gc_ok (st\<lparr>host_pins := AList.delete h (host_pins st)\<rparr>)"
      using ok(5,6) dom_delete_subset [of h "host_pins st"] by (intro gc_ok_pins [OF assms(1)])
        (auto simp: pinned_handles_def distinct_delete)
    ultimately show ?thesis
      using assms Inr by (auto simp: unpin_host_def split: if_splits option.splits)
  qed (use assms in \<open>simp add: unpin_host_def\<close>)
  then show "gc_ok st'" "gc_map st' = gc_map st" "marking st' = marking st"
    "concurrent_barrier st' = concurrent_barrier st" by simp_all
qed

lemma gc_map_remembered [simp]: "gc_map (st\<lparr>remembered := hs\<rparr>) = gc_map st"
  by (rule ext) (simp add: gc_map_table)

lemma gc_ok_remember:
  "gc_ok st \<Longrightarrow> h \<in> dom (gc_table st) \<Longrightarrow> gc_ok (st\<lparr>remembered := List.insert h (remembered st)\<rparr>)"
  by (simp add: gc_ok_def pinned_handles_def)

lemma store_reference_laws:
  assumes "gc_ok st" "gc_map st own = Some obj" "tgt \<in> dom (gc_map st)"
  shows "\<exists>st'. store_reference st own tgt = (st', Inr ()) \<and> gc_ok st' \<and>
           gc_map st' = (gc_map st)(own \<mapsto> obj\<lparr>object_references := object_references obj @ [tgt]\<rparr>) \<and>
           marking st' = marking st \<and> host_pins st' = host_pins st \<and>
           (marking st \<longrightarrow> tgt \<in> set (concurrent_barrier st')) \<and>
           set (concurrent_barrier st) \<subseteq> set (concurrent_barrier st') \<and>
           (is_old st own \<and> nursery_handle st tgt \<longrightarrow> own \<in> set (remembered st'))"
proof -
  obtain l where l: "gc_table st own = Some l"
    using assms(2) by (auto simp: gc_map_table bind_eq_Some_conv)
  obtain m where m: "gc_table st tgt = Some m"
    using assms(1,3) gc_ok_dom [OF assms(1)] by auto
  define st1 where "st1 = write_object st l (obj\<lparr>object_references := object_references obj @ [tgt]\<rparr>)"
  define st2 where
    "st2 = (if \<not> is_nursery l \<and> is_nursery m
            then st1\<lparr>remembered := List.insert own (remembered st1)\<rparr> else st1)"
  define st3 where
    "st3 = (if marking st2
            then st2\<lparr>concurrent_barrier := List.insert tgt (concurrent_barrier st2)\<rparr> else st2)"
  note laws = write_object_laws [OF assms(1) l,
      of "obj\<lparr>object_references := object_references obj @ [tgt]\<rparr>", folded st1_def]
  have "object_at st own = Inr obj" using assms(2) by (simp add: object_at_iff)
  moreover have "gc_resolve st own = Inr l" "gc_resolve st tgt = Inr m"
    using l m by (simp_all add: gc_resolve_iff)
  ultimately have result: "store_reference st own tgt = (st3, Inr ())"
    by (simp add: store_reference_def Let_def st1_def st2_def st3_def)
  have own: "own \<in> dom (gc_table st1)" using l laws(3) by auto
  have ok2: "gc_ok st2" using laws(1) gc_ok_remember [OF laws(1) own] by (simp add: st2_def)
  have barrier: "concurrent_barrier st2 = concurrent_barrier st"
    by (simp add: st2_def st1_def write_object_def split: location.split)
  have "is_old st own \<and> nursery_handle st tgt \<longrightarrow> own \<in> set (remembered st3)"
    using l m by (auto simp: is_old_iff nursery_handle_def st3_def st2_def)
  moreover have "gc_map st3 = (gc_map st)(own \<mapsto> obj\<lparr>object_references := object_references obj @ [tgt]\<rparr>)"
    using laws(2) by (simp add: st3_def st2_def)
  ultimately show ?thesis
    using result ok2 laws(4,5) barrier by (auto simp: st3_def st2_def)
qed

lemma store_reference_error:
  assumes "gc_ok st" "own \<notin> dom (gc_map st) \<or> tgt \<notin> dom (gc_map st)"
  shows "\<exists>e. store_reference st own tgt = (st, Inl (InvalidHandle e))"
proof (cases "gc_resolve st own")
  case (Inl e)
  moreover from this obtain d where "e = InvalidHandle d"
    by (auto simp: gc_resolve_def map_err_Inl_iff)
  ultimately show ?thesis by (simp add: store_reference_def)
next
  case (Inr l)
  then have "own \<in> dom (gc_map st)" using gc_ok_dom [OF assms(1)] by (auto simp: gc_resolve_iff)
  then have "gc_table st tgt = None" using assms(2) gc_ok_dom [OF assms(1)] by (metis domIff)
  then show ?thesis using gc_resolve_None [of st tgt] Inr by (auto simp: store_reference_def)
qed

section \<open>Allocation\<close>

definition after_forced :: "gc_config \<Rightarrow> root_inventory \<Rightarrow> gc_state \<Rightarrow> stable_handle \<Rightarrow> gc_object option" where
  "after_forced cfg roots st =
     (if collect_every_allocation cfg then gc_map st |` survives_minor st roots else gc_map st)"

lemma forced_minor_laws:
  assumes "gc_ok st"
  shows "\<exists>st'. forced_minor cfg roots elapsed st = (st', Inr ()) \<and> gc_ok st' \<and>
           gc_map st' = after_forced cfg roots st \<and> marking st' = marking st \<and>
           host_pins st' = host_pins st"
  using assms copy_nursery_restricts [OF assms, of cfg roots elapsed]
  by (auto simp: forced_minor_def after_forced_def)

lemma allocate_with_roots_laws:
  assumes "gc_ok st" "allocate_with_roots cfg obj bytes roots elapsed st = (st', r)"
  shows "gc_ok st'"
    "r = Inr h \<Longrightarrow> after_forced cfg roots st h = None \<and>
       gc_map st' = (after_forced cfg roots st)(h \<mapsto> obj)"
    "r = Inl e \<Longrightarrow> gc_map st' = after_forced cfg roots st \<and>
       (e = AllocationLimit \<or> e = InvalidHandle CapacityExhausted)"
    "marking st' = marking st" "host_pins st' = host_pins st"
proof -
  obtain st1 where st1: "forced_minor cfg roots elapsed st = (st1, Inr ())" "gc_ok st1"
    "gc_map st1 = after_forced cfg roots st" "marking st1 = marking st" "host_pins st1 = host_pins st"
    using forced_minor_laws [OF assms(1)] by blast
  let ?full = "case allocation_limit cfg of None \<Rightarrow> False | Some limit \<Rightarrow> limit \<le> live_count st1"
  have "gc_ok st' \<and>
    (\<forall>h. r = Inr h \<longrightarrow> after_forced cfg roots st h = None \<and>
           gc_map st' = (after_forced cfg roots st)(h \<mapsto> obj)) \<and>
    (\<forall>e. r = Inl e \<longrightarrow> gc_map st' = after_forced cfg roots st \<and>
           (e = AllocationLimit \<or> e = InvalidHandle CapacityExhausted)) \<and>
    marking st' = marking st \<and> host_pins st' = host_pins st"
  proof (cases ?full)
    case True
    then show ?thesis using assms(2) st1 by (auto simp: allocate_with_roots_def)
  next
    case False
    obtain st2 q where push: "push_nursery st1 obj = (st2, q)" by fastforce
    show ?thesis
    proof (cases q)
      case (Inl e)
      then show ?thesis
        using push_nursery_error [OF st1(2), of obj st2 e] push assms(2) st1 False
        by (auto simp: allocate_with_roots_def)
    next
      case (Inr k)
      note laws = push_nursery_laws [OF st1(2) push [unfolded Inr]]
      have st': "st' = st2\<lparr>live_count := Suc (live_count st2),
          gc_metrics := count_allocation bytes (gc_metrics st2)\<rparr>" and r: "r = Inr k"
        using assms(2) st1(1) False push Inr by (simp_all add: allocate_with_roots_def)
      have "gc_map st' = gc_map st2" by (rule ext) (simp add: st' gc_map_table)
      moreover have "gc_ok st'"
        using laws(4) gc_ok_metrics [where st = "st2\<lparr>live_count := Suc (live_count st2)\<rparr>"
            and m = "count_allocation bytes (gc_metrics st2)"] by (simp add: st')
      ultimately show ?thesis using laws(1,2,5,6) st1 r st' by simp
    qed
  qed
  then show "gc_ok st'"
    "r = Inr h \<Longrightarrow> after_forced cfg roots st h = None \<and>
       gc_map st' = (after_forced cfg roots st)(h \<mapsto> obj)"
    "r = Inl e \<Longrightarrow> gc_map st' = after_forced cfg roots st \<and>
       (e = AllocationLimit \<or> e = InvalidHandle CapacityExhausted)"
    "marking st' = marking st" "host_pins st' = host_pins st" by blast+
qed

section \<open>Batches\<close>

text \<open>A batch counts its objects when it is complete; \<open>owing\<close> is the number still to be counted.\<close>

abbreviation owing :: "nat \<Rightarrow> gc_state \<Rightarrow> gc_state" where
  "owing k st \<equiv> st\<lparr>live_count := live_count st + k\<rparr>"

lemma push_nursery_live:
  "push_nursery (st\<lparr>live_count := n\<rparr>) obj =
     (case push_nursery st obj of (st', r) \<Rightarrow> (st'\<lparr>live_count := n\<rparr>, r))"
  by (simp add: push_nursery_def split: prod.split sum.split)

lemma gc_map_live [simp]: "gc_map (st\<lparr>live_count := n\<rparr>) = gc_map st"
  by (rule ext) (simp add: gc_map_table)

lemma write_object_live:
  "write_object (st\<lparr>live_count := n\<rparr>) l obj = (write_object st l obj)\<lparr>live_count := n\<rparr>"
  by (simp add: write_object_def split: location.split)

lemma push_blanks_laws:
  assumes "gc_ok (owing k st)" "n \<le> remaining_capacity (gc_handles st)"
  shows "\<exists>st' new. push_blanks n st hs = (st', Inr (hs @ new)) \<and> length new = n \<and> distinct new \<and>
           (\<forall>h \<in> set new. gc_map st h = None) \<and> gc_ok (owing (k + n) st') \<and>
           gc_map st' = (\<lambda>h. if h \<in> set new then Some gc_object_new else gc_map st h) \<and>
           length (gc_nursery st') = length (gc_nursery st) + n \<and>
           (\<forall>j < n. gc_table st' (new ! j) = Some (Nursery (length (gc_nursery st) + j))) \<and>
           (\<forall>h. h \<notin> set new \<longrightarrow> gc_table st' h = gc_table st h) \<and>
           marking st' = marking st \<and> host_pins st' = host_pins st"
  using assms
proof (induction n arbitrary: st hs k)
  case 0
  then show ?case by auto
next
  case (Suc n)
  obtain st1 r where push: "push_nursery st gc_object_new = (st1, r)" by fastforce
  then have push': "push_nursery (owing k st) gc_object_new =
                      (st1\<lparr>live_count := live_count st + k\<rparr>, r)"
    by (simp add: push_nursery_live)
  have "r \<noteq> Inl e" for e
  proof
    assume r: "r = Inl e"
    then obtain t d where "handle_allocate (gc_handles st) (Nursery (length (gc_nursery st))) = (t, Inl d)"
      using push by (auto simp: push_nursery_def split: prod.splits sum.splits)
    then have "remaining_capacity (gc_handles st) = 0"
      using table_allocate_error(3) [of "gc_handles st"] gc_okD(1) [OF Suc.prems(1)] by simp
    then show False using Suc.prems(2) by simp
  qed
  then obtain h where r: "r = Inr h" by (cases r) auto
  note laws = push_nursery_laws [OF Suc.prems(1) push' [unfolded r], simplified]
  have live: "live_count st1 = live_count st" and room: "n \<le> remaining_capacity (gc_handles st1)"
    and len: "length (gc_nursery st1) = Suc (length (gc_nursery st))"
    using push r Suc.prems(2)
    by (auto simp: push_nursery_def dest: allocate_remaining split: prod.splits sum.splits)
  have ok1: "gc_ok (owing (Suc k) st1)" using laws(4) live by simp
  obtain st' new where IH: "push_blanks n st1 (hs @ [h]) = (st', Inr ((hs @ [h]) @ new))"
    "length new = n" "distinct new" "\<forall>x \<in> set new. gc_map st1 x = None"
    "gc_ok (owing (Suc k + n) st')"
    "gc_map st' = (\<lambda>x. if x \<in> set new then Some gc_object_new else gc_map st1 x)"
    "length (gc_nursery st') = length (gc_nursery st1) + n"
    "\<forall>j < n. gc_table st' (new ! j) = Some (Nursery (length (gc_nursery st1) + j))"
    "\<forall>x. x \<notin> set new \<longrightarrow> gc_table st' x = gc_table st1 x"
    "marking st' = marking st1" "host_pins st' = host_pins st1"
    using Suc.IH [OF ok1 room, of "hs @ [h]"] by blast
  have fresh: "h \<notin> set new" using IH(4) laws(2) by auto
  have at: "gc_table st' ((h # new) ! j) = Some (Nursery (length (gc_nursery st) + j))" if "j < Suc n" for j
    using that IH(8) IH(9) fresh laws(3) len by (cases j) auto
  have "push_blanks (Suc n) st hs = (st', Inr (hs @ (h # new)))" using push r IH(1) by simp
  moreover have "\<forall>x \<in> set (h # new). gc_map st x = None"
    using IH(4) laws(1,2) by (auto split: if_splits)
  moreover have "gc_map st' = (\<lambda>x. if x \<in> set (h # new) then Some gc_object_new else gc_map st x)"
    using IH(6) laws(2) by (auto simp: fun_eq_iff)
  moreover have "\<forall>x. x \<notin> set (h # new) \<longrightarrow> gc_table st' x = gc_table st x"
    using IH(9) laws(3) by auto
  moreover have "gc_ok (owing (k + Suc n) st')" using IH(5) by simp
  moreover have "marking st' = marking st" "host_pins st' = host_pins st"
    using IH(10,11) laws(5,6) by simp_all
  ultimately show ?case using IH(2,3,7) fresh len at by (intro exI [of _ st'] exI [of _ "h # new"]) auto
qed

definition batch_object_of :: "stable_handle list \<Rightarrow> batch_object \<Rightarrow> gc_object" where
  "batch_object_of hs obj = with_references (map (batch_target hs) obj)"

lemma fill_batch_laws:
  assumes "gc_ok (owing k st)" "length ks = length objs" "distinct ks"
    "\<forall>j < length ks. gc_table st (ks ! j) = Some (Nursery (i + j))"
  shows "gc_ok (owing k (fill_batch hs i objs st)) \<and>
    gc_map (fill_batch hs i objs st) = gc_map st ++ map_of (zip ks (map (batch_object_of hs) objs)) \<and>
    marking (fill_batch hs i objs st) = marking st \<and> host_pins (fill_batch hs i objs st) = host_pins st \<and>
    live_count (fill_batch hs i objs st) = live_count st"
  using assms
proof (induction objs arbitrary: i st ks)
  case (Cons obj objs)
  obtain k0 ks' where ks: "ks = k0 # ks'" using Cons.prems(2) by (cases ks) auto
  have k0: "gc_table (owing k st) k0 = Some (Nursery i)" using Cons.prems(4) ks by auto
  define st1 where "st1 = write_object st (Nursery i) (batch_object_of hs obj)"
  note laws = write_object_laws [OF Cons.prems(1) k0, of "batch_object_of hs obj",
      unfolded write_object_live, folded st1_def, simplified]
  have live: "live_count st1 = live_count st" by (simp add: st1_def write_object_def)
  obtain cell where cell: "gc_nursery st ! i = Some cell" "i < length (gc_nursery st)"
    using gc_okD(2) [OF Cons.prems(1) k0]
    by (auto simp: object_in_def get_at_def split: if_splits option.splits)
  have step: "fill_batch hs i (obj # objs) st = fill_batch hs (Suc i) objs st1"
    using cell by (simp add: get_at_def write_object_def batch_object_of_def st1_def)
  have at: "\<forall>j < length ks'. gc_table st1 (ks' ! j) = Some (Nursery (Suc i + j))"
  proof (intro allI impI)
    fix j assume "j < length ks'"
    then show "gc_table st1 (ks' ! j) = Some (Nursery (Suc i + j))"
      using Cons.prems(4) [rule_format, of "Suc j"] ks laws(3) by simp
  qed
  define M where "M = map_of (zip ks' (map (batch_object_of hs) objs))"
  have "M k0 = None" using ks Cons.prems(2,3) by (simp add: M_def)
  then have swap: "(gc_map st)(k0 \<mapsto> batch_object_of hs obj) ++ M =
                   gc_map st ++ M(k0 \<mapsto> batch_object_of hs obj)"
    by (auto simp: fun_eq_iff map_add_def split: option.split)
  have ok1: "gc_ok (owing k st1)" using laws(1) live by simp
  have IH: "gc_ok (owing k (fill_batch hs (Suc i) objs st1)) \<and>
      gc_map (fill_batch hs (Suc i) objs st1) = gc_map st1 ++ M \<and>
      marking (fill_batch hs (Suc i) objs st1) = marking st1 \<and>
      host_pins (fill_batch hs (Suc i) objs st1) = host_pins st1 \<and>
      live_count (fill_batch hs (Suc i) objs st1) = live_count st1"
    unfolding M_def using Cons.prems(2,3) ks by (intro Cons.IH [OF ok1 _ _ at]) simp_all
  moreover have "gc_map st1 ++ M =
      gc_map st ++ map_of (zip ks (map (batch_object_of hs) (obj # objs)))"
    using laws(2) swap ks by (simp add: M_def)
  ultimately show ?case unfolding step using laws(4,5) live by metis
qed simp

lemma allocate_graph_laws:
  assumes "gc_ok st" "allocate_graph_with_roots cfg objs roots elapsed st = (st', r)"
  shows "gc_ok st' \<and> marking st' = marking st \<and> host_pins st' = host_pins st \<and>
    (\<forall>e. r = Inl e \<longrightarrow> gc_map st' = after_forced cfg roots st) \<and>
    (\<forall>hs. r = Inr hs \<longrightarrow>
       length hs = length objs \<and> distinct hs \<and> (\<forall>h \<in> set hs. after_forced cfg roots st h = None) \<and>
       gc_map st' = after_forced cfg roots st ++ map_of (zip hs (map (batch_object_of hs) objs)))"
proof -
  obtain st1 where st1: "forced_minor cfg roots elapsed st = (st1, Inr ())" "gc_ok st1"
    "gc_map st1 = after_forced cfg roots st" "marking st1 = marking st" "host_pins st1 = host_pins st"
    using forced_minor_laws [OF assms(1)] by blast
  define full where "full \<longleftrightarrow>
     \<not> (case allocation_limit cfg of None \<Rightarrow> True
         | Some limit \<Rightarrow> saturating_add_usize (live_count st1) (length objs) \<le> limit) \<or>
     remaining_capacity (gc_handles st1) < length objs"
  define check where "check = try_all (try_all (check_batch_reference st1 (length objs))) objs"
  show ?thesis
  proof (cases "full \<or> (\<exists>e. check = Inl e)")
    case True
    then have "st' = st1 \<and> (\<exists>e. r = Inl e)"
      using assms(2) st1(1)
      by (cases check) (auto simp: allocate_graph_with_roots_def Let_def full_def check_def split: if_splits)
    then show ?thesis using st1 by auto
  next
    case False
    then have room: "length objs \<le> remaining_capacity (gc_handles st1)" and "check = Inr ()"
      by (auto simp: full_def) (metis old.sum.exhaust old.unit.exhaust)
    obtain st2 hs where push: "push_blanks (length objs) st1 [] = (st2, Inr hs)"
      "length hs = length objs" "distinct hs" "\<forall>h \<in> set hs. gc_map st1 h = None"
      "gc_ok (owing (length objs) st2)"
      "gc_map st2 = (\<lambda>h. if h \<in> set hs then Some gc_object_new else gc_map st1 h)"
      "length (gc_nursery st2) = length (gc_nursery st1) + length objs"
      "\<forall>j < length objs. gc_table st2 (hs ! j) = Some (Nursery (length (gc_nursery st1) + j))"
      "marking st2 = marking st1" "host_pins st2 = host_pins st1"
      using push_blanks_laws [where k = 0 and st = st1 and n = "length objs" and hs = "[]"] st1(2) room
      by auto
    define st3 where "st3 = fill_batch hs (length (gc_nursery st1)) objs st2"
    have at: "\<forall>j < length hs. gc_table st2 (hs ! j) = Some (Nursery (length (gc_nursery st1) + j))"
      using push(2,8) by simp
    have fill: "gc_ok (owing (length objs) st3)"
      "gc_map st3 = gc_map st2 ++ map_of (zip hs (map (batch_object_of hs) objs))"
      "marking st3 = marking st2" "host_pins st3 = host_pins st2"
      using fill_batch_laws [OF push(5,2,3) at, of hs, folded st3_def] by blast+
    have "r = Inr hs" and st': "st' = owing (length objs) st3"
      using assms(2) st1(1) False \<open>check = Inr ()\<close> push(1,7)
      by (simp_all add: allocate_graph_with_roots_def Let_def full_def check_def st3_def)
    moreover have "gc_map st3 = gc_map st1 ++ map_of (zip hs (map (batch_object_of hs) objs))"
    proof (rule ext)
      fix h
      have "map_of (zip hs (map (batch_object_of hs) objs)) h = None \<longleftrightarrow> h \<notin> set hs"
        using push(2) by (simp add: map_of_zip_is_None)
      then show "gc_map st3 h = (gc_map st1 ++ map_of (zip hs (map (batch_object_of hs) objs))) h"
        using fill(2) push(6) by (auto simp: map_add_def split: option.split)
    qed
    ultimately show ?thesis using fill push st1 by simp
  qed
qed

section \<open>Runs of the heap\<close>

inductive gc_step :: "gc_config \<Rightarrow> gc_state \<Rightarrow> gc_state \<Rightarrow> bool" for cfg where
  step_allocate: "allocate_with_roots cfg obj bytes roots elapsed st = (st', r) \<Longrightarrow> gc_step cfg st st'"
| step_graph: "allocate_graph_with_roots cfg objs roots elapsed st = (st', r) \<Longrightarrow> gc_step cfg st st'"
| step_store: "store_reference st own tgt = (st', r) \<Longrightarrow> gc_step cfg st st'"
| step_pin: "pin_host st h = (st', r) \<Longrightarrow> gc_step cfg st st'"
| step_unpin: "unpin_host st h = (st', r) \<Longrightarrow> gc_step cfg st st'"
| step_minor: "copy_nursery cfg roots elapsed st = (st', r) \<Longrightarrow> gc_step cfg st st'"

lemma gc_step_ok:
  assumes "gc_step cfg st st'" "gc_ok st"
  shows "gc_ok st' \<and> marking st' = marking st"
  using assms
proof cases
  case (step_allocate obj bytes roots elapsed r)
  then show ?thesis using allocate_with_roots_laws(1,4) [OF assms(2)] by blast
next
  case (step_graph objs roots elapsed r)
  then show ?thesis using allocate_graph_laws [OF assms(2)] by blast
next
  case (step_store own tgt r)
  show ?thesis
  proof (cases "own \<in> dom (gc_map st) \<and> tgt \<in> dom (gc_map st)")
    case True
    then obtain obj where "gc_map st own = Some obj" by auto
    then show ?thesis using store_reference_laws [OF assms(2), of own obj tgt] True step_store by auto
  next
    case False
    then show ?thesis using store_reference_error [OF assms(2), of own tgt] step_store assms(2) by auto
  qed
next
  case (step_pin h r)
  then show ?thesis using pin_host_laws(1,3) [OF assms(2)] by blast
next
  case (step_unpin h r)
  then show ?thesis using unpin_host_laws(1,3) [OF assms(2)] by blast
next
  case (step_minor roots elapsed r)
  then show ?thesis using copy_nursery_restricts [OF assms(2), of cfg roots elapsed] by auto
qed

lemma gc_steps_ok: "(gc_step cfg)\<^sup>*\<^sup>* st st' \<Longrightarrow> gc_ok st \<Longrightarrow> gc_ok st' \<and> marking st' = marking st"
  by (induction rule: rtranclp_induct) (auto dest: gc_step_ok)

lemma gc_new_ok:
  assumes "case allocation_limit cfg of None \<Rightarrow> True | Some n \<Rightarrow> n \<le> 2 ^ 32"
  shows "gc_ok (gc_new r cfg)"
  using assms by (auto simp: gc_ok_def gc_new_def pinned_handles_def split: option.splits)

section \<open>Properties\<close>

definition sample_gc :: gc_state where
  "sample_gc = gc_new 7 default_config"

lemma sample_gc_ok: "gc_ok sample_gc"
  by (simp add: sample_gc_def gc_new_ok default_config_def)

text \<open>A heap of two objects, the second referring to the first.\<close>

definition sample_first :: stable_handle where
  "sample_first = \<lparr>owner_runtime = 7, local_slot = 0, local_generation = 1\<rparr>"

definition sample_second :: stable_handle where
  "sample_second = \<lparr>owner_runtime = 7, local_slot = 1, local_generation = 1\<rparr>"

definition sample_pair :: gc_state where
  "sample_pair =
     fst (allocate_graph_with_roots default_config [[], [BatchObjectAt 0]] [] 0 sample_gc)"

lemmas sample_eval = sample_pair_def sample_first_def sample_second_def sample_gc_def gc_new_def
  default_config_def allocate_graph_with_roots_def forced_minor_def table_new_def remaining_capacity_def
  try_all.simps check_batch_reference_def push_nursery_def handle_allocate_def claim_slot_def
  u32_of_len_def get_at_def gc_object_new_def batch_target_def with_references_def saturating_add_usize_def

lemma sample_pair_result:
  "allocate_graph_with_roots default_config [[], [BatchObjectAt 0]] [] 0 sample_gc =
     (sample_pair, Inr [sample_first, sample_second])"
  by (rule prod_eqI) (simp_all add: sample_eval Let_def ensure_def)

lemma sample_pair_ok: "gc_ok sample_pair"
  using allocate_graph_laws [OF sample_gc_ok sample_pair_result] by blast

lemma sample_pair_map:
  "gc_map sample_pair =
     [sample_first \<mapsto> with_references [], sample_second \<mapsto> with_references [sample_first]]"
  using allocate_graph_laws [OF sample_gc_ok sample_pair_result]
  by (auto simp: batch_object_of_def batch_target_def after_forced_def default_config_def fun_eq_iff
      sample_gc_def gc_new_def gc_map_table map_add_def)

text \<open>C27. The minor collection never fails on a well-formed heap, keeps it well formed, and
  is on the map from handles to objects exactly the restriction to the old generation and to what
  the roots, the host pins and the remembered set reach: every such object keeps its handle, its
  scalar and its references, and every other handle is dead.\<close>

theorem minor_collection_exact:
  assumes "gc_ok st"
  shows "\<exists>st'. copy_nursery cfg roots elapsed st = (st', Inr ()) \<and> gc_ok st' \<and>
    gc_map st' = gc_map st |`
      ({h. is_old st h} \<union>
       gc_reach st (set (root_handles roots) \<union> set (pinned_handles st) \<union> set (remembered st)))"
  using copy_nursery_restricts [OF assms, of cfg roots elapsed]
  by (auto simp: survives_minor_def minor_seed_def Un_assoc)

theorem minor_collection_exact_witness:
  "\<exists>st'. copy_nursery default_config [(ResultRoot, sample_first)] 3 sample_pair = (st', Inr ()) \<and> gc_ok st' \<and>
    gc_map st' = gc_map sample_pair |`
      ({h. is_old sample_pair h} \<union>
       gc_reach sample_pair (set (root_handles [(ResultRoot, sample_first)]) \<union>
         set (pinned_handles sample_pair) \<union> set (remembered sample_pair)))"
  by (rule minor_collection_exact [OF sample_pair_ok])

text \<open>C28. A major cycle with any activity of the mutators between its start and its end
  never fails; its end removes from the map exactly the old objects that were reachable neither at
  the start (from the roots of the cycle and the pins) nor at the end (from the roots of the cycle,
  the pins and the targets stored while marking), and every surviving object is unchanged.\<close>

theorem major_cycle_exact:
  assumes "gc_ok st0" "start_major roots st0 = (st1, Inr c)" "(gc_step cfg)\<^sup>*\<^sup>* st1 st2"
  shows "\<exists>st3. finish_major c elapsed st2 = (st3, Inr ()) \<and> gc_ok st3 \<and> \<not> marking st3 \<and>
    gc_map st3 = gc_map st2 |`
      ({h. nursery_handle st2 h} \<union>
       gc_reach st2 (set (root_handles roots) \<union> set (pinned_handles st2) \<union>
         set (concurrent_barrier st2)) \<union>
       gc_reach st0 (set (root_handles roots) \<union> set (pinned_handles st0)))"
proof -
  obtain st1' c' where start: "start_major roots st0 = (st1', Inr c')" "gc_ok st1'" "cycle_roots c' = roots"
    "cycle_marks c' = gc_reach st0 (set (root_handles roots) \<union> set (pinned_handles st0))"
    using start_major_marks [OF assms(1), of roots] by blast
  then have "gc_ok st2" using gc_steps_ok [OF assms(3)] assms(2) by simp
  from finish_major_restricts [OF this, of c elapsed] start assms(2) show ?thesis
    by (auto simp: survives_major_def finish_seed_def Un_assoc)
qed

theorem major_cycle_exact_witness:
  "\<exists>st1 c st3. start_major [] sample_pair = (st1, Inr c) \<and>
     finish_major c 4 st1 = (st3, Inr ()) \<and> gc_ok st3 \<and> \<not> marking st3"
proof -
  obtain st1 c where start: "start_major [] sample_pair = (st1, Inr c)"
    using start_major_marks [OF sample_pair_ok] by blast
  from major_cycle_exact [OF sample_pair_ok this rtranclp.rtrancl_refl] start show ?thesis by blast
qed

text \<open>C30. The allocation of a graph is all or nothing: when it answers handles, they are
  distinct and fresh, and the heap gains exactly the described objects, whose internal references
  are the new handles in the described positions; when it answers an error the heap is only
  collected.\<close>

theorem batch_builds_graph:
  assumes "gc_ok st" "allocate_graph_with_roots cfg objs roots elapsed st = (st', r)"
  shows "gc_ok st' \<and>
    (case r of
       Inl e \<Rightarrow> gc_map st' = after_forced cfg roots st
     | Inr hs \<Rightarrow>
         length hs = length objs \<and> distinct hs \<and>
         set hs \<inter> dom (after_forced cfg roots st) = {} \<and>
         gc_map st' = after_forced cfg roots st ++ map_of (zip hs (map (batch_object_of hs) objs)))"
  using allocate_graph_laws [OF assms] by (auto split: sum.splits)

theorem batch_builds_graph_witness:
  "gc_ok sample_pair \<and> distinct [sample_first, sample_second] \<and>
   gc_map sample_pair = after_forced default_config [] sample_gc ++
     map_of (zip [sample_first, sample_second]
       (map (batch_object_of [sample_first, sample_second]) [[], [BatchObjectAt 0]]))"
  using batch_builds_graph [OF sample_gc_ok sample_pair_result] by simp

text \<open>A released handle is answered as stale for ever, whatever is allocated, assigned or
  released afterwards: its slot is either retired or holds a later generation.\<close>

theorem released_stable_handle_stays_dead:
  assumes "handle_release t h = (t', Inr v)" "table_step\<^sup>*\<^sup>* t' t''"
  shows "handle_resolve t'' h = Inl StaleHandle"
  by (rule spent_stale [OF spent_steps [OF assms(2) release_spends [OF assms(1)]]])

theorem released_stable_handle_stays_dead_witness:
  "\<exists>t'. handle_release (gc_handles sample_pair) sample_second = (t', Inr (Nursery 1)) \<and>
        handle_resolve t' sample_second = Inl StaleHandle"
proof -
  obtain t' where "handle_release (gc_handles sample_pair) sample_second = (t', Inr (Nursery 1))"
    by (simp add: sample_eval Let_def ensure_def handle_release_def handle_index_def)
  from released_stable_handle_stays_dead [OF this rtranclp.rtrancl_refl] this show ?thesis by blast
qed

end
