(* ===== verification/Value_Word.thy ===== *)
theory Value_Word
  imports Gc_Soundness Float64
begin

text \<open>
  The 64-bit value words of the adaptive engine (\<open>adaptive_v2/value_word.rs\<close>): a float that is
  not a NaN is its own bits, a small integer carries its tag in the space of the NaNs, and
  everything else is boxed in the heap under a pinned handle. The word is read back by its tag.
\<close>

definition tag_mask :: u64 where "tag_mask = 0xFFFF000000000000"
definition integer_tag :: u64 where "integer_tag = 0x7FFC000000000000"
definition handle_tag :: u64 where "handle_tag = 0x7FFD000000000000"
definition local_payload_mask :: u64 where "local_payload_mask = 0x0000FFFFFFFFFFFF"
definition integer_payload_mask :: u64 where "integer_payload_mask = 0x00007FFFFFFFFFFF"
definition integer_sign_bit :: u64 where "integer_sign_bit = push_bit 46 1"
definition immediate_integer_min :: int where "immediate_integer_min = - (2 ^ 46)"
definition immediate_integer_max :: int where "immediate_integer_max = 2 ^ 46 - 1"

lemmas value_word_masks = tag_mask_def integer_tag_def handle_tag_def local_payload_mask_def
  integer_payload_mask_def integer_sign_bit_def

definition from_handle :: "stable_handle \<Rightarrow> u64" where
  "from_handle h = handle_tag OR packed_local h"

definition is_boxed :: "u64 \<Rightarrow> bool" where
  "is_boxed w \<longleftrightarrow> w AND tag_mask = handle_tag"

definition handle_from_local :: "gc_state \<Rightarrow> u64 \<Rightarrow> stable_handle" where
  "handle_from_local st p = local_handle (gc_handles st) p"

definition as_handle :: "gc_state \<Rightarrow> u64 \<Rightarrow> stable_handle option" where
  "as_handle st w =
     (if is_boxed w then Some (handle_from_local st (w AND local_payload_mask)) else None)"

text \<open>
  Boxing allocates with an empty inventory of roots and pins the new handle. \<open>bytes\<close> and
  \<open>elapsed\<close> are the arguments of the allocation.
\<close>

definition box_scalar ::
  "gc_config \<Rightarrow> u64 \<Rightarrow> nat \<Rightarrow> scalar_value \<Rightarrow> gc_state \<Rightarrow> gc_state \<times> (gc_error + u64)" where
  "box_scalar cfg bytes elapsed v st =
     (case allocate_with_roots cfg (boxed_scalar v) bytes [] elapsed st of
        (st1, Inl e) \<Rightarrow> (st1, Inl e)
      | (st1, Inr h) \<Rightarrow>
          (case pin_host st1 h of
             (st2, Inl e) \<Rightarrow> (st2, Inl e)
           | (st2, Inr u) \<Rightarrow> (st2, Inr (from_handle h))))"

definition encode_scalar ::
  "gc_config \<Rightarrow> u64 \<Rightarrow> nat \<Rightarrow> scalar_value \<Rightarrow> gc_state \<Rightarrow> gc_state \<times> (gc_error + u64)" where
  "encode_scalar cfg bytes elapsed v st =
     (case v of
        ScalarInteger n \<Rightarrow>
          if immediate_integer_min \<le> sint n \<and> sint n \<le> immediate_integer_max
          then (st, Inr (integer_tag OR (n AND integer_payload_mask)))
          else box_scalar cfg bytes elapsed v st
      | ScalarFloatBits b \<Rightarrow>
          if \<not> f64_is_nan b then (st, Inr b) else box_scalar cfg bytes elapsed v st)"

definition decode_scalar :: "gc_state \<Rightarrow> u64 \<Rightarrow> gc_error + scalar_value" where
  "decode_scalar st w =
     (if w AND tag_mask = integer_tag then
        let payload = w AND integer_payload_mask in
        Inr (ScalarInteger
               (if payload AND integer_sign_bit = 0 then payload
                else payload OR NOT integer_payload_mask))
      else if w AND tag_mask = handle_tag then
        scalar_at st (handle_from_local st (w AND local_payload_mask))
      else Inr (ScalarFloatBits w))"

section \<open>The tags\<close>

lemma tag_mask_not: "tag_mask = NOT (mask 48)"
  by (simp add: tag_mask_def mask_eq_exp_minus_1)

lemma local_payload_mask_mask: "local_payload_mask = mask 48"
  by (simp add: local_payload_mask_def mask_eq_exp_minus_1)

lemma integer_payload_mask_mask: "integer_payload_mask = mask 47"
  by (simp add: integer_payload_mask_def mask_eq_exp_minus_1)

lemma tag_bits [simp]:
  "integer_tag AND tag_mask = integer_tag" "handle_tag AND tag_mask = handle_tag"
  "integer_tag AND local_payload_mask = 0" "handle_tag AND local_payload_mask = 0"
  "integer_tag AND integer_payload_mask = 0" "integer_tag \<noteq> handle_tag" "handle_tag \<noteq> integer_tag"
  by (simp_all add: value_word_masks)

lemma tag_value:
  assumes "w AND tag_mask = t"
  shows "unat w div 2 ^ 48 = unat t div 2 ^ 48"
proof -
  have "drop_bit 48 t = drop_bit 48 w"
    unfolding assms [symmetric] tag_mask_not
    by (rule bit_word_eqI) (auto simp: bit_simps dest: bit_imp_le_length)
  then have "drop_bit 48 (unat w) = drop_bit 48 (unat t)" by (metis unat_drop_bit_eq)
  then show ?thesis by (simp only: drop_bit_eq_div)
qed

lemma tagged_is_nan:
  assumes "unat w div 2 ^ 48 = 16 * 2047 + r" "0 < r" "r < 16"
  shows "f64_is_nan w"
proof -
  have "unat w div 2 ^ 52 = (unat w div 2 ^ 48) div 16"
    by (simp add: div_mult2_eq [symmetric])
  then have e: "unat w div 2 ^ 52 = 2047" using assms by simp
  have "(unat w mod 2 ^ 52) div 2 ^ 48 = r"
  proof -
    have "(16 * 2047 + r) mod 16 = r" using assms(3) by (metis mod_mult_self4 mod_less)
    then show ?thesis using assms(1) mod_mult2_eq [of "unat w" "2 ^ 48" 16] by simp
  qed
  then have "unat w mod 2 ^ 52 \<noteq> 0" using assms(2) by (metis div_0 less_irrefl)
  then show ?thesis using e by (simp add: f64_is_nan_def f64_exponent_def f64_fraction_def)
qed

lemma float_not_tagged:
  assumes "\<not> f64_is_nan b"
  shows "b AND tag_mask \<noteq> integer_tag" "b AND tag_mask \<noteq> handle_tag"
proof -
  show "b AND tag_mask \<noteq> integer_tag"
  proof
    assume "b AND tag_mask = integer_tag"
    from tag_value [OF this] have "unat b div 2 ^ 48 = 16 * 2047 + 12" by (simp add: integer_tag_def)
    then show False using tagged_is_nan [of b 12] assms by simp
  qed
  show "b AND tag_mask \<noteq> handle_tag"
  proof
    assume "b AND tag_mask = handle_tag"
    from tag_value [OF this] have "unat b div 2 ^ 48 = 16 * 2047 + 13" by (simp add: handle_tag_def)
    then show False using tagged_is_nan [of b 13] assms by simp
  qed
qed

text \<open>Small integers: the payload has 47 bits and its top bit is the sign.\<close>

lemma small_integer_bits:
  assumes "immediate_integer_min \<le> sint n" "sint n \<le> immediate_integer_max" "46 \<le> i" "i < 64"
  shows "bit (n :: i64) i = bit n 46"
proof -
  have "signed_take_bit 46 (sint n) = sint n"
    using assms(1,2)
    by (intro signed_take_bit_int_eq_self) (simp_all add: immediate_integer_min_def immediate_integer_max_def)
  then have "bit (sint n) i = bit (sint n) 46"
    using assms(3) by (metis bit_signed_take_bit_iff min_def order_refl possible_bit_int)
  then show ?thesis using assms(4) by (simp add: bit_sint_iff)
qed

lemma payload_sign: "(p AND integer_sign_bit = 0) = (\<not> bit (p :: u64) 46)"
  unfolding integer_sign_bit_def by (simp only: bit_iff_and_push_bit_not_eq_0 not_not)

lemma integer_round_trip:
  assumes "immediate_integer_min \<le> sint n" "sint n \<le> immediate_integer_max"
  shows "decode_scalar st (integer_tag OR (n AND integer_payload_mask)) = Inr (ScalarInteger n)"
proof -
  let ?w = "integer_tag OR (n AND integer_payload_mask)"
  have "(n AND mask 47) AND NOT (mask 48) = (0 :: u64)"
    by (rule bit_word_eqI) (auto simp: bit_simps)
  then have tag: "?w AND tag_mask = integer_tag"
    by (simp add: bit.conj_disj_distrib2 tag_mask_not integer_payload_mask_mask tag_bits(1) [unfolded tag_mask_not])
  have payload: "?w AND integer_payload_mask = n AND mask 47"
    by (simp add: bit.conj_disj_distrib2 and.assoc integer_payload_mask_mask
        tag_bits(5) [unfolded integer_payload_mask_mask])
  have extended: "(if \<not> bit (n AND mask 47) 46 then n AND mask 47 else (n AND mask 47) OR NOT (mask 47)) = n"
  proof (rule bit_word_eqI)
    fix i assume i: "i < LENGTH(64)"
    have kept: "bit (n AND mask 47) j \<longleftrightarrow> bit n j \<and> j < 47" for j
      by (auto simp: bit_and_iff bit_mask_iff)
    have filled: "bit (NOT (mask 47) :: u64) i \<longleftrightarrow> \<not> i < 47"
      using i by (simp add: bit_not_iff bit_mask_iff)
    have top: "bit n i = bit n 46" if "\<not> i < 47"
      using small_integer_bits [OF assms, of i] i that by simp
    show "bit (if \<not> bit (n AND mask 47) 46 then n AND mask 47 else (n AND mask 47) OR NOT (mask 47)) i
        = bit n i"
      using top filled by (cases "i < 47"; cases "bit n 46") (simp_all add: kept bit_or_iff)
  qed
  show ?thesis
    unfolding decode_scalar_def Let_def payload payload_sign tag
    unfolding integer_payload_mask_mask extended by simp
qed

section \<open>Handles\<close>

lemma packed_bits: "bit (packed_local h) i \<Longrightarrow> i < 48"
  by (auto simp: packed_local_def bit_simps dest: bit_imp_le_length)

lemma handle_word:
  "from_handle h AND tag_mask = handle_tag" "from_handle h AND local_payload_mask = packed_local h"
proof -
  have "packed_local h AND NOT (mask 48) = 0"
    by (rule bit_word_eqI) (auto simp: bit_simps dest: packed_bits)
  then show "from_handle h AND tag_mask = handle_tag"
    by (simp add: from_handle_def bit.conj_disj_distrib2 tag_mask_not tag_bits(2) [unfolded tag_mask_not])
  have "packed_local h AND mask 48 = packed_local h"
    by (rule bit_word_eqI) (auto simp: bit_simps dest: packed_bits)
  then show "from_handle h AND local_payload_mask = packed_local h"
    by (simp add: from_handle_def bit.conj_disj_distrib2 local_payload_mask_mask
        tag_bits(4) [unfolded local_payload_mask_mask])
qed

lemma as_handle_from_handle:
  "owner_runtime h = table_runtime (gc_handles st) \<Longrightarrow> as_handle st (from_handle h) = Some h"
  by (simp add: as_handle_def is_boxed_def handle_word handle_from_local_def packed_local_round_trip)

lemma gc_map_runtime: "gc_map st h = Some obj \<Longrightarrow> owner_runtime h = table_runtime (gc_handles st)"
  by (auto simp: gc_map_table bind_eq_Some_conv table_map_iff)

lemma box_round_trip:
  assumes "gc_ok st" "box_scalar cfg bytes elapsed v st = (st', Inr w)"
  shows "gc_ok st'" "decode_scalar st' w = Inr v"
    "\<exists>h. as_handle st' w = Some h \<and> after_forced cfg [] st h = None \<and> h \<in> set (pinned_handles st') \<and>
         gc_map st' = (after_forced cfg [] st)(h \<mapsto> boxed_scalar v)"
proof -
  obtain st1 h where alloc: "allocate_with_roots cfg (boxed_scalar v) bytes [] elapsed st = (st1, Inr h)"
    and pin: "pin_host st1 h = (st', Inr ())" and w: "w = from_handle h"
    using assms(2) by (auto simp: box_scalar_def split: prod.splits sum.splits)
  note a = allocate_with_roots_laws [OF assms(1) alloc]
  note p = pin_host_laws [OF a(1) pin]
  have new: "after_forced cfg [] st h = None"
    and map1: "gc_map st1 = (after_forced cfg [] st)(h \<mapsto> boxed_scalar v)"
    using a(2) by simp_all
  have map': "gc_map st' = (after_forced cfg [] st)(h \<mapsto> boxed_scalar v)" using p(2) map1 by simp
  then have at: "gc_map st' h = Some (boxed_scalar v)" by simp
  note run = gc_map_runtime [OF at]
  show "gc_ok st'" by (rule p(1))
  have "scalar_at st' h = Inr v"
    using at by (simp add: scalar_at_def boxed_scalar_def flip: object_at_iff)
  then show "decode_scalar st' w = Inr v"
    by (simp add: decode_scalar_def w handle_word handle_from_local_def packed_local_round_trip [OF run])
  show "\<exists>h. as_handle st' w = Some h \<and> after_forced cfg [] st h = None \<and> h \<in> set (pinned_handles st') \<and>
         gc_map st' = (after_forced cfg [] st)(h \<mapsto> boxed_scalar v)"
    using as_handle_from_handle [OF run] w new map' p(5) by blast
qed

lemma pinned_after_forced:
  assumes "gc_ok st" "h \<in> set (pinned_handles st)"
  shows "after_forced cfg roots st h \<noteq> None"
proof -
  have "h \<in> dom (gc_map st)" using gc_okD(6) [OF assms(1)] gc_ok_dom [OF assms(1)] assms(2) by auto
  moreover have "h \<in> survives_minor st roots"
    using assms(2) by (auto simp: survives_minor_def gc_reach_def minor_seed_def intro: reach_start)
  ultimately show ?thesis by (auto simp: after_forced_def)
qed

lemma box_error:
  assumes "gc_ok st" "box_scalar cfg bytes elapsed v st = (st', Inl e)"
  shows "gc_ok st' \<and> (e = AllocationLimit \<or> e = InvalidHandle CapacityExhausted)"
proof -
  obtain st1 r where alloc: "allocate_with_roots cfg (boxed_scalar v) bytes [] elapsed st = (st1, r)"
    by fastforce
  note a = allocate_with_roots_laws [OF assms(1) alloc]
  show ?thesis
  proof (cases r)
    case (Inl d)
    then show ?thesis using a(1,3) alloc assms(2) by (auto simp: box_scalar_def)
  next
    case (Inr h)
    then have new: "after_forced cfg [] st h = None" and "gc_map st1 h = Some (boxed_scalar v)"
      using a(2) by simp_all
    then have "h \<in> dom (gc_table st1)" using gc_ok_dom [OF a(1)] by auto
    moreover have "h \<notin> set (pinned_handles st)" using pinned_after_forced [OF assms(1)] new by blast
    then have "map_of (host_pins st1) h = None"
      using a(5) by (simp add: pinned_handles_def map_of_eq_None_iff)
    ultimately obtain st2 where "pin_host st1 h = (st2, Inr ())"
      by (auto simp: pin_host_def gc_resolve_iff [symmetric] usize_max_def Let_def)
    then show ?thesis using assms(2) alloc Inr by (simp add: box_scalar_def)
  qed
qed

lemma float_not_boxed: "\<not> f64_is_nan b \<Longrightarrow> \<not> is_boxed b"
  by (simp add: is_boxed_def float_not_tagged)

lemma integer_not_boxed: "\<not> is_boxed (integer_tag OR (n AND integer_payload_mask))"
proof -
  have "(n AND mask 47) AND NOT (mask 48) = (0 :: u64)"
    by (rule bit_word_eqI) (auto simp: bit_simps)
  then have "(integer_tag OR (n AND integer_payload_mask)) AND tag_mask = integer_tag"
    by (simp add: bit.conj_disj_distrib2 tag_mask_not integer_payload_mask_mask tag_bits(1) [unfolded tag_mask_not])
  then show ?thesis by (simp add: is_boxed_def)
qed

lemma float_round_trip: "\<not> f64_is_nan b \<Longrightarrow> decode_scalar st b = Inr (ScalarFloatBits b)"
  by (simp add: decode_scalar_def float_not_tagged)

definition word_reads_back ::
  "gc_config \<Rightarrow> gc_state \<Rightarrow> scalar_value \<Rightarrow> gc_state \<Rightarrow> u64 \<Rightarrow> bool \<Rightarrow> bool" where
  "word_reads_back cfg st v st' w boxed \<longleftrightarrow>
     decode_scalar st' w = Inr v \<and> is_boxed w = boxed \<and>
     (if boxed
      then \<exists>h. as_handle st' w = Some h \<and> after_forced cfg [] st h = None \<and>
             gc_map st' = (after_forced cfg [] st)(h \<mapsto> boxed_scalar v)
      else st' = st)"

lemma boxed_reads_back:
  assumes "gc_ok st" "box_scalar cfg bytes elapsed v st = (st', r)"
  shows "gc_ok st' \<and>
    (case r of Inr w \<Rightarrow> word_reads_back cfg st v st' w True
     | Inl e \<Rightarrow> e = AllocationLimit \<or> e = InvalidHandle CapacityExhausted)"
proof (cases r)
  case (Inl e)
  then show ?thesis using box_error [OF assms(1)] assms(2) by auto
next
  case (Inr w)
  note b = box_round_trip [OF assms(1) assms(2) [unfolded Inr]]
  moreover from b(3) have "is_boxed w" by (auto simp: as_handle_def split: if_splits)
  ultimately show ?thesis using Inr by (auto simp: word_reads_back_def)
qed



end
