(* ===== verification/Safepoint.thy ===== *)
theory Safepoint
  imports Wustite_Prelude "HOL-Library.AList"
begin

text \<open>
  The safepoint coordinator of the adaptive engine (\<open>adaptive_v2/safepoint.rs\<close>) as a transition
  system. The control record behind the lock is changed by the sections of code that hold the
  lock; a wait on the condition variable releases it, so a blocked call is a phase of its
  mutator, left by the section that follows the wait once its condition holds. Every change of
  the control that can make a condition true notifies all waiters. Nothing panics while the lock
  is held, so it is never poisoned, and identities do not wrap within \<open>2^64\<close> registrations.
\<close>

section \<open>The control record\<close>

record control =
  control_epoch :: u64
  next_id :: u64
  requested_by :: "u64 option"
  mutators :: "(u64 \<times> bool) list"

definition control_new :: control where
  "control_new = \<lparr>control_epoch = 0, next_id = 0, requested_by = None, mutators = []\<rparr>"

definition register_mutator :: "control \<Rightarrow> control" where
  "register_mutator c =
     c\<lparr>next_id := next_id c + 1, mutators := AList.update (next_id c) False (mutators c)\<rparr>"

definition begin_request :: "u64 \<Rightarrow> control \<Rightarrow> control" where
  "begin_request i c = c\<lparr>control_epoch := control_epoch c + 1, requested_by := Some i\<rparr>"

definition peers_parked :: "u64 \<Rightarrow> control \<Rightarrow> bool" where
  "peers_parked i c \<longleftrightarrow> \<not> list_ex (\<lambda>(j, parked). j \<noteq> i \<and> \<not> parked) (mutators c)"

definition finish_request :: "control \<Rightarrow> control" where
  "finish_request c = c\<lparr>requested_by := None, mutators := map (\<lambda>(j, parked). (j, False)) (mutators c)\<rparr>"

definition must_park :: "u64 \<Rightarrow> control \<Rightarrow> bool" where
  "must_park i c \<longleftrightarrow> (case requested_by c of None \<Rightarrow> False | Some r \<Rightarrow> r \<noteq> i)"

definition park_mutator :: "u64 \<Rightarrow> control \<Rightarrow> control" where
  "park_mutator i c = c\<lparr>mutators := AList.update i True (mutators c)\<rparr>"

definition drop_mutator :: "u64 \<Rightarrow> control \<Rightarrow> control" where
  "drop_mutator i c = c\<lparr>mutators := AList.delete i (mutators c)\<rparr>"

section \<open>Mutators\<close>

datatype phase =
    Running
  | AwaitingPeers       \<comment> \<open>the wait of \<open>request_with\<close>\<close>
  | Stopping            \<comment> \<open>the operation of \<open>request_with\<close>, without the lock\<close>
  | Parked              \<comment> \<open>the wait for the end of a request\<close>
  | AwaitingRequest     \<comment> \<open>the first wait of \<open>park_for_next_request\<close>\<close>

record mutator =
  mutator_phase :: phase
  mutator_epoch :: u64

record coordinator =
  control :: control
  threads :: "u64 \<Rightarrow> mutator option"

definition coordinator_new :: coordinator where
  "coordinator_new = \<lparr>control = control_new, threads = Map.empty\<rparr>"

definition enter_phase :: "u64 \<Rightarrow> mutator \<Rightarrow> phase \<Rightarrow> (control \<Rightarrow> control) \<Rightarrow> coordinator \<Rightarrow> coordinator" where
  "enter_phase i m p f s =
     s\<lparr>control := f (control s), threads := (threads s)(i \<mapsto> m\<lparr>mutator_phase := p\<rparr>)\<rparr>"

text \<open>The end of a call reads the epoch of the control.\<close>

definition return_call :: "u64 \<Rightarrow> mutator \<Rightarrow> coordinator \<Rightarrow> coordinator" where
  "return_call i m s =
     s\<lparr>threads := (threads s)
          (i \<mapsto> m\<lparr>mutator_phase := Running, mutator_epoch := control_epoch (control s)\<rparr>)\<rparr>"

definition register_step :: "coordinator \<Rightarrow> coordinator" where
  "register_step s =
     s\<lparr>control := register_mutator (control s),
       threads := (threads s)(next_id (control s) \<mapsto>
         \<lparr>mutator_phase = Running, mutator_epoch = control_epoch (control s)\<rparr>)\<rparr>"

text \<open>One section of code of the mutator \<open>i\<close>.\<close>

inductive mutator_step :: "u64 \<Rightarrow> coordinator \<Rightarrow> coordinator \<Rightarrow> bool" where
  request_begin: "threads s i = Some m \<Longrightarrow> mutator_phase m = Running \<Longrightarrow>
     mutator_step i s (enter_phase i m AwaitingPeers (begin_request i) s)"
| request_enter: "threads s i = Some m \<Longrightarrow> mutator_phase m = AwaitingPeers \<Longrightarrow>
     peers_parked i (control s) \<Longrightarrow> mutator_step i s (enter_phase i m Stopping id s)"
| request_finish: "threads s i = Some m \<Longrightarrow> mutator_phase m = Stopping \<Longrightarrow>
     mutator_step i s (enter_phase i m Running finish_request s)"
| observe_epoch: "threads s i = Some m \<Longrightarrow> mutator_phase m = Running \<Longrightarrow>
     mutator_step i s (return_call i m s)"
| poll_pass: "threads s i = Some m \<Longrightarrow> mutator_phase m = Running \<Longrightarrow>
     \<not> must_park i (control s) \<Longrightarrow> mutator_step i s (return_call i m s)"
| poll_park: "threads s i = Some m \<Longrightarrow> mutator_phase m = Running \<Longrightarrow>
     must_park i (control s) \<Longrightarrow> mutator_step i s (enter_phase i m Parked (park_mutator i) s)"
| await_request: "threads s i = Some m \<Longrightarrow> mutator_phase m = Running \<Longrightarrow>
     requested_by (control s) = None \<Longrightarrow> mutator_step i s (enter_phase i m AwaitingRequest id s)"
| request_seen: "threads s i = Some m \<Longrightarrow> mutator_phase m = AwaitingRequest \<Longrightarrow>
     must_park i (control s) \<Longrightarrow> mutator_step i s (enter_phase i m Parked (park_mutator i) s)"
| own_request_seen: "threads s i = Some m \<Longrightarrow> mutator_phase m = AwaitingRequest \<Longrightarrow>
     requested_by (control s) = Some i \<Longrightarrow> mutator_step i s (return_call i m s)"
| resume: "threads s i = Some m \<Longrightarrow> mutator_phase m = Parked \<Longrightarrow>
     requested_by (control s) = None \<Longrightarrow> mutator_step i s (return_call i m s)"
| unregister: "threads s i = Some m \<Longrightarrow> mutator_phase m = Running \<Longrightarrow>
     mutator_step i s (s\<lparr>control := drop_mutator i (control s), threads := (threads s)(i := None)\<rparr>)"

inductive safepoint_step :: "coordinator \<Rightarrow> coordinator \<Rightarrow> bool" where
  by_mutator: "mutator_step i s s' \<Longrightarrow> safepoint_step s s'"
| by_registration: "next_id (control s) \<notin> dom (threads s) \<Longrightarrow> safepoint_step s (register_step s)"

abbreviation reachable_coordinator :: "coordinator \<Rightarrow> bool" where
  "reachable_coordinator \<equiv> safepoint_step\<^sup>*\<^sup>* coordinator_new"

definition phase_of :: "coordinator \<Rightarrow> u64 \<Rightarrow> phase option" where
  "phase_of s i = map_option mutator_phase (threads s i)"

definition flag_of :: "coordinator \<Rightarrow> u64 \<Rightarrow> bool option" where
  "flag_of s i = map_of (mutators (control s)) i"

section \<open>Effects of the sections\<close>

lemma flag_update: "map_of (AList.update k v xs) i = (if i = k then Some v else map_of xs i)"
  by (simp add: update_conv')

lemma flag_delete: "map_of (AList.delete k xs) i = (if i = k then None else map_of xs i)"
  by (simp add: delete_conv')

lemma flag_finish: "map_of (map (\<lambda>(j, b). (j, False)) xs) i = map_option (\<lambda>_. False) (map_of xs i)"
  by (induction xs) auto

lemmas control_defs = register_mutator_def begin_request_def finish_request_def park_mutator_def
  drop_mutator_def

lemmas section_defs = enter_phase_def return_call_def register_step_def phase_of_def flag_of_def

lemma peers_parked_flag:
  "peers_parked i (control s) \<Longrightarrow> flag_of s j = Some b \<Longrightarrow> j \<noteq> i \<Longrightarrow> b"
  by (auto simp: peers_parked_def flag_of_def list_ex_iff dest!: map_of_SomeD)

text \<open>
  A mutator is flagged exactly while it waits for a request that has not ended; the flags are
  those of the registered mutators; and at most one operation is under way.
\<close>

definition safepoint_ok :: "coordinator \<Rightarrow> bool" where
  "safepoint_ok s \<longleftrightarrow>
     (\<forall>i. (flag_of s i = None) = (threads s i = None)) \<and>
     (\<forall>i. flag_of s i = Some True \<longrightarrow> phase_of s i = Some Parked \<and> requested_by (control s) \<noteq> None) \<and>
     (\<forall>i j. phase_of s i = Some Stopping \<longrightarrow> phase_of s j = Some Stopping \<longrightarrow> i = j)"

lemma safepoint_new_ok: "safepoint_ok coordinator_new"
  by (simp add: safepoint_ok_def coordinator_new_def control_new_def section_defs)

lemma safepoint_okD:
  assumes "safepoint_ok s"
  shows "(flag_of s i = None) = (threads s i = None)"
    "flag_of s i = Some True \<Longrightarrow> phase_of s i = Some Parked"
    "flag_of s i = Some True \<Longrightarrow> requested_by (control s) \<noteq> None"
    "phase_of s i = Some Stopping \<Longrightarrow> phase_of s j = Some Stopping \<Longrightarrow> i = j"
  using assms unfolding safepoint_ok_def by blast+

lemma enter_phase_simps [simp]:
  "phase_of (enter_phase i m p f s) j = (if j = i then Some p else phase_of s j)"
  "threads (enter_phase i m p f s) j = (if j = i then Some (m\<lparr>mutator_phase := p\<rparr>) else threads s j)"
  "control (enter_phase i m p f s) = f (control s)"
  "flag_of (enter_phase i m p id s) j = flag_of s j"
  "flag_of (enter_phase i m p (begin_request k) s) j = flag_of s j"
  "flag_of (enter_phase i m p (park_mutator k) s) j = (if j = k then Some True else flag_of s j)"
  "flag_of (enter_phase i m p finish_request s) j = map_option (\<lambda>_. False) (flag_of s j)"
  by (simp_all add: section_defs control_defs flag_update flag_finish)

lemma return_call_simps [simp]:
  "phase_of (return_call i m s) j = (if j = i then Some Running else phase_of s j)"
  "threads (return_call i m s) j =
     (if j = i then Some (m\<lparr>mutator_phase := Running, mutator_epoch := control_epoch (control s)\<rparr>)
      else threads s j)"
  "control (return_call i m s) = control s" "flag_of (return_call i m s) j = flag_of s j"
  by (simp_all add: section_defs)

lemma register_step_simps [simp]:
  "phase_of (register_step s) j = (if j = next_id (control s) then Some Running else phase_of s j)"
  "flag_of (register_step s) j = (if j = next_id (control s) then Some False else flag_of s j)"
  "requested_by (control (register_step s)) = requested_by (control s)"
  "(threads (register_step s) j = None) = (j \<noteq> next_id (control s) \<and> threads s j = None)"
  by (simp_all add: section_defs control_defs flag_update)

lemma drop_simps [simp]:
  "phase_of (s\<lparr>control := drop_mutator i c, threads := (threads s)(i := None)\<rparr>) j =
     (if j = i then None else phase_of s j)"
  "flag_of (s\<lparr>control := drop_mutator i (control s), threads := t\<rparr>) j =
     (if j = i then None else flag_of s j)"
  by (simp_all add: section_defs control_defs flag_delete)

lemma request_simps [simp]:
  "requested_by (begin_request i c) = Some i" "requested_by (finish_request c) = None"
  "requested_by (park_mutator i c) = requested_by c" "requested_by (drop_mutator i c) = requested_by c"
  by (simp_all add: control_defs)

lemma phase_Some: "threads s i = Some m \<Longrightarrow> phase_of s i = Some (mutator_phase m)"
  by (simp add: phase_of_def)

lemma must_park_requested: "must_park i c \<Longrightarrow> requested_by c \<noteq> None"
  by (auto simp: must_park_def split: option.splits)

text \<open>Every section keeps the invariant: one goal for each part of it and each kind of section.\<close>

lemma flags_registered:
  assumes "mutator_step k s s'" "safepoint_ok s"
  shows "(flag_of s' i = None) = (threads s' i = None)"
  using assms(1) safepoint_okD(1) [OF assms(2), of i] safepoint_okD(1) [OF assms(2), of k]
  by cases (auto split: if_splits)

lemma flagged_parked:
  assumes "mutator_step k s s'" "safepoint_ok s" "flag_of s' i = Some True"
  shows "phase_of s' i = Some Parked \<and> requested_by (control s') \<noteq> None"
  using assms(1,3) safepoint_okD(2,3) [OF assms(2), of i]
  by cases (auto simp: phase_Some dest: must_park_requested split: if_splits)

lemma unflagged_self:
  assumes "safepoint_ok s" "phase_of s i = Some p" "p \<noteq> Parked"
  shows "flag_of s i = Some False"
  using safepoint_okD(1,2) [OF assms(1), of i] assms(2,3)
  by (cases "flag_of s i") (auto simp: phase_of_def)

lemma one_stopping:
  assumes "mutator_step k s s'" "safepoint_ok s"
    "phase_of s' i = Some Stopping" "phase_of s' j = Some Stopping"
  shows "i = j"
proof -
  note uniq = safepoint_okD(4) [OF assms(2)]
  show ?thesis using assms(1)
  proof cases
    case (request_enter m)
    have False if "phase_of s l = Some Stopping" "l \<noteq> k" for l
      using peers_parked_flag [OF request_enter(4), of l] unflagged_self [OF assms(2) that(1)] that(2)
      by auto
    then show ?thesis using assms(3,4) request_enter(1) by (auto split: if_splits)
  qed (use assms(3,4) uniq [of i j] in \<open>auto split: if_splits\<close>)
qed

lemma mutator_step_ok: "mutator_step k s s' \<Longrightarrow> safepoint_ok s \<Longrightarrow> safepoint_ok s'"
  unfolding safepoint_ok_def [of s']
  using flags_registered flagged_parked one_stopping by blast

lemma safepoint_step_ok:
  assumes "safepoint_step s s'" "safepoint_ok s"
  shows "safepoint_ok s'"
  using assms(1)
proof cases
  case (by_mutator i)
  then show ?thesis using assms(2) by (rule mutator_step_ok)
next
  case by_registration
  then show ?thesis using assms(2) by (auto simp: safepoint_ok_def)
qed

lemma reachable_ok: "reachable_coordinator s \<Longrightarrow> safepoint_ok s"
  by (induction rule: rtranclp_induct) (auto intro: safepoint_new_ok safepoint_step_ok)

section \<open>While an operation is under way\<close>

text \<open>The steps of the system during which the operation of \<open>i\<close> does not end.\<close>

inductive during_stop :: "u64 \<Rightarrow> coordinator \<Rightarrow> coordinator \<Rightarrow> bool" for i s where
  stop_now: "during_stop i s s"
| stop_step: "during_stop i s s' \<Longrightarrow> safepoint_step s' s'' \<Longrightarrow> phase_of s'' i = Some Stopping \<Longrightarrow>
     during_stop i s s''"

lemma parked_stays:
  assumes "safepoint_step s s'" "safepoint_ok s" "phase_of s i = Some Stopping"
    "phase_of s' i = Some Stopping" "flag_of s j = Some True"
  shows "flag_of s' j = Some True"
  using assms(1)
proof cases
  case (by_mutator k)
  have parked: "phase_of s j = Some Parked" and req: "requested_by (control s) \<noteq> None"
    using safepoint_okD(2,3) [OF assms(2) assms(5)] by simp_all
  from by_mutator show ?thesis
  proof cases
    case (request_finish m)
    then have "k = i" using safepoint_okD(4) [OF assms(2) _ assms(3)] by (simp add: phase_Some)
    then show ?thesis using request_finish assms(4) by simp
  next
    case (unregister m)
    then show ?thesis using parked assms(5) by (auto simp: phase_Some)
  qed (use assms(5) parked in \<open>auto simp: phase_Some\<close>)
next
  case by_registration
  moreover have "threads s j \<noteq> None" using safepoint_okD(1) [OF assms(2), of j] assms(5) by auto
  ultimately show ?thesis using assms(5) by (auto simp: domIff)
qed

lemma during_stop_parked:
  assumes "during_stop i s s'" "safepoint_ok s" "phase_of s i = Some Stopping"
    "\<And>j. j \<noteq> i \<Longrightarrow> threads s j \<noteq> None \<Longrightarrow> flag_of s j = Some True"
  shows "safepoint_ok s' \<and> phase_of s' i = Some Stopping \<and>
    (\<forall>j. j \<noteq> i \<longrightarrow> threads s j \<noteq> None \<longrightarrow> flag_of s' j = Some True)"
  using assms(1)
proof induction
  case stop_now
  then show ?case using assms(2-4) by blast
next
  case (stop_step s' s'')
  then show ?case using safepoint_step_ok parked_stays by blast
qed

lemma entering_stops_peers:
  assumes "mutator_step i s s'" "safepoint_ok s" "phase_of s i \<noteq> Some Stopping"
    "phase_of s' i = Some Stopping" "j \<noteq> i" "threads s' j \<noteq> None"
  shows "flag_of s' j = Some True"
  using assms(1)
proof cases
  case (request_enter m)
  then obtain b where "flag_of s j = Some b"
    using safepoint_okD(1) [OF assms(2), of j] assms(5,6) by auto
  then show ?thesis
    using peers_parked_flag [OF request_enter(4)] assms(5) request_enter(1) by auto
qed (use assms(3,4) in \<open>auto simp: phase_Some phase_of_def\<close>)

text \<open>
  A mutator that is waiting in a request, whose peer is parked without a flag: the peer has been
  released by the end of an earlier request but has not left its wait.
\<close>

definition starved :: "u64 \<Rightarrow> u64 \<Rightarrow> coordinator \<Rightarrow> bool" where
  "starved i j s \<longleftrightarrow>
     i \<noteq> j \<and> safepoint_ok s \<and> phase_of s i = Some AwaitingPeers \<and>
     phase_of s j = Some Parked \<and> flag_of s j = Some False \<and> requested_by (control s) \<noteq> None \<and>
     (\<forall>k. phase_of s k \<noteq> Some Stopping)"

lemma starved_step:
  assumes "safepoint_step s s'" "starved i j s"
  shows "starved i j s'"
  using assms(1)
proof cases
  case (by_mutator k)
  have ok: "safepoint_ok s'" using by_mutator assms(2) mutator_step_ok by (simp add: starved_def)
  from by_mutator show ?thesis
  proof cases
    case (request_enter m)
    have "k \<noteq> j" using request_enter assms(2) by (auto simp: starved_def phase_Some)
    then show ?thesis
      using peers_parked_flag [OF request_enter(4), of j False] assms(2) by (simp add: starved_def)
  next
    case (request_finish m)
    then have "phase_of s k = Some Stopping" by (simp add: phase_Some)
    then show ?thesis using assms(2) unfolding starved_def by blast
  qed (use assms(2) ok in \<open>auto simp: starved_def phase_Some split: if_splits\<close>)
next
  case by_registration
  then have "safepoint_ok s'" using assms(1,2) safepoint_step_ok by (simp add: starved_def)
  moreover have "threads s i \<noteq> None" "threads s j \<noteq> None"
    using assms(2) by (auto simp: starved_def phase_of_def)
  ultimately show ?thesis using assms(2) by_registration by (auto simp: starved_def domIff)
qed

lemma starved_steps: "safepoint_step\<^sup>*\<^sup>* s s' \<Longrightarrow> starved i j s \<Longrightarrow> starved i j s'"
  by (induction rule: rtranclp_induct) (auto intro: starved_step)

section \<open>Two concrete runs\<close>

definition two_mutators :: coordinator where
  "two_mutators = register_step (register_step coordinator_new)"

lemma two_mutators_reachable: "reachable_coordinator two_mutators"
proof -
  have "safepoint_step coordinator_new (register_step coordinator_new)"
    by (rule by_registration) (simp add: coordinator_new_def)
  moreover have "safepoint_step (register_step coordinator_new) two_mutators"
    unfolding two_mutators_def
    by (rule by_registration) (simp add: coordinator_new_def register_step_def register_mutator_def control_new_def)
  ultimately show ?thesis by (meson converse_rtranclp_into_rtranclp r_into_rtranclp)
qed

text \<open>The first mutator requests a stop, the second one parks, the operation begins.\<close>

definition idle :: "phase \<Rightarrow> mutator" where
  "idle p = \<lparr>mutator_phase = p, mutator_epoch = 0\<rparr>"

definition state_of :: "u64 \<Rightarrow> u64 option \<Rightarrow> bool \<Rightarrow> phase \<Rightarrow> phase \<Rightarrow> coordinator" where
  "state_of e r b p q =
     \<lparr>control = \<lparr>control_epoch = e, next_id = 2, requested_by = r, mutators = [(0, False), (1, b)]\<rparr>,
      threads = [0 \<mapsto> idle p, 1 \<mapsto> idle q]\<rparr>"

lemma two_mutators_state: "two_mutators = state_of 0 None False Running Running"
  by (simp add: two_mutators_def state_of_def idle_def register_step_def register_mutator_def
      coordinator_new_def control_new_def)

lemmas state_simps = state_of_def idle_def enter_phase_def begin_request_def park_mutator_def
  finish_request_def fun_upd_twist [of "1 :: u64" "0 :: u64"]

lemma sample_begin: "mutator_step 0 (state_of e r b Running q) (state_of (e + 1) (Some 0) b AwaitingPeers q)"
  using request_begin [of "state_of e r b Running q" 0 "idle Running"]
  by (simp add: state_simps)

lemma sample_park: "mutator_step 1 (state_of e (Some 0) b p Running) (state_of e (Some 0) True p Parked)"
  using poll_park [of "state_of e (Some 0) b p Running" 1 "idle Running"]
  by (simp add: state_simps must_park_def)

lemma sample_enter:
  "mutator_step 0 (state_of e r True AwaitingPeers q) (state_of e r True Stopping q)"
  using request_enter [of "state_of e r True AwaitingPeers q" 0 "idle AwaitingPeers"]
  by (simp add: state_simps peers_parked_def)

lemma sample_finish: "mutator_step 0 (state_of e r b Stopping q) (state_of e None False Running q)"
  using request_finish [of "state_of e r b Stopping q" 0 "idle Stopping"]
  by (simp add: state_simps)

lemma sample_waiting_reachable: "reachable_coordinator (state_of 1 (Some 0) True AwaitingPeers Parked)"
  using two_mutators_reachable [unfolded two_mutators_state]
    by_mutator [OF sample_begin [of 0 None False Running]]
    by_mutator [OF sample_park [of 1 False AwaitingPeers]]
  by (simp add: rtranclp.rtrancl_into_rtrancl)

lemma sample_starved_reachable: "reachable_coordinator (state_of 2 (Some 0) False AwaitingPeers Parked)"
  using sample_waiting_reachable
    by_mutator [OF sample_enter [of 1 "Some 0" Parked]]
    by_mutator [OF sample_finish [of 1 "Some 0" True Parked]]
    by_mutator [OF sample_begin [of 1 None False Parked]]
  by (simp add: rtranclp.rtrancl_into_rtrancl)

section \<open>Properties\<close>

text \<open>C31. While the operation of a stop is under way, every mutator that was registered when it
  began stays parked and registered, whatever the other threads do (further requests and new
  registrations included), and no second operation is under way.\<close>

theorem stop_the_world:
  assumes "reachable_coordinator s" "mutator_step i s s1"
    "phase_of s i \<noteq> Some Stopping" "phase_of s1 i = Some Stopping" "during_stop i s1 s2"
  shows "(\<forall>j. j \<noteq> i \<longrightarrow> threads s1 j \<noteq> None \<longrightarrow> phase_of s2 j = Some Parked) \<and>
         (\<forall>j. phase_of s2 j = Some Stopping \<longleftrightarrow> j = i)"
proof -
  have ok: "safepoint_ok s" by (rule reachable_ok [OF assms(1)])
  have ok1: "safepoint_ok s1" by (rule mutator_step_ok [OF assms(2) ok])
  have "safepoint_ok s2 \<and> phase_of s2 i = Some Stopping \<and>
      (\<forall>j. j \<noteq> i \<longrightarrow> threads s1 j \<noteq> None \<longrightarrow> flag_of s2 j = Some True)"
    using during_stop_parked [OF assms(5) ok1 assms(4)] entering_stops_peers [OF assms(2) ok assms(3,4)]
    by blast
  then show ?thesis using safepoint_okD(2,4) by blast
qed

theorem stop_the_world_witness:
  "phase_of (state_of 1 (Some 0) True Stopping Parked) 1 = Some Parked \<and>
   (\<forall>j. phase_of (state_of 1 (Some 0) True Stopping Parked) j = Some Stopping \<longleftrightarrow> j = 0)"
  using stop_the_world [OF sample_waiting_reachable sample_enter _ _ stop_now]
  by (simp add: phase_of_def state_of_def idle_def)

text \<open>C32. A released peer that has not yet left its wait is not parked for the next request: when
  the same mutator requests again first, the system is in a state from which, whatever any thread
  does, the request is never granted and the peer never resumes. Such a state is reachable.\<close>

theorem repeated_request_starves:
  "\<exists>s. reachable_coordinator s \<and>
     {s'. safepoint_step\<^sup>*\<^sup>* s s'}
       \<subseteq> {s'. phase_of s' 0 = Some AwaitingPeers \<and> phase_of s' 1 = Some Parked}"
proof (intro exI conjI subsetI)
  let ?s = "state_of 2 (Some 0) False AwaitingPeers Parked"
  show "reachable_coordinator ?s" by (rule sample_starved_reachable)
  have stuck: "starved 0 1 ?s"
    using reachable_ok [OF sample_starved_reachable]
    by (simp add: starved_def phase_of_def flag_of_def state_of_def idle_def)
  fix s' assume "s' \<in> {s'. safepoint_step\<^sup>*\<^sup>* ?s s'}"
  then have "safepoint_step\<^sup>*\<^sup>* ?s s'" by simp
  from starved_steps [OF this stuck]
  show "s' \<in> {s'. phase_of s' 0 = Some AwaitingPeers \<and> phase_of s' 1 = Some Parked}"
    unfolding starved_def by blast
qed

end
