(* ===== verification/Engine_Shapes.thy ===== *)
theory Engine_Shapes
  imports Wustite_Prelude "HOL-Library.AList"
begin

text \<open>
  Symbols and shapes of the adaptive engine (\<open>adaptive_v2/symbols.rs\<close>, \<open>adaptive_v2/shapes.rs\<close>):
  interned names, and the tree of shapes that the objects of a class pass through as attributes
  are added, with the epochs that invalidate the shapes of a class. A symbol table, and a shape
  table with it, belongs to one namespace; identities of another namespace are refused. Indices
  saturate at \<open>u32::MAX\<close>, as \<open>try_from\<close> with \<open>unwrap_or\<close> does.
\<close>

definition u32_or_max :: "nat \<Rightarrow> u32" where
  "u32_or_max n = (if n < 2 ^ 32 then word_of_nat n else - 1)"

section \<open>Symbols\<close>

record symbol_id =
  symbol_namespace :: u64
  symbol_index :: u32

datatype symbol_error = SymbolWrongRuntime | SymbolUnknown | SymbolCapacity

record symbol_table =
  table_namespace :: u64
  symbol_ids :: "string \<Rightarrow> symbol_id option"
  symbol_names :: "string list"

definition symbol_table_new :: "u64 \<Rightarrow> symbol_table" where
  "symbol_table_new ns = \<lparr>table_namespace = ns, symbol_ids = Map.empty, symbol_names = []\<rparr>"

definition intern_symbol :: "symbol_table \<Rightarrow> string \<Rightarrow> symbol_table \<times> (symbol_error + symbol_id)" where
  "intern_symbol t name =
     (case symbol_ids t name of
        Some s \<Rightarrow> (t, Inr s)
      | None \<Rightarrow>
          (case u32_of_len (length (symbol_names t)) of
             None \<Rightarrow> (t, Inl SymbolCapacity)
           | Some i \<Rightarrow>
               let s = \<lparr>symbol_namespace = table_namespace t, symbol_index = i\<rparr>
               in (t\<lparr>symbol_names := symbol_names t @ [name],
                     symbol_ids := (symbol_ids t)(name \<mapsto> s)\<rparr>, Inr s)))"

definition resolve_symbol :: "symbol_table \<Rightarrow> symbol_id \<Rightarrow> symbol_error + string" where
  "resolve_symbol t s =
     (if symbol_namespace s \<noteq> table_namespace t then Inl SymbolWrongRuntime
      else ok_or (get_at (symbol_names t) (unat (symbol_index s))) SymbolUnknown)"

section \<open>Shapes\<close>

record engine_class =
  class_namespace :: u64
  class_index :: u32

record engine_shape_id =
  shape_namespace :: u64
  shape_index :: u32

record shape_key =
  key_shape :: engine_shape_id
  key_dependency_epoch :: u64
  key_layout_epoch :: u64

record engine_shape =
  shape_ident :: engine_shape_id
  shape_class :: engine_class
  shape_slots :: "(symbol_id \<times> u32) list"
  dependency_epoch :: u64
  layout_epoch :: u64

datatype shape_error =
  ShapeWrongRuntime | WrongClass | UnknownClass | UnknownShape | UnknownField | StaleShape | ShapeCapacity

record shape_table =
  shapes_namespace :: u64
  table_shapes :: "engine_shape list"
  class_roots :: "engine_class \<Rightarrow> engine_shape_id option"
  class_epochs :: "u64 list"
  transitions :: "engine_shape_id \<times> symbol_id \<Rightarrow> engine_shape_id option"

definition shape_table_new :: "u64 \<Rightarrow> shape_table" where
  "shape_table_new ns = \<lparr>shapes_namespace = ns, table_shapes = [], class_roots = Map.empty,
                         class_epochs = [], transitions = Map.empty\<rparr>"

definition insert_shape ::
  "shape_table \<Rightarrow> engine_class \<Rightarrow> (symbol_id \<times> u32) list \<Rightarrow> u64 \<Rightarrow> u64 \<Rightarrow> shape_table \<times> engine_shape_id" where
  "insert_shape t c slots dep layout =
     (let i = \<lparr>shape_namespace = shapes_namespace t, shape_index = u32_or_max (length (table_shapes t))\<rparr>
      in (t\<lparr>table_shapes := table_shapes t @
             [\<lparr>shape_ident = i, shape_class = c, shape_slots = slots, dependency_epoch = dep,
               layout_epoch = layout\<rparr>]\<rparr>, i))"

definition new_class_with_root :: "shape_table \<Rightarrow> shape_table \<times> engine_class \<times> engine_shape_id" where
  "new_class_with_root t =
     (let c = \<lparr>class_namespace = shapes_namespace t, class_index = u32_or_max (length (class_epochs t))\<rparr>;
          t1 = t\<lparr>class_epochs := class_epochs t @ [0]\<rparr>
      in case insert_shape t1 c [] 0 0 of
           (t2, root) \<Rightarrow> (t2\<lparr>class_roots := (class_roots t2)(c \<mapsto> root)\<rparr>, c, root))"

definition validate_class :: "shape_table \<Rightarrow> engine_class \<Rightarrow> shape_error + unit" where
  "validate_class t c =
     (if class_namespace c \<noteq> shapes_namespace t then Inl ShapeWrongRuntime
      else map_ok (\<lambda>_. ()) (ok_or (get_at (class_epochs t) (unat (class_index c))) UnknownClass))"

definition root_shape :: "shape_table \<Rightarrow> engine_class \<Rightarrow> shape_error + engine_shape_id" where
  "root_shape t c = and_then (validate_class t c) (\<lambda>_. ok_or (class_roots t c) UnknownClass)"

definition shape_at :: "shape_table \<Rightarrow> engine_shape_id \<Rightarrow> shape_error + engine_shape" where
  "shape_at t i =
     (if shape_namespace i \<noteq> shapes_namespace t then Inl ShapeWrongRuntime
      else ok_or (get_at (table_shapes t) (unat (shape_index i))) UnknownShape)"

definition key_of :: "shape_table \<Rightarrow> engine_shape_id \<Rightarrow> shape_error + shape_key" where
  "key_of t i =
     map_ok (\<lambda>s. \<lparr>key_shape = shape_ident s, key_dependency_epoch = dependency_epoch s,
                  key_layout_epoch = layout_epoch s\<rparr>) (shape_at t i)"

definition key_is_current :: "shape_table \<Rightarrow> shape_key \<Rightarrow> bool" where
  "key_is_current t k =
     (case shape_at t (key_shape k) of
        Inl e \<Rightarrow> False
      | Inr s \<Rightarrow>
          (case get_at (class_epochs t) (unat (class_index (shape_class s))) of
             None \<Rightarrow> False
           | Some epoch \<Rightarrow> epoch = key_dependency_epoch k) \<and>
          layout_epoch s = key_layout_epoch k)"

definition serialized_key_is_current :: "shape_table \<Rightarrow> u64 \<Rightarrow> u64 \<Rightarrow> u64 \<Rightarrow> bool" where
  "serialized_key_is_current t identity dep layout =
     (unat identity < 2 ^ 32 \<and>
      key_is_current t
        \<lparr>key_shape = \<lparr>shape_namespace = shapes_namespace t, shape_index = ucast identity\<rparr>,
         key_dependency_epoch = dep, key_layout_epoch = layout\<rparr>)"

definition serialized_parts :: "shape_key \<Rightarrow> u64 \<times> u64 \<times> u64" where
  "serialized_parts k =
     (ucast (shape_index (key_shape k)), key_dependency_epoch k, key_layout_epoch k)"

definition shape_slot :: "shape_table \<Rightarrow> engine_shape_id \<Rightarrow> symbol_id \<Rightarrow> shape_error + u32" where
  "shape_slot t i name =
     (if symbol_namespace name \<noteq> shapes_namespace t then Inl ShapeWrongRuntime
      else and_then (shape_at t i) (\<lambda>s. ok_or (map_of (shape_slots s) name) UnknownField))"

definition transition ::
  "shape_table \<Rightarrow> engine_shape_id \<Rightarrow> symbol_id \<Rightarrow> shape_table \<times> (shape_error + engine_shape_id)" where
  "transition t from_id name =
     (if symbol_namespace name \<noteq> shapes_namespace t then (t, Inl ShapeWrongRuntime)
      else
        case shape_at t from_id of
          Inl e \<Rightarrow> (t, Inl e)
        | Inr s \<Rightarrow>
            (case key_of t from_id of
               Inl e \<Rightarrow> (t, Inl e)
             | Inr k \<Rightarrow>
                 if \<not> key_is_current t k then (t, Inl StaleShape)
                 else if map_of (shape_slots s) name \<noteq> None then (t, Inr from_id)
                 else
                   case transitions t (from_id, name) of
                     Some to_id \<Rightarrow> (t, Inr to_id)
                   | None \<Rightarrow>
                       (case u32_of_len (length (shape_slots s)) of
                          None \<Rightarrow> (t, Inl ShapeCapacity)
                        | Some slot \<Rightarrow>
                            (case insert_shape t (shape_class s) (AList.update name slot (shape_slots s))
                                    (dependency_epoch s) (layout_epoch s + 1) of
                               (t1, to_id) \<Rightarrow>
                                 (t1\<lparr>transitions := (transitions t1)((from_id, name) \<mapsto> to_id)\<rparr>,
                                  Inr to_id)))))"

definition transition_for_class ::
  "shape_table \<Rightarrow> engine_class \<Rightarrow> engine_shape_id \<Rightarrow> symbol_id \<Rightarrow>
     shape_table \<times> (shape_error + engine_shape_id)" where
  "transition_for_class t c from_id name =
     (case validate_class t c of
        Inl e \<Rightarrow> (t, Inl e)
      | Inr u \<Rightarrow>
          (case shape_at t from_id of
             Inl e \<Rightarrow> (t, Inl e)
           | Inr s \<Rightarrow>
               if shape_class s \<noteq> c then (t, Inl WrongClass) else transition t from_id name))"

definition invalidate_class :: "shape_table \<Rightarrow> engine_class \<Rightarrow> shape_table \<times> (shape_error + unit)" where
  "invalidate_class t c =
     (case validate_class t c of
        Inl e \<Rightarrow> (t, Inl e)
      | Inr u \<Rightarrow>
          (case get_at (class_epochs t) (unat (class_index c)) of
             None \<Rightarrow> (t, Inl UnknownClass)
           | Some epoch \<Rightarrow>
               let t1 = t\<lparr>class_epochs := (class_epochs t)[unat (class_index c) := epoch + 1]\<rparr>
               in case insert_shape t1 c [] (epoch + 1) 0 of
                    (t2, root) \<Rightarrow> (t2\<lparr>class_roots := (class_roots t2)(c \<mapsto> root)\<rparr>, Inr ())))"

section \<open>Symbols are interned\<close>

definition symbols_wf :: "symbol_table \<Rightarrow> bool" where
  "symbols_wf t \<longleftrightarrow>
     length (symbol_names t) \<le> 2 ^ 32 \<and>
     (\<forall>name s. symbol_ids t name = Some s \<longleftrightarrow> resolve_symbol t s = Inr name)"

lemma resolve_symbol_iff:
  "resolve_symbol t s = Inr name \<longleftrightarrow>
     symbol_namespace s = table_namespace t \<and> unat (symbol_index s) < length (symbol_names t) \<and>
     symbol_names t ! unat (symbol_index s) = name"
  by (auto simp: resolve_symbol_def)

lemma symbol_table_new_wf: "symbols_wf (symbol_table_new ns)"
  by (simp add: symbols_wf_def symbol_table_new_def resolve_symbol_iff)

lemma intern_symbol_laws:
  assumes "symbols_wf t" "intern_symbol t name = (t', r)"
  shows "symbols_wf t'" "r = Inr s \<Longrightarrow> resolve_symbol t' s = Inr name"
    "resolve_symbol t k = Inr x \<Longrightarrow> resolve_symbol t' k = Inr x"
proof -
  have "symbols_wf t' \<and> (\<forall>s. r = Inr s \<longrightarrow> resolve_symbol t' s = Inr name) \<and>
        (\<forall>k x. resolve_symbol t k = Inr x \<longrightarrow> resolve_symbol t' k = Inr x)"
  proof (cases "symbol_ids t name")
    case (Some s)
    then show ?thesis using assms by (auto simp: intern_symbol_def symbols_wf_def)
  next
    case None
    show ?thesis
    proof (cases "u32_of_len (length (symbol_names t))")
      case (Some i)
      let ?s = "\<lparr>symbol_namespace = table_namespace t, symbol_index = i\<rparr>"
      let ?t = "t\<lparr>symbol_names := symbol_names t @ [name], symbol_ids := (symbol_ids t)(name \<mapsto> ?s)\<rparr>"
      have i: "unat i = length (symbol_names t)" "length (symbol_names t) < 2 ^ 32"
        using u32_of_len_Some [OF Some] by simp_all
      have t': "t' = ?t" and r: "r = Inr ?s"
        using assms(2) None Some by (simp_all add: intern_symbol_def Let_def)
      have old: "resolve_symbol t k = Inr x \<Longrightarrow> resolve_symbol ?t k = Inr x" for k x
        by (auto simp: resolve_symbol_iff nth_append)
      have split: "resolve_symbol ?t k = Inr x \<longleftrightarrow> resolve_symbol t k = Inr x \<or> (k = ?s \<and> x = name)" for k x
      proof (cases "unat (symbol_index k) = length (symbol_names t)")
        case True
        then have "symbol_index k = i" using i(1) by (simp add: word_unat_eq_iff)
        then show ?thesis using True by (cases k) (auto simp: resolve_symbol_iff)
      next
        case False
        then have "k \<noteq> ?s" using i(1) by auto
        then show ?thesis using False by (auto simp: resolve_symbol_iff nth_append less_Suc_eq)
      qed
      have "\<not> resolve_symbol t k = Inr name" for k
        using assms(1) None by (metis symbols_wf_def option.distinct(1))
      then have "symbols_wf ?t"
        using assms(1) i(2) unfolding symbols_wf_def by (auto simp: split)
      then show ?thesis using t' r split by auto
    qed (use assms None in \<open>auto simp: intern_symbol_def\<close>)
  qed
  then show "symbols_wf t'" "r = Inr s \<Longrightarrow> resolve_symbol t' s = Inr name"
    "resolve_symbol t k = Inr x \<Longrightarrow> resolve_symbol t' k = Inr x" by blast+
qed

section \<open>The tree of shapes\<close>

definition slots_wf :: "(symbol_id \<times> u32) list \<Rightarrow> bool" where
  "slots_wf xs \<longleftrightarrow> distinct (map fst xs) \<and> map (unat \<circ> snd) xs = [0..<length xs]"

text \<open>A step in the tree: one symbol more, at the next slot.\<close>

definition extends_by :: "symbol_id \<Rightarrow> engine_shape \<Rightarrow> engine_shape \<Rightarrow> bool" where
  "extends_by name s s' \<longleftrightarrow>
     map_of (shape_slots s) name = None \<and>
     shape_slots s' = shape_slots s @ [(name, word_of_nat (length (shape_slots s)))] \<and>
     length (shape_slots s) < 2 ^ 32 \<and>
     shape_class s' = shape_class s \<and> dependency_epoch s' = dependency_epoch s \<and>
     layout_epoch s' = layout_epoch s + 1"

definition shapes_wf :: "shape_table \<Rightarrow> bool" where
  "shapes_wf t \<longleftrightarrow>
     (\<forall>i s. shape_at t i = Inr s \<longrightarrow> shape_ident s = i \<and> slots_wf (shape_slots s)) \<and>
     (\<forall>i name j. transitions t (i, name) = Some j \<longrightarrow>
        (\<exists>s s'. shape_at t i = Inr s \<and> shape_at t j = Inr s' \<and> extends_by name s s'))"

lemma shape_at_iff:
  "shape_at t i = Inr s \<longleftrightarrow>
     shape_namespace i = shapes_namespace t \<and> unat (shape_index i) < length (table_shapes t) \<and>
     table_shapes t ! unat (shape_index i) = s"
  by (auto simp: shape_at_def)

lemma slots_wf_Nil [simp]: "slots_wf []"
  by (simp add: slots_wf_def)

lemma slots_wf_snoc:
  assumes "slots_wf xs" "map_of xs name = None" "length xs < 2 ^ 32"
  shows "slots_wf (xs @ [(name, word_of_nat (length xs))])"
  using assms by (auto simp: slots_wf_def map_of_eq_None_iff unat_of_nat)

lemma update_new: "map_of xs k = None \<Longrightarrow> AList.update k v xs = xs @ [(k, v)]"
  by (induction xs) (auto split: if_splits)

lemma insert_shape_laws:
  assumes "insert_shape t c slots dep layout = (t', i)" "length (table_shapes t) < 2 ^ 32"
  shows "shape_at t' j = Inr s \<longleftrightarrow>
      shape_at t j = Inr s \<or>
      (j = i \<and> s = \<lparr>shape_ident = i, shape_class = c, shape_slots = slots, dependency_epoch = dep,
                     layout_epoch = layout\<rparr>)"
    "shapes_namespace t' = shapes_namespace t" "class_epochs t' = class_epochs t"
    "transitions t' = transitions t" "class_roots t' = class_roots t"
    "\<nexists>s. shape_at t i = Inr s"
proof -
  let ?s = "\<lparr>shape_ident = i, shape_class = c, shape_slots = slots, dependency_epoch = dep,
             layout_epoch = layout\<rparr>"
  have idx: "unat (shape_index i) = length (table_shapes t)" "shape_namespace i = shapes_namespace t"
    and t': "t' = t\<lparr>table_shapes := table_shapes t @ [?s]\<rparr>"
    using assms by (auto simp: insert_shape_def Let_def u32_or_max_def unat_of_nat)
  show "shape_at t' j = Inr s \<longleftrightarrow> shape_at t j = Inr s \<or> (j = i \<and> s = ?s)"
  proof (cases "unat (shape_index j) = length (table_shapes t)")
    case True
    then have "shape_index j = shape_index i" using idx(1) by (simp add: word_unat_eq_iff)
    then have "shape_namespace j = shapes_namespace t \<longleftrightarrow> j = i" using idx(2) by (cases i; cases j) auto
    then show ?thesis using True t' by (auto simp: shape_at_iff)
  next
    case False
    then have "j \<noteq> i" using idx(1) by auto
    then show ?thesis using False t' by (auto simp: shape_at_iff nth_append less_Suc_eq)
  qed
  show "shapes_namespace t' = shapes_namespace t" "class_epochs t' = class_epochs t"
    "transitions t' = transitions t" "class_roots t' = class_roots t"
    using t' by simp_all
  show "\<nexists>s. shape_at t i = Inr s" using idx(1) by (simp add: shape_at_iff)
qed

lemma insert_shape_wf:
  assumes "shapes_wf t" "insert_shape t c slots dep layout = (t', i)" "length (table_shapes t) < 2 ^ 32"
    "slots_wf slots"
  shows "shapes_wf t'"
proof -
  note laws = insert_shape_laws [OF assms(2,3)]
  show ?thesis using assms(1,4) unfolding shapes_wf_def laws(1,4) by fastforce
qed

lemma shapes_wf_frame [simp]:
  "shapes_wf (t\<lparr>class_roots := r\<rparr>) = shapes_wf t" "shapes_wf (t\<lparr>class_epochs := e\<rparr>) = shapes_wf t"
  "shape_at (t\<lparr>class_roots := r\<rparr>) = shape_at t" "shape_at (t\<lparr>class_epochs := e\<rparr>) = shape_at t"
  "shape_at (t\<lparr>transitions := tr\<rparr>) = shape_at t"
  by (simp_all add: shapes_wf_def fun_eq_iff shape_at_def)

lemma shape_table_new_wf: "shapes_wf (shape_table_new ns)"
  by (simp add: shapes_wf_def shape_table_new_def shape_at_def get_at_def)

lemma new_class_wf:
  assumes "shapes_wf t" "new_class_with_root t = (t', c, root)" "length (table_shapes t) < 2 ^ 32"
  shows "shapes_wf t'"
proof -
  obtain t2 i where "insert_shape (t\<lparr>class_epochs := class_epochs t @ [0]\<rparr>) c [] 0 0 = (t2, i)"
    and "t' = t2\<lparr>class_roots := (class_roots t2)(c \<mapsto> i)\<rparr>"
    using assms(2) by (auto simp: new_class_with_root_def Let_def split: prod.splits)
  then show ?thesis
    using insert_shape_wf [of "t\<lparr>class_epochs := class_epochs t @ [0]\<rparr>"] assms(1,3) by simp
qed

lemma invalidate_class_wf:
  assumes "shapes_wf t" "invalidate_class t c = (t', r)" "length (table_shapes t) < 2 ^ 32"
  shows "shapes_wf t'"
proof (cases r)
  case (Inl e)
  then show ?thesis
    using assms(1,2)
    by (auto simp: invalidate_class_def Let_def split: sum.splits option.splits prod.splits)
next
  case (Inr u)
  then obtain t2 i epoch where
    "insert_shape (t\<lparr>class_epochs := (class_epochs t)[unat (class_index c) := epoch + 1]\<rparr>) c [] (epoch + 1) 0 = (t2, i)"
    and "t' = t2\<lparr>class_roots := (class_roots t2)(c \<mapsto> i)\<rparr>"
    using assms(2)
    by (auto simp: invalidate_class_def Let_def split: sum.splits option.splits prod.splits)
  then show ?thesis
    using insert_shape_wf [of "t\<lparr>class_epochs := (class_epochs t)[unat (class_index c) := epoch + 1]\<rparr>"]
      assms(1,3) by simp
qed

section \<open>Transitions\<close>

lemma shapes_wfD:
  assumes "shapes_wf t"
  shows "shape_at t i = Inr s \<Longrightarrow> shape_ident s = i" "shape_at t i = Inr s \<Longrightarrow> slots_wf (shape_slots s)"
    "transitions t (i, name) = Some j \<Longrightarrow>
       \<exists>s s'. shape_at t i = Inr s \<and> shape_at t j = Inr s' \<and> extends_by name s s'"
  using assms unfolding shapes_wf_def by blast+

text \<open>
  A successful transition ends at a shape that has the attribute: the shape itself when it had it,
  the remembered successor, or a new one.
\<close>

definition reaches :: "symbol_id \<Rightarrow> engine_shape \<Rightarrow> engine_shape \<Rightarrow> bool" where
  "reaches name s s' \<longleftrightarrow> (s' = s \<and> map_of (shape_slots s) name \<noteq> None) \<or> extends_by name s s'"

lemma transition_laws:
  assumes "shapes_wf t" "length (table_shapes t) < 2 ^ 32" "transition t i name = (t', r)"
  shows "shapes_wf t' \<and> shapes_namespace t' = shapes_namespace t \<and> class_epochs t' = class_epochs t \<and>
    class_roots t' = class_roots t \<and>
    (\<forall>k s. shape_at t k = Inr s \<longrightarrow> shape_at t' k = Inr s) \<and>
    (\<forall>e. r = Inl e \<longrightarrow> t' = t) \<and>
    (\<forall>j. r = Inr j \<longrightarrow>
       (\<exists>s s'. shape_at t i = Inr s \<and> shape_at t' j = Inr s' \<and> reaches name s s') \<and>
       transition t' i name = (t', Inr j))"
proof (cases "symbol_namespace name \<noteq> shapes_namespace t \<or> (\<exists>e. shape_at t i = Inl e)")
  case True
  then have "t' = t \<and> (\<exists>e. r = Inl e)"
    using assms(3) by (auto simp: transition_def split: if_splits)
  then show ?thesis using assms(1) by auto
next
  case False
  then obtain s where s: "shape_at t i = Inr s" and ns: "symbol_namespace name = shapes_namespace t"
    by (cases "shape_at t i") auto
  define k where "k = \<lparr>key_shape = shape_ident s, key_dependency_epoch = dependency_epoch s,
                       key_layout_epoch = layout_epoch s\<rparr>"
  have key: "key_of t i = Inr k" using s by (simp add: key_of_def k_def)
  show ?thesis
  proof (cases "key_is_current t k")
    case stale: False
    then have "t' = t \<and> r = Inl StaleShape"
      using assms(3) ns s key by (simp add: transition_def)
    then show ?thesis using assms(1) by auto
  next
    case current: True
    show ?thesis
    proof (cases "map_of (shape_slots s) name \<noteq> None \<or> transitions t (i, name) \<noteq> None")
      case True
      then have "t' = t \<and> (\<exists>j s'. r = Inr j \<and> shape_at t j = Inr s' \<and> reaches name s s')"
      proof (cases "map_of (shape_slots s) name = None")
        case absent: True
        then obtain j where j: "transitions t (i, name) = Some j" using True by auto
        obtain s' where "shape_at t j = Inr s'" "extends_by name s s'"
          using shapes_wfD(3) [OF assms(1) j] s by auto
        then show ?thesis using assms(3) ns s key current absent j
          by (auto simp: transition_def reaches_def)
      next
        case present: False
        then show ?thesis using assms(3) ns s key current
          by (auto simp: transition_def reaches_def)
      qed
      then show ?thesis using assms(1,3) s by auto
    next
      case fresh: False
      then have absent: "map_of (shape_slots s) name = None" and none: "transitions t (i, name) = None"
        by simp_all
      show ?thesis
      proof (cases "u32_of_len (length (shape_slots s))")
        case None
        then have "t' = t \<and> r = Inl ShapeCapacity"
          using assms(3) ns s key current absent none by (simp add: transition_def)
        then show ?thesis using assms(1) by auto
      next
        case (Some slot)
        have len: "length (shape_slots s) < 2 ^ 32" and slot: "slot = word_of_nat (length (shape_slots s))"
          using Some by (simp_all add: u32_of_len_def split: if_splits)
        obtain t1 j where ins: "insert_shape t (shape_class s) (AList.update name slot (shape_slots s))
            (dependency_epoch s) (layout_epoch s + 1) = (t1, j)" by fastforce
        note laws = insert_shape_laws [OF ins assms(2)]
        have t': "t' = t1\<lparr>transitions := (transitions t1)((i, name) \<mapsto> j)\<rparr>" and r: "r = Inr j"
          using assms(3) ns s key current absent none Some ins by (simp_all add: transition_def)
        have wf1: "shapes_wf t1"
          using assms(1,2) ins shapes_wfD(2) [OF assms(1) s] absent len slot
          by (intro insert_shape_wf [OF assms(1) ins]) (simp_all add: update_new slots_wf_snoc)
        define s' where "s' = \<lparr>shape_ident = j, shape_class = shape_class s,
          shape_slots = AList.update name slot (shape_slots s), dependency_epoch = dependency_epoch s,
          layout_epoch = layout_epoch s + 1\<rparr>"
        have s': "shape_at t1 j = Inr s'" "extends_by name s s'"
          using laws(1) [of j s'] absent len slot by (simp_all add: extends_by_def update_new s'_def)
        have old: "shape_at t1 m = Inr x" if "shape_at t m = Inr x" for m x using that laws(1) by blast
        have wf': "shapes_wf t'"
          unfolding shapes_wf_def
        proof (intro conjI allI impI)
          fix m x assume "shape_at t' m = Inr x"
          then show "shape_ident x = m" "slots_wf (shape_slots x)"
            using shapes_wfD(1,2) [OF wf1] t' by simp_all
        next
          fix m y l assume l: "transitions t' (m, y) = Some l"
          show "\<exists>a b. shape_at t' m = Inr a \<and> shape_at t' l = Inr b \<and> extends_by y a b"
          proof (cases "m = i \<and> y = name")
            case True
            then show ?thesis using l t' s' old [OF s] by auto
          next
            case False
            then have "transitions t (m, y) = Some l" using l t' laws(4) by auto
            from shapes_wfD(3) [OF assms(1) this] show ?thesis using old t' by auto
          qed
        qed
        have "key_of t' i = Inr k" using old [OF s] t' by (simp add: key_of_def k_def)
        moreover have "key_is_current t' k"
          using current s old [OF s] t' laws(3) shapes_wfD(1) [OF assms(1) s]
          by (simp add: key_is_current_def k_def)
        ultimately have "transition t' i name = (t', Inr j)"
          using ns laws(2) old [OF s] t' absent by (simp add: transition_def)
        then show ?thesis using wf' t' r laws(2,3,5) old s s' by (auto simp: reaches_def)
      qed
    qed
  qed
qed

section \<open>Epochs\<close>

text \<open>
  Runs of the table, with the number of times that the class at an index was invalidated.
\<close>

inductive shape_run :: "u32 \<Rightarrow> nat \<Rightarrow> shape_table \<Rightarrow> shape_table \<Rightarrow> bool" for c where
  run_none: "shape_run c 0 t t"
| run_class: "shape_run c n t t' \<Longrightarrow> new_class_with_root t' = (t'', d, root) \<Longrightarrow> shape_run c n t t''"
| run_transition: "shape_run c n t t' \<Longrightarrow> transition t' i name = (t'', r) \<Longrightarrow> shape_run c n t t''"
| run_invalidate: "shape_run c n t t' \<Longrightarrow> invalidate_class t' d = (t'', r) \<Longrightarrow>
     shape_run c (if r = Inr () \<and> class_index d = c then Suc n else n) t t''"

text \<open>Along every operation the shapes stay where they are.\<close>

definition keeps_shapes :: "shape_table \<Rightarrow> shape_table \<Rightarrow> bool" where
  "keeps_shapes t t' \<longleftrightarrow>
     shapes_namespace t' = shapes_namespace t \<and> (\<exists>more. table_shapes t' = table_shapes t @ more)"

lemma keeps_shapes_at: "keeps_shapes t t' \<Longrightarrow> shape_at t i = Inr s \<Longrightarrow> shape_at t' i = Inr s"
  by (auto simp: keeps_shapes_def shape_at_iff nth_append)

lemma keeps_shapes_trans: "keeps_shapes t t' \<Longrightarrow> keeps_shapes t' t'' \<Longrightarrow> keeps_shapes t t''"
  by (auto simp: keeps_shapes_def)

lemma insert_keeps:
  "insert_shape t c slots dep layout = (t', i) \<Longrightarrow> keeps_shapes t t' \<and> class_epochs t' = class_epochs t"
  by (auto simp: insert_shape_def Let_def keeps_shapes_def)

lemma transition_keeps:
  "transition t i name = (t', r) \<Longrightarrow> keeps_shapes t t' \<and> class_epochs t' = class_epochs t"
  by (auto simp: transition_def insert_shape_def Let_def keeps_shapes_def
      split: if_splits sum.splits option.splits)

lemma new_class_keeps:
  "new_class_with_root t = (t', c, root) \<Longrightarrow>
   keeps_shapes t t' \<and> class_epochs t' = class_epochs t @ [0]"
  by (auto simp: new_class_with_root_def insert_shape_def Let_def keeps_shapes_def)

lemma invalidate_keeps:
  "invalidate_class t d = (t', r) \<Longrightarrow>
   keeps_shapes t t' \<and>
   class_epochs t' =
     (if r = Inr () then (class_epochs t)[unat (class_index d) := class_epochs t ! unat (class_index d) + 1]
      else class_epochs t)"
  by (auto simp: invalidate_class_def insert_shape_def Let_def keeps_shapes_def
      split: sum.splits option.splits)

lemma shape_run_laws:
  assumes "shape_run c n t t'" "unat c < length (class_epochs t)"
  shows "keeps_shapes t t' \<and> unat c < length (class_epochs t') \<and>
         class_epochs t' ! unat c = class_epochs t ! unat c + of_nat n"
  using assms
proof induction
  case (run_none t)
  then show ?case by (simp add: keeps_shapes_def)
next
  case (run_class n t t' t'' d root)
  then show ?case using new_class_keeps [OF run_class.hyps(2)] keeps_shapes_trans
    by (auto simp: nth_append)
next
  case (run_transition n t t' i name t'' r)
  then show ?case using transition_keeps [OF run_transition.hyps(2)] keeps_shapes_trans by auto
next
  case (run_invalidate n t t' d t'' r)
  then show ?case using invalidate_keeps [OF run_invalidate.hyps(2)] keeps_shapes_trans
    by (auto simp: nth_list_update word_unat_eq_iff [symmetric] add_ac)
qed

section \<open>Properties\<close>

definition sample_shapes :: shape_table where
  "sample_shapes = fst (new_class_with_root (shape_table_new 3))"

definition sample_root :: engine_shape_id where
  "sample_root = \<lparr>shape_namespace = 3, shape_index = 0\<rparr>"

definition sample_symbol :: symbol_id where
  "sample_symbol = \<lparr>symbol_namespace = 3, symbol_index = 0\<rparr>"

lemmas sample_shape_defs = sample_shapes_def sample_root_def sample_symbol_def shape_table_new_def
  new_class_with_root_def insert_shape_def u32_or_max_def

lemma sample_shapes_wf: "shapes_wf sample_shapes"
  unfolding sample_shapes_def
  by (rule new_class_wf [OF shape_table_new_wf])
     (auto simp: shape_table_new_def new_class_with_root_def insert_shape_def Let_def)

text \<open>C33. A successful transition keeps every attribute of the shape at its slot and leads to a shape
  that has the new attribute; the slots of a shape are \<open>0, 1, 2, ...\<close> without gaps; the identity of no
  shape changes; and the same transition asked again answers the same shape without changing the
  table.\<close>

theorem transition_keeps_slots:
  assumes "shapes_wf t" "length (table_shapes t) < 2 ^ 32" "transition t i name = (t', Inr j)"
  shows "shapes_wf t' \<and>
    (\<forall>y n. shape_slot t i y = Inr n \<longrightarrow> shape_slot t' j y = Inr n) \<and>
    (\<exists>n. shape_slot t' j name = Inr n) \<and>
    (\<forall>s. shape_at t' j = Inr s \<longrightarrow> map (unat \<circ> snd) (shape_slots s) = [0..<length (shape_slots s)]) \<and>
    (\<forall>k s. shape_at t k = Inr s \<longrightarrow> shape_at t' k = Inr s) \<and>
    transition t' i name = (t', Inr j)"
proof -
  note laws = transition_laws [OF assms]
  then obtain s s' where s: "shape_at t i = Inr s" "shape_at t' j = Inr s'" "reaches name s s'" by blast
  have ns: "shapes_namespace t' = shapes_namespace t" and wf: "shapes_wf t'" using laws by simp_all
  have name: "symbol_namespace name = shapes_namespace t"
    using assms(3) by (simp add: transition_def split: if_splits)
  have slots: "map_of (shape_slots s') y = Some n" if "map_of (shape_slots s) y = Some n" for y n
    using s(3) that by (auto simp: reaches_def extends_by_def map_add_def split: option.split)
  have new: "\<exists>n. map_of (shape_slots s') name = Some n"
    using s(3) by (auto simp: reaches_def extends_by_def map_add_def)
  have "shape_slot t' j y = Inr n" if "shape_slot t i y = Inr n" for y n
    using that s ns slots by (auto simp: shape_slot_def split: if_splits)
  moreover have "\<exists>n. shape_slot t' j name = Inr n"
    using new s ns name by (auto simp: shape_slot_def)
  moreover have "map (unat \<circ> snd) (shape_slots x) = [0..<length (shape_slots x)]" if "shape_at t' j = Inr x" for x
    using shapes_wfD(2) [OF wf that] by (simp add: slots_wf_def)
  ultimately show ?thesis using laws by blast
qed

theorem transition_keeps_slots_witness:
  "\<exists>t' j. transition sample_shapes sample_root sample_symbol = (t', Inr j) \<and>
     shape_slot t' j sample_symbol = Inr 0 \<and>
     transition t' sample_root sample_symbol = (t', Inr j)"
proof -
  obtain t' j where tr: "transition sample_shapes sample_root sample_symbol = (t', Inr j)"
    and slot: "shape_slot t' j sample_symbol = Inr 0"
    by (simp add: sample_shape_defs transition_def shape_at_def key_of_def key_is_current_def get_at_def
        Let_def u32_of_len_def shape_slot_def)
  have len: "length (table_shapes sample_shapes) < 2 ^ 32"
    by (simp add: sample_shape_defs Let_def)
  from transition_keeps_slots [OF sample_shapes_wf len tr] tr slot show ?thesis by blast
qed



end
