(* ===== verification/Adaptive_Profile.thy ===== *)
theory Adaptive_Profile
  imports Wustite_Prelude
begin

text \<open>
  When the adaptive engine records and compiles: the inline caches of up to four cases
  (\<open>adaptive_v2/pic.rs\<close>) and the profile of a piece of code (\<open>adaptive_v2/profile.rs\<close>), a state
  machine that hands out a permit to record and later a permit to compile.
\<close>

section \<open>Polymorphic inline caches\<close>

datatype pic_state = Specialized nat | GenericPic

record pic_counters =
  pic_hits :: u64
  pic_misses :: u64
  generic_fallbacks :: u64

record ('k, 'v) pic =
  pic_entries :: "('k \<times> 'v) list"
  pic_generic :: bool
  pic_counters :: pic_counters

definition pic_new :: "('k, 'v) pic" where
  "pic_new = \<lparr>pic_entries = [], pic_generic = False,
              pic_counters = \<lparr>pic_hits = 0, pic_misses = 0, generic_fallbacks = 0\<rparr>\<rparr>"

definition pic_observe :: "('k, 'v) pic \<Rightarrow> 'k \<Rightarrow> 'v \<Rightarrow> ('k, 'v) pic" where
  "pic_observe p k v =
     (if pic_generic p then p
      else
        case position (\<lambda>entry. fst entry = k) (pic_entries p) of
          Some i \<Rightarrow> p\<lparr>pic_entries := (pic_entries p)[i := (fst (pic_entries p ! i), v)]\<rparr>
        | None \<Rightarrow>
            if length (pic_entries p) = 4 then p\<lparr>pic_entries := [], pic_generic := True\<rparr>
            else p\<lparr>pic_entries := pic_entries p @ [(k, v)]\<rparr>)"

text \<open>The fallback is the value that the closure of the caller answers.\<close>

definition pic_resolve_or :: "('k, 'v) pic \<Rightarrow> 'k \<Rightarrow> 'v \<Rightarrow> ('k, 'v) pic \<times> 'v" where
  "pic_resolve_or p k fallback =
     (let c = pic_counters p in
      if pic_generic p then
        (p\<lparr>pic_counters := c\<lparr>generic_fallbacks := generic_fallbacks c + 1\<rparr>\<rparr>, fallback)
      else
        case find (\<lambda>entry. fst entry = k) (pic_entries p) of
          Some entry \<Rightarrow> (p\<lparr>pic_counters := c\<lparr>pic_hits := pic_hits c + 1\<rparr>\<rparr>, snd entry)
        | None \<Rightarrow> (p\<lparr>pic_counters := c\<lparr>pic_misses := pic_misses c + 1\<rparr>\<rparr>, fallback))"

definition pic_state_of :: "('k, 'v) pic \<Rightarrow> pic_state" where
  "pic_state_of p =
     (if pic_generic p then GenericPic
      else Specialized (if length (pic_entries p) < 2 ^ 8 then length (pic_entries p) else 4))"

record cache_key =
  key_identity :: u64
  key_dependency :: u64
  key_executable :: u64

section \<open>Profiles\<close>

type_synonym profile_case = u32

datatype fact_class = ProvenFact | Guardable bool bool | UnknownClassified

datatype probe_decision = ElidedProven | Guarded | LiveProbe

record live_observation =
  observed_case :: profile_case
  observed_fact :: fact_class

datatype lifecycle = Profiling | ReadyToRecord | Recording | ReadyToCompile | Compiled

record adaptive_profile =
  lifecycle :: lifecycle
  schema_epoch :: u64
  hot_threshold :: u64
  live_entries :: u64
  stable_live :: u64
  profile_cases :: "profile_case list"
  is_generic :: bool
  static_hints :: "profile_case list"
  recording_complete :: bool

definition profile_new :: "u64 \<Rightarrow> u64 \<Rightarrow> adaptive_profile" where
  "profile_new epoch hot =
     \<lparr>lifecycle = Profiling, schema_epoch = epoch, hot_threshold = (if hot = 0 then 1 else hot),
      live_entries = 0, stable_live = 0, profile_cases = [], is_generic = False,
      static_hints = [], recording_complete = False\<rparr>"

definition seed_static_hint :: "profile_case \<Rightarrow> adaptive_profile \<Rightarrow> adaptive_profile" where
  "seed_static_hint c p =
     (if c \<in> set (static_hints p) then p else p\<lparr>static_hints := static_hints p @ [c]\<rparr>)"

fun decide :: "fact_class \<Rightarrow> probe_decision" where
  "decide ProvenFact = ElidedProven"
| "decide (Guardable True True) = Guarded"
| "decide (Guardable _ _) = LiveProbe"
| "decide UnknownClassified = LiveProbe"

fun guard_valid :: "fact_class \<Rightarrow> bool" where
  "guard_valid (Guardable emitted confirmed) = (emitted \<and> confirmed)"
| "guard_valid _ = True"

definition observe_case :: "profile_case \<Rightarrow> adaptive_profile \<Rightarrow> adaptive_profile" where
  "observe_case c p =
     (if is_generic p then p\<lparr>stable_live := saturating_inc (stable_live p)\<rparr>
      else if c \<in> set (profile_cases p) then p\<lparr>stable_live := saturating_inc (stable_live p)\<rparr>
      else if length (profile_cases p) = 4 then p\<lparr>is_generic := True, stable_live := 1\<rparr>
      else p\<lparr>profile_cases := profile_cases p @ [c], stable_live := 1\<rparr>)"

definition advance_lifecycle :: "adaptive_profile \<Rightarrow> adaptive_profile" where
  "advance_lifecycle p =
     (case lifecycle p of
        Profiling \<Rightarrow>
          if hot_threshold p \<le> live_entries p \<and> hot_threshold p \<le> stable_live p
          then p\<lparr>lifecycle := ReadyToRecord\<rparr> else p
      | Recording \<Rightarrow>
          if recording_complete p \<and> hot_threshold p \<le> stable_live p
          then p\<lparr>lifecycle := ReadyToCompile\<rparr> else p
      | _ \<Rightarrow> p)"

definition observe_live :: "live_observation \<Rightarrow> adaptive_profile \<Rightarrow> adaptive_profile \<times> probe_decision" where
  "observe_live obs p =
     (let p1 = p\<lparr>live_entries := saturating_inc (live_entries p)\<rparr> in
      if \<not> guard_valid (observed_fact obs) then (p1\<lparr>stable_live := 0\<rparr>, decide (observed_fact obs))
      else (advance_lifecycle (observe_case (observed_case obs) p1), decide (observed_fact obs)))"

definition start_recording :: "adaptive_profile \<Rightarrow> adaptive_profile \<times> bool" where
  "start_recording p =
     (if lifecycle p \<noteq> ReadyToRecord then (p, False)
      else (p\<lparr>lifecycle := Recording, stable_live := 0, recording_complete := False\<rparr>, True))"

text \<open>A permit is the epoch of the schema it was given for.\<close>

definition take_record_permit :: "adaptive_profile \<Rightarrow> adaptive_profile \<times> u64 option" where
  "take_record_permit p =
     (if is_generic p then (p, None)
      else case start_recording p of
             (p1, started) \<Rightarrow> (p1, if started then Some (schema_epoch p1) else None))"

definition finish_recording :: "adaptive_profile \<Rightarrow> adaptive_profile \<times> bool" where
  "finish_recording p =
     (if lifecycle p \<noteq> Recording \<or> recording_complete p then (p, False)
      else (p\<lparr>recording_complete := True, stable_live := 0\<rparr>, True))"

definition take_compile_permit :: "adaptive_profile \<Rightarrow> adaptive_profile \<times> u64 option" where
  "take_compile_permit p =
     (if is_generic p \<or> lifecycle p \<noteq> ReadyToCompile then (p, None)
      else (p\<lparr>lifecycle := Compiled\<rparr>, Some (schema_epoch p)))"

definition invalidate_profile :: "u64 \<Rightarrow> adaptive_profile \<Rightarrow> adaptive_profile" where
  "invalidate_profile epoch p =
     p\<lparr>lifecycle := Profiling, schema_epoch := epoch, live_entries := 0, stable_live := 0,
       profile_cases := [], is_generic := False, recording_complete := False\<rparr>"

section \<open>Caches remember the last value of each case\<close>

text \<open>A run of observations and lookups, newest first, and the observations in it.\<close>

datatype ('k, 'v) pic_event = PicObserve 'k 'v | PicResolve 'k 'v

fun pic_run :: "('k, 'v) pic_event list \<Rightarrow> ('k, 'v) pic" where
  "pic_run [] = pic_new"
| "pic_run (PicObserve k v # es) = pic_observe (pic_run es) k v"
| "pic_run (PicResolve k v # es) = fst (pic_resolve_or (pic_run es) k v)"

fun observations :: "('k, 'v) pic_event list \<Rightarrow> ('k \<times> 'v) list" where
  "observations [] = []"
| "observations (PicObserve k v # es) = (k, v) # observations es"
| "observations (PicResolve k v # es) = observations es"

lemma resolve_keeps [simp]:
  "pic_entries (fst (pic_resolve_or p k v)) = pic_entries p"
  "pic_generic (fst (pic_resolve_or p k v)) = pic_generic p"
  by (simp_all add: pic_resolve_or_def Let_def split: option.split)

lemma position_fst:
  "position (\<lambda>entry. fst entry = k) es = Some i \<Longrightarrow> i < length es \<and> fst (es ! i) = k"
  by (drule position_Some) simp

lemma map_of_update_position:
  assumes "position (\<lambda>entry. fst entry = k) es = Some i"
  shows "map_of (es[i := (k, v)]) = (map_of es)(k \<mapsto> v)"
  using assms by (induction es arbitrary: i) (auto split: if_splits)

lemma find_map_of: "find (\<lambda>entry. fst entry = k) es = map_option (\<lambda>v. (k, v)) (map_of es k)"
  by (induction es) auto

lemma observe_laws:
  assumes "pic_generic p \<longleftrightarrow> 4 < card (fst ` set obs)"
    and "\<not> pic_generic p \<Longrightarrow> map_of (pic_entries p) = map_of obs \<and> distinct (map fst (pic_entries p))"
  shows "(pic_generic (pic_observe p k v) \<longleftrightarrow> 4 < card (insert k (fst ` set obs))) \<and>
    (\<not> pic_generic (pic_observe p k v) \<longrightarrow>
       map_of (pic_entries (pic_observe p k v)) = (map_of obs)(k \<mapsto> v) \<and>
       distinct (map fst (pic_entries (pic_observe p k v))))"
proof (cases "pic_generic p")
  case True
  then have "4 < card (insert k (fst ` set obs))" using assms(1)
    by (meson card_insert_le finite_imageI List.finite_set less_le_trans)
  then show ?thesis using True by (simp add: pic_observe_def)
next
  case False
  then have map: "map_of (pic_entries p) = map_of obs" and dist: "distinct (map fst (pic_entries p))"
    and few: "card (fst ` set obs) \<le> 4"
    using assms by auto
  have keys: "fst ` set (pic_entries p) = fst ` set obs"
    using map by (metis dom_map_of_conv_image_fst)
  then have len: "length (pic_entries p) = card (fst ` set obs)"
    using dist by (metis distinct_card length_map list.set_map)
  show ?thesis
  proof (cases "position (\<lambda>entry. fst entry = k) (pic_entries p)")
    case (Some i)
    then have "k \<in> fst ` set obs" using position_fst [OF Some] keys nth_mem by fastforce
    then have same: "insert k (fst ` set obs) = fst ` set obs" by blast
    have "map fst ((pic_entries p)[i := (k, v)]) = map fst (pic_entries p)"
      using position_fst [OF Some] by (simp add: map_update list_update_same_conv)
    then show ?thesis
      using False Some same few dist map map_of_update_position [OF Some, of v] position_fst [OF Some]
      by (simp add: pic_observe_def)
  next
    case None
    then have new: "k \<notin> fst ` set obs"
      unfolding keys [symmetric] by (auto simp: position_None)
    then have card: "card (insert k (fst ` set obs)) = Suc (card (fst ` set obs))" by simp
    have absent: "map_of (pic_entries p) k = None" using new keys by (simp add: map_of_eq_None_iff)
    have snoc: "map_of (pic_entries p @ [(k, v)]) = (map_of obs)(k \<mapsto> v)"
      using absent map by (auto simp: fun_eq_iff map_add_def split: option.split)
    show ?thesis
      using False None card len few dist new keys snoc by (auto simp: pic_observe_def)
  qed
qed

lemma pic_run_laws:
  "(pic_generic (pic_run es) \<longleftrightarrow> 4 < card (fst ` set (observations es))) \<and>
   (\<not> pic_generic (pic_run es) \<longrightarrow>
     map_of (pic_entries (pic_run es)) = map_of (observations es) \<and>
     distinct (map fst (pic_entries (pic_run es))))"
proof (induction es)
  case (Cons e es)
  show ?case
  proof (cases e)
    case (PicObserve k v)
    then show ?thesis
      using observe_laws [of "pic_run es" "observations es" k v] Cons.IH by (simp add: fun_upd_def)
  qed (use Cons.IH in simp)
qed (simp add: pic_new_def)

text \<open>C35. A lookup in an inline cache answers the value last observed for the key when at most four
  different keys have been observed, and what the fallback answers for every other key and once a
  fifth key has been observed.\<close>

theorem pic_answers_last_observation:
  "snd (pic_resolve_or (pic_run es) k fallback) =
     (if card (fst ` set (observations es)) \<le> 4
      then (case map_of (observations es) k of Some v \<Rightarrow> v | None \<Rightarrow> fallback)
      else fallback)"
proof (cases "pic_generic (pic_run es)")
  case True
  then show ?thesis using pic_run_laws [of es] by (simp add: pic_resolve_or_def Let_def)
next
  case False
  then show ?thesis using pic_run_laws [of es]
    by (auto simp: pic_resolve_or_def Let_def find_map_of split: option.split)
qed

section \<open>Runs of a profile\<close>

datatype profile_event =
    Seed profile_case
  | Observe live_observation
  | TakeRecord
  | FinishRecord
  | TakeCompile
  | Invalidate u64

fun apply_event :: "profile_event \<Rightarrow> adaptive_profile \<Rightarrow> adaptive_profile" where
  "apply_event (Seed c) p = seed_static_hint c p"
| "apply_event (Observe obs) p = fst (observe_live obs p)"
| "apply_event TakeRecord p = fst (take_record_permit p)"
| "apply_event FinishRecord p = fst (finish_recording p)"
| "apply_event TakeCompile p = fst (take_compile_permit p)"
| "apply_event (Invalidate epoch) p = invalidate_profile epoch p"

text \<open>The events of a run, newest first.\<close>

fun profile_run :: "u64 \<Rightarrow> u64 \<Rightarrow> profile_event list \<Rightarrow> adaptive_profile" where
  "profile_run epoch hot [] = profile_new epoch hot"
| "profile_run epoch hot (e # es) = apply_event e (profile_run epoch hot es)"

fun no_invalidation :: "profile_event list \<Rightarrow> bool" where
  "no_invalidation [] = True"
| "no_invalidation (Invalidate epoch # es) = False"
| "no_invalidation (e # es) = no_invalidation es"

text \<open>The guarded observations up to the last one whose guard was not confirmed.\<close>

fun stable_window :: "profile_event list \<Rightarrow> nat" where
  "stable_window [] = 0"
| "stable_window (Observe obs # es) =
     (if guard_valid (observed_fact obs) then Suc (stable_window es) else 0)"
| "stable_window (e # es) = stable_window es"

definition threshold_of :: "u64 \<Rightarrow> nat" where
  "threshold_of hot = (if hot = 0 then 1 else unat hot)"

text \<open>
  What a run must contain for the profile to be where it is: the recording was requested after a
  stable window, was finished, and, for a compilation, was followed by another stable window.
\<close>

definition hot_since :: "nat \<Rightarrow> profile_event list \<Rightarrow> bool" where
  "hot_since n es \<longleftrightarrow>
     (\<exists>later window before. es = later @ window @ before \<and> no_invalidation (later @ window) \<and>
        n \<le> stable_window window)"

definition recorded_since :: "nat \<Rightarrow> profile_event list \<Rightarrow> profile_event list \<Rightarrow> bool" where
  "recorded_since n window es \<longleftrightarrow>
     (\<exists>during before. es = window @ FinishRecord # during @ TakeRecord # before \<and>
        no_invalidation (window @ during) \<and> hot_since n before)"

definition compilable_since :: "nat \<Rightarrow> profile_event list \<Rightarrow> bool" where
  "compilable_since n es \<longleftrightarrow>
     (\<exists>later window rest. es = later @ rest \<and> no_invalidation later \<and> recorded_since n window rest \<and>
        n \<le> stable_window window)"

fun phase_history :: "nat \<Rightarrow> profile_event list \<Rightarrow> lifecycle \<Rightarrow> bool \<Rightarrow> nat \<Rightarrow> bool" where
  "phase_history n es Profiling c k =
     (\<exists>window before. es = window @ before \<and> no_invalidation window \<and> k \<le> stable_window window)"
| "phase_history n es ReadyToRecord c k = hot_since n es"
| "phase_history n es Recording False k =
     (\<exists>during before. es = during @ TakeRecord # before \<and> no_invalidation during \<and> hot_since n before)"
| "phase_history n es Recording True k =
     (\<exists>window. recorded_since n window es \<and> k \<le> stable_window window)"
| "phase_history n es ReadyToCompile c k = compilable_since n es"
| "phase_history n es Compiled c k = compilable_since n es"

fun window_step :: "profile_event \<Rightarrow> nat \<Rightarrow> nat" where
  "window_step (Observe obs) k = (if guard_valid (observed_fact obs) then Suc k else 0)"
| "window_step e k = k"

lemma no_invalidation_append [simp]:
  "no_invalidation (xs @ ys) = (no_invalidation xs \<and> no_invalidation ys)"
  by (induction xs rule: no_invalidation.induct) auto

lemma no_invalidation_ConsI [intro]:
  "no_invalidation [e] \<Longrightarrow> no_invalidation es \<Longrightarrow> no_invalidation (e # es)"
  by (cases e) auto

lemma stable_window_Cons: "k \<le> stable_window w \<Longrightarrow> window_step e k \<le> stable_window (e # w)"
  by (cases e) auto

lemma hot_since_Cons:
  assumes "hot_since n es" "no_invalidation [e]" shows "hot_since n (e # es)"
proof -
  obtain l w b where "es = l @ w @ b" "no_invalidation (l @ w)" "n \<le> stable_window w"
    using assms(1) unfolding hot_since_def by blast
  then have "e # es = (e # l) @ w @ b" "no_invalidation ((e # l) @ w)" "n \<le> stable_window w"
    using assms(2) no_invalidation_ConsI by auto
  then show ?thesis unfolding hot_since_def by blast
qed

lemma recorded_since_Cons:
  assumes "recorded_since n w es" "no_invalidation [e]" shows "recorded_since n (e # w) (e # es)"
proof -
  obtain d b where "es = w @ FinishRecord # d @ TakeRecord # b" "no_invalidation (w @ d)" "hot_since n b"
    using assms(1) unfolding recorded_since_def by blast
  then have "e # es = (e # w) @ FinishRecord # d @ TakeRecord # b" "no_invalidation ((e # w) @ d)"
    "hot_since n b"
    using assms(2) no_invalidation_ConsI by auto
  then show ?thesis unfolding recorded_since_def by blast
qed

lemma compilable_since_Cons:
  assumes "compilable_since n es" "no_invalidation [e]" shows "compilable_since n (e # es)"
proof -
  obtain l w r where "es = l @ r" "no_invalidation l" "recorded_since n w r" "n \<le> stable_window w"
    using assms(1) unfolding compilable_since_def by blast
  then have "e # es = (e # l) @ r" "no_invalidation (e # l)" "recorded_since n w r"
    "n \<le> stable_window w"
    using assms(2) no_invalidation_ConsI by auto
  then show ?thesis unfolding compilable_since_def by blast
qed

lemma phase_history_Cons:
  assumes "phase_history n es l c k" "no_invalidation [e]" "k' \<le> window_step e k"
  shows "phase_history n (e # es) l c k'"
proof (cases l)
  case Profiling
  with assms(1) obtain w b where w: "es = w @ b" "no_invalidation w" "k \<le> stable_window w" by auto
  have "k' \<le> stable_window (e # w)" using stable_window_Cons [OF w(3), of e] assms(3) by (rule le_trans [rotated])
  moreover have "no_invalidation (e # w)" using assms(2) w(2) by (rule no_invalidation_ConsI)
  moreover have "e # es = (e # w) @ b" using w(1) by simp
  ultimately show ?thesis unfolding Profiling phase_history.simps by blast
next
  case ReadyToRecord
  with assms show ?thesis using hot_since_Cons by simp
next
  case Recording
  show ?thesis
  proof (cases c)
    case False
    with assms(1) Recording obtain d b
      where d: "es = d @ TakeRecord # b" "no_invalidation d" "hot_since n b" by auto
    have "e # es = (e # d) @ TakeRecord # b" using d(1) by simp
    moreover have "no_invalidation (e # d)" using assms(2) d(2) by (rule no_invalidation_ConsI)
    ultimately show ?thesis using False Recording d(3) by (simp only: phase_history.simps) blast
  next
    case True
    with assms(1) Recording obtain w where w: "recorded_since n w es" "k \<le> stable_window w" by auto
    have "k' \<le> stable_window (e # w)" using stable_window_Cons [OF w(2), of e] assms(3) by (rule le_trans [rotated])
    then show ?thesis using True Recording recorded_since_Cons [OF w(1) assms(2)]
      by (simp only: phase_history.simps) blast
  qed
next
  case ReadyToCompile
  with assms show ?thesis using compilable_since_Cons by simp
next
  case Compiled
  with assms show ?thesis using compilable_since_Cons by simp
qed

text \<open>The invariant of a run: the profile is where its history allows, and has at most four cases.\<close>

definition profile_ok :: "nat \<Rightarrow> profile_event list \<Rightarrow> adaptive_profile \<Rightarrow> bool" where
  "profile_ok n es p \<longleftrightarrow>
     unat (hot_threshold p) = n \<and> length (profile_cases p) \<le> 4 \<and>
     phase_history n es (lifecycle p) (recording_complete p) (unat (stable_live p))"

lemma unat_saturating_inc_le: "unat (saturating_inc (w :: u64)) \<le> Suc (unat w)"
  by (cases "w = - 1") (simp_all add: unat_saturating_inc, simp add: saturating_inc_def)

lemma observe_case_laws:
  assumes "length (profile_cases p) \<le> 4"
  shows "length (profile_cases (observe_case c p)) \<le> 4"
    "unat (stable_live (observe_case c p)) \<le> Suc (unat (stable_live p))"
    "lifecycle (observe_case c p) = lifecycle p"
    "recording_complete (observe_case c p) = recording_complete p"
    "hot_threshold (observe_case c p) = hot_threshold p"
    "live_entries (observe_case c p) = live_entries p"
  using assms by (auto simp: observe_case_def unat_saturating_inc_le)

lemma advance_lifecycle_ok:
  assumes "profile_ok n es p" shows "profile_ok n es (advance_lifecycle p)"
proof (cases "lifecycle p")
  case Profiling
  show ?thesis
  proof (cases "hot_threshold p \<le> live_entries p \<and> hot_threshold p \<le> stable_live p")
    case True
    obtain w b where "es = w @ b" "no_invalidation w" "unat (stable_live p) \<le> stable_window w"
      using assms Profiling by (auto simp: profile_ok_def)
    moreover have "n \<le> unat (stable_live p)" using True assms by (auto simp: profile_ok_def word_le_nat_alt)
    ultimately have "hot_since n es" unfolding hot_since_def
      by (intro exI [of _ "[]"] exI [of _ w] exI [of _ b]) simp
    then show ?thesis using assms True Profiling by (simp add: profile_ok_def advance_lifecycle_def)
  qed (use assms Profiling in \<open>auto simp: advance_lifecycle_def\<close>)
next
  case Recording
  show ?thesis
  proof (cases "recording_complete p \<and> hot_threshold p \<le> stable_live p")
    case True
    obtain w where "recorded_since n w es" "unat (stable_live p) \<le> stable_window w"
      using assms Recording True by (auto simp: profile_ok_def)
    moreover have "n \<le> unat (stable_live p)" using True assms by (auto simp: profile_ok_def word_le_nat_alt)
    ultimately have "compilable_since n es" unfolding compilable_since_def
      by (intro exI [of _ "[]"] exI [of _ w] exI [of _ es]) simp
    then show ?thesis using assms True Recording by (simp add: profile_ok_def advance_lifecycle_def)
  qed (use assms Recording in \<open>auto simp: advance_lifecycle_def\<close>)
qed (use assms in \<open>simp_all add: advance_lifecycle_def\<close>)

lemma profile_ok_other:
  assumes "profile_ok n es p" "no_invalidation [e]"
    and "lifecycle q = lifecycle p" "recording_complete q = recording_complete p"
    and "hot_threshold q = hot_threshold p" "length (profile_cases q) \<le> 4"
    and "unat (stable_live q) \<le> window_step e (unat (stable_live p))"
  shows "profile_ok n (e # es) q"
proof -
  have "phase_history n (e # es) (lifecycle p) (recording_complete p) (unat (stable_live q))"
    by (rule phase_history_Cons [OF _ assms(2,7)]) (use assms(1) in \<open>simp add: profile_ok_def\<close>)
  then show ?thesis using assms unfolding profile_ok_def by simp
qed

lemma observe_live_ok:
  assumes "profile_ok n es p" shows "profile_ok n (Observe obs # es) (fst (observe_live obs p))"
proof -
  define q where "q = p\<lparr>live_entries := saturating_inc (live_entries p)\<rparr>"
  have q: "profile_ok n es q" using assms by (simp add: profile_ok_def q_def)
  then have few: "length (profile_cases q) \<le> 4" by (simp add: profile_ok_def)
  show ?thesis
  proof (cases "guard_valid (observed_fact obs)")
    case True
    have "profile_ok n (Observe obs # es) (observe_case (observed_case obs) q)"
      by (rule profile_ok_other [OF q]) (simp_all add: observe_case_laws few True)
    from advance_lifecycle_ok [OF this] show ?thesis
      using True by (simp add: observe_live_def Let_def q_def)
  next
    case False
    have "profile_ok n (Observe obs # es) (q\<lparr>stable_live := 0\<rparr>)"
      by (rule profile_ok_other [OF q]) (simp_all add: few)
    then show ?thesis using False by (simp add: observe_live_def Let_def q_def)
  qed
qed

lemma take_record_ok:
  assumes "profile_ok n es p" shows "profile_ok n (TakeRecord # es) (fst (take_record_permit p))"
proof (cases "\<not> is_generic p \<and> lifecycle p = ReadyToRecord")
  case True
  then have "hot_since n es" using assms by (simp add: profile_ok_def)
  moreover have "TakeRecord # es = [] @ TakeRecord # es" by simp
  ultimately have "phase_history n (TakeRecord # es) Recording False 0"
    unfolding phase_history.simps using no_invalidation.simps(1) by blast
  then show ?thesis
    using True assms by (simp add: take_record_permit_def start_recording_def profile_ok_def)
next
  case False
  then have "fst (take_record_permit p) = p"
    by (auto simp: take_record_permit_def start_recording_def)
  then show ?thesis using profile_ok_other [OF assms, of TakeRecord p] assms by (simp add: profile_ok_def)
qed

lemma finish_recording_ok:
  assumes "profile_ok n es p" shows "profile_ok n (FinishRecord # es) (fst (finish_recording p))"
proof (cases "lifecycle p = Recording \<and> \<not> recording_complete p")
  case True
  then obtain d b where "es = d @ TakeRecord # b" "no_invalidation d" "hot_since n b"
    using assms by (auto simp: profile_ok_def)
  then have "recorded_since n [] (FinishRecord # es)" unfolding recorded_since_def by auto
  then show ?thesis using True assms by (auto simp: finish_recording_def profile_ok_def)
next
  case False
  then have "fst (finish_recording p) = p" by (auto simp: finish_recording_def)
  then show ?thesis using profile_ok_other [OF assms, of FinishRecord p] assms by (simp add: profile_ok_def)
qed

lemma take_compile_ok:
  assumes "profile_ok n es p" shows "profile_ok n (TakeCompile # es) (fst (take_compile_permit p))"
proof (cases "\<not> is_generic p \<and> lifecycle p = ReadyToCompile")
  case True
  then have "compilable_since n (TakeCompile # es)"
    using assms by (auto simp: profile_ok_def intro: compilable_since_Cons)
  then show ?thesis using True assms by (simp add: take_compile_permit_def profile_ok_def)
next
  case False
  then have "fst (take_compile_permit p) = p" by (auto simp: take_compile_permit_def)
  then show ?thesis using profile_ok_other [OF assms, of TakeCompile p] assms by (simp add: profile_ok_def)
qed

lemma profile_run_ok: "profile_ok (threshold_of hot) es (profile_run epoch hot es)"
proof (induction es)
  case Nil
  show ?case by (simp add: profile_ok_def profile_new_def threshold_of_def)
next
  case (Cons e es)
  show ?case
  proof (cases e)
    case (Seed c)
    have "profile_ok (threshold_of hot) (Seed c # es) (seed_static_hint c (profile_run epoch hot es))"
      by (rule profile_ok_other [OF Cons]) (use Cons in \<open>simp_all add: seed_static_hint_def profile_ok_def\<close>)
    then show ?thesis using Seed by simp
  next
    case (Invalidate e')
    have "Invalidate e' # es = [] @ Invalidate e' # es" by simp
    then have "phase_history (threshold_of hot) (Invalidate e' # es) Profiling False 0"
      unfolding phase_history.simps using no_invalidation.simps(1) by blast
    then show ?thesis using Invalidate Cons by (simp add: invalidate_profile_def profile_ok_def)
  qed (simp_all add: Cons observe_live_ok take_record_ok finish_recording_ok take_compile_ok)
qed

fun schema_of :: "u64 \<Rightarrow> profile_event list \<Rightarrow> u64" where
  "schema_of epoch [] = epoch"
| "schema_of epoch (Invalidate e # es) = e"
| "schema_of epoch (e # es) = schema_of epoch es"

lemma observe_live_schema [simp]: "schema_epoch (fst (observe_live obs p)) = schema_epoch p"
  by (simp add: observe_live_def Let_def observe_case_def advance_lifecycle_def split: lifecycle.split)

lemma schema_run: "schema_epoch (profile_run epoch hot es) = schema_of epoch es"
  by (induction epoch es rule: schema_of.induct)
    (simp_all add: profile_new_def seed_static_hint_def take_record_permit_def start_recording_def
      finish_recording_def take_compile_permit_def invalidate_profile_def)


definition sample_profile_events :: "profile_event list" where
  "sample_profile_events =
     (let ok = Observe \<lparr>observed_case = 3, observed_fact = Guardable True True\<rparr> in
      [ok, ok, FinishRecord, TakeRecord, ok, Seed 3, ok, Observe \<lparr>observed_case = 4, observed_fact = Guardable True False\<rparr>,
       ok, Invalidate 9])"

lemma sample_permit:
  "take_compile_permit (profile_run 5 2 sample_profile_events) =
     (fst (take_compile_permit (profile_run 5 2 sample_profile_events)), Some 9)"
  by code_simp


end
