(* ===== verification/Wxir_Snapshot.thy ===== *)
theory Wxir_Snapshot
  imports Wustite_Prelude "HOL-Library.Product_Lexorder"
begin

text \<open>
  The second intermediate representation of the adaptive engine (\<open>adaptive_v2/wxir_v2/ir.rs\<close>,
  \<open>snapshot.rs\<close>, \<open>dependency.rs\<close>, \<open>deopt.rs\<close>): snapshots of recorded code in static single
  assignment form, with their safepoints, root maps, deoptimization recipes and dependencies. Block,
  value and safepoint identifiers are the 32-bit words they wrap; sets of the source are HOL sets,
  read in increasing order where the source iterates over them.
\<close>

section \<open>Instructions\<close>

type_synonym wx_block_id = u32
type_synonym wx_value_id = u32
type_synonym safepoint_id = u32

datatype wx_abi = AbiV2

datatype wx_type = WxI64 | WxF64 | WxBool | WxHandle | WxBorrowedView

datatype wx_comparison = WxEqual | WxNotEqual | WxLessThan | WxLessEqual | WxGreaterThan | WxGreaterEqual

datatype fact_lowering = LowerElidedProven | LowerGuardedStatic u32 | LowerLiveProbe

fun is_handle_type :: "wx_type \<Rightarrow> bool" where
  "is_handle_type WxHandle = True"
| "is_handle_type _ = False"

datatype wx_constant =
    WxInteger i64
  | WxFloatBits u64
  | WxBoolean bool
  | WxHandleBits u64
  | WxUndefinedDead

datatype wx_effect =
    EffPure | EffRead | EffWrite | EffAllocation | EffHelper | EffCall | EffBackedge

fun is_barrier :: "wx_effect \<Rightarrow> bool" where
  "is_barrier EffAllocation = True"
| "is_barrier EffHelper = True"
| "is_barrier EffCall = True"
| "is_barrier EffBackedge = True"
| "is_barrier _ = False"

fun is_ordered :: "wx_effect \<Rightarrow> bool" where
  "is_ordered EffPure = False"
| "is_ordered EffRead = False"
| "is_ordered _ = True"

record value_def =
  def_value :: wx_value_id
  def_type :: wx_type

datatype wx_kind =
    KConstant wx_constant
  | KCopy
  | KIntegerAdd | KIntegerSubtract | KIntegerMultiply
  | KIntegerFloorDivide i64
  | KIntegerToFloat | KIntegerLessThan
  | KIntegerCompare wx_comparison
  | KFloatAdd | KFloatSubtract | KFloatMultiply | KFloatDivide | KFloatPower
  | KFloatCompare wx_comparison
  | KIntegerNegate | KFloatNegate
  | KBooleanNot | KBooleanAnd | KBooleanOr
  | KSelect
  | KObjectGet | KObjectSet
  | KListGet | KListLength | KListSet
  | KListReversePrefix wx_type
  | KListClear | KListAppend | KListInsert | KListPop
  | KOwnedList u32 wx_type bool bool
  | KCall u64
  | KGuard u32
  | KAllocate
  | KHelper u64
  | KBranchGuard bool u32
  | KNestedLoopExit u32
  | KBorrowView | KResolveHandle | KLiveProbe
  | KAtPc u32 wx_kind

fun semantic :: "wx_kind \<Rightarrow> wx_kind" where
  "semantic (KAtPc pc operation) = semantic operation"
| "semantic operation = operation"

record wx_instruction =
  wx_kind :: wx_kind
  wx_inputs :: "wx_value_id list"
  wx_output :: "value_def option"
  wx_effect :: wx_effect
  effect_sequence :: "u32 option"
  wx_safepoint :: "safepoint_id option"

definition wx_instruction_new ::
  "wx_kind \<Rightarrow> wx_value_id list \<Rightarrow> value_def option \<Rightarrow> wx_effect \<Rightarrow> wx_instruction" where
  "wx_instruction_new kind inputs out eff =
     \<lparr>wx_kind = kind, wx_inputs = inputs, wx_output = out, wx_effect = eff,
      effect_sequence = None, wx_safepoint = None\<rparr>"

definition wx_instruction_safepoint ::
  "wx_kind \<Rightarrow> wx_value_id list \<Rightarrow> value_def option \<Rightarrow> wx_effect \<Rightarrow> safepoint_id \<Rightarrow> wx_instruction" where
  "wx_instruction_safepoint kind inputs out eff point =
     \<lparr>wx_kind = kind, wx_inputs = inputs, wx_output = out, wx_effect = eff,
      effect_sequence = None, wx_safepoint = Some point\<rparr>"

definition wx_ordered :: "u32 \<Rightarrow> wx_instruction \<Rightarrow> wx_instruction" where
  "wx_ordered sequence i = i\<lparr>effect_sequence := Some sequence\<rparr>"

datatype wx_terminator =
    TJump wx_block_id "wx_value_id list"
  | TBranch wx_value_id wx_block_id wx_block_id
  | TReturn "wx_value_id list"
  | TSideExit u32 "wx_value_id list"
  | TBackedge u32 safepoint_id
  | TIrreducibleBackedge

record wx_block =
  block_ident :: wx_block_id
  block_parameters :: "value_def list"
  block_instructions :: "wx_instruction list"
  block_terminator :: wx_terminator

section \<open>Roots\<close>

datatype root_location =
    RootSsa wx_value_id
  | RootSpill u32
  | RootVirtual u32
  | RootOwnedList u32
  | RootInlineRegister u16 u16
  | RootCurrentFunction
  | RootCallee
  | RootArgument u16
  | RootResult u16
  | RootCache u32
  | RootDeoptWorklist
  | RootHostPin u64

text \<open>The derived order of the locations: by constructor, then by the fields.\<close>

fun root_key :: "root_location \<Rightarrow> nat \<times> nat \<times> nat" where
  "root_key (RootSsa v) = (0, unat v, 0)"
| "root_key (RootSpill s) = (1, unat s, 0)"
| "root_key (RootVirtual v) = (2, unat v, 0)"
| "root_key (RootOwnedList l) = (3, unat l, 0)"
| "root_key (RootInlineRegister f r) = (4, unat f, unat r)"
| "root_key RootCurrentFunction = (5, 0, 0)"
| "root_key RootCallee = (6, 0, 0)"
| "root_key (RootArgument a) = (7, unat a, 0)"
| "root_key (RootResult r) = (8, unat r, 0)"
| "root_key (RootCache c) = (9, unat c, 0)"
| "root_key RootDeoptWorklist = (10, 0, 0)"
| "root_key (RootHostPin p) = (11, unat p, 0)"

lemma root_key_inject [simp]: "root_key a = root_key b \<longleftrightarrow> a = b"
  by (cases a; cases b) (simp_all add: word_unat_eq_iff)

instantiation root_location :: linorder
begin

definition less_eq_root_location :: "root_location \<Rightarrow> root_location \<Rightarrow> bool" where
  "less_eq_root_location a b \<longleftrightarrow> root_key a \<le> root_key b"

definition less_root_location :: "root_location \<Rightarrow> root_location \<Rightarrow> bool" where
  "less_root_location a b \<longleftrightarrow> root_key a < root_key b"

instance
  by standard (auto simp: less_eq_root_location_def less_root_location_def
    dest: antisym)

end

record root_map =
  root_map_point :: safepoint_id
  root_map_roots :: "root_location set"

section \<open>Dependencies\<close>

datatype dependency_kind =
    DepExecutable | DepSchema | DepShape | DepClass | DepListLayout | DepCallee | DepHelperAbi | DepGcAbi

fun kind_rank :: "dependency_kind \<Rightarrow> nat" where
  "kind_rank DepExecutable = 0"
| "kind_rank DepSchema = 1"
| "kind_rank DepShape = 2"
| "kind_rank DepClass = 3"
| "kind_rank DepListLayout = 4"
| "kind_rank DepCallee = 5"
| "kind_rank DepHelperAbi = 6"
| "kind_rank DepGcAbi = 7"

lemma kind_rank_inject [simp]: "kind_rank a = kind_rank b \<longleftrightarrow> a = b"
  by (cases a; cases b) simp_all

instantiation dependency_kind :: linorder
begin

definition less_eq_dependency_kind :: "dependency_kind \<Rightarrow> dependency_kind \<Rightarrow> bool" where
  "less_eq_dependency_kind a b \<longleftrightarrow> kind_rank a \<le> kind_rank b"

definition less_dependency_kind :: "dependency_kind \<Rightarrow> dependency_kind \<Rightarrow> bool" where
  "less_dependency_kind a b \<longleftrightarrow> kind_rank a < kind_rank b"

instance
  by standard (auto simp: less_eq_dependency_kind_def less_dependency_kind_def
    dest: antisym)

end

record dependency =
  dep_kind :: dependency_kind
  dep_identity :: u64
  expected_epoch :: u64
  observed_epoch :: u64

definition dependency_current :: "dependency_kind \<Rightarrow> u64 \<Rightarrow> u64 \<Rightarrow> dependency" where
  "dependency_current kind identity epoch =
     \<lparr>dep_kind = kind, dep_identity = identity, expected_epoch = epoch, observed_epoch = epoch\<rparr>"

definition is_current :: "dependency \<Rightarrow> bool" where
  "is_current d \<longleftrightarrow> expected_epoch d = observed_epoch d"

definition dependency_key :: "dependency \<Rightarrow> dependency_kind \<times> u64 \<times> u64 \<times> u64" where
  "dependency_key d = (dep_kind d, dep_identity d, expected_epoch d, observed_epoch d)"

section \<open>Deoptimization recipes\<close>

record executable_identity =
  executable_id :: u64
  executable_epoch :: u64

datatype resume_mode = ReplayBeforePc | ResumeAfterPc

datatype register_source =
    SrcSsa wx_value_id
  | SrcConstant wx_constant
  | SrcSpill u32 wx_type
  | SrcVirtual u32
  | SrcUndefinedDead

record register_recipe =
  recipe_register :: u16
  recipe_source :: register_source
  recipe_type :: wx_type

datatype exception_state = ExcClear | ExcPending u64 string | ExcErrorCode "32 word"

record frame_recipe =
  frame_function :: u64
  frame_resume_pc :: u32
  frame_registers :: "register_recipe list"
  dead_registers :: "u16 set"
  frame_exception :: exception_state

datatype virtual_kind =
    VirtualObject u64 u64 u64 "(u32 \<times> register_source) list"
  | VirtualList "register_source list"
  | VirtualTuple "register_source list"

record virtual_recipe =
  virtual_id :: u32
  virtual_kind :: virtual_kind

record deopt_recipe =
  deopt_id :: u32
  deopt_executable :: executable_identity
  deopt_resume_pc :: u32
  deopt_mode :: resume_mode
  deopt_frames :: "frame_recipe list"
  deopt_virtuals :: "virtual_recipe list"
  root_point :: safepoint_id
  explicit_roots :: "root_location list"
  deopt_dependencies :: "dependency list"

fun virtual_sources :: "virtual_kind \<Rightarrow> register_source list" where
  "virtual_sources (VirtualObject shape dep layout members) = map snd members"
| "virtual_sources (VirtualList items) = items"
| "virtual_sources (VirtualTuple items) = items"

section \<open>Snapshots\<close>

record loop_preheader =
  edge_pc :: u32
  body_pc :: u32

datatype entry_kind = FunctionEntry | LoopHeader u32 u32 "loop_preheader option"

type_synonym snapshot_id = "8 word list"

record snapshot_body =
  body_abi :: wx_abi
  body_executable :: executable_identity
  body_schema_epoch :: u64
  body_entry_kind :: entry_kind
  body_entry :: wx_block_id
  body_parent :: "(snapshot_id \<times> u32 \<times> 8 word) option"
  body_blocks :: "wx_block list"
  body_root_maps :: "root_map list"
  body_deopts :: "deopt_recipe list"
  body_dependencies :: "dependency list"

definition draft_new ::
  "executable_identity \<Rightarrow> entry_kind \<Rightarrow> wx_block_id \<Rightarrow> wx_block list \<Rightarrow> root_map list \<Rightarrow>
   deopt_recipe list \<Rightarrow> dependency list \<Rightarrow> snapshot_body" where
  "draft_new executable kind entry blocks maps deopts deps =
     \<lparr>body_abi = AbiV2, body_executable = executable, body_schema_epoch = 0,
      body_entry_kind = kind, body_entry = entry, body_parent = None, body_blocks = blocks,
      body_root_maps = maps, body_deopts = deopts, body_dependencies = deps\<rparr>"

definition with_schema_epoch :: "u64 \<Rightarrow> snapshot_body \<Rightarrow> snapshot_body" where
  "with_schema_epoch epoch draft = draft\<lparr>body_schema_epoch := epoch\<rparr>"

datatype snapshot_error =
    SchemaPermitMismatch u64 u64
  | EmptyBlocks
  | MissingEntry
  | DuplicateBlock u32
  | DuplicateDefinition u32
  | UndefinedValue u32
  | UseBeforeDefinition u32
  | NonDominatingUse u32 u32
  | WxTypeMismatch u32
  | InvalidCfg u32
  | InvalidPhi u32
  | BadEffectOrdering u32
  | MissingDeopt u32
  | MissingSafepoint u32
  | DuplicateDeopt u32
  | InvalidDeopt u32
  | MissingRootMap u32
  | DuplicateRootMap u32
  | MissingRoot u32
  | SurplusRoot u32
  | StaleDependency dependency_kind
  | MissingDependency dependency_kind
  | BorrowAcrossSafepoint u32
  | InvalidOwnedList u32
  | DanglingDependency
  | SnapshotSerialization

end
