(* ===== verification/Wxir_Verify.thy ===== *)
theory Wxir_Verify
  imports Wxir_Snapshot "HOL-Library.While_Combinator"
begin

text \<open>
  The verifier of snapshots (\<open>adaptive_v2/wxir_v2/verifier.rs\<close>, \<open>verifier/*.rs\<close>) and the operations
  that produce verified snapshots (\<open>seal.rs\<close>, \<open>mod.rs\<close>). Maps of the source are partial functions
  with their keys beside them where the source iterates.
\<close>

section \<open>Blocks and definitions\<close>

type_synonym block_map = "wx_block_id \<Rightarrow> wx_block option"
type_synonym definition_map = "wx_value_id \<Rightarrow> (wx_block_id \<times> nat option \<times> wx_type) option"

definition add_block :: "block_map \<Rightarrow> wx_block \<Rightarrow> snapshot_error + block_map" where
  "add_block m blk =
     (if m (block_ident blk) \<noteq> None then Inl (DuplicateBlock (block_ident blk))
      else Inr (m(block_ident blk \<mapsto> blk)))"

definition block_map :: "wx_block list \<Rightarrow> snapshot_error + block_map" where
  "block_map blocks = try_fold add_block Map.empty blocks"

definition define_value ::
  "definition_map \<Rightarrow> wx_value_id \<Rightarrow> wx_block_id \<times> nat option \<times> wx_type \<Rightarrow> snapshot_error + definition_map" where
  "define_value m v d = (if m v \<noteq> None then Inl (DuplicateDefinition v) else Inr (m(v \<mapsto> d)))"

definition define_parameter ::
  "wx_block_id \<Rightarrow> definition_map \<Rightarrow> value_def \<Rightarrow> snapshot_error + definition_map" where
  "define_parameter b m p = define_value m (def_value p) (b, None, def_type p)"

definition define_output ::
  "wx_block_id \<Rightarrow> definition_map \<Rightarrow> nat \<times> wx_instruction \<Rightarrow> snapshot_error + definition_map" where
  "define_output b m = (\<lambda>(index, i).
     case wx_output i of
       None \<Rightarrow> Inr m
     | Some out \<Rightarrow> define_value m (def_value out) (b, Some index, def_type out))"

definition define_block :: "definition_map \<Rightarrow> wx_block \<Rightarrow> snapshot_error + definition_map" where
  "define_block m blk =
     and_then (try_fold (define_parameter (block_ident blk)) m (block_parameters blk)) (\<lambda>m1.
       try_fold (define_output (block_ident blk)) m1 (List.enumerate 0 (block_instructions blk)))"

definition definitions_of :: "wx_block list \<Rightarrow> snapshot_error + definition_map" where
  "definitions_of blocks = try_fold define_block Map.empty blocks"

section \<open>Control flow\<close>

fun targets :: "wx_terminator \<Rightarrow> wx_block_id list" where
  "targets (TJump target arguments) = [target]"
| "targets (TBranch condition yes no) = [yes, no]"
| "targets _ = []"

type_synonym pred_map = "wx_block_id \<Rightarrow> wx_block_id set"

definition add_edge ::
  "block_map \<Rightarrow> wx_block_id \<Rightarrow> pred_map \<Rightarrow> wx_block_id \<Rightarrow> snapshot_error + pred_map" where
  "add_edge blocks b m target =
     (if blocks target = None then Inl (InvalidCfg b) else Inr (m(target := insert b (m target))))"

definition predecessors :: "wx_block list \<Rightarrow> block_map \<Rightarrow> snapshot_error + pred_map" where
  "predecessors bs blocks =
     try_fold (\<lambda>m blk. try_fold (add_edge blocks (block_ident blk)) m (targets (block_terminator blk)))
       (\<lambda>b. {}) bs"

text \<open>
  Dominators by iteration from the full sets; the rows are the entries of the map in the order of
  its keys.
\<close>

type_synonym dominator_rows = "(wx_block_id \<times> wx_block_id set) list"

definition row_of :: "dominator_rows \<Rightarrow> wx_block_id \<Rightarrow> wx_block_id set" where
  "row_of rows b = (case map_of rows b of Some s \<Rightarrow> s | None \<Rightarrow> {})"

definition initial_rows :: "wx_block_id \<Rightarrow> wx_block_id list \<Rightarrow> dominator_rows" where
  "initial_rows entry keys = map (\<lambda>b. (b, if b = entry then {entry} else set keys)) keys"

definition meet_row :: "dominator_rows \<Rightarrow> wx_block_id set \<Rightarrow> wx_block_id set" where
  "meet_row rows preds =
     (case sorted_list_of_set preds of
        [] \<Rightarrow> {}
      | p # ps \<Rightarrow> foldl (\<lambda>s q. s \<inter> row_of rows q) (row_of rows p) ps)"

definition dominator_round :: "wx_block_id \<Rightarrow> pred_map \<Rightarrow> dominator_rows \<Rightarrow> dominator_rows" where
  "dominator_round entry preds rows =
     map (\<lambda>(b, s). (b, if b = entry then s else insert b (meet_row rows (preds b)))) rows"

definition dominators :: "wx_block_id \<Rightarrow> wx_block_id list \<Rightarrow> pred_map \<Rightarrow> dominator_rows" where
  "dominators entry keys preds =
     while (\<lambda>rows. dominator_round entry preds rows \<noteq> rows) (dominator_round entry preds)
       (initial_rows entry keys)"

section \<open>Values\<close>

definition verify_value_use ::
  "definition_map \<Rightarrow> dominator_rows \<Rightarrow> wx_block_id \<Rightarrow> nat option \<Rightarrow> wx_value_id \<Rightarrow> snapshot_error + unit" where
  "verify_value_use defs doms b pos v =
     (case defs v of
        None \<Rightarrow> Inl (UndefinedValue v)
      | Some (defined_block, defined_position, _) \<Rightarrow>
          if defined_block = b then
            (case (defined_position, pos) of
               (Some d, Some u) \<Rightarrow> if u \<le> d then Inl (UseBeforeDefinition v) else Inr ()
             | _ \<Rightarrow> Inr ())
          else if defined_block \<notin> row_of doms b then Inl (NonDominatingUse v b)
          else Inr ())"

definition input_types :: "definition_map \<Rightarrow> wx_value_id list \<Rightarrow> wx_type list" where
  "input_types defs inputs =
     List.map_filter (\<lambda>v. map_option (\<lambda>(_, _, ty). ty) (defs v)) inputs"

definition first_is :: "wx_type \<Rightarrow> wx_type list \<Rightarrow> bool" where
  "first_is ty types \<longleftrightarrow> (case types of [] \<Rightarrow> False | t # _ \<Rightarrow> t = ty)"

primrec kind_types_valid ::
  "wx_kind \<Rightarrow> wx_value_id list \<Rightarrow> wx_type list \<Rightarrow> wx_type option \<Rightarrow> wx_effect \<Rightarrow> bool" where
  "kind_types_valid (KConstant c) inputs types out eff = (inputs = [] \<and> out \<noteq> None)"
| "kind_types_valid KCopy inputs types out eff =
     (length types = 1 \<and> (case out of None \<Rightarrow> False | Some t \<Rightarrow> first_is t types))"
| "kind_types_valid KIntegerAdd inputs types out eff = (types = [WxI64, WxI64] \<and> out = Some WxI64)"
| "kind_types_valid KIntegerSubtract inputs types out eff = (types = [WxI64, WxI64] \<and> out = Some WxI64)"
| "kind_types_valid KIntegerMultiply inputs types out eff = (types = [WxI64, WxI64] \<and> out = Some WxI64)"
| "kind_types_valid (KIntegerFloorDivide d) inputs types out eff =
     (d \<noteq> 0 \<and> d \<noteq> - 1 \<and> types = [WxI64] \<and> out = Some WxI64)"
| "kind_types_valid KIntegerToFloat inputs types out eff = (types = [WxI64] \<and> out = Some WxF64)"
| "kind_types_valid KIntegerLessThan inputs types out eff = (types = [WxI64, WxI64] \<and> out = Some WxBool)"
| "kind_types_valid (KIntegerCompare c) inputs types out eff =
     (types = [WxI64, WxI64] \<and> out = Some WxBool)"
| "kind_types_valid KFloatAdd inputs types out eff = (types = [WxF64, WxF64] \<and> out = Some WxF64)"
| "kind_types_valid KFloatSubtract inputs types out eff = (types = [WxF64, WxF64] \<and> out = Some WxF64)"
| "kind_types_valid KFloatMultiply inputs types out eff = (types = [WxF64, WxF64] \<and> out = Some WxF64)"
| "kind_types_valid KFloatDivide inputs types out eff = (types = [WxF64, WxF64] \<and> out = Some WxF64)"
| "kind_types_valid KFloatPower inputs types out eff = (types = [WxF64, WxF64] \<and> out = Some WxF64)"
| "kind_types_valid (KFloatCompare c) inputs types out eff = (types = [WxF64, WxF64] \<and> out = Some WxBool)"
| "kind_types_valid KIntegerNegate inputs types out eff = (types = [WxI64] \<and> out = Some WxI64)"
| "kind_types_valid KFloatNegate inputs types out eff = (types = [WxF64] \<and> out = Some WxF64)"
| "kind_types_valid KBooleanNot inputs types out eff = (types = [WxBool] \<and> out = Some WxBool)"
| "kind_types_valid KBooleanAnd inputs types out eff = (types = [WxBool, WxBool] \<and> out = Some WxBool)"
| "kind_types_valid KBooleanOr inputs types out eff = (types = [WxBool, WxBool] \<and> out = Some WxBool)"
| "kind_types_valid KSelect inputs types out eff =
     (case types of [c, yes, no] \<Rightarrow> c = WxBool \<and> yes = no \<and> out = Some yes | _ \<Rightarrow> False)"
| "kind_types_valid KBorrowView inputs types out eff = (types = [WxHandle] \<and> out = Some WxBorrowedView)"
| "kind_types_valid KResolveHandle inputs types out eff = (types = [WxHandle] \<and> out = Some WxBorrowedView)"
| "kind_types_valid KObjectGet inputs types out eff = (first_is WxHandle types \<and> out \<noteq> None)"
| "kind_types_valid KListGet inputs types out eff = (first_is WxHandle types \<and> out \<noteq> None)"
| "kind_types_valid KListLength inputs types out eff = (types = [WxHandle] \<and> out = Some WxI64)"
| "kind_types_valid (KListReversePrefix ty) inputs types out eff =
     (ty = WxI64 \<and> types = [WxHandle, WxI64] \<and> out = None \<and> eff = EffWrite)"
| "kind_types_valid KListClear inputs types out eff = (types = [WxHandle] \<and> out = Some WxHandle)"
| "kind_types_valid KObjectSet inputs types out eff = first_is WxHandle types"
| "kind_types_valid KListSet inputs types out eff = first_is WxHandle types"
| "kind_types_valid KListAppend inputs types out eff = first_is WxHandle types"
| "kind_types_valid KListInsert inputs types out eff =
     (types = [WxHandle, WxI64, WxI64] \<and> out = Some WxHandle)"
| "kind_types_valid KListPop inputs types out eff = (types = [WxHandle, WxI64] \<and> out = Some WxI64)"
| "kind_types_valid (KOwnedList list_id ty reset copied) inputs types out eff =
     ((ty = WxI64 \<or> ty = WxF64) \<and>
      (if copied then types = [WxI64, WxHandle] \<and> eff = EffRead else types = [WxI64] \<and> eff = EffPure) \<and>
      out = Some WxHandle)"
| "kind_types_valid KAllocate inputs types out eff = (inputs = [] \<and> out = Some WxHandle)"
| "kind_types_valid (KCall c) inputs types out eff = True"
| "kind_types_valid (KGuard g) inputs types out eff = True"
| "kind_types_valid (KHelper h) inputs types out eff = True"
| "kind_types_valid (KBranchGuard taken e) inputs types out eff = True"
| "kind_types_valid (KNestedLoopExit pc) inputs types out eff = True"
| "kind_types_valid KLiveProbe inputs types out eff = True"
| "kind_types_valid (KAtPc pc operation) inputs types out eff = True"

definition verify_instruction_types :: "definition_map \<Rightarrow> wx_instruction \<Rightarrow> snapshot_error + unit" where
  "verify_instruction_types defs i =
     ensure (kind_types_valid (semantic (wx_kind i)) (wx_inputs i) (input_types defs (wx_inputs i))
               (map_option def_type (wx_output i)) (wx_effect i))
       (WxTypeMismatch (case wx_output i of None \<Rightarrow> 0 | Some out \<Rightarrow> def_value out))"

fun terminator_values :: "wx_terminator \<Rightarrow> wx_value_id list" where
  "terminator_values (TJump target arguments) = arguments"
| "terminator_values (TBranch condition yes no) = [condition]"
| "terminator_values (TReturn vs) = vs"
| "terminator_values (TSideExit e vs) = vs"
| "terminator_values _ = []"

definition borrow_live_after :: "wx_block \<Rightarrow> wx_value_id \<Rightarrow> nat \<Rightarrow> bool" where
  "borrow_live_after blk v barrier \<longleftrightarrow>
     list_ex (\<lambda>i. v \<in> set (wx_inputs i)) (drop barrier (block_instructions blk)) \<or>
     v \<in> set (terminator_values (block_terminator blk))"

text \<open>The loop over the instructions threads the last effect sequence and the borrowed values.\<close>

definition verify_effect_order ::
  "wx_block_id \<Rightarrow> u32 option \<Rightarrow> wx_instruction \<Rightarrow> snapshot_error + u32 option" where
  "verify_effect_order b latest i =
     (if is_ordered (wx_effect i) then
        and_then (ok_or (effect_sequence i) (BadEffectOrdering b)) (\<lambda>sequence.
          if (case latest of None \<Rightarrow> False | Some l \<Rightarrow> sequence \<le> l) then Inl (BadEffectOrdering b)
          else Inr (Some sequence))
      else Inr latest)"

definition verify_block_instruction ::
  "wx_block \<Rightarrow> definition_map \<Rightarrow> dominator_rows \<Rightarrow> u32 option \<times> wx_value_id set \<Rightarrow> nat \<times> wx_instruction \<Rightarrow>
   snapshot_error + u32 option \<times> wx_value_id set" where
  "verify_block_instruction blk defs doms = (\<lambda>(latest, borrowed) (index, i).
     and_then (try_all (verify_value_use defs doms (block_ident blk) (Some index)) (wx_inputs i)) (\<lambda>_.
     and_then (verify_instruction_types defs i) (\<lambda>_.
     and_then (ensure (\<not> (is_barrier (wx_effect i) \<and> wx_safepoint i = None))
                 (MissingSafepoint (block_ident blk))) (\<lambda>_.
     and_then (verify_effect_order (block_ident blk) latest i) (\<lambda>latest'.
     case (if is_barrier (wx_effect i)
           then find (\<lambda>v. borrow_live_after blk v index) (sorted_list_of_set borrowed) else None) of
       Some v \<Rightarrow> Inl (BorrowAcrossSafepoint v)
     | None \<Rightarrow>
         Inr (latest',
              case wx_output i of
                Some out \<Rightarrow> if def_type out = WxBorrowedView then insert (def_value out) borrowed else borrowed
              | None \<Rightarrow> borrowed))))))"

definition parameters_of :: "block_map \<Rightarrow> wx_block_id \<Rightarrow> value_def list" where
  "parameters_of blocks b = (case blocks b of Some blk \<Rightarrow> block_parameters blk | None \<Rightarrow> [])"

definition verify_terminator ::
  "wx_block \<Rightarrow> block_map \<Rightarrow> definition_map \<Rightarrow> dominator_rows \<Rightarrow> snapshot_error + unit" where
  "verify_terminator blk blocks defs doms =
     and_then (try_all (verify_value_use defs doms (block_ident blk) None)
                 (terminator_values (block_terminator blk))) (\<lambda>_.
     case block_terminator blk of
       TJump target arguments \<Rightarrow>
         ensure (list_all2 (\<lambda>p a. map_option (\<lambda>(_, _, ty). ty) (defs a) = Some (def_type p))
                   (parameters_of blocks target) arguments)
           (InvalidPhi target)
     | TBranch condition yes no \<Rightarrow>
         ensure (parameters_of blocks yes = [] \<and> parameters_of blocks no = [])
           (InvalidPhi (if parameters_of blocks yes = [] then no else yes))
     | _ \<Rightarrow> Inr ())"

definition verify_block ::
  "block_map \<Rightarrow> definition_map \<Rightarrow> dominator_rows \<Rightarrow> wx_block \<Rightarrow> snapshot_error + unit" where
  "verify_block blocks defs doms blk =
     and_then
       (try_fold (verify_block_instruction blk defs doms)
          (None, def_value ` set (filter (\<lambda>p. def_type p = WxBorrowedView) (block_parameters blk)))
          (List.enumerate 0 (block_instructions blk)))
       (\<lambda>_. verify_terminator blk blocks defs doms)"

section \<open>Dependencies\<close>

definition add_dependency ::
  "(dependency_kind \<times> u64) set \<Rightarrow> dependency \<Rightarrow> snapshot_error + (dependency_kind \<times> u64) set" where
  "add_dependency kinds d =
     (if \<not> is_current d then Inl (StaleDependency (dep_kind d))
      else if (dep_kind d, dep_identity d) \<in> kinds then Inl DanglingDependency
      else Inr (insert (dep_kind d, dep_identity d) kinds))"

definition required_kinds :: "wx_kind \<Rightarrow> dependency_kind set" where
  "required_kinds kind =
     (case kind of
        KObjectGet \<Rightarrow> {DepShape, DepClass}
      | KObjectSet \<Rightarrow> {DepShape, DepClass}
      | KListGet \<Rightarrow> {DepListLayout}
      | KListLength \<Rightarrow> {DepListLayout}
      | KListSet \<Rightarrow> {DepListLayout}
      | KListReversePrefix ty \<Rightarrow> {DepListLayout}
      | KListClear \<Rightarrow> {DepListLayout}
      | KListAppend \<Rightarrow> {DepListLayout}
      | KListInsert \<Rightarrow> {DepListLayout}
      | KListPop \<Rightarrow> {DepListLayout}
      | KOwnedList list_id ty reset copied \<Rightarrow> {DepListLayout}
      | KCall callee \<Rightarrow> {DepCallee}
      | _ \<Rightarrow> {})"

definition all_instructions :: "snapshot_body \<Rightarrow> wx_instruction list" where
  "all_instructions body = concat (map block_instructions (body_blocks body))"

definition verify_dependencies :: "snapshot_body \<Rightarrow> snapshot_error + unit" where
  "verify_dependencies body =
     and_then (try_fold add_dependency {} (body_dependencies body)) (\<lambda>kinds.
     if \<not> list_ex (\<lambda>d. dep_kind d = DepExecutable \<and>
            dep_identity d = executable_id (body_executable body) \<and>
            expected_epoch d = executable_epoch (body_executable body)) (body_dependencies body) \<or>
        \<not> list_ex (\<lambda>d. dep_kind d = DepSchema \<and> expected_epoch d = body_schema_epoch body)
            (body_dependencies body)
     then Inl DanglingDependency
     else
       let required = {DepExecutable, DepSchema, DepGcAbi, DepHelperAbi} \<union>
             \<Union> (set (map (\<lambda>i. required_kinds (semantic (wx_kind i))) (all_instructions body)))
       in try_all (\<lambda>k. ensure (k \<in> fst ` kinds) (MissingDependency k)) (sorted_list_of_set required))"

section \<open>Owned lists\<close>

definition owned_definitions :: "wx_instruction list \<Rightarrow> (u32 \<times> wx_value_id) list" where
  "owned_definitions is =
     List.map_filter (\<lambda>i. case (semantic (wx_kind i), wx_output i) of
         (KOwnedList list_id ty reset copied, Some out) \<Rightarrow> Some (list_id, def_value out)
       | _ \<Rightarrow> None) is"

definition keeps_alias :: "wx_kind \<Rightarrow> bool" where
  "keeps_alias kind \<longleftrightarrow> kind \<in> {KCopy, KListClear, KListAppend, KListInsert}"

definition alias_step :: "wx_value_id set \<Rightarrow> wx_instruction \<Rightarrow> wx_value_id set" where
  "alias_step aliases i =
     (case (wx_inputs i, wx_output i) of
        (v # vs, Some out) \<Rightarrow>
          if v \<in> aliases \<and> keeps_alias (semantic (wx_kind i)) then insert (def_value out) aliases
          else aliases
      | _ \<Rightarrow> aliases)"

definition alias_round :: "wx_instruction list \<Rightarrow> wx_value_id set \<Rightarrow> wx_value_id set" where
  "alias_round is aliases = foldl alias_step aliases is"

definition alias_closure :: "wx_instruction list \<Rightarrow> wx_value_id \<Rightarrow> wx_value_id set" where
  "alias_closure is v =
     while (\<lambda>aliases. card (alias_round is aliases) \<noteq> card aliases) (alias_round is) {v}"

definition owned_use_valid :: "wx_kind \<Rightarrow> bool" where
  "owned_use_valid kind \<longleftrightarrow>
     kind \<in> {KCopy, KListGet, KListLength, KListSet, KListClear, KListAppend, KListInsert, KListPop} \<or>
     (case kind of KListReversePrefix ty \<Rightarrow> True | _ \<Rightarrow> False)"

fun terminator_leaks :: "wx_value_id set \<Rightarrow> wx_terminator \<Rightarrow> bool" where
  "terminator_leaks aliases (TBranch condition yes no) = (condition \<in> aliases)"
| "terminator_leaks aliases (TReturn vs) = list_ex (\<lambda>v. v \<in> aliases) vs"
| "terminator_leaks aliases (TSideExit e vs) = list_ex (\<lambda>v. v \<in> aliases) vs"
| "terminator_leaks aliases _ = False"

definition owned_instruction_ok :: "wx_value_id set \<Rightarrow> wx_instruction \<Rightarrow> bool" where
  "owned_instruction_ok aliases i \<longleftrightarrow>
     wx_effect i \<notin> {EffAllocation, EffHelper, EffCall} \<and>
     list_all (\<lambda>(index, v). v \<notin> aliases \<or> (index = 0 \<and> owned_use_valid (semantic (wx_kind i))))
       (List.enumerate 0 (wx_inputs i))"

definition verify_owned_lists :: "snapshot_body \<Rightarrow> snapshot_error + unit" where
  "verify_owned_lists body =
     (let is = all_instructions body; owned = owned_definitions is in
      if 2 < length owned then Inl (InvalidOwnedList (fst (owned ! 1)))
      else
        case owned of
          [] \<Rightarrow> Inr ()
        | (list_id, v) # _ \<Rightarrow>
            let aliases = alias_closure is v in
            and_then (try_all (\<lambda>i. ensure (owned_instruction_ok aliases i) (InvalidOwnedList list_id)) is) (\<lambda>_.
            ensure (\<not> list_ex (\<lambda>blk. terminator_leaks aliases (block_terminator blk)) (body_blocks body))
              (InvalidOwnedList list_id)))"

section \<open>Deoptimization recipes and root maps\<close>

fun internal_root :: "root_location \<Rightarrow> bool" where
  "internal_root (RootSsa v) = True"
| "internal_root (RootSpill s) = True"
| "internal_root (RootVirtual v) = True"
| "internal_root RootDeoptWorklist = True"
| "internal_root _ = False"

fun virtual_source_ok :: "definition_map \<Rightarrow> u32 set \<Rightarrow> register_source \<Rightarrow> bool" where
  "virtual_source_ok defs ids (SrcSsa v) = (defs v \<noteq> None)"
| "virtual_source_ok defs ids (SrcVirtual i) = (i \<in> ids)"
| "virtual_source_ok defs ids SrcUndefinedDead = False"
| "virtual_source_ok defs ids (SrcConstant WxUndefinedDead) = False"
| "virtual_source_ok defs ids (SrcConstant (WxHandleBits bits)) = False"
| "virtual_source_ok defs ids _ = True"

fun register_source_ok :: "definition_map \<Rightarrow> wx_type \<Rightarrow> register_source \<Rightarrow> bool" where
  "register_source_ok defs ty (SrcSsa v) = (map_option (\<lambda>(_, _, t). t) (defs v) = Some ty)"
| "register_source_ok defs ty (SrcConstant (WxHandleBits bits)) = False"
| "register_source_ok defs ty (SrcConstant WxUndefinedDead) = False"
| "register_source_ok defs ty _ = True"

definition add_register ::
  "definition_map \<Rightarrow> u32 \<Rightarrow> u16 set \<times> u16 set \<Rightarrow> register_recipe \<Rightarrow> snapshot_error + u16 set \<times> u16 set" where
  "add_register defs recipe = (\<lambda>(registers, undefs) r.
     if recipe_register r \<in> registers then Inl (InvalidDeopt recipe)
     else if \<not> register_source_ok defs (recipe_type r) (recipe_source r) then Inl (InvalidDeopt recipe)
     else Inr (insert (recipe_register r) registers,
               if recipe_source r = SrcUndefinedDead then insert (recipe_register r) undefs else undefs))"

definition verify_frame :: "definition_map \<Rightarrow> u32 \<Rightarrow> frame_recipe \<Rightarrow> snapshot_error + unit" where
  "verify_frame defs recipe f =
     and_then (try_fold (add_register defs recipe) ({}, {}) (frame_registers f)) (\<lambda>(registers, undefs).
     and_then (ensure (undefs = dead_registers f) (InvalidDeopt recipe)) (\<lambda>_.
     ensure (list_all (\<lambda>(index, r). unat r = index) (List.enumerate 0 (sorted_list_of_set registers)))
       (InvalidDeopt recipe)))"

definition verify_recipe ::
  "snapshot_body \<Rightarrow> definition_map \<Rightarrow> u32 set \<Rightarrow> deopt_recipe \<Rightarrow> snapshot_error + u32 set" where
  "verify_recipe body defs seen r =
     (if deopt_id r \<in> seen then Inl (DuplicateDeopt (deopt_id r))
      else
        and_then (ensure (deopt_frames r \<noteq> [] \<and> deopt_executable r = body_executable body \<and>
                    deopt_dependencies r = body_dependencies body \<and>
                    \<not> list_ex internal_root (explicit_roots r)) (InvalidDeopt (deopt_id r))) (\<lambda>_.
        let ids = set (map virtual_id (deopt_virtuals r)) in
        and_then (ensure (card ids = length (deopt_virtuals r)) (InvalidDeopt (deopt_id r))) (\<lambda>_.
        and_then (try_all (\<lambda>v. try_all (\<lambda>src. ensure (virtual_source_ok defs ids src) (InvalidDeopt (deopt_id r)))
                    (virtual_sources (virtual_kind v))) (deopt_virtuals r)) (\<lambda>_.
        and_then (try_all (verify_frame defs (deopt_id r)) (deopt_frames r)) (\<lambda>_.
        Inr (insert (deopt_id r) seen))))))"

definition guard_deopt :: "wx_kind \<Rightarrow> u32 option" where
  "guard_deopt kind =
     (case kind of
        KGuard guard \<Rightarrow> Some guard
      | KBranchGuard taken side_exit \<Rightarrow> Some side_exit
      | _ \<Rightarrow> None)"

definition has_point :: "snapshot_body \<Rightarrow> safepoint_id \<Rightarrow> bool" where
  "has_point body point \<longleftrightarrow> list_ex (\<lambda>r. root_point r = point) (body_deopts body)"

definition require_instruction ::
  "snapshot_body \<Rightarrow> u32 set \<Rightarrow> wx_instruction \<Rightarrow> snapshot_error + u32 set" where
  "require_instruction body required i =
     (let required' = (case guard_deopt (semantic (wx_kind i)) of Some g \<Rightarrow> insert g required | None \<Rightarrow> required) in
      case wx_safepoint i of
        Some point \<Rightarrow> if has_point body point then Inr required' else Inl (MissingDeopt point)
      | None \<Rightarrow> Inr required')"

definition require_terminator ::
  "snapshot_body \<Rightarrow> u32 set \<Rightarrow> wx_terminator \<Rightarrow> snapshot_error + u32 set" where
  "require_terminator body required t =
     (case t of
        TSideExit e vs \<Rightarrow> Inr (insert e required)
      | TBackedge pc point \<Rightarrow> if has_point body point then Inr required else Inl (MissingDeopt point)
      | _ \<Rightarrow> Inr required)"

definition require_block :: "snapshot_body \<Rightarrow> u32 set \<Rightarrow> wx_block \<Rightarrow> snapshot_error + u32 set" where
  "require_block body required blk =
     and_then (try_fold (require_instruction body) required (block_instructions blk)) (\<lambda>required'.
       require_terminator body required' (block_terminator blk))"

definition add_root_map ::
  "(safepoint_id \<Rightarrow> root_map option) \<Rightarrow> root_map \<Rightarrow> snapshot_error + (safepoint_id \<Rightarrow> root_map option)" where
  "add_root_map maps m =
     (if maps (root_map_point m) \<noteq> None then Inl (DuplicateRootMap (root_map_point m))
      else Inr (maps(root_map_point m \<mapsto> m)))"

definition handle_value :: "definition_map \<Rightarrow> wx_value_id \<Rightarrow> bool" where
  "handle_value defs v \<longleftrightarrow> (case defs v of Some (_, _, ty) \<Rightarrow> is_handle_type ty | None \<Rightarrow> False)"

text \<open>The roots a register and a source of a virtual object contribute.\<close>

definition register_roots ::
  "definition_map \<Rightarrow> u32 \<Rightarrow> register_recipe \<Rightarrow> snapshot_error + root_location set" where
  "register_roots defs recipe r =
     (case recipe_source r of
        SrcSsa v \<Rightarrow> Inr (if handle_value defs v then {RootSsa v} else {})
      | SrcSpill slot ty \<Rightarrow>
          if ty \<noteq> recipe_type r then Inl (InvalidDeopt recipe)
          else Inr (if is_handle_type ty then {RootSpill slot} else {})
      | SrcVirtual i \<Rightarrow> Inr (if is_handle_type (recipe_type r) then {RootVirtual i} else {})
      | _ \<Rightarrow> Inr {})"

fun source_roots :: "definition_map \<Rightarrow> register_source \<Rightarrow> root_location set" where
  "source_roots defs (SrcSsa v) = (if handle_value defs v then {RootSsa v} else {})"
| "source_roots defs (SrcSpill slot ty) = (if is_handle_type ty then {RootSpill slot} else {})"
| "source_roots defs _ = {}"

definition virtual_roots :: "definition_map \<Rightarrow> virtual_recipe list \<Rightarrow> root_location set" where
  "virtual_roots defs vs =
     (if vs = [] then {}
      else insert RootDeoptWorklist (set (map (\<lambda>v. RootVirtual (virtual_id v)) vs)) \<union>
           \<Union> (set (map (source_roots defs) (concat (map (virtual_sources \<circ> virtual_kind) vs)))))"

definition owned_roots :: "snapshot_body \<Rightarrow> root_location set" where
  "owned_roots body =
     set (List.map_filter (\<lambda>i. case semantic (wx_kind i) of
         KOwnedList list_id ty reset copied \<Rightarrow> Some (RootOwnedList list_id)
       | _ \<Rightarrow> None) (all_instructions body))"

definition expected_roots ::
  "snapshot_body \<Rightarrow> definition_map \<Rightarrow> deopt_recipe \<Rightarrow> snapshot_error + root_location set" where
  "expected_roots body defs r =
     and_then
       (try_fold (\<lambda>roots reg. map_ok (\<lambda>new. roots \<union> new) (register_roots defs (deopt_id r) reg))
          (set (explicit_roots r) \<union> owned_roots body)
          (concat (map frame_registers (deopt_frames r))))
       (\<lambda>roots. Inr (roots \<union> virtual_roots defs (deopt_virtuals r)))"

definition verify_recipe_roots ::
  "snapshot_body \<Rightarrow> definition_map \<Rightarrow> (safepoint_id \<Rightarrow> root_map option) \<Rightarrow> deopt_recipe \<Rightarrow> snapshot_error + unit" where
  "verify_recipe_roots body defs maps r =
     and_then (ok_or (maps (root_point r)) (MissingRootMap (root_point r))) (\<lambda>m.
     and_then (expected_roots body defs r) (\<lambda>expected.
     and_then (ensure (expected \<subseteq> root_map_roots m) (MissingRoot (root_point r))) (\<lambda>_.
     ensure (root_map_roots m \<subseteq> expected) (SurplusRoot (root_point r)))))"

definition verify_root_maps :: "snapshot_body \<Rightarrow> definition_map \<Rightarrow> snapshot_error + unit" where
  "verify_root_maps body defs =
     and_then (try_fold add_root_map Map.empty (body_root_maps body)) (\<lambda>maps.
     and_then (try_all (verify_recipe_roots body defs maps) (body_deopts body)) (\<lambda>_.
     case find (\<lambda>point. \<not> has_point body point)
            (sorted_list_of_set (set (map root_map_point (body_root_maps body)))) of
       Some point \<Rightarrow> Inl (SurplusRoot point)
     | None \<Rightarrow> Inr ()))"

definition verify_deopts :: "snapshot_body \<Rightarrow> definition_map \<Rightarrow> snapshot_error + unit" where
  "verify_deopts body defs =
     and_then (try_fold (verify_recipe body defs) {} (body_deopts body)) (\<lambda>ids.
     and_then (try_fold (require_block body) {} (body_blocks body)) (\<lambda>required.
     and_then (try_all (\<lambda>i. ensure (i \<in> ids) (MissingDeopt i)) (sorted_list_of_set required)) (\<lambda>_.
     verify_root_maps body defs)))"

section \<open>Verification and sealing\<close>

definition verify_snapshot :: "snapshot_body \<Rightarrow> snapshot_error + unit" where
  "verify_snapshot body =
     and_then (verify_dependencies body) (\<lambda>_.
     if body_blocks body = [] then Inl EmptyBlocks
     else
       and_then (block_map (body_blocks body)) (\<lambda>blocks.
       if blocks (body_entry body) = None then Inl MissingEntry
       else
         and_then (definitions_of (body_blocks body)) (\<lambda>defs.
         and_then (predecessors (body_blocks body) blocks) (\<lambda>preds.
         let doms = dominators (body_entry body)
                      (sorted_list_of_set (set (map block_ident (body_blocks body)))) preds in
         and_then (try_all (verify_block blocks defs doms) (body_blocks body)) (\<lambda>_.
         and_then (verify_owned_lists body) (\<lambda>_.
         verify_deopts body defs))))))"

definition canonical_recipe :: "deopt_recipe \<Rightarrow> deopt_recipe" where
  "canonical_recipe r =
     r\<lparr>deopt_virtuals := sort_key virtual_id (deopt_virtuals r),
       deopt_dependencies := sort_key dependency_key (deopt_dependencies r),
       explicit_roots := remdups_adj (sort (explicit_roots r)),
       deopt_frames := map (\<lambda>f. f\<lparr>frame_registers := sort_key recipe_register (frame_registers f)\<rparr>)
         (deopt_frames r)\<rparr>"

definition canonical_body :: "snapshot_body \<Rightarrow> snapshot_body" where
  "canonical_body body =
     body\<lparr>body_blocks := sort_key block_ident (body_blocks body),
          body_root_maps := sort_key root_map_point (body_root_maps body),
          body_deopts := map canonical_recipe (sort_key deopt_id (body_deopts body)),
          body_dependencies := sort_key dependency_key (body_dependencies body)\<rparr>"

text \<open>
  The identity of a snapshot is the digest of its serialized form; serialization and hash are
  libraries, here the argument \<open>digest\<close>, which answers nothing where the serialization fails.
\<close>

record verified_snapshot =
  snapshot_ident :: snapshot_id
  snapshot_body :: snapshot_body

type_synonym digest = "snapshot_body \<Rightarrow> snapshot_id option"

definition identify :: "digest \<Rightarrow> snapshot_body \<Rightarrow> snapshot_error + verified_snapshot" where
  "identify digest body =
     and_then (verify_snapshot body) (\<lambda>_.
     and_then (ok_or (digest body) SnapshotSerialization) (\<lambda>i.
     Inr \<lparr>snapshot_ident = i, snapshot_body = body\<rparr>))"

definition seal :: "digest \<Rightarrow> snapshot_body \<Rightarrow> u64 \<Rightarrow> snapshot_error + verified_snapshot" where
  "seal digest draft permit =
     (if body_schema_epoch draft \<noteq> permit then Inl (SchemaPermitMismatch permit (body_schema_epoch draft))
      else identify digest (canonical_body draft))"

definition derive_optimized ::
  "digest \<Rightarrow> verified_snapshot \<Rightarrow> snapshot_body \<Rightarrow> snapshot_error + verified_snapshot" where
  "derive_optimized digest s body =
     (let own = snapshot_body s in
      if body_abi body \<noteq> body_abi own \<or> body_executable body \<noteq> body_executable own \<or>
         body_schema_epoch body \<noteq> body_schema_epoch own \<or> body_entry_kind body \<noteq> body_entry_kind own \<or>
         body_dependencies body \<noteq> body_dependencies own \<or> body_parent body \<noteq> body_parent own
      then Inl DanglingDependency
      else identify digest body)"

definition derive_bridge ::
  "digest \<Rightarrow> verified_snapshot \<Rightarrow> u32 \<Rightarrow> 8 word \<Rightarrow> snapshot_body \<Rightarrow> snapshot_error + verified_snapshot" where
  "derive_bridge digest s guard observed_case body =
     (let own = snapshot_body s in
      if body_abi body \<noteq> body_abi own \<or> body_executable body \<noteq> body_executable own \<or>
         body_schema_epoch body \<noteq> body_schema_epoch own \<or>
         body_dependencies body \<noteq> body_dependencies own \<or> body_parent body \<noteq> None
      then Inl DanglingDependency
      else identify digest (body\<lparr>body_parent := Some (snapshot_ident s, guard, observed_case)\<rparr>))"

end
