(* ===== verification/Wxir_Dominators.thy ===== *)
theory Wxir_Dominators
  imports Wxir_Verify
begin

text \<open>
  The dominators the verifier of snapshots computes are those of the control-flow graph: the loop
  ends, and a block's row holds exactly the blocks on every path to it that starts at the entry or
  at a block without predecessors.
\<close>

section \<open>Paths\<close>

text \<open>A path is listed from its end; it starts at the entry or where nothing leads.\<close>

inductive cfg_path :: "wx_block_id \<Rightarrow> wx_block_id set \<Rightarrow> pred_map \<Rightarrow> wx_block_id list \<Rightarrow> bool"
  for entry keys preds where
  path_root: "b \<in> keys \<Longrightarrow> b = entry \<or> preds b = {} \<Longrightarrow> cfg_path entry keys preds [b]"
| path_edge: "cfg_path entry keys preds (q # path) \<Longrightarrow> b \<in> keys \<Longrightarrow> q \<in> preds b \<Longrightarrow>
    cfg_path entry keys preds (b # q # path)"

definition dominating :: "wx_block_id \<Rightarrow> wx_block_id set \<Rightarrow> pred_map \<Rightarrow> wx_block_id \<Rightarrow> wx_block_id set" where
  "dominating entry keys preds b =
     {d \<in> keys. \<forall>path. cfg_path entry keys preds (b # path) \<longrightarrow> d \<in> set (b # path)}"

section \<open>One round\<close>

lemma foldl_Int: "foldl (\<lambda>s q. s \<inter> f q) A ps = A \<inter> \<Inter> (f ` set ps)"
  by (induction ps arbitrary: A) auto

lemma meet_row_eq:
  assumes "finite P"
  shows "meet_row rows P = (if P = {} then {} else \<Inter> (row_of rows ` P))"
proof (cases "sorted_list_of_set P")
  case Nil
  then show ?thesis using assms by (simp add: meet_row_def)
next
  case (Cons p ps)
  then have "P = insert p (set ps)" using set_sorted_list_of_set [OF assms] by simp
  then show ?thesis using Cons by (simp add: meet_row_def foldl_Int)
qed

lemma map_of_map_pair: "map_of (map (\<lambda>(k, v). (k, f k v)) xs) k = map_option (f k) (map_of xs k)"
  by (induction xs) auto

definition round_row :: "wx_block_id \<Rightarrow> pred_map \<Rightarrow> (wx_block_id \<Rightarrow> wx_block_id set) \<Rightarrow> wx_block_id \<Rightarrow> wx_block_id set" where
  "round_row entry preds row b =
     (if b = entry then row b else insert b (if preds b = {} then {} else \<Inter> (row ` preds b)))"

lemma keys_of_round [simp]: "map fst (dominator_round entry preds rows) = map fst rows"
  by (auto simp: dominator_round_def)

lemma row_of_round:
  assumes "b \<in> fst ` set rows" "finite (preds b)"
  shows "row_of (dominator_round entry preds rows) b = round_row entry preds (row_of rows) b"
proof -
  obtain s where s: "map_of rows b = Some s" using assms(1) by (metis weak_map_of_SomeI image_iff prod.collapse map_of_eq_None_iff not_None_eq)
  have "map_of (dominator_round entry preds rows) b =
      map_option (\<lambda>s. if b = entry then s else insert b (meet_row rows (preds b))) (map_of rows b)"
    unfolding dominator_round_def by (rule map_of_map_pair)
  then show ?thesis using s meet_row_eq [OF assms(2)]
    by (cases "b = entry") (simp_all add: row_of_def round_row_def)
qed

lemma row_of_initial: "b \<in> set keys \<Longrightarrow> row_of (initial_rows entry keys) b = (if b = entry then {entry} else set keys)"
proof -
  assume b: "b \<in> set keys"
  have "map_of (map (\<lambda>b. (b, f b)) keys) b = Some (f b)" for f :: "wx_block_id \<Rightarrow> wx_block_id set"
    using b by (induction keys) auto
  then show ?thesis by (simp add: initial_rows_def row_of_def)
qed

lemma rows_eqI:
  assumes "map fst r = map fst s" "distinct (map fst s)" "\<And>b. b \<in> fst ` set s \<Longrightarrow> row_of r b = row_of s b"
  shows "r = s"
  using assms
proof (induction r s rule: list_induct2')
  case (4 x xs y ys)
  have "row_of (x # xs) (fst y) = row_of (y # ys) (fst y)" using 4(4) by simp
  then have "x = y" using 4(2) by (cases x; cases y) (simp add: row_of_def)
  moreover have "xs = ys"
  proof (rule 4(1))
    show "map fst xs = map fst ys" "distinct (map fst ys)" using 4(2,3) by auto
    fix b assume b: "b \<in> fst ` set ys"
    then have "b \<noteq> fst y" "b \<noteq> fst x" using 4(2,3) by (auto simp: image_iff)
    then show "row_of xs b = row_of ys b" using 4(4) [of b] b by (cases x; cases y) (simp add: row_of_def)
  qed
  ultimately show ?case by simp
qed auto

section \<open>The loop\<close>

text \<open>What every round keeps: the rows shrink and never lose a dominating block.\<close>

definition rows_ok :: "wx_block_id \<Rightarrow> wx_block_id list \<Rightarrow> pred_map \<Rightarrow> dominator_rows \<Rightarrow> bool" where
  "rows_ok entry keys preds rows \<longleftrightarrow>
     map fst rows = keys \<and> row_of rows entry = {entry} \<and>
     (\<forall>b \<in> set keys. row_of rows b \<subseteq> set keys \<and> round_row entry preds (row_of rows) b \<subseteq> row_of rows b \<and>
        dominating entry (set keys) preds b \<subseteq> row_of rows b)"

lemma round_row_mono:
  "(\<And>q. q \<in> insert b (preds b) \<Longrightarrow> f q \<subseteq> g q) \<Longrightarrow> round_row entry preds f b \<subseteq> round_row entry preds g b"
  by (auto simp: round_row_def)

lemma dominating_round:
  assumes "b \<in> K" "b \<noteq> entry"
  shows "dominating entry K preds b \<subseteq> round_row entry preds (dominating entry K preds) b"
proof
  fix d assume d: "d \<in> dominating entry K preds b"
  show "d \<in> round_row entry preds (dominating entry K preds) b"
  proof (cases "preds b = {} \<or> d = b")
    case True
    then show ?thesis using d assms path_root [of b K entry preds]
      by (auto simp: dominating_def round_row_def)
  next
    case False
    have "d \<in> dominating entry K preds q" if "q \<in> preds b" for q
    proof -
      have "d \<in> set (q # path)" if "cfg_path entry K preds (q # path)" for path
        using d False path_edge [of entry K preds q path b] that \<open>q \<in> preds b\<close> assms(1)
        by (auto simp: dominating_def)
      then show ?thesis using d by (simp add: dominating_def)
    qed
    then show ?thesis using False assms by (simp add: round_row_def)
  qed
qed

text \<open>The graphs the verifier analyses: distinct blocks, the entry among them, closed under edges.\<close>

definition cfg_ok :: "wx_block_id \<Rightarrow> wx_block_id list \<Rightarrow> pred_map \<Rightarrow> bool" where
  "cfg_ok entry keys preds \<longleftrightarrow>
     entry \<in> set keys \<and> distinct keys \<and> (\<forall>b \<in> set keys. preds b \<subseteq> set keys)"

lemma finite_preds: "cfg_ok entry keys preds \<Longrightarrow> b \<in> set keys \<Longrightarrow> finite (preds b)"
  unfolding cfg_ok_def using finite_subset by blast

lemma row_next:
  assumes "cfg_ok entry keys preds" "map fst rows = keys" "b \<in> set keys"
  shows "row_of (dominator_round entry preds rows) b = round_row entry preds (row_of rows) b"
  by (rule row_of_round) (use assms finite_preds in \<open>auto simp flip: set_map\<close>)

lemma initial_shrinks:
  assumes "cfg_ok entry keys preds" "b \<in> set keys"
  shows "round_row entry preds (row_of (initial_rows entry keys)) b \<subseteq> row_of (initial_rows entry keys) b"
proof (cases "b = entry \<or> preds b = {}")
  case False
  then obtain q where q: "q \<in> preds b" by blast
  then have "q \<in> set keys" "entry \<in> set keys" using assms by (auto simp: cfg_ok_def)
  then have "row_of (initial_rows entry keys) q \<subseteq> set keys" by (simp add: row_of_initial)
  then show ?thesis using False assms(2) q by (auto simp: round_row_def row_of_initial)
qed (use assms in \<open>auto simp: round_row_def row_of_initial\<close>)

lemma initial_ok:
  assumes "cfg_ok entry keys preds" shows "rows_ok entry keys preds (initial_rows entry keys)"
proof -
  have entry: "entry \<in> set keys" using assms by (simp add: cfg_ok_def)
  then have "cfg_path entry (set keys) preds [entry]" using path_root by blast
  then have "dominating entry (set keys) preds entry \<subseteq> {entry}" by (auto simp: dominating_def)
  then have "dominating entry (set keys) preds b \<subseteq> row_of (initial_rows entry keys) b" if "b \<in> set keys" for b
    using that by (auto simp: row_of_initial dominating_def)
  moreover have "map fst (initial_rows entry keys) = keys"
    by (simp add: initial_rows_def comp_def)
  moreover have "row_of (initial_rows entry keys) b \<subseteq> set keys" if "b \<in> set keys" for b
    using that by (auto simp: row_of_initial)
  ultimately show ?thesis
    using entry initial_shrinks [OF assms] by (simp add: rows_ok_def row_of_initial)
qed

lemma round_ok:
  assumes g: "cfg_ok entry keys preds" and "rows_ok entry keys preds rows"
  shows "rows_ok entry keys preds (dominator_round entry preds rows)"
proof -
  let ?next = "dominator_round entry preds rows"
  have k: "map fst rows = keys" and entry: "entry \<in> set keys"
    and closed: "\<And>b q. b \<in> set keys \<Longrightarrow> q \<in> insert b (preds b) \<Longrightarrow> q \<in> set keys"
    using assms by (auto simp: rows_ok_def cfg_ok_def)
  note row = row_next [OF g k]
  have shrink: "row_of ?next b \<subseteq> row_of rows b" if "b \<in> set keys" for b
    using assms(2) that row [OF that] by (simp add: rows_ok_def)
  have "round_row entry preds (row_of ?next) b \<subseteq> row_of ?next b" if "b \<in> set keys" for b
    unfolding row [OF that] by (rule round_row_mono) (rule shrink, rule closed [OF that])
  moreover have "dominating entry (set keys) preds b \<subseteq> row_of ?next b" if b: "b \<in> set keys" for b
  proof (cases "b = entry")
    case False
    have "dominating entry (set keys) preds q \<subseteq> row_of rows q" if "q \<in> insert b (preds b)" for q
      using assms(2) closed [OF b that] by (simp add: rows_ok_def)
    then have "round_row entry preds (dominating entry (set keys) preds) b \<subseteq> round_row entry preds (row_of rows) b"
      by (rule round_row_mono)
    then show ?thesis using dominating_round [OF b False] row [OF b] by simp blast
  next
    case True
    have "dominating entry (set keys) preds b \<subseteq> row_of rows b"
      using assms(2) b by (simp add: rows_ok_def)
    then show ?thesis using row [OF b] True by (simp add: round_row_def)
  qed
  moreover have "row_of ?next entry = {entry}"
    using assms(2) row [OF entry] by (simp add: rows_ok_def round_row_def)
  moreover have "row_of ?next b \<subseteq> set keys" if "b \<in> set keys" for b
    using shrink [OF that] assms(2) that unfolding rows_ok_def by blast
  ultimately show ?thesis using k by (simp add: rows_ok_def)
qed

lemma round_decreases:
  assumes g: "cfg_ok entry keys preds" and ok: "rows_ok entry keys preds rows"
    and "dominator_round entry preds rows \<noteq> rows"
  shows "(\<Sum>b \<in> set keys. card (row_of (dominator_round entry preds rows) b))
    < (\<Sum>b \<in> set keys. card (row_of rows b))"
proof (rule sum_strict_mono_ex1)
  let ?next = "dominator_round entry preds rows"
  have k: "map fst rows = keys" using ok by (simp add: rows_ok_def)
  have sub: "row_of ?next b \<subseteq> row_of rows b" "finite (row_of rows b)" if "b \<in> set keys" for b
  proof -
    have "row_of rows b \<subseteq> set keys" using ok that by (simp add: rows_ok_def)
    then show "finite (row_of rows b)" using finite_subset by blast
    show "row_of ?next b \<subseteq> row_of rows b" using ok that row_next [OF g k that] by (simp add: rows_ok_def)
  qed
  show "\<forall>b \<in> set keys. card (row_of ?next b) \<le> card (row_of rows b)"
    using sub card_mono by blast
  have "distinct (map fst rows)" using g k by (simp add: cfg_ok_def)
  then have "\<exists>b \<in> fst ` set rows. row_of ?next b \<noteq> row_of rows b"
  proof (rule contrapos_pp)
    assume "\<not> (\<exists>b \<in> fst ` set rows. row_of ?next b \<noteq> row_of rows b)"
    then show "\<not> distinct (map fst rows)"
      using rows_eqI [OF keys_of_round] assms(3) by blast
  qed
  then obtain b where "b \<in> fst ` set rows" and differs: "row_of ?next b \<noteq> row_of rows b" by blast
  then have b: "b \<in> set keys" using k by (metis list.set_map)
  have "row_of ?next b \<subset> row_of rows b" using sub(1) [OF b] differs by blast
  with psubset_card_mono [OF sub(2) [OF b] this] b
  show "\<exists>b \<in> set keys. card (row_of ?next b) < card (row_of rows b)" by blast
qed simp

lemma loop_ends:
  assumes "cfg_ok entry keys preds"
  shows "\<exists>rows. while_option (\<lambda>rows. dominator_round entry preds rows \<noteq> rows)
     (dominator_round entry preds) (initial_rows entry keys) = Some rows"
  by (rule measure_while_option_Some [where P = "rows_ok entry keys preds"
        and f = "\<lambda>rows. \<Sum>b \<in> set keys. card (row_of rows b)"])
    (simp_all add: round_ok round_decreases initial_ok assms)

lemma loop_result:
  assumes "cfg_ok entry keys preds"
  shows "rows_ok entry keys preds (dominators entry keys preds) \<and>
   dominator_round entry preds (dominators entry keys preds) = dominators entry keys preds"
  unfolding dominators_def
  by (rule while_rule [where P = "rows_ok entry keys preds"
        and r = "measure (\<lambda>rows. \<Sum>b \<in> set keys. card (row_of rows b))"])
    (simp_all add: initial_ok round_ok round_decreases assms)

text \<open>Rows at the end are closed under the edges, so a path meets every block of its end's row.\<close>

lemma row_fixed:
  assumes "cfg_ok entry keys preds" "b \<in> set keys"
  shows "row_of (dominators entry keys preds) b =
     round_row entry preds (row_of (dominators entry keys preds)) b"
  using loop_result [OF assms(1)] row_next [OF assms(1) _ assms(2)] by (metis rows_ok_def)

lemma row_entry:
  "cfg_ok entry keys preds \<Longrightarrow> row_of (dominators entry keys preds) entry = {entry}"
  using loop_result by (simp add: rows_ok_def)

lemma row_edge:
  assumes "cfg_ok entry keys preds" "b \<in> set keys" "q \<in> preds b"
  shows "row_of (dominators entry keys preds) b \<subseteq> insert b (row_of (dominators entry keys preds) q)"
proof (cases "b = entry")
  case False
  then show ?thesis
    by (subst row_fixed [OF assms(1,2)]) (use assms(3) in \<open>auto simp: round_row_def\<close>)
qed (simp add: row_entry [OF assms(1)])

lemma row_on_path:
  assumes g: "cfg_ok entry keys preds" and "cfg_path entry (set keys) preds path"
  shows "row_of (dominators entry keys preds) (hd path) \<subseteq> set path"
  using assms(2)
proof induction
  case (path_root b)
  then show ?case
    using row_entry [OF g] row_fixed [OF g path_root(1)] by (cases "b = entry") (auto simp: round_row_def)
next
  case (path_edge q path b)
  then show ?case using row_edge [OF g path_edge(2,3)] by auto
qed

lemma row_exact:
  assumes "cfg_ok entry keys preds" "b \<in> set keys"
  shows "row_of (dominators entry keys preds) b = dominating entry (set keys) preds b"
proof
  have "row_of (dominators entry keys preds) b \<subseteq> set (b # path)"
    if "cfg_path entry (set keys) preds (b # path)" for path
    using row_on_path [OF assms(1) that] by simp
  moreover have "row_of (dominators entry keys preds) b \<subseteq> set keys"
    using loop_result [OF assms(1)] assms(2) by (simp add: rows_ok_def)
  ultimately show "row_of (dominators entry keys preds) b \<subseteq> dominating entry (set keys) preds b"
    unfolding dominating_def by blast
  show "dominating entry (set keys) preds b \<subseteq> row_of (dominators entry keys preds) b"
    using loop_result [OF assms(1)] assms(2) by (simp add: rows_ok_def)
qed

section \<open>The maps of the verifier\<close>

text \<open>A loop that only adds entries ends with the entries it found and those of its items.\<close>

lemma try_fold_entries:
  assumes "\<And>m x m'. step m x = Inr m' \<Longrightarrow> (\<forall>v d. m' v = Some d \<longleftrightarrow> m v = Some d \<or> (v, d) \<in> E x)"
    and "try_fold step m xs = Inr m'"
  shows "m' v = Some d \<longleftrightarrow> m v = Some d \<or> (\<exists>x \<in> set xs. (v, d) \<in> E x)"
  using assms(2)
proof (induction xs arbitrary: m)
  case (Cons x xs)
  then obtain m1 where m1: "step m x = Inr m1" "try_fold step m1 xs = Inr m'"
    by (auto simp: and_then_Inr_iff)
  show ?case using Cons.IH [OF m1(2)] assms(1) [OF m1(1)] by auto
qed simp

lemma block_map_iff:
  "block_map bs = Inr blocks \<Longrightarrow> blocks b = Some blk \<longleftrightarrow> blk \<in> set bs \<and> block_ident blk = b"
  unfolding block_map_def
  by (subst try_fold_entries [where E = "\<lambda>x. {(block_ident x, x)}" and m = Map.empty])
    (auto simp: add_block_def split: if_splits)

lemma block_map_None:
  "block_map bs = Inr blocks \<Longrightarrow> blocks b \<noteq> None \<longleftrightarrow> b \<in> block_ident ` set bs"
  using block_map_iff [of bs blocks b] by (auto simp: not_None_eq)

definition flow_edge :: "wx_block list \<Rightarrow> wx_block_id \<Rightarrow> wx_block_id \<Rightarrow> bool" where
  "flow_edge bs q b \<longleftrightarrow> (\<exists>blk \<in> set bs. block_ident blk = q \<and> b \<in> set (targets (block_terminator blk)))"

lemma add_edges:
  "try_fold (add_edge blocks q) m ts = Inr m' \<Longrightarrow>
     (\<forall>b. m' b = m b \<union> {q' . q' = q \<and> b \<in> set ts}) \<and> (\<forall>t \<in> set ts. blocks t \<noteq> None)"
  by (induction ts arbitrary: m) (auto simp: add_edge_def and_then_Inr_iff split: if_splits)

lemma predecessors_fold:
  "try_fold (\<lambda>m blk. try_fold (add_edge blocks (block_ident blk)) m (targets (block_terminator blk))) m bs = Inr m'
   \<Longrightarrow> (\<forall>b. m' b = m b \<union> {q. flow_edge bs q b}) \<and>
     (\<forall>blk \<in> set bs. \<forall>t \<in> set (targets (block_terminator blk)). blocks t \<noteq> None)"
proof (induction bs arbitrary: m)
  case (Cons blk bs)
  then obtain m1 where m1: "try_fold (add_edge blocks (block_ident blk)) m (targets (block_terminator blk)) = Inr m1"
    and rest: "try_fold (\<lambda>m blk. try_fold (add_edge blocks (block_ident blk)) m (targets (block_terminator blk))) m1 bs = Inr m'"
    by (auto simp: and_then_Inr_iff)
  have "{q. flow_edge (blk # bs) q b} =
      {q. q = block_ident blk \<and> b \<in> set (targets (block_terminator blk))} \<union> {q. flow_edge bs q b}" for b
    by (auto simp: flow_edge_def)
  then show ?case using Cons.IH [OF rest] add_edges [OF m1] by (simp add: Un_assoc)
qed (simp add: flow_edge_def)

lemma predecessors_iff:
  assumes "predecessors bs blocks = Inr preds"
  shows "preds b = {q. flow_edge bs q b}"
    and "blk \<in> set bs \<Longrightarrow> t \<in> set (targets (block_terminator blk)) \<Longrightarrow> blocks t \<noteq> None"
  using predecessors_fold [OF assms [unfolded predecessors_def]] by auto

abbreviation block_keys :: "wx_block list \<Rightarrow> wx_block_id list" where
  "block_keys bs \<equiv> sorted_list_of_set (set (map block_ident bs))"

lemma verifier_cfg_ok:
  assumes "block_map bs = Inr blocks" "blocks entry \<noteq> None" "predecessors bs blocks = Inr preds"
  shows "cfg_ok entry (block_keys bs) preds"
  using assms(2) predecessors_iff [OF assms(3)] block_map_None [OF assms(1)]
  by (auto simp: cfg_ok_def flow_edge_def)

text \<open>C37. The dominators of a snapshot's blocks: the loop that computes them ends, and the row of a
  block holds exactly the blocks that lie on every path to it from the entry or from a block to
  which nothing leads.\<close>

theorem dominators_exact:
  assumes "block_map bs = Inr blocks" and "blocks entry \<noteq> None"
    and "predecessors bs blocks = Inr preds" and "blocks b \<noteq> None"
  shows "while_option (\<lambda>rows. dominator_round entry preds rows \<noteq> rows) (dominator_round entry preds)
       (initial_rows entry (block_keys bs)) = Some (dominators entry (block_keys bs) preds) \<and>
     row_of (dominators entry (block_keys bs) preds) b =
       {d. blocks d \<noteq> None \<and>
          (\<forall>path. cfg_path entry (dom blocks) (\<lambda>b. {q. flow_edge bs q b}) (b # path) \<longrightarrow>
             d \<in> set (b # path))}"
proof
  note ok = verifier_cfg_ok [OF assms(1,2,3)]
  show "while_option (\<lambda>rows. dominator_round entry preds rows \<noteq> rows) (dominator_round entry preds)
       (initial_rows entry (block_keys bs)) = Some (dominators entry (block_keys bs) preds)"
    using loop_ends [OF ok] by (auto simp: dominators_def while_def)
  have keys: "set (block_keys bs) = dom blocks"
    using block_map_None [OF assms(1)] unfolding dom_def by simp
  have preds: "preds = (\<lambda>b. {q. flow_edge bs q b})" using predecessors_iff(1) [OF assms(3)] by blast
  have "b \<in> set (block_keys bs)" using assms(4) keys by blast
  from row_exact [OF ok this]
  show "row_of (dominators entry (block_keys bs) preds) b =
       {d. blocks d \<noteq> None \<and>
          (\<forall>path. cfg_path entry (dom blocks) (\<lambda>b. {q. flow_edge bs q b}) (b # path) \<longrightarrow>
             d \<in> set (b # path))}"
    unfolding keys dominating_def preds [symmetric] by (simp add: domIff)
qed

definition sample_flow :: "wx_block list" where
  "sample_flow =
     [\<lparr>block_ident = 0, block_parameters = [], block_instructions = [], block_terminator = TBranch 7 1 2\<rparr>,
      \<lparr>block_ident = 1, block_parameters = [], block_instructions = [], block_terminator = TJump 3 []\<rparr>,
      \<lparr>block_ident = 2, block_parameters = [], block_instructions = [], block_terminator = TJump 3 []\<rparr>,
      \<lparr>block_ident = 3, block_parameters = [], block_instructions = [], block_terminator = TReturn []\<rparr>]"

lemma sample_flow_maps:
  "block_map sample_flow = Inr (\<lambda>b. find (\<lambda>blk. block_ident blk = b) sample_flow)"
  "predecessors sample_flow (\<lambda>b. find (\<lambda>blk. block_ident blk = b) sample_flow) =
     Inr (\<lambda>b. if b = 3 then {1, 2} else if b = 1 \<or> b = 2 then {0} else {})"
  by (auto simp: block_map_def predecessors_def sample_flow_def add_block_def add_edge_def fun_eq_iff)

lemma sample_flow_found:
  "find (\<lambda>blk. block_ident blk = 0) sample_flow \<noteq> None"
  "find (\<lambda>blk. block_ident blk = 3) sample_flow \<noteq> None"
  by (simp_all add: sample_flow_def)

theorem dominators_exact_witness:
  "row_of (dominators 0 (block_keys sample_flow)
     (\<lambda>b. if b = 3 then {1, 2} else if b = 1 \<or> b = 2 then {0} else {})) 3 = {0, 3} \<and>
   {0, 3} =
     {d. find (\<lambda>blk. block_ident blk = d) sample_flow \<noteq> None \<and>
        (\<forall>path. cfg_path 0 (dom (\<lambda>b. find (\<lambda>blk. block_ident blk = b) sample_flow))
           (\<lambda>b. {q. flow_edge sample_flow q b}) (3 # path) \<longrightarrow> d \<in> set (3 # path))}"
proof -
  have row: "row_of (dominators 0 (block_keys sample_flow)
     (\<lambda>b. if b = 3 then {1, 2} else if b = 1 \<or> b = 2 then {0} else {})) 3 = {0, 3}"
    by code_simp
  show ?thesis
    using dominators_exact [OF sample_flow_maps(1) sample_flow_found(1) sample_flow_maps(2)
        sample_flow_found(2), THEN conjunct2]
    unfolding row by blast
qed

end
