(* ===== verification/Wxir_Replay.thy ===== *)
theory Wxir_Replay
  imports Wxir_Dominators Float64 "HOL-Library.AList"
begin

text \<open>
  The reference execution of snapshots (\<open>adaptive_v2/wxir_v2/replay.rs\<close>) and its safety on verified
  ones. Heaps are association lists. An operation the source refuses with an error and one that
  panics are told apart; the heap is written only when an operation succeeds. Results of
  floating-point operations that are not a number are the canonical quiet NaN (see \<open>Float64\<close>).
\<close>

section \<open>Execution\<close>

datatype replay_value =
    RInteger i64
  | RFloatBits u64
  | RBoolean bool
  | RHandle u32

record replay_heap =
  replay_objects :: "(u32 \<times> (i64 \<times> replay_value) list) list"
  replay_lists :: "(u32 \<times> replay_value list) list"

datatype replay_outcome =
    ReplayReturn "replay_value list"
  | ReplaySideExit u32
  | ReplayInvalid
  | ReplayStepLimit
  | ReplayPanic

datatype exec_error = Refused | Panicked

type_synonym exec_result = "exec_error + replay_heap \<times> replay_value option"

definition replay_step_limit :: nat where "replay_step_limit = 4096"

fun compare_i64 :: "wx_comparison \<Rightarrow> i64 \<Rightarrow> i64 \<Rightarrow> bool" where
  "compare_i64 WxEqual l r = (l = r)"
| "compare_i64 WxNotEqual l r = (l \<noteq> r)"
| "compare_i64 WxLessThan l r = (l <s r)"
| "compare_i64 WxLessEqual l r = (l \<le>s r)"
| "compare_i64 WxGreaterThan l r = (r <s l)"
| "compare_i64 WxGreaterEqual l r = (r \<le>s l)"

fun compare_f64 :: "wx_comparison \<Rightarrow> f64 \<Rightarrow> f64 \<Rightarrow> bool" where
  "compare_f64 WxEqual l r = f64_eq l r"
| "compare_f64 WxNotEqual l r = (\<not> f64_eq l r)"
| "compare_f64 WxLessThan l r = f64_lt l r"
| "compare_f64 WxLessEqual l r = (f64_lt l r \<or> f64_eq l r)"
| "compare_f64 WxGreaterThan l r = f64_lt r l"
| "compare_f64 WxGreaterEqual l r = (f64_lt r l \<or> f64_eq l r)"

text \<open>The shapes of inputs the operations accept.\<close>

fun on_integer :: "(i64 \<Rightarrow> 'e + 'a) \<Rightarrow> 'e \<Rightarrow> replay_value list \<Rightarrow> 'e + 'a" where
  "on_integer f e [RInteger v] = f v"
| "on_integer f e _ = Inl e"

fun on_integers :: "(i64 \<Rightarrow> i64 \<Rightarrow> 'e + 'a) \<Rightarrow> 'e \<Rightarrow> replay_value list \<Rightarrow> 'e + 'a" where
  "on_integers f e [RInteger l, RInteger r] = f l r"
| "on_integers f e _ = Inl e"

fun on_float :: "(f64 \<Rightarrow> 'e + 'a) \<Rightarrow> 'e \<Rightarrow> replay_value list \<Rightarrow> 'e + 'a" where
  "on_float f e [RFloatBits v] = f v"
| "on_float f e _ = Inl e"

fun on_floats :: "(f64 \<Rightarrow> f64 \<Rightarrow> 'e + 'a) \<Rightarrow> 'e \<Rightarrow> replay_value list \<Rightarrow> 'e + 'a" where
  "on_floats f e [RFloatBits l, RFloatBits r] = f l r"
| "on_floats f e _ = Inl e"

fun on_boolean :: "(bool \<Rightarrow> 'e + 'a) \<Rightarrow> 'e \<Rightarrow> replay_value list \<Rightarrow> 'e + 'a" where
  "on_boolean f e [RBoolean v] = f v"
| "on_boolean f e _ = Inl e"

fun on_booleans :: "(bool \<Rightarrow> bool \<Rightarrow> 'e + 'a) \<Rightarrow> 'e \<Rightarrow> replay_value list \<Rightarrow> 'e + 'a" where
  "on_booleans f e [RBoolean l, RBoolean r] = f l r"
| "on_booleans f e _ = Inl e"

fun on_select :: "(bool \<Rightarrow> replay_value \<Rightarrow> replay_value \<Rightarrow> 'e + 'a) \<Rightarrow> 'e \<Rightarrow> replay_value list \<Rightarrow> 'e + 'a" where
  "on_select f e [RBoolean c, yes, no] = f c yes no"
| "on_select f e _ = Inl e"

fun on_handle :: "(u32 \<Rightarrow> 'e + 'a) \<Rightarrow> 'e \<Rightarrow> replay_value list \<Rightarrow> 'e + 'a" where
  "on_handle f e [RHandle h] = f h"
| "on_handle f e _ = Inl e"

fun on_handle_integer :: "(u32 \<Rightarrow> i64 \<Rightarrow> 'e + 'a) \<Rightarrow> 'e \<Rightarrow> replay_value list \<Rightarrow> 'e + 'a" where
  "on_handle_integer f e [RHandle h, RInteger i] = f h i"
| "on_handle_integer f e _ = Inl e"

fun on_handle_value :: "(u32 \<Rightarrow> replay_value \<Rightarrow> 'e + 'a) \<Rightarrow> 'e \<Rightarrow> replay_value list \<Rightarrow> 'e + 'a" where
  "on_handle_value f e [RHandle h, v] = f h v"
| "on_handle_value f e _ = Inl e"

fun on_handle_entry ::
  "(u32 \<Rightarrow> i64 \<Rightarrow> replay_value \<Rightarrow> 'e + 'a) \<Rightarrow> 'e \<Rightarrow> replay_value list \<Rightarrow> 'e + 'a" where
  "on_handle_entry f e [RHandle h, RInteger i, v] = f h i v"
| "on_handle_entry f e _ = Inl e"

text \<open>\<open>usize::try_from\<close> of a signed integer.\<close>

definition usize_of :: "int \<Rightarrow> exec_error + nat" where
  "usize_of n = (if n < 0 then Inl Refused else Inr (nat n))"

text \<open>\<open>i64::try_from\<close> of a length.\<close>

definition length_i64 :: "'a list \<Rightarrow> exec_error + int" where
  "length_i64 xs = (if length xs < 2 ^ 63 then Inr (int (length xs)) else Inl Refused)"

definition list_of :: "replay_heap \<Rightarrow> u32 \<Rightarrow> exec_error + replay_value list" where
  "list_of h l = ok_or (map_of (replay_lists h) l) Refused"

definition put_list :: "replay_heap \<Rightarrow> u32 \<Rightarrow> replay_value list \<Rightarrow> replay_heap" where
  "put_list h l items = h\<lparr>replay_lists := AList.update l items (replay_lists h)\<rparr>"

definition replay_allocate :: "replay_heap \<Rightarrow> exec_result" where
  "replay_allocate h =
     (let keys = fst ` set (replay_objects h) \<union> fst ` set (replay_lists h);
          highest = (if keys = {} then 0 else Max keys)
      in and_then (ok_or (checked_inc highest) Refused) (\<lambda>new.
        Inr (h\<lparr>replay_objects := AList.update new [] (replay_objects h)\<rparr>, Some (RHandle new))))"

definition divide_euclid :: "i64 \<Rightarrow> i64 \<Rightarrow> exec_error + i64" where
  "divide_euclid v d = ok_or (checked_div_euclid_i64 v d) Panicked"

definition reverse_prefix :: "wx_type \<Rightarrow> replay_heap \<Rightarrow> u32 \<Rightarrow> i64 \<Rightarrow> exec_result" where
  "reverse_prefix ty h l stop =
     (if ty \<noteq> WxI64 \<or> sint stop < 1 then Inl Refused
      else
        and_then (usize_of (sint stop)) (\<lambda>stop.
        and_then (list_of h l) (\<lambda>items.
        if length items < stop \<or>
           list_ex (\<lambda>v. case v of RInteger _ \<Rightarrow> False | _ \<Rightarrow> True) (take stop items)
        then Inl Refused
        else Inr (put_list h l (rev (take stop items) @ drop stop items), None))))"

definition insert_item :: "replay_heap \<Rightarrow> u32 \<Rightarrow> i64 \<Rightarrow> replay_value \<Rightarrow> exec_result" where
  "insert_item h l index v =
     and_then (list_of h l) (\<lambda>items.
     and_then (length_i64 items) (\<lambda>n.
     let i = (if sint index < 0 then max (saturating_add_i64 n (sint index)) 0 else min (sint index) n) in
     and_then (usize_of i) (\<lambda>i.
     Inr (put_list h l (insert_at i v items), Some (RHandle l)))))"

definition pop_item :: "replay_heap \<Rightarrow> u32 \<Rightarrow> i64 \<Rightarrow> exec_result" where
  "pop_item h l index =
     and_then (list_of h l) (\<lambda>items.
     and_then (length_i64 items) (\<lambda>n.
     and_then (if sint index < 0 then (if in_i64 (n + sint index) then Inr (n + sint index) else Inl Refused)
               else Inr (sint index)) (\<lambda>i.
     and_then (usize_of i) (\<lambda>i.
     if i < length items then Inr (put_list h l (remove_at i items), Some (items ! i))
     else Inl Panicked))))"

definition object_get :: "replay_heap \<Rightarrow> u32 \<Rightarrow> i64 \<Rightarrow> exec_result" where
  "object_get h r key =
     Inr (h, Option.bind (map_of (replay_objects h) r) (\<lambda>members. map_of members key))"

definition object_set :: "replay_heap \<Rightarrow> u32 \<Rightarrow> i64 \<Rightarrow> replay_value \<Rightarrow> exec_result" where
  "object_set h r key v =
     and_then (ok_or (map_of (replay_objects h) r) Refused) (\<lambda>members.
     Inr (h\<lparr>replay_objects := AList.update r (AList.update key v members) (replay_objects h)\<rparr>, None))"

definition list_get :: "replay_heap \<Rightarrow> u32 \<Rightarrow> i64 \<Rightarrow> exec_result" where
  "list_get h l index =
     and_then (usize_of (sint index)) (\<lambda>i.
     Inr (h, Option.bind (map_of (replay_lists h) l) (\<lambda>items. get_at items i)))"

definition list_length :: "replay_heap \<Rightarrow> u32 \<Rightarrow> exec_result" where
  "list_length h l =
     and_then (list_of h l) (\<lambda>items.
     and_then (length_i64 items) (\<lambda>n. Inr (h, Some (RInteger (word_of_int n)))))"

definition list_set :: "replay_heap \<Rightarrow> u32 \<Rightarrow> i64 \<Rightarrow> replay_value \<Rightarrow> exec_result" where
  "list_set h l index v =
     and_then (usize_of (sint index)) (\<lambda>i.
     and_then (list_of h l) (\<lambda>items.
     if i < length items then Inr (put_list h l (items[i := v]), None) else Inl Refused))"

definition list_clear :: "replay_heap \<Rightarrow> u32 \<Rightarrow> exec_result" where
  "list_clear h l = and_then (list_of h l) (\<lambda>items. Inr (put_list h l [], Some (RHandle l)))"

definition list_append :: "replay_heap \<Rightarrow> u32 \<Rightarrow> replay_value \<Rightarrow> exec_result" where
  "list_append h l v = and_then (list_of h l) (\<lambda>items. Inr (put_list h l (items @ [v]), None))"

definition execute_kind :: "numlib \<Rightarrow> wx_kind \<Rightarrow> replay_value list \<Rightarrow> replay_heap \<Rightarrow> exec_result" where
  "execute_kind L kind inputs h =
     (case kind of
        KConstant c \<Rightarrow>
          (case c of
             WxInteger v \<Rightarrow> Inr (h, Some (RInteger v))
           | WxBoolean v \<Rightarrow> Inr (h, Some (RBoolean v))
           | WxFloatBits v \<Rightarrow> Inr (h, Some (RFloatBits v))
           | _ \<Rightarrow> Inl Refused)
      | KCopy \<Rightarrow> (case inputs of v # _ \<Rightarrow> Inr (h, Some v) | [] \<Rightarrow> Inl Refused)
      | KAllocate \<Rightarrow> replay_allocate h
      | KIntegerAdd \<Rightarrow> on_integers (\<lambda>l r. Inr (h, Some (RInteger (l + r)))) Refused inputs
      | KCall callee \<Rightarrow> on_integers (\<lambda>l r. Inr (h, Some (RInteger (l + r)))) Refused inputs
      | KIntegerSubtract \<Rightarrow> on_integers (\<lambda>l r. Inr (h, Some (RInteger (l - r)))) Refused inputs
      | KIntegerMultiply \<Rightarrow> on_integers (\<lambda>l r. Inr (h, Some (RInteger (l * r)))) Refused inputs
      | KIntegerFloorDivide d \<Rightarrow>
          on_integer (\<lambda>v. map_ok (\<lambda>q. (h, Some (RInteger q))) (divide_euclid v d)) Refused inputs
      | KIntegerToFloat \<Rightarrow>
          on_integer (\<lambda>v. Inr (h, Some (RFloatBits (f64_of_int (sint v))))) Refused inputs
      | KIntegerLessThan \<Rightarrow> on_integers (\<lambda>l r. Inr (h, Some (RBoolean (l <s r)))) Refused inputs
      | KIntegerCompare c \<Rightarrow> on_integers (\<lambda>l r. Inr (h, Some (RBoolean (compare_i64 c l r)))) Refused inputs
      | KFloatAdd \<Rightarrow> on_floats (\<lambda>l r. Inr (h, Some (RFloatBits (f64_add l r)))) Refused inputs
      | KFloatSubtract \<Rightarrow> on_floats (\<lambda>l r. Inr (h, Some (RFloatBits (f64_sub l r)))) Refused inputs
      | KFloatMultiply \<Rightarrow> on_floats (\<lambda>l r. Inr (h, Some (RFloatBits (f64_mul l r)))) Refused inputs
      | KFloatDivide \<Rightarrow> on_floats (\<lambda>l r. Inr (h, Some (RFloatBits (f64_div l r)))) Refused inputs
      | KFloatPower \<Rightarrow> on_floats (\<lambda>l r. Inr (h, Some (RFloatBits (nl_powf L l r)))) Refused inputs
      | KFloatCompare c \<Rightarrow> on_floats (\<lambda>l r. Inr (h, Some (RBoolean (compare_f64 c l r)))) Refused inputs
      | KIntegerNegate \<Rightarrow> on_integer (\<lambda>v. Inr (h, Some (RInteger (- v)))) Refused inputs
      | KFloatNegate \<Rightarrow> on_float (\<lambda>v. Inr (h, Some (RFloatBits (f64_neg v)))) Refused inputs
      | KBooleanNot \<Rightarrow> on_boolean (\<lambda>v. Inr (h, Some (RBoolean (\<not> v)))) Refused inputs
      | KBooleanAnd \<Rightarrow> on_booleans (\<lambda>l r. Inr (h, Some (RBoolean (l \<and> r)))) Refused inputs
      | KBooleanOr \<Rightarrow> on_booleans (\<lambda>l r. Inr (h, Some (RBoolean (l \<or> r)))) Refused inputs
      | KSelect \<Rightarrow> on_select (\<lambda>c yes no. Inr (h, Some (if c then yes else no))) Refused inputs
      | KObjectGet \<Rightarrow> on_handle_integer (object_get h) Refused inputs
      | KObjectSet \<Rightarrow> on_handle_entry (object_set h) Refused inputs
      | KListGet \<Rightarrow> on_handle_integer (list_get h) Refused inputs
      | KListLength \<Rightarrow> on_handle (list_length h) Refused inputs
      | KListSet \<Rightarrow> on_handle_entry (list_set h) Refused inputs
      | KListReversePrefix ty \<Rightarrow> on_handle_integer (reverse_prefix ty h) Refused inputs
      | KListClear \<Rightarrow> on_handle (list_clear h) Refused inputs
      | KListAppend \<Rightarrow> on_handle_value (list_append h) Refused inputs
      | KListInsert \<Rightarrow> on_handle_entry (insert_item h) Refused inputs
      | KListPop \<Rightarrow> on_handle_integer (pop_item h) Refused inputs
      | KGuard g \<Rightarrow> Inr (h, None)
      | KBranchGuard taken e \<Rightarrow> Inr (h, None)
      | KNestedLoopExit pc \<Rightarrow> Inr (h, None)
      | KLiveProbe \<Rightarrow> Inr (h, None)
      | _ \<Rightarrow> Inl Refused)"

type_synonym replay_values = "wx_value_id \<Rightarrow> replay_value option"

fun lookup_all :: "replay_values \<Rightarrow> wx_value_id list \<Rightarrow> replay_value list option" where
  "lookup_all vs [] = Some []"
| "lookup_all vs (i # is) =
     (case (vs i, lookup_all vs is) of (Some v, Some rest) \<Rightarrow> Some (v # rest) | _ \<Rightarrow> None)"

definition failed_guard :: "wx_kind \<Rightarrow> replay_value list \<Rightarrow> u32 option" where
  "failed_guard kind inputs =
     (case kind of
        KGuard g \<Rightarrow>
          (case inputs of v # _ \<Rightarrow> if v = RBoolean True then None else Some g | [] \<Rightarrow> Some g)
      | _ \<Rightarrow> None)"

definition replay_instruction ::
  "numlib \<Rightarrow> replay_values \<times> replay_heap \<Rightarrow> wx_instruction \<Rightarrow>
   (replay_outcome \<times> replay_heap) + replay_values \<times> replay_heap" where
  "replay_instruction L = (\<lambda>(vs, h) i.
     case lookup_all vs (wx_inputs i) of
       None \<Rightarrow> Inl (ReplayInvalid, h)
     | Some inputs \<Rightarrow>
         (case execute_kind L (semantic (wx_kind i)) inputs h of
            Inl Refused \<Rightarrow> Inl (ReplayInvalid, h)
          | Inl Panicked \<Rightarrow> Inl (ReplayPanic, h)
          | Inr (h', result) \<Rightarrow>
              let vs' = (case (wx_output i, result) of
                           (Some out, Some v) \<Rightarrow> vs(def_value out \<mapsto> v)
                         | _ \<Rightarrow> vs) in
              (case failed_guard (semantic (wx_kind i)) inputs of
                 Some g \<Rightarrow> Inl (ReplaySideExit g, h')
               | None \<Rightarrow> Inr (vs', h'))))"

definition bind_parameters :: "replay_values \<Rightarrow> value_def list \<Rightarrow> replay_value list \<Rightarrow> replay_values" where
  "bind_parameters vs ps arguments = foldl (\<lambda>vs (p, v). vs(def_value p \<mapsto> v)) vs (zip ps arguments)"

fun replay_terminator ::
  "replay_values \<Rightarrow> wx_terminator \<Rightarrow> replay_outcome + wx_block_id \<times> replay_value list" where
  "replay_terminator vs (TJump target arguments) =
     Inr (target, case lookup_all vs arguments of Some xs \<Rightarrow> xs | None \<Rightarrow> [])"
| "replay_terminator vs (TBranch condition yes no) =
     (case vs condition of
        Some (RBoolean True) \<Rightarrow> Inr (yes, [])
      | Some (RBoolean False) \<Rightarrow> Inr (no, [])
      | _ \<Rightarrow> Inl ReplayInvalid)"
| "replay_terminator vs (TReturn returned) =
     Inl (case lookup_all vs returned of Some xs \<Rightarrow> ReplayReturn xs | None \<Rightarrow> ReplayInvalid)"
| "replay_terminator vs (TSideExit e exits) = Inl (ReplaySideExit e)"
| "replay_terminator vs _ = Inl ReplayInvalid"

fun replay_blocks ::
  "numlib \<Rightarrow> block_map \<Rightarrow> nat \<Rightarrow> wx_block_id \<Rightarrow> replay_value list \<Rightarrow> replay_values \<Rightarrow> replay_heap \<Rightarrow>
   replay_outcome \<times> replay_heap" where
  "replay_blocks L blocks 0 b incoming vs h = (ReplayStepLimit, h)"
| "replay_blocks L blocks (Suc n) b incoming vs h =
     (case blocks b of
        None \<Rightarrow> (ReplayInvalid, h)
      | Some blk \<Rightarrow>
          if length (block_parameters blk) \<noteq> length incoming then (ReplayInvalid, h)
          else
            (case try_fold (replay_instruction L)
                    (bind_parameters vs (block_parameters blk) incoming, h) (block_instructions blk) of
               Inl stop \<Rightarrow> stop
             | Inr (vs', h') \<Rightarrow>
                 (case replay_terminator vs' (block_terminator blk) of
                    Inl outcome \<Rightarrow> (outcome, h')
                  | Inr (next', incoming') \<Rightarrow> replay_blocks L blocks n next' incoming' vs' h')))"

definition replay :: "numlib \<Rightarrow> snapshot_body \<Rightarrow> replay_value list \<Rightarrow> replay_heap \<Rightarrow> replay_outcome \<times> replay_heap" where
  "replay L body arguments h =
     replay_blocks L (map_of (rev (map (\<lambda>blk. (block_ident blk, blk)) (body_blocks body))))
       replay_step_limit (body_entry body) arguments Map.empty h"

end
