(* ===== verification/Wxir_Replay_Laws.thy ===== *)
theory Wxir_Replay_Laws
  imports Wxir_Replay
begin

text \<open>
  Verified snapshots are safe to execute. The verifier promises that a value used in a block was
  defined in the block before or in a block of its dominator row; the execution relies on no more
  than two laws of the rows. Snapshots of scalar code whose constants and branch conditions have
  the types they are declared with, which the verifier does not check, are never invalid.
\<close>

section \<open>What the verifier establishes\<close>

lemma value_def_eta [simp]: "\<lparr>def_value = def_value p, def_type = def_type p\<rparr> = p"
  by (cases p) simp

lemma try_fold_each:
  "try_fold f s xs = Inr t \<Longrightarrow> x \<in> set xs \<Longrightarrow> \<exists>u v. f u x = Inr v"
  by (induction xs arbitrary: s) (auto simp: and_then_Inr_iff)

definition parameter_entries :: "wx_block \<Rightarrow> (wx_value_id \<times> wx_block_id \<times> nat option \<times> wx_type) set" where
  "parameter_entries blk = (\<lambda>p. (def_value p, block_ident blk, None, def_type p)) ` set (block_parameters blk)"

definition output_entries :: "wx_block \<Rightarrow> (wx_value_id \<times> wx_block_id \<times> nat option \<times> wx_type) set" where
  "output_entries blk =
     {(def_value out, block_ident blk, Some k, def_type out) | out k.
        k < length (block_instructions blk) \<and> wx_output (block_instructions blk ! k) = Some out}"

lemma define_value_iff:
  "define_value m v d = Inr m' \<Longrightarrow> \<forall>w e. m' w = Some e \<longleftrightarrow> m w = Some e \<or> (w, e) \<in> {(v, d)}"
  by (auto simp: define_value_def split: if_splits)

lemma define_output_iff:
  "define_output b m x = Inr m' \<Longrightarrow>
     \<forall>w e. m' w = Some e \<longleftrightarrow> m w = Some e \<or>
       (w, e) \<in> {(def_value out, b, Some (fst x), def_type out) | out. wx_output (snd x) = Some out}"
  using define_value_iff by (cases x) (fastforce simp: define_output_def split: option.splits)

lemma define_block_iff:
  assumes "define_block m blk = Inr m'"
  shows "\<forall>w e. m' w = Some e \<longleftrightarrow> m w = Some e \<or> (w, e) \<in> parameter_entries blk \<union> output_entries blk"
proof (intro allI)
  fix w e
  obtain m1 where m1: "try_fold (define_parameter (block_ident blk)) m (block_parameters blk) = Inr m1"
    "try_fold (define_output (block_ident blk)) m1 (List.enumerate 0 (block_instructions blk)) = Inr m'"
    using assms by (auto simp: define_block_def and_then_Inr_iff)
  have "m1 w = Some e \<longleftrightarrow> m w = Some e \<or>
      (\<exists>p \<in> set (block_parameters blk). (w, e) \<in> {(def_value p, block_ident blk, None, def_type p)})"
    by (rule try_fold_entries [OF _ m1(1)]) (unfold define_parameter_def, rule define_value_iff)
  moreover have "m' w = Some e \<longleftrightarrow> m1 w = Some e \<or>
      (\<exists>x \<in> set (List.enumerate 0 (block_instructions blk)). (w, e) \<in>
         {(def_value out, block_ident blk, Some (fst x), def_type out) | out. wx_output (snd x) = Some out})"
    by (rule try_fold_entries [OF define_output_iff m1(2)])
  moreover have "(\<exists>x \<in> set (List.enumerate 0 (block_instructions blk)). (w, e) \<in>
         {(def_value out, block_ident blk, Some (fst x), def_type out) | out. wx_output (snd x) = Some out})
      \<longleftrightarrow> (w, e) \<in> output_entries blk"
    unfolding output_entries_def bex_enumerate by auto
  moreover have "(\<exists>p \<in> set (block_parameters blk). (w, e) \<in> {(def_value p, block_ident blk, None, def_type p)})
      \<longleftrightarrow> (w, e) \<in> parameter_entries blk"
    unfolding parameter_entries_def by auto
  ultimately show "m' w = Some e \<longleftrightarrow> m w = Some e \<or> (w, e) \<in> parameter_entries blk \<union> output_entries blk"
    by blast
qed

lemma definitions_iff:
  assumes "definitions_of bs = Inr defs"
  shows "defs v = Some d \<longleftrightarrow> (\<exists>blk \<in> set bs. (v, d) \<in> parameter_entries blk \<union> output_entries blk)"
  using try_fold_entries [OF define_block_iff assms [unfolded definitions_of_def]] by simp

text \<open>The rows of a snapshot, as its verification computes them.\<close>

definition body_row :: "snapshot_body \<Rightarrow> wx_block_id \<Rightarrow> wx_block_id set" where
  "body_row body =
     (case block_map (body_blocks body) of
        Inr blocks \<Rightarrow>
          (case predecessors (body_blocks body) blocks of
             Inr preds \<Rightarrow> row_of (dominators (body_entry body) (block_keys (body_blocks body)) preds)
           | Inl e \<Rightarrow> (\<lambda>b. {}))
      | Inl e \<Rightarrow> (\<lambda>b. {}))"

definition body_edge :: "snapshot_body \<Rightarrow> wx_block_id \<Rightarrow> wx_block_id \<Rightarrow> bool" where
  "body_edge body q b \<longleftrightarrow> flow_edge (body_blocks body) q b"

lemma verified_parts:
  assumes "verify_snapshot body = Inr ()"
  obtains blocks defs preds where
    "block_map (body_blocks body) = Inr blocks" "blocks (body_entry body) \<noteq> None"
    "definitions_of (body_blocks body) = Inr defs" "predecessors (body_blocks body) blocks = Inr preds"
    "body_row body = row_of (dominators (body_entry body) (block_keys (body_blocks body)) preds)"
    "\<forall>blk \<in> set (body_blocks body). verify_block blocks defs
       (dominators (body_entry body) (block_keys (body_blocks body)) preds) blk = Inr ()"
  using assms
  by (auto simp: verify_snapshot_def and_then_Inr_iff Let_def try_all_Inr_iff body_row_def split: if_splits)

text \<open>The interface between the verifier and the execution: two laws of the rows.\<close>

locale dominance =
  fixes valid :: "'g \<Rightarrow> bool" and entry :: "'g \<Rightarrow> 'b" and edge :: "'g \<Rightarrow> 'b \<Rightarrow> 'b \<Rightarrow> bool"
    and row :: "'g \<Rightarrow> 'b \<Rightarrow> 'b set"
  assumes entry_row: "valid g \<Longrightarrow> row g (entry g) = {entry g}"
    and edge_row: "valid g \<Longrightarrow> edge g q b \<Longrightarrow> row g b \<subseteq> insert b (row g q)"
begin

text \<open>What holds of every block of a row still holds, after an edge, of every other block of the next.\<close>

lemma carried:
  assumes "valid g" "edge g q b" "\<And>d. d \<in> row g q \<Longrightarrow> P d" "d \<in> row g b" "d \<noteq> b"
  shows "P d"
  using edge_row [OF assms(1,2)] assms(3-) by blast

lemma entry_others: "valid g \<Longrightarrow> d \<in> row g (entry g) \<Longrightarrow> d \<noteq> entry g \<Longrightarrow> P d"
  using entry_row by blast

end

interpretation snap: dominance "\<lambda>body. verify_snapshot body = Inr ()" body_entry body_edge body_row
proof
  fix body :: snapshot_body and q b
  assume "verify_snapshot body = Inr ()"
  then obtain blocks defs preds where parts: "block_map (body_blocks body) = Inr blocks"
    "blocks (body_entry body) \<noteq> None" "predecessors (body_blocks body) blocks = Inr preds"
    "body_row body = row_of (dominators (body_entry body) (block_keys (body_blocks body)) preds)"
    by (rule verified_parts)
  note ok = verifier_cfg_ok [OF parts(1,2,3)]
  show "body_row body (body_entry body) = {body_entry body}"
    unfolding parts(4) by (rule row_entry [OF ok])
  assume edge: "body_edge body q b"
  then have "blocks b \<noteq> None"
    using predecessors_iff(2) [OF parts(3)] by (auto simp: body_edge_def flow_edge_def)
  then have "b \<in> set (block_keys (body_blocks body))" using block_map_None [OF parts(1)] by simp
  then show "body_row body b \<subseteq> insert b (body_row body q)"
    using edge unfolding parts(4) body_edge_def
    by (intro row_edge [OF ok]) (simp_all add: predecessors_iff(1) [OF parts(3)])
qed

section \<open>Strict scalar snapshots\<close>

fun value_type :: "replay_value \<Rightarrow> wx_type" where
  "value_type (RInteger v) = WxI64"
| "value_type (RFloatBits v) = WxF64"
| "value_type (RBoolean v) = WxBool"
| "value_type (RHandle v) = WxHandle"

fun constant_type :: "wx_constant \<Rightarrow> wx_type option" where
  "constant_type (WxInteger v) = Some WxI64"
| "constant_type (WxFloatBits v) = Some WxF64"
| "constant_type (WxBoolean v) = Some WxBool"
| "constant_type _ = None"

definition strict_instruction :: "wx_instruction \<Rightarrow> bool" where
  "strict_instruction i \<longleftrightarrow>
     (case semantic (wx_kind i) of
        KConstant c \<Rightarrow> constant_type c \<noteq> None \<and> constant_type c = map_option def_type (wx_output i)
      | KIntegerFloorDivide d \<Rightarrow> True
      | KIntegerCompare c \<Rightarrow> True
      | KFloatCompare c \<Rightarrow> True
      | KGuard g \<Rightarrow> wx_output i = None
      | KBranchGuard taken e \<Rightarrow> wx_output i = None
      | KNestedLoopExit pc \<Rightarrow> wx_output i = None
      | KLiveProbe \<Rightarrow> wx_output i = None
      | kind \<Rightarrow> kind \<in> {KCopy, KIntegerAdd, KIntegerSubtract, KIntegerMultiply, KIntegerToFloat,
          KIntegerLessThan, KFloatAdd, KFloatSubtract, KFloatMultiply, KFloatDivide, KFloatPower,
          KIntegerNegate, KFloatNegate, KBooleanNot, KBooleanAnd, KBooleanOr, KSelect})"

definition strict_terminator :: "definition_map \<Rightarrow> wx_terminator \<Rightarrow> bool" where
  "strict_terminator defs t \<longleftrightarrow>
     (case t of
        TBranch condition yes no \<Rightarrow> map_option (\<lambda>(_, _, ty). ty) (defs condition) = Some WxBool
      | TBackedge pc point \<Rightarrow> False
      | TIrreducibleBackedge \<Rightarrow> False
      | _ \<Rightarrow> True)"

definition strict_snapshot :: "snapshot_body \<Rightarrow> bool" where
  "strict_snapshot body \<longleftrightarrow>
     (case definitions_of (body_blocks body) of
        Inl e \<Rightarrow> False
      | Inr defs \<Rightarrow>
          list_all (\<lambda>blk. list_all strict_instruction (block_instructions blk) \<and>
            strict_terminator defs (block_terminator blk)) (body_blocks body))"

lemma typed_lists:
  "map value_type xs = [] \<longleftrightarrow> xs = []"
  "map value_type xs = t # ts \<longleftrightarrow> (\<exists>y ys. xs = y # ys \<and> value_type y = t \<and> map value_type ys = ts)"
  by auto

lemma value_type_iffs:
  "value_type v = WxI64 \<longleftrightarrow> (\<exists>x. v = RInteger x)"
  "value_type v = WxF64 \<longleftrightarrow> (\<exists>x. v = RFloatBits x)"
  "value_type v = WxBool \<longleftrightarrow> (\<exists>x. v = RBoolean x)"
  by (cases v; simp)+

lemma div_euclid_in_i64:
  assumes "in_i64 a" "b \<noteq> 0" "b \<noteq> - 1" shows "in_i64 (div_euclid a b)"
proof (cases "0 < b")
  case True
  then have "a \<le> a div b \<and> a div b \<le> 0" if "a < 0"
    using zdiv_mono2_neg [of a 1 b] div_neg_pos_less0 [of a b] that by auto
  moreover have "0 \<le> a div b \<and> a div b \<le> a" if "\<not> a < 0"
    using True that zdiv_mono2 [of a 1 b] by (simp add: pos_imp_zdiv_nonneg_iff)
  ultimately show ?thesis using assms True by (fastforce simp: in_i64_def div_euclid_def)
next
  case False
  then have c: "2 \<le> - b" using assms by simp
  then have "a div 2 \<le> a div (- b) \<and> a div (- b) \<le> 0" if "a < 0"
    using zdiv_mono2_neg [of a 2 "- b"] div_neg_pos_less0 [of a "- b"] that by auto
  moreover have "0 \<le> a div (- b) \<and> a div (- b) \<le> a" if "\<not> a < 0"
    using c that zdiv_mono2 [of a 1 "- b"] by (simp add: pos_imp_zdiv_nonneg_iff)
  moreover have "- (2 ^ 62) \<le> a div 2"
    using assms(1) zdiv_mono1 [of "- (2 ^ 63)" a 2] by (simp add: in_i64_def)
  ultimately show ?thesis using assms False by (fastforce simp: in_i64_def div_euclid_def)
qed

lemma divide_defined:
  assumes "d \<noteq> 0" "d \<noteq> - 1" shows "\<exists>q. divide_euclid v d = Inr q"
proof -
  have "word_of_int (sint d) = d" by simp
  then have "sint d \<noteq> 0" "sint d \<noteq> - 1" using assms by (metis of_int_0, metis of_int_minus of_int_1)
  then show ?thesis using div_euclid_in_i64 [OF in_i64_sint]
    by (simp add: divide_euclid_def checked_div_euclid_i64_to to_i64_def)
qed

lemma execute_strict:
  assumes "strict_instruction i"
    and "kind_types_valid (semantic (wx_kind i)) (wx_inputs i) (map value_type xs)
      (map_option def_type (wx_output i)) (wx_effect i)"
  shows "\<exists>r. execute_kind L (semantic (wx_kind i)) xs h = Inr (h, r) \<and>
    (\<forall>out. wx_output i = Some out \<longrightarrow> (\<exists>v. r = Some v \<and> value_type v = def_type out))"
proof (cases "semantic (wx_kind i)")
  case (KConstant c)
  then show ?thesis using assms by (cases c) (auto simp: strict_instruction_def execute_kind_def)
next
  case KSelect
  have select: "\<exists>t. types = [WxBool, t, t] \<and> out = Some t"
    if "kind_types_valid KSelect inputs types out eff" for inputs types out eff
    using that by (auto split: list.splits)
  obtain t where t: "map value_type xs = [WxBool, t, t]" "map_option def_type (wx_output i) = Some t"
    using select [OF assms(2) [unfolded KSelect]] by metis
  then have "\<exists>a b c. xs = [RBoolean a, b, c] \<and> value_type b = t \<and> value_type c = t"
    by (simp add: typed_lists value_type_iffs) blast
  with t show ?thesis using KSelect by (auto simp: execute_kind_def)
next
  case KCopy
  then show ?thesis using assms
    by (cases xs) (auto simp: execute_kind_def first_is_def split: option.splits)
next
  case (KIntegerFloorDivide d)
  then have "d \<noteq> 0" "d \<noteq> - 1" "map value_type xs = [WxI64]"
    and out: "map_option def_type (wx_output i) = Some WxI64"
    using assms(2) by simp_all
  then obtain v where "xs = [RInteger v]" by (auto simp: typed_lists value_type_iffs)
  moreover obtain q where "divide_euclid v d = Inr q" using divide_defined \<open>d \<noteq> 0\<close> \<open>d \<noteq> - 1\<close> by blast
  ultimately show ?thesis using KIntegerFloorDivide out by (auto simp: execute_kind_def)
qed ((insert assms, clarsimp simp: execute_kind_def strict_instruction_def typed_lists value_type_iffs)+)

section \<open>Values in reach\<close>

text \<open>
  \<open>available defs R b k vs\<close>: in block \<open>b\<close> with row \<open>R\<close> before instruction \<open>k\<close>, every value defined
  in a dominating block, as a parameter or by an earlier instruction is present with its type.
\<close>

definition typed_at :: "definition_map \<Rightarrow> replay_values \<Rightarrow> wx_value_id \<Rightarrow> bool" where
  "typed_at defs vs v \<longleftrightarrow> (\<exists>x b pos. vs v = Some x \<and> defs v = Some (b, pos, value_type x))"

definition available ::
  "definition_map \<Rightarrow> wx_block_id set \<Rightarrow> wx_block_id \<Rightarrow> nat \<Rightarrow> replay_values \<Rightarrow> bool" where
  "available defs R b k vs \<longleftrightarrow>
     (\<forall>v db pos ty. defs v = Some (db, pos, ty) \<longrightarrow>
        (db \<in> R \<and> db \<noteq> b) \<or> (db = b \<and> (\<forall>d. pos = Some d \<longrightarrow> d < k)) \<longrightarrow> typed_at defs vs v)"

lemma use_available:
  assumes "available defs (row_of doms b) b k vs" "verify_value_use defs doms b pos v = Inr ()"
    and "pos = Some k \<or> (\<forall>v ty d. defs v = Some (b, Some d, ty) \<longrightarrow> d < k)"
  shows "typed_at defs vs v"
proof -
  obtain db p ty where def: "defs v = Some (db, p, ty)"
    and use: "if db = b then \<forall>d u. p = Some d \<longrightarrow> pos = Some u \<longrightarrow> d < u else db \<in> row_of doms b"
    using assms(2) by (auto simp: verify_value_use_def split: option.splits if_splits)
  have "(db \<in> row_of doms b \<and> db \<noteq> b) \<or> (db = b \<and> (\<forall>d. p = Some d \<longrightarrow> d < k))"
    using use assms(3) def by (cases "db = b") auto
  then show ?thesis using assms(1) def unfolding available_def by blast
qed

lemma lookup_typed:
  assumes "\<forall>v \<in> set is. typed_at defs vs v"
  shows "\<exists>xs. lookup_all vs is = Some xs \<and> input_types defs is = map value_type xs \<and>
    list_all2 (\<lambda>v x. vs v = Some x \<and> (\<exists>b pos. defs v = Some (b, pos, value_type x))) is xs"
  using assms
proof (induction "is")
  case (Cons v "is")
  then obtain xs where xs: "lookup_all vs is = Some xs" "input_types defs is = map value_type xs"
    "list_all2 (\<lambda>v x. vs v = Some x \<and> (\<exists>b pos. defs v = Some (b, pos, value_type x))) is xs" by auto
  obtain x b pos where "vs v = Some x" "defs v = Some (b, pos, value_type x)"
    using Cons.prems by (auto simp: typed_at_def)
  then show ?case using xs by (auto simp: input_types_def map_filter_simps)
qed (simp add: input_types_def map_filter_simps)

lemma typed_at_update:
  assumes "typed_at defs vs w" "defs v = Some (b, pos, value_type x)"
  shows "typed_at defs (vs(v \<mapsto> x)) w"
  using assms by (auto simp: typed_at_def)

section \<open>Blocks\<close>

text \<open>What a verified, strict block is, for the execution.\<close>

definition good_block :: "definition_map \<Rightarrow> dominator_rows \<Rightarrow> wx_block \<Rightarrow> bool" where
  "good_block defs doms blk \<longleftrightarrow>
     (\<forall>k < length (block_instructions blk).
        let i = block_instructions blk ! k in
        (\<forall>v \<in> set (wx_inputs i). verify_value_use defs doms (block_ident blk) (Some k) v = Inr ()) \<and>
        verify_instruction_types defs i = Inr () \<and> strict_instruction i)"

lemma verified_good_block:
  assumes "verify_block blocks defs doms blk = Inr ()" "list_all strict_instruction (block_instructions blk)"
  shows "good_block defs doms blk"
  unfolding good_block_def Let_def
proof (intro allI impI)
  fix k assume k: "k < length (block_instructions blk)"
  let ?i = "block_instructions blk ! k"
  obtain s t where run: "try_fold (verify_block_instruction blk defs doms) s
      (List.enumerate 0 (block_instructions blk)) = Inr t"
    using assms(1) by (auto simp: verify_block_def and_then_Inr_iff)
  have "(k, ?i) \<in> set (List.enumerate 0 (block_instructions blk))"
    using k by (simp add: in_set_enumerate_eq)
  from try_fold_each [OF run this]
  obtain u v where "verify_block_instruction blk defs doms u (k, ?i) = Inr v" by (elim exE)
  then have "(\<forall>v \<in> set (wx_inputs ?i). verify_value_use defs doms (block_ident blk) (Some k) v = Inr ()) \<and>
      verify_instruction_types defs ?i = Inr ()"
    by (cases u) (auto simp: verify_block_instruction_def and_then_Inr_iff try_all_Inr_iff)
  moreover have "strict_instruction ?i" using assms(2) k by (simp add: list_all_length)
  ultimately show "(\<forall>v \<in> set (wx_inputs ?i). verify_value_use defs doms (block_ident blk) (Some k) v = Inr ()) \<and>
      verify_instruction_types defs ?i = Inr () \<and> strict_instruction ?i" by blast
qed

lemma instruction_step:
  assumes good: "good_block defs doms blk" and k: "k < length (block_instructions blk)"
    and av: "available defs (row_of doms (block_ident blk)) (block_ident blk) k vs"
    and outs: "\<And>v ty d. defs v = Some (block_ident blk, Some d, ty) \<longleftrightarrow>
      d < length (block_instructions blk) \<and> wx_output (block_instructions blk ! d) = Some \<lparr>def_value = v, def_type = ty\<rparr>"
  shows "(\<exists>g. replay_instruction L (vs, h) (block_instructions blk ! k) = Inl (ReplaySideExit g, h)) \<or>
    (\<exists>vs'. replay_instruction L (vs, h) (block_instructions blk ! k) = Inr (vs', h) \<and>
       available defs (row_of doms (block_ident blk)) (block_ident blk) (Suc k) vs')"
proof -
  let ?i = "block_instructions blk ! k" and ?R = "row_of doms (block_ident blk)"
  have "\<forall>v \<in> set (wx_inputs ?i). typed_at defs vs v"
    using good k use_available [OF av] by (auto simp: good_block_def Let_def)
  then obtain xs where xs: "lookup_all vs (wx_inputs ?i) = Some xs"
    "input_types defs (wx_inputs ?i) = map value_type xs" using lookup_typed by blast
  have strict: "strict_instruction ?i" and valid: "kind_types_valid (semantic (wx_kind ?i)) (wx_inputs ?i)
      (map value_type xs) (map_option def_type (wx_output ?i)) (wx_effect ?i)"
    using good k xs(2) by (auto simp: good_block_def Let_def verify_instruction_types_def)
  obtain r where r: "execute_kind L (semantic (wx_kind ?i)) xs h = Inr (h, r)"
    and typed: "\<forall>out. wx_output ?i = Some out \<longrightarrow> (\<exists>v. r = Some v \<and> value_type v = def_type out)"
    using execute_strict [OF strict valid, of L h] by (elim exE conjE)
  define vs' where "vs' = (case (wx_output ?i, r) of
      (Some out, Some v) \<Rightarrow> vs(def_value out \<mapsto> v) | _ \<Rightarrow> vs)"
  have "available defs ?R (block_ident blk) (Suc k) vs'"
    unfolding available_def
  proof (intro allI impI)
    fix v db pos ty
    assume def: "defs v = Some (db, pos, ty)"
      and reach: "(db \<in> ?R \<and> db \<noteq> block_ident blk) \<or> (db = block_ident blk \<and> (\<forall>d. pos = Some d \<longrightarrow> d < Suc k))"
    have kept: "typed_at defs vs v \<Longrightarrow> typed_at defs vs' v"
    proof (cases "wx_output ?i")
      case (Some out)
      obtain x where x: "r = Some x" "value_type x = def_type out" using typed Some by blast
      have "defs (def_value out) = Some (block_ident blk, Some k, value_type x)"
        unfolding outs using k Some x(2) by simp
      then show "typed_at defs vs v \<Longrightarrow> typed_at defs vs' v"
        using typed_at_update x Some by (simp add: vs'_def)
    qed (simp add: vs'_def)
    show "typed_at defs vs' v"
    proof (cases "db = block_ident blk \<and> pos = Some k")
      case True
      then have out: "wx_output ?i = Some \<lparr>def_value = v, def_type = ty\<rparr>" using def outs by blast
      with typed obtain x where "r = Some x" "value_type x = ty" by fastforce
      then show ?thesis using out def by (auto simp: typed_at_def vs'_def)
    next
      case False
      then have "(db \<in> ?R \<and> db \<noteq> block_ident blk) \<or> (db = block_ident blk \<and> (\<forall>d. pos = Some d \<longrightarrow> d < k))"
        using reach by (auto simp: less_Suc_eq)
      then show ?thesis using av def kept unfolding available_def by blast
    qed
  qed
  moreover have "replay_instruction L (vs, h) ?i =
      (case failed_guard (semantic (wx_kind ?i)) xs of
         Some g \<Rightarrow> Inl (ReplaySideExit g, h) | None \<Rightarrow> Inr (vs', h))"
    unfolding vs'_def by (simp add: replay_instruction_def xs(1) r Let_def split: option.split)
  ultimately show ?thesis by (cases "failed_guard (semantic (wx_kind ?i)) xs") simp_all
qed

lemma block_run:
  assumes good: "good_block defs doms blk"
    and outs: "\<And>v ty d. defs v = Some (block_ident blk, Some d, ty) \<longleftrightarrow>
      d < length (block_instructions blk) \<and> wx_output (block_instructions blk ! d) = Some \<lparr>def_value = v, def_type = ty\<rparr>"
    and "k \<le> length (block_instructions blk)"
    and "available defs (row_of doms (block_ident blk)) (block_ident blk) k vs"
  shows "(\<exists>g. try_fold (replay_instruction L) (vs, h) (drop k (block_instructions blk)) = Inl (ReplaySideExit g, h)) \<or>
    (\<exists>vs'. try_fold (replay_instruction L) (vs, h) (drop k (block_instructions blk)) = Inr (vs', h) \<and>
       available defs (row_of doms (block_ident blk)) (block_ident blk) (length (block_instructions blk)) vs')"
  using assms(3,4)
proof (induction "length (block_instructions blk) - k" arbitrary: k vs)
  case (Suc n)
  then have k: "k < length (block_instructions blk)" by simp
  have drop: "drop k (block_instructions blk) = block_instructions blk ! k # drop (Suc k) (block_instructions blk)"
    using k by (simp add: Cons_nth_drop_Suc)
  show ?case
    using instruction_step [OF good k Suc.prems(2) outs, of L h] Suc.hyps(1) [of "Suc k"] Suc.hyps(2) k
    unfolding drop by fastforce
qed simp

lemma bind_typed:
  assumes "\<forall>p \<in> set ps. defs (def_value p) = Some (b, None, def_type p)"
    and "map value_type xs = map def_type ps"
  shows "(\<forall>w. typed_at defs vs w \<longrightarrow> typed_at defs (bind_parameters vs ps xs) w) \<and>
    (\<forall>p \<in> set ps. typed_at defs (bind_parameters vs ps xs) (def_value p))"
  using assms
proof (induction ps arbitrary: xs vs)
  case (Cons p ps)
  then obtain x ys where xs: "xs = x # ys" "value_type x = def_type p" "map value_type ys = map def_type ps"
    by (cases xs) auto
  define us where "us = vs(def_value p \<mapsto> x)"
  have p: "defs (def_value p) = Some (b, None, value_type x)" using Cons.prems(1) xs(2) by simp
  have "bind_parameters vs (p # ps) xs = bind_parameters us ps ys"
    by (simp add: bind_parameters_def xs(1) us_def)
  moreover have "typed_at defs vs w \<Longrightarrow> typed_at defs us w" for w
    using typed_at_update p by (simp add: us_def)
  moreover have "typed_at defs us (def_value p)" using p by (simp add: typed_at_def us_def)
  ultimately show ?case using Cons.IH [of ys us] Cons.prems(1) xs(3) by simp
qed (simp add: bind_parameters_def)

section \<open>Snapshots\<close>

text \<open>What an execution of a verified strict snapshot finds whenever it enters a block.\<close>

definition enters ::
  "snapshot_body \<Rightarrow> definition_map \<Rightarrow> wx_block_id \<Rightarrow> replay_value list \<Rightarrow> replay_values \<Rightarrow> bool" where
  "enters body defs b incoming vs \<longleftrightarrow>
     (\<exists>blk \<in> set (body_blocks body). block_ident blk = b \<and>
        map value_type incoming = map def_type (block_parameters blk)) \<and>
     (\<forall>v db pos ty. defs v = Some (db, pos, ty) \<longrightarrow> db \<in> body_row body b \<longrightarrow> db \<noteq> b \<longrightarrow> typed_at defs vs v)"

lemma verify_terminator_uses:
  "verify_terminator blk blocks defs doms = Inr () \<Longrightarrow> v \<in> set (terminator_values (block_terminator blk)) \<Longrightarrow>
     verify_value_use defs doms (block_ident blk) None v = Inr ()"
  by (auto simp: verify_terminator_def and_then_Inr_iff try_all_Inr_iff)

text \<open>The end of a block: the execution stops with an outcome, or enters the next block.\<close>

lemma terminator_step:
  assumes verified: "verify_snapshot body = Inr ()" and blk: "blk \<in> set (body_blocks body)"
    and maps: "block_map (body_blocks body) = Inr blocks" "predecessors (body_blocks body) blocks = Inr preds"
    and doms: "body_row body = row_of doms" and vt: "verify_terminator blk blocks defs doms = Inr ()"
    and strict: "strict_terminator defs (block_terminator blk)"
    and outs: "\<And>v ty d. defs v = Some (block_ident blk, Some d, ty) \<Longrightarrow> d < length (block_instructions blk)"
    and av: "available defs (row_of doms (block_ident blk)) (block_ident blk) (length (block_instructions blk)) vs"
  shows "(\<exists>xs. replay_terminator vs (block_terminator blk) = Inl (ReplayReturn xs)) \<or>
    (\<exists>g. replay_terminator vs (block_terminator blk) = Inl (ReplaySideExit g)) \<or>
    (\<exists>b incoming. replay_terminator vs (block_terminator blk) = Inr (b, incoming) \<and> enters body defs b incoming vs)"
proof -
  have typed: "typed_at defs vs v" if "v \<in> set (terminator_values (block_terminator blk))" for v
    using use_available [OF av verify_terminator_uses [OF vt that]] outs by blast
  have enters: "enters body defs b incoming vs"
    if target: "b \<in> set (targets (block_terminator blk))"
      and "map value_type incoming = map def_type (parameters_of blocks b)" for b incoming
  proof -
    have edge: "body_edge body (block_ident blk) b"
      using blk target by (auto simp: body_edge_def flow_edge_def)
    obtain tgt where tgt: "blocks b = Some tgt"
      using predecessors_iff(2) [OF maps(2) blk target] by blast
    then have "tgt \<in> set (body_blocks body) \<and> block_ident tgt = b"
      using block_map_iff [OF maps(1)] by blast
    moreover have "typed_at defs vs v" if "defs v = Some (db, pos, ty)" "db \<in> body_row body b" "db \<noteq> b" for v db pos ty
    proof -
      have "db \<in> body_row body (block_ident blk) \<or> db = block_ident blk"
        by (rule snap.carried [OF verified edge _ that(2,3)]) simp
      then have "(db \<in> row_of doms (block_ident blk) \<and> db \<noteq> block_ident blk) \<or>
          (db = block_ident blk \<and> (\<forall>d. pos = Some d \<longrightarrow> d < length (block_instructions blk)))"
        using outs that(1) doms by auto
      then show ?thesis using av that(1) unfolding available_def by blast
    qed
    ultimately show ?thesis using that(2) tgt unfolding enters_def by (auto simp: parameters_of_def)
  qed
  show ?thesis
  proof (cases "block_terminator blk")
    case (TJump target arguments)
    then obtain xs where xs: "lookup_all vs arguments = Some xs"
      "list_all2 (\<lambda>v x. vs v = Some x \<and> (\<exists>b pos. defs v = Some (b, pos, value_type x))) arguments xs"
      using lookup_typed [of arguments defs vs] typed by auto
    have ps: "list_all2 (\<lambda>p a. map_option (\<lambda>(_, _, ty). ty) (defs a) = Some (def_type p))
        (parameters_of blocks target) arguments"
      using vt TJump by (auto simp: verify_terminator_def and_then_Inr_iff)
    have "map value_type xs = map def_type (parameters_of blocks target)"
      using ps xs(2) by (auto simp: list_all2_conv_all_nth intro!: nth_equalityI) fastforce
    then show ?thesis using TJump xs(1) enters by auto
  next
    case (TBranch condition yes no)
    then obtain c where "vs condition = Some (RBoolean c)"
      using typed [of condition] strict
      by (auto simp: typed_at_def strict_terminator_def value_type_iffs)
    moreover have "parameters_of blocks yes = []" "parameters_of blocks no = []"
      using vt TBranch by (auto simp: verify_terminator_def and_then_Inr_iff)
    ultimately show ?thesis using TBranch enters by (cases c) auto
  next
    case (TReturn returned)
    then show ?thesis using lookup_typed [of returned defs vs] typed by auto
  qed (use strict in \<open>simp_all add: strict_terminator_def\<close>)
qed

lemma replay_map:
  assumes "block_map bs = Inr blocks"
  shows "map_of (rev (map (\<lambda>blk. (block_ident blk, blk)) bs)) = blocks"
proof
  fix b
  let ?m = "map_of (rev (map (\<lambda>blk. (block_ident blk, blk)) bs))"
  show "?m b = blocks b"
  proof (cases "?m b")
    case None
    then have "b \<notin> block_ident ` set bs" by (simp add: map_of_eq_None_iff image_image)
    then show ?thesis using None block_map_None [OF assms] by (metis)
  next
    case (Some blk)
    then have "blk \<in> set bs \<and> block_ident blk = b" by (auto dest!: map_of_SomeD)
    then show ?thesis using Some block_map_iff [OF assms] by metis
  qed
qed

text \<open>Values of a block are defined where its entries say.\<close>

lemma block_entries:
  assumes "block_map bs = Inr blocks" "definitions_of bs = Inr defs" "blk \<in> set bs"
  shows "defs v = Some (block_ident blk, Some d, ty) \<longleftrightarrow>
      d < length (block_instructions blk) \<and> wx_output (block_instructions blk ! d) = Some \<lparr>def_value = v, def_type = ty\<rparr>"
    and "defs v = Some (block_ident blk, None, ty) \<longleftrightarrow> \<lparr>def_value = v, def_type = ty\<rparr> \<in> set (block_parameters blk)"
proof -
  have same: "blk' = blk" if "blk' \<in> set bs" "block_ident blk' = block_ident blk" for blk'
    using block_map_iff [OF assms(1)] assms(3) that by (metis option.inject)
  have "(v, block_ident blk, pos, ty) \<in> parameter_entries blk \<union> output_entries blk"
    if def: "defs v = Some (block_ident blk, pos, ty)" for pos
  proof -
    obtain blk' where "blk' \<in> set bs" "(v, block_ident blk, pos, ty) \<in> parameter_entries blk' \<union> output_entries blk'"
      using definitions_iff [OF assms(2), THEN iffD1, OF def] by (elim bexE)
    moreover from this have "block_ident blk' = block_ident blk"
      by (auto simp: parameter_entries_def output_entries_def)
    ultimately show ?thesis using same by blast
  qed
  then have entry: "defs v = Some (block_ident blk, pos, ty) \<longleftrightarrow>
      (v, block_ident blk, pos, ty) \<in> parameter_entries blk \<union> output_entries blk" for pos
    using definitions_iff [OF assms(2)] assms(3) by blast
  show "defs v = Some (block_ident blk, Some d, ty) \<longleftrightarrow>
      d < length (block_instructions blk) \<and> wx_output (block_instructions blk ! d) = Some \<lparr>def_value = v, def_type = ty\<rparr>"
    unfolding entry by (auto simp: parameter_entries_def output_entries_def)
  show "defs v = Some (block_ident blk, None, ty) \<longleftrightarrow> \<lparr>def_value = v, def_type = ty\<rparr> \<in> set (block_parameters blk)"
    unfolding entry by (auto simp: parameter_entries_def output_entries_def image_iff Bex_def)
qed

definition replay_answers :: "replay_outcome set" where
  "replay_answers = insert ReplayStepLimit (range ReplayReturn \<union> range ReplaySideExit)"

lemma entered_available:
  assumes "enters body defs (block_ident blk) incoming vs" "row = body_row body (block_ident blk)"
    and "map value_type incoming = map def_type (block_parameters blk)"
    and params: "\<And>v ty. defs v = Some (block_ident blk, None, ty) \<longleftrightarrow>
      \<lparr>def_value = v, def_type = ty\<rparr> \<in> set (block_parameters blk)"
  shows "available defs row (block_ident blk) 0 (bind_parameters vs (block_parameters blk) incoming)"
proof -
  have "\<forall>p \<in> set (block_parameters blk). defs (def_value p) = Some (block_ident blk, None, def_type p)"
  proof
    fix p assume p: "p \<in> set (block_parameters blk)"
    then show "defs (def_value p) = Some (block_ident blk, None, def_type p)"
      unfolding params by simp
  qed
  note bound = bind_typed [OF this assms(3), of vs]
  show ?thesis unfolding available_def
  proof (intro allI impI)
    fix v db pos ty
    assume def: "defs v = Some (db, pos, ty)"
      and "(db \<in> row \<and> db \<noteq> block_ident blk) \<or> (db = block_ident blk \<and> (\<forall>d. pos = Some d \<longrightarrow> d < 0))"
    then consider "db \<in> row" "db \<noteq> block_ident blk" | "db = block_ident blk" "pos = None"
      by (cases pos) auto
    then show "typed_at defs (bind_parameters vs (block_parameters blk) incoming) v"
    proof cases
      case 1
      then have "typed_at defs vs v" using assms(1,2) def unfolding enters_def by blast
      then show ?thesis using bound by blast
    next
      case 2
      then have "\<lparr>def_value = v, def_type = ty\<rparr> \<in> set (block_parameters blk)" using def params by simp
      then show ?thesis using bound by fastforce
    qed
  qed
qed

lemma replay_blocks_safe:
  assumes verified: "verify_snapshot body = Inr ()" and strict: "strict_snapshot body"
    and maps: "block_map (body_blocks body) = Inr blocks" "definitions_of (body_blocks body) = Inr defs"
    and "enters body defs b incoming vs"
  shows "\<exists>outcome \<in> replay_answers. replay_blocks L blocks n b incoming vs h = (outcome, h)"
  using assms(5)
proof (induction n arbitrary: b incoming vs)
  case (Suc n)
  obtain preds doms where preds: "predecessors (body_blocks body) blocks = Inr preds"
    and doms: "body_row body = row_of doms"
    and vb: "\<forall>blk \<in> set (body_blocks body). verify_block blocks defs doms blk = Inr ()"
    using verified_parts [OF verified] maps by (metis Inr_inject)
  obtain blk where blk: "blk \<in> set (body_blocks body)" "block_ident blk = b"
    "map value_type incoming = map def_type (block_parameters blk)"
    using Suc.prems unfolding enters_def by blast
  have found: "blocks b = Some blk" using block_map_iff [OF maps(1)] blk by blast
  note entries = block_entries [OF maps blk(1)]
  have st: "list_all strict_instruction (block_instructions blk)" "strict_terminator defs (block_terminator blk)"
    using strict maps(2) blk(1) by (auto simp: strict_snapshot_def list_all_iff)
  have good: "good_block defs doms blk" using verified_good_block vb blk(1) st(1) by blast
  let ?vs = "bind_parameters vs (block_parameters blk) incoming"
  have "available defs (row_of doms (block_ident blk)) (block_ident blk) 0 ?vs"
    by (rule entered_available [of body defs blk incoming vs])
      (use Suc.prems blk(2) in simp, simp only: doms, fact blk(3), rule entries(2))
  from block_run [OF good entries(1) _ this, of L h]
  consider g where "try_fold (replay_instruction L) (?vs, h) (block_instructions blk) = Inl (ReplaySideExit g, h)"
    | vs' where "try_fold (replay_instruction L) (?vs, h) (block_instructions blk) = Inr (vs', h)"
      "available defs (row_of doms (block_ident blk)) (block_ident blk) (length (block_instructions blk)) vs'"
    by auto
  then show ?case
  proof cases
    case 1
    then show ?thesis using found arg_cong [OF blk(3), of length] by (simp add: replay_answers_def)
  next
    case 2
    have "verify_terminator blk blocks defs doms = Inr ()"
      using vb blk(1) by (auto simp: verify_block_def and_then_Inr_iff)
    note step = terminator_step [OF verified blk(1) maps(1) preds doms this st(2) _ 2(2)]
    have "\<exists>outcome \<in> replay_answers.
        (case replay_terminator vs' (block_terminator blk) of
           Inl outcome \<Rightarrow> (outcome, h)
         | Inr (next', incoming') \<Rightarrow> replay_blocks L blocks n next' incoming' vs' h) = (outcome, h)"
      using step entries(1) Suc.IH by (fastforce simp: replay_answers_def)
    then show ?thesis using found 2(1) arg_cong [OF blk(3), of length] by simp
  qed
qed (simp add: replay_answers_def)


definition sample_wx :: "wx_kind \<Rightarrow> wx_value_id list \<Rightarrow> wx_value_id \<Rightarrow> wx_type \<Rightarrow> wx_instruction" where
  "sample_wx kind inputs v ty =
     wx_instruction_new kind inputs (Some \<lparr>def_value = v, def_type = ty\<rparr>) EffPure"

definition sample_entry :: wx_block where
  "sample_entry =
     \<lparr>block_ident = 0, block_parameters = [\<lparr>def_value = 0, def_type = WxI64\<rparr>],
      block_instructions =
        [sample_wx (KAtPc 4 (KConstant (WxInteger 10))) [] 1 WxI64, sample_wx KIntegerLessThan [0, 1] 2 WxBool],
      block_terminator = TBranch 2 1 2\<rparr>"

definition sample_snapshot :: snapshot_body where
  "sample_snapshot = draft_new \<lparr>executable_id = 7, executable_epoch = 1\<rparr> FunctionEntry 0
     [sample_entry,
      \<lparr>block_ident = 1, block_parameters = [],
       block_instructions = [sample_wx KIntegerAdd [0, 1] 3 WxI64], block_terminator = TJump 3 [3]\<rparr>,
      \<lparr>block_ident = 2, block_parameters = [],
       block_instructions = [sample_wx (KIntegerFloorDivide 2) [0] 4 WxI64], block_terminator = TJump 3 [4]\<rparr>,
      \<lparr>block_ident = 3, block_parameters = [\<lparr>def_value = 5, def_type = WxI64\<rparr>],
       block_instructions = [], block_terminator = TReturn [5]\<rparr>] [] []
     [dependency_current DepExecutable 7 1, dependency_current DepSchema 0 0,
      dependency_current DepHelperAbi 0 0, dependency_current DepGcAbi 0 0]"

lemma sample_snapshot_verifies: "verify_snapshot sample_snapshot = Inr ()"
  by code_simp

lemma sample_snapshot_strict: "strict_snapshot sample_snapshot"
  by code_simp

lemma sample_replay:
  "fst (replay L sample_snapshot [RInteger 9] \<lparr>replay_objects = [], replay_lists = []\<rparr>) = ReplayReturn [RInteger 19]"
  by code_simp


section \<open>What the verifier does not check\<close>

definition one_block :: "wx_instruction list \<Rightarrow> wx_terminator \<Rightarrow> snapshot_body" where
  "one_block is t = draft_new \<lparr>executable_id = 7, executable_epoch = 1\<rparr> FunctionEntry 0
     [\<lparr>block_ident = 0, block_parameters = [], block_instructions = is, block_terminator = t\<rparr>] [] []
     [dependency_current DepExecutable 7 1, dependency_current DepSchema 0 0,
      dependency_current DepHelperAbi 0 0, dependency_current DepGcAbi 0 0,
      dependency_current DepListLayout 0 0]"

text \<open>The type of a constant is not compared with its value.\<close>

lemma mistyped_constant_verifies:
  "verify_snapshot (one_block [sample_wx (KConstant (WxInteger 1)) [] 0 WxF64, sample_wx KFloatNegate [0] 1 WxF64]
     (TReturn [1])) = Inr () \<and>
   replay L (one_block [sample_wx (KConstant (WxInteger 1)) [] 0 WxF64, sample_wx KFloatNegate [0] 1 WxF64]
     (TReturn [1])) [] h = (ReplayInvalid, h)"
  by code_simp

text \<open>Of two owned lists only the first may not escape.\<close>

lemma second_owned_list_escapes:
  "verify_snapshot (one_block [sample_wx (KConstant (WxInteger 1)) [] 0 WxI64,
     sample_wx (KOwnedList 0 WxI64 False False) [0] 1 WxHandle,
     sample_wx (KOwnedList 1 WxI64 False False) [0] 2 WxHandle] (TReturn [2])) = Inr () \<and>
   verify_snapshot (one_block [sample_wx (KConstant (WxInteger 1)) [] 0 WxI64,
     sample_wx (KOwnedList 0 WxI64 False False) [0] 1 WxHandle,
     sample_wx (KOwnedList 1 WxI64 False False) [0] 2 WxHandle] (TReturn [1])) = Inl (InvalidOwnedList 0)"
  by code_simp

end
