(* ===== verification/Wxir_Trace.thy ===== *)
theory Wxir_Trace
  imports Wxir_Replay_Laws
begin

text \<open>
  The recorder of traces (\<open>adaptive_v2/trace.rs\<close>, \<open>trace/recording.rs\<close>): events with interpreter
  registers become instructions in static single assignment form. What it records passes the
  verifier's checks on values, effects and safepoints.
\<close>

section \<open>Events\<close>

definition default_trace_limit :: nat where "default_trace_limit = 256"

definition preheader_matches :: "loop_preheader \<Rightarrow> nat \<Rightarrow> nat \<Rightarrow> bool" where
  "preheader_matches p edge body \<longleftrightarrow> unat (edge_pc p) = edge \<and> unat (body_pc p) = body"

record trace_start =
  start_executable :: executable_identity
  start_entry :: entry_kind
  start_pc :: u32

datatype trace_op =
    OpConstant wx_constant
  | OpCopy
  | OpIntegerAdd | OpIntegerSubtract | OpIntegerMultiply
  | OpIntegerCompare wx_comparison
  | OpFloatAdd | OpFloatSubtract | OpFloatMultiply | OpFloatDivide
  | OpFloatCompare wx_comparison
  | OpIntegerNegate | OpFloatNegate
  | OpBooleanNot | OpBooleanAnd | OpBooleanOr
  | OpObjectGet | OpObjectSet | OpListGet | OpListSet | OpListAppend
  | OpCall u64
  | OpGuard u32
  | OpAllocate
  | OpHelper u64
  | OpBranch bool u32
  | OpNestedLoopHeader u32
  | OpBorrowView | OpResolveHandle
  | OpFact fact_lowering

record trace_event =
  event_pc :: u32
  event_op :: trace_op
  event_inputs :: "u16 list"
  event_output :: "(u16 \<times> wx_type) option"
  event_effect :: wx_effect
  event_safepoint :: "safepoint_id option"

definition trace_event_new ::
  "u32 \<Rightarrow> trace_op \<Rightarrow> u16 list \<Rightarrow> (u16 \<times> wx_type) option \<Rightarrow> wx_effect \<Rightarrow> trace_event" where
  "trace_event_new pc op inputs out eff =
     \<lparr>event_pc = pc, event_op = op, event_inputs = inputs, event_output = out, event_effect = eff,
      event_safepoint = None\<rparr>"

definition effect_only :: "u32 \<Rightarrow> trace_op \<Rightarrow> trace_event" where
  "effect_only pc op = trace_event_new pc op [] None EffPure"

definition at_safepoint :: "safepoint_id \<Rightarrow> trace_event \<Rightarrow> trace_event" where
  "at_safepoint point e = e\<lparr>event_safepoint := Some point\<rparr>"

datatype trace_error =
    ArbitraryPc u32
  | MismatchedBackedge u32 u32
  | IrreducibleTraceBackedge
  | TraceLimit nat
  | TraceTerminated
  | MissingBackedge
  | UndefinedRegister u16
  | MissingTraceSafepoint u32

record trace_recorder =
  recorder_start :: trace_start
  recorder_schema_epoch :: u64
  trace_limit :: nat
  trace_instructions :: "wx_instruction list"
  trace_terminated :: bool
  trace_registers :: "u16 \<Rightarrow> wx_value_id option"
  trace_parameters :: "value_def list"
  next_value :: u32

record recorded_trace =
  recorded_executable :: executable_identity
  recorded_entry :: entry_kind
  recorded_schema_epoch :: u64
  recorded_instructions :: "wx_instruction list"
  recorded_parameters :: "value_def list"
  recorded_terminator :: wx_terminator

definition lower_op :: "u32 \<Rightarrow> trace_op \<Rightarrow> wx_kind" where
  "lower_op pc op = KAtPc pc
     (case op of
        OpConstant c \<Rightarrow> KConstant c
      | OpCopy \<Rightarrow> KCopy
      | OpIntegerAdd \<Rightarrow> KIntegerAdd
      | OpIntegerSubtract \<Rightarrow> KIntegerSubtract
      | OpIntegerMultiply \<Rightarrow> KIntegerMultiply
      | OpIntegerCompare c \<Rightarrow> KIntegerCompare c
      | OpFloatAdd \<Rightarrow> KFloatAdd
      | OpFloatSubtract \<Rightarrow> KFloatSubtract
      | OpFloatMultiply \<Rightarrow> KFloatMultiply
      | OpFloatDivide \<Rightarrow> KFloatDivide
      | OpFloatCompare c \<Rightarrow> KFloatCompare c
      | OpIntegerNegate \<Rightarrow> KIntegerNegate
      | OpFloatNegate \<Rightarrow> KFloatNegate
      | OpBooleanNot \<Rightarrow> KBooleanNot
      | OpBooleanAnd \<Rightarrow> KBooleanAnd
      | OpBooleanOr \<Rightarrow> KBooleanOr
      | OpObjectGet \<Rightarrow> KObjectGet
      | OpObjectSet \<Rightarrow> KObjectSet
      | OpListGet \<Rightarrow> KListGet
      | OpListSet \<Rightarrow> KListSet
      | OpListAppend \<Rightarrow> KListAppend
      | OpCall callee \<Rightarrow> KCall callee
      | OpGuard guard \<Rightarrow> KGuard guard
      | OpAllocate \<Rightarrow> KAllocate
      | OpHelper helper \<Rightarrow> KHelper helper
      | OpBranch taken side_exit \<Rightarrow> KBranchGuard taken side_exit
      | OpNestedLoopHeader header_pc \<Rightarrow> KNestedLoopExit header_pc
      | OpBorrowView \<Rightarrow> KBorrowView
      | OpResolveHandle \<Rightarrow> KResolveHandle
      | OpFact lowering \<Rightarrow>
          (case lowering of
             LowerElidedProven \<Rightarrow> KLiveProbe
           | LowerGuardedStatic guard \<Rightarrow> KGuard guard
           | LowerLiveProbe \<Rightarrow> KLiveProbe))"

section \<open>Recording\<close>

definition recorder_with_limit :: "u64 \<Rightarrow> trace_start \<Rightarrow> nat \<Rightarrow> trace_error + trace_recorder" where
  "recorder_with_limit permit start limit =
     (let valid = (case start_entry start of
            FunctionEntry \<Rightarrow> start_pc start = 0
          | LoopHeader header_pc backedge_pc preheader \<Rightarrow> start_pc start = header_pc) in
      if \<not> valid then Inl (ArbitraryPc (start_pc start))
      else Inr \<lparr>recorder_start = start, recorder_schema_epoch = permit, trace_limit = limit,
                trace_instructions = [], trace_terminated = False, trace_registers = Map.empty,
                trace_parameters = [], next_value = 0\<rparr>)"

definition recorder_try_start :: "u64 \<Rightarrow> trace_start \<Rightarrow> trace_error + trace_recorder" where
  "recorder_try_start permit start = recorder_with_limit permit start default_trace_limit"

definition trace_register :: "trace_recorder \<Rightarrow> u16 \<Rightarrow> trace_error + wx_value_id" where
  "trace_register r reg = ok_or (trace_registers r reg) (UndefinedRegister reg)"

definition record_output :: "trace_recorder \<Rightarrow> (u16 \<times> wx_type) option \<Rightarrow> trace_recorder \<times> value_def option" where
  "record_output r out =
     (case out of
        None \<Rightarrow> (r, None)
      | Some (reg, ty) \<Rightarrow>
          (r\<lparr>next_value := saturating_inc (next_value r),
             trace_registers := (trace_registers r)(reg \<mapsto> next_value r)\<rparr>,
           Some \<lparr>def_value = next_value r, def_type = ty\<rparr>))"

definition recorded_instruction ::
  "trace_recorder \<Rightarrow> trace_event \<Rightarrow> wx_value_id list \<Rightarrow> value_def option \<Rightarrow> wx_instruction" where
  "recorded_instruction r e inputs out =
     (let kind = lower_op (event_pc e) (event_op e);
          sequence = (case u32_of_len (length (trace_instructions r)) of Some n \<Rightarrow> n | None \<Rightarrow> - 1);
          i = (case event_safepoint e of
                 Some point \<Rightarrow> wx_instruction_safepoint kind inputs out (event_effect e) point
               | None \<Rightarrow> wx_instruction_new kind inputs out (event_effect e))
      in if is_ordered (event_effect e) then wx_ordered sequence i else i)"

definition record_event :: "trace_recorder \<Rightarrow> trace_event \<Rightarrow> trace_recorder \<times> (trace_error + unit)" where
  "record_event r e =
     (if trace_terminated r then (r, Inl TraceTerminated)
      else if trace_limit r \<le> length (trace_instructions r) then (r, Inl (TraceLimit (trace_limit r)))
      else if is_barrier (event_effect e) \<and> event_safepoint e = None
      then (r, Inl (MissingTraceSafepoint (event_pc e)))
      else if event_op e = OpFact LowerElidedProven then (r, Inr ())
      else
        case try_map (trace_register r) (event_inputs e) of
          Inl err \<Rightarrow> (r, Inl err)
        | Inr inputs \<Rightarrow>
            (case record_output r (event_output e) of
               (r1, out) \<Rightarrow>
                 (r1\<lparr>trace_instructions := trace_instructions r1 @ [recorded_instruction r e inputs out],
                     trace_terminated := (case event_op e of OpNestedLoopHeader pc \<Rightarrow> True
                                          | _ \<Rightarrow> trace_terminated r1)\<rparr>, Inr ())))"

definition finish_trace :: "trace_recorder \<Rightarrow> wx_terminator \<Rightarrow> trace_error + recorded_trace" where
  "finish_trace r t =
     and_then
       (case start_entry (recorder_start r) of
          FunctionEntry \<Rightarrow> Inr ()
        | LoopHeader header_pc backedge_pc preheader \<Rightarrow>
            (case t of
               TBackedge target_pc point \<Rightarrow>
                 if target_pc = header_pc then Inr () else Inl (MismatchedBackedge header_pc target_pc)
             | TIrreducibleBackedge \<Rightarrow> Inl IrreducibleTraceBackedge
             | _ \<Rightarrow> Inl MissingBackedge))
       (\<lambda>_. Inr \<lparr>recorded_executable = start_executable (recorder_start r),
                 recorded_entry = start_entry (recorder_start r),
                 recorded_schema_epoch = recorder_schema_epoch r,
                 recorded_instructions = trace_instructions r,
                 recorded_parameters = trace_parameters r, recorded_terminator = t\<rparr>)"

definition into_draft :: "recorded_trace \<Rightarrow> dependency list \<Rightarrow> snapshot_body" where
  "into_draft tr deps =
     with_schema_epoch (recorded_schema_epoch tr)
       (draft_new (recorded_executable tr) (recorded_entry tr) 0
          [\<lparr>block_ident = 0, block_parameters = recorded_parameters tr,
            block_instructions = recorded_instructions tr, block_terminator = recorded_terminator tr\<rparr>]
          [] [] deps)"

fun record_events :: "trace_recorder \<Rightarrow> trace_event list \<Rightarrow> trace_recorder" where
  "record_events r [] = r"
| "record_events r (e # es) = record_events (fst (record_event r e)) es"

section \<open>The invariant of a recording\<close>

definition output_at :: "wx_instruction list \<Rightarrow> nat \<Rightarrow> wx_value_id \<Rightarrow> bool" where
  "output_at is k v \<longleftrightarrow> k < length is \<and> (\<exists>ty. wx_output (is ! k) = Some \<lparr>def_value = v, def_type = ty\<rparr>)"

definition instruction_ok :: "wx_instruction list \<Rightarrow> nat \<Rightarrow> bool" where
  "instruction_ok is k \<longleftrightarrow>
     (\<forall>v \<in> set (wx_inputs (is ! k)). \<exists>d < k. output_at is d v) \<and>
     (is_barrier (wx_effect (is ! k)) \<longrightarrow> wx_safepoint (is ! k) \<noteq> None) \<and>
     (is_ordered (wx_effect (is ! k)) \<longrightarrow> effect_sequence (is ! k) = Some (word_of_nat k))"

definition recorder_ok :: "trace_recorder \<Rightarrow> bool" where
  "recorder_ok r \<longleftrightarrow>
     (let is = trace_instructions r in
      trace_limit r < 2 ^ 32 \<and> length is \<le> trace_limit r \<and> trace_parameters r = [] \<and>
      unat (next_value r) \<le> length is \<and>
      (\<forall>k < length is. instruction_ok is k) \<and>
      (\<forall>k v. output_at is k v \<longrightarrow> unat v < unat (next_value r)) \<and>
      (\<forall>j k v. output_at is j v \<longrightarrow> output_at is k v \<longrightarrow> j = k) \<and>
      (\<forall>reg v. trace_registers r reg = Some v \<longrightarrow> (\<exists>d. output_at is d v)))"

lemma output_at_append: "k < length is \<Longrightarrow> output_at (is @ js) k v = output_at is k v"
  by (simp add: output_at_def nth_append)

lemma output_at_snoc:
  "output_at (is @ [i]) k v \<longleftrightarrow> output_at is k v \<or>
     (k = length is \<and> (\<exists>ty. wx_output i = Some \<lparr>def_value = v, def_type = ty\<rparr>))"
  by (auto simp: output_at_def nth_append less_Suc_eq)

lemma instruction_ok_append:
  assumes "k < length is" "instruction_ok is k" shows "instruction_ok (is @ js) k"
proof -
  have "output_at (is @ js) d v" if "d < k" "output_at is d v" for d v
    using that assms(1) by (simp add: output_at_append)
  then show ?thesis using assms unfolding instruction_ok_def nth_append by (simp split: if_splits) blast
qed

lemma record_output_cases:
  assumes "record_output r out = (r1, vd)" "unat (next_value r) < 2 ^ 32 - 1"
  shows "(vd = None \<and> r1 = r) \<or>
    (\<exists>reg ty. vd = Some \<lparr>def_value = next_value r, def_type = ty\<rparr> \<and>
       r1 = r\<lparr>next_value := next_value r1, trace_registers := (trace_registers r)(reg \<mapsto> next_value r)\<rparr> \<and>
       unat (next_value r1) = Suc (unat (next_value r)))"
proof (cases out)
  case (Some p)
  have "next_value r \<noteq> - 1"
  proof
    assume "next_value r = - 1"
    then have "unat (next_value r) = 2 ^ 32 - 1" by (simp add: unsigned_minus_1_eq_mask mask_eq_exp_minus_1)
    then show False using assms(2) by simp
  qed
  then have "unat (saturating_inc (next_value r)) = Suc (unat (next_value r))"
    by (rule unat_saturating_inc)
  then show ?thesis using assms(1) Some by (cases p) (auto simp: record_output_def)
qed (use assms in \<open>simp add: record_output_def\<close>)

lemma recorded_instruction_fields [simp]:
  "wx_inputs (recorded_instruction r e inputs out) = inputs"
  "wx_output (recorded_instruction r e inputs out) = out"
  "wx_effect (recorded_instruction r e inputs out) = event_effect e"
  "wx_safepoint (recorded_instruction r e inputs out) = event_safepoint e"
  by (auto simp: recorded_instruction_def Let_def wx_ordered_def wx_instruction_new_def
      wx_instruction_safepoint_def split: option.split)

lemma recorded_sequence:
  assumes "length (trace_instructions r) < 2 ^ 32" "is_ordered (event_effect e)"
  shows "effect_sequence (recorded_instruction r e inputs out) = Some (word_of_nat (length (trace_instructions r)))"
  using assms by (auto simp: recorded_instruction_def Let_def wx_ordered_def u32_of_len_def)

lemma record_event_ok:
  assumes ok: "recorder_ok r" shows "recorder_ok (fst (record_event r e))"
proof (cases "fst (record_event r e) = r")
  case False
  let ?is = "trace_instructions r"
  have go: "length ?is < trace_limit r" "is_barrier (event_effect e) \<longrightarrow> event_safepoint e \<noteq> None"
    using False by (auto simp: record_event_def split: if_splits)
  obtain inputs where inputs: "try_map (trace_register r) (event_inputs e) = Inr inputs"
    using False by (auto simp: record_event_def split: if_splits sum.splits)
  obtain r1 vd where out: "record_output r (event_output e) = (r1, vd)" by fastforce
  define i where "i = recorded_instruction r e inputs vd"
  have r': "\<exists>t. fst (record_event r e) = r1\<lparr>trace_instructions := trace_instructions r1 @ [i], trace_terminated := t\<rparr>"
    using False inputs out by (auto simp: record_event_def i_def split: if_splits)
  have small: "trace_limit r < 2 ^ 32" and nv: "unat (next_value r) \<le> length ?is"
    and is_ok: "\<And>k. k < length ?is \<Longrightarrow> instruction_ok ?is k"
    and bound: "\<And>k v. output_at ?is k v \<Longrightarrow> unat v < unat (next_value r)"
    and once: "\<And>j k v. output_at ?is j v \<Longrightarrow> output_at ?is k v \<Longrightarrow> j = k"
    and regs: "\<And>reg v. trace_registers r reg = Some v \<Longrightarrow> \<exists>d. output_at ?is d v"
    and par: "trace_parameters r = []"
    using ok by (auto simp: recorder_ok_def Let_def)
  have "unat (next_value r) < 2 ^ 32 - 1" using small nv go(1) by simp
  note out_cases = record_output_cases [OF out this]
  have same: "trace_instructions r1 = ?is" "trace_limit r1 = trace_limit r" "trace_parameters r1 = trace_parameters r"
    using out_cases by (auto elim!: ssubst)
  have "\<exists>d < length ?is. output_at ?is d v" if "v \<in> set inputs" for v
  proof -
    obtain reg where "trace_register r reg = Inr v"
      using inputs \<open>v \<in> set inputs\<close> by (auto simp: try_map_Inr_iff list_all2_conv_all_nth in_set_conv_nth)
    then show ?thesis using regs by (auto simp: trace_register_def output_at_def)
  qed
  then have "\<exists>d < length ?is. output_at (?is @ [i]) d v" if "v \<in> set inputs" for v
    using that output_at_append by blast
  then have new: "instruction_ok (?is @ [i]) (length ?is)"
    using go recorded_sequence [of r e inputs vd] small
    by (auto simp: instruction_ok_def i_def)
  have "recorder_ok (r1\<lparr>trace_instructions := ?is @ [i], trace_terminated := t\<rparr>)" for t
    unfolding recorder_ok_def Let_def
  proof (simp add: same small par, intro conjI allI impI)
    show "trace_limit r < 4294967296" using small by simp
    show "Suc (length ?is) \<le> trace_limit r" using go(1) by simp
    show "unat (next_value r1) \<le> Suc (length ?is)" using out_cases nv by auto
    show "instruction_ok (?is @ [i]) k" if "k < Suc (length ?is)" for k
      using that is_ok instruction_ok_append new by (cases "k = length ?is") auto
    have grows: "unat (next_value r) \<le> unat (next_value r1)" using out_cases by auto
    have fresh: "v = next_value r \<and> unat v < unat (next_value r1)" if "vd = Some \<lparr>def_value = v, def_type = ty\<rparr>" for v ty
      using that out_cases by auto
    show "unat v < unat (next_value r1)" if "output_at (?is @ [i]) k v" for k v
    proof (cases "output_at ?is k v")
      case True
      then show ?thesis using bound [OF True] grows by simp
    next
      case False
      then show ?thesis using that fresh by (auto simp: output_at_snoc i_def)
    qed
    show "j = k" if j: "output_at (?is @ [i]) j v" and k: "output_at (?is @ [i]) k v" for j k v
    proof (cases "output_at ?is j v \<or> output_at ?is k v")
      case True
      then have "v \<noteq> next_value r" using bound by fastforce
      then have "output_at ?is j v" "output_at ?is k v"
        using j k fresh by (auto simp: output_at_snoc i_def)
      then show ?thesis by (rule once)
    next
      case False
      then show ?thesis using j k by (simp add: output_at_snoc)
    qed
    show "\<exists>d. output_at (?is @ [i]) d v" if reg: "trace_registers r1 reg = Some v" for reg v
    proof (cases "trace_registers r reg = Some v")
      case True
      then show ?thesis using regs unfolding output_at_snoc by blast
    next
      case False
      have "vd = None \<and> trace_registers r1 = trace_registers r \<or>
          (\<exists>reg0 ty. vd = Some \<lparr>def_value = next_value r, def_type = ty\<rparr> \<and>
             trace_registers r1 = (trace_registers r)(reg0 \<mapsto> next_value r))"
        using out_cases
      proof (elim disjE exE conjE)
        fix reg0 ty
        assume vd: "vd = Some \<lparr>def_value = next_value r, def_type = ty\<rparr>"
          and "r1 = r\<lparr>next_value := next_value r1, trace_registers := (trace_registers r)(reg0 \<mapsto> next_value r)\<rparr>"
        from arg_cong [OF this(2), of trace_registers] vd show ?thesis by auto
      qed simp
      then obtain ty where "vd = Some \<lparr>def_value = v, def_type = ty\<rparr>"
        using reg False by (auto split: if_splits)
      then show ?thesis unfolding output_at_snoc i_def by auto
    qed
  qed
  then show ?thesis using r' same(1) by auto
qed (use ok in simp)

lemma record_events_ok: "recorder_ok r \<Longrightarrow> recorder_ok (record_events r es)"
  by (induction es arbitrary: r) (simp_all add: record_event_ok)

lemma record_event_start [simp]: "recorder_start (fst (record_event r e)) = recorder_start r"
proof -
  have "recorder_start r1 = recorder_start r" if "record_output r out = (r1, vd)" for r1 vd out
    using that by (auto simp: record_output_def split: option.splits)
  then show ?thesis by (auto simp: record_event_def split: sum.split prod.split)
qed

lemma record_events_start [simp]: "recorder_start (record_events r es) = recorder_start r"
  by (induction es arbitrary: r) simp_all

lemma start_ok: "recorder_with_limit permit start limit = Inr r \<Longrightarrow> limit < 2 ^ 32 \<Longrightarrow> recorder_ok r"
  by (auto simp: recorder_with_limit_def recorder_ok_def output_at_def Let_def split: if_splits)

section \<open>What is recorded verifies\<close>

definition outputs_once :: "wx_instruction list \<Rightarrow> bool" where
  "outputs_once is \<longleftrightarrow> (\<forall>j k v. output_at is j v \<longrightarrow> output_at is k v \<longrightarrow> j = k)"

lemma output_at_Cons [simp]: "output_at (i # is) (Suc k) v = output_at is k v"
  by (simp add: output_at_def)

lemma outputs_once_Cons: "outputs_once (i # is) \<Longrightarrow> outputs_once is"
  unfolding outputs_once_def by (metis Suc_inject output_at_Cons)

lemma define_outputs_total:
  assumes "outputs_once is" "\<forall>k v. output_at is k v \<longrightarrow> m v = None"
  shows "\<exists>m'. try_fold (define_output b) m (List.enumerate n is) = Inr m'"
  using assms
proof (induction "is" arbitrary: m n)
  case (Cons i "is")
  note once = outputs_once_Cons [OF Cons.prems(1)]
  have none: "\<forall>k v. output_at is k v \<longrightarrow> m v = None"
    using Cons.prems(2) output_at_Cons by blast
  show ?case
  proof (cases "wx_output i")
    case None
    then show ?thesis using Cons.IH [OF once none, of "Suc n"] by (simp add: define_output_def)
  next
    case (Some out)
    have here: "output_at (i # is) 0 (def_value out)"
      using Some by (cases out) (simp add: output_at_def)
    let ?m = "m(def_value out \<mapsto> (b, Some n, def_type out))"
    have "\<forall>k v. output_at is k v \<longrightarrow> ?m v = None"
    proof (intro allI impI)
      fix k v assume out: "output_at is k v"
      then have "v \<noteq> def_value out"
        using Cons.prems(1) here output_at_Cons unfolding outputs_once_def by blast
      then show "?m v = None" using none out by simp
    qed
    from Cons.IH [OF once this, of "Suc n"]
    have "\<exists>m'. try_fold (define_output b) ?m (List.enumerate (Suc n) is) = Inr m'" .
    moreover have "define_output b m (n, i) = Inr ?m"
      using Some Cons.prems(2) here by (simp add: define_output_def define_value_def)
    ultimately show ?thesis by simp
  qed
qed simp

lemma single_block_maps:
  assumes once: "outputs_once (block_instructions blk)"
    and "block_parameters blk = []" "targets (block_terminator blk) = []"
  shows "block_map [blk] = Inr [block_ident blk \<mapsto> blk]"
    and "\<exists>defs. definitions_of [blk] = Inr defs \<and>
      (\<forall>k v. output_at (block_instructions blk) k v \<longrightarrow> (\<exists>ty. defs v = Some (block_ident blk, Some k, ty)))"
    and "predecessors [blk] [block_ident blk \<mapsto> blk] = Inr (\<lambda>b. {})"
proof -
  show maps: "block_map [blk] = Inr [block_ident blk \<mapsto> blk]" by (simp add: block_map_def add_block_def)
  show "predecessors [blk] [block_ident blk \<mapsto> blk] = Inr (\<lambda>b. {})"
    by (simp add: predecessors_def assms(3))
  obtain defs where "try_fold (define_output (block_ident blk)) Map.empty
      (List.enumerate 0 (block_instructions blk)) = Inr defs"
    using define_outputs_total [OF once, of Map.empty] by (metis)
  then have defs: "definitions_of [blk] = Inr defs"
    by (simp add: definitions_of_def define_block_def assms(2))
  have "\<exists>ty. defs v = Some (block_ident blk, Some k, ty)" if "output_at (block_instructions blk) k v" for k v
    using that block_entries(1) [OF maps defs, of blk v k] by (auto simp: output_at_def)
  then show "\<exists>defs. definitions_of [blk] = Inr defs \<and>
      (\<forall>k v. output_at (block_instructions blk) k v \<longrightarrow> (\<exists>ty. defs v = Some (block_ident blk, Some k, ty)))"
    using defs by blast
qed

text \<open>The errors left for a recorded block: types, and borrowed views used across a safepoint.\<close>

definition trace_may_fail :: "snapshot_error \<Rightarrow> bool" where
  "trace_may_fail e \<longleftrightarrow> (\<exists>v. e = WxTypeMismatch v \<or> e = BorrowAcrossSafepoint v)"

lemma recorded_use:
  assumes "output_at is d v" "d < k" "\<And>k v. output_at is k v \<Longrightarrow> \<exists>ty. defs v = Some (b, Some k, ty)"
  shows "verify_value_use defs doms b (Some k) v = Inr ()"
  using assms by (fastforce simp: verify_value_use_def)

lemma recorded_instruction_verifies:
  assumes ok: "instruction_ok is k" and k: "k < length is" and small: "length is < 2 ^ 32"
    and "is = block_instructions blk"
    and defs: "\<And>k v. output_at is k v \<Longrightarrow> \<exists>ty. defs v = Some (block_ident blk, Some k, ty)"
    and latest: "\<And>l. latest = Some l \<Longrightarrow> unat l < k"
    and result: "verify_block_instruction blk defs doms (latest, borrowed) (k, is ! k) = res"
  shows "(\<exists>e. res = Inl e \<and> trace_may_fail e) \<or>
    (\<exists>latest' borrowed'. res = Inr (latest', borrowed') \<and> (\<forall>l. latest' = Some l \<longrightarrow> unat l < Suc k))"
proof -
  have uses: "try_all (verify_value_use defs doms (block_ident blk) (Some k)) (wx_inputs (is ! k)) = Inr ()"
    using ok recorded_use [OF _ _ defs] by (fastforce simp: try_all_Inr_iff instruction_ok_def)
  have kw: "unat (word_of_nat k :: u32) = k" using k small by (simp add: unat_of_nat)
  have order: "\<exists>latest'. verify_effect_order (block_ident blk) latest (is ! k) = Inr latest' \<and>
      (\<forall>l. latest' = Some l \<longrightarrow> unat l < Suc k)"
    using ok latest kw
    by (auto simp: verify_effect_order_def instruction_ok_def word_le_nat_alt less_SucI split: option.split)
  have safe: "\<not> (is_barrier (wx_effect (is ! k)) \<and> wx_safepoint (is ! k) = None)"
    using ok by (simp add: instruction_ok_def)
  show ?thesis
  proof (cases "verify_instruction_types defs (is ! k)")
    case (Inl e)
    then have "res = Inl e" using result uses by (simp add: verify_block_instruction_def)
    moreover have "trace_may_fail e" using Inl by (auto simp: verify_instruction_types_def trace_may_fail_def)
    ultimately show ?thesis by blast
  next
    case (Inr u)
    obtain latest' where o': "verify_effect_order (block_ident blk) latest (is ! k) = Inr latest'"
      "\<forall>l. latest' = Some l \<longrightarrow> unat l < Suc k" using order by blast
    define bad where "bad = (if is_barrier (wx_effect (is ! k))
      then find (\<lambda>v. borrow_live_after blk v k) (sorted_list_of_set borrowed) else None)"
    have "res = (case bad of Some v \<Rightarrow> Inl (BorrowAcrossSafepoint v)
        | None \<Rightarrow> Inr (latest', case wx_output (is ! k) of
            Some out \<Rightarrow> if def_type out = WxBorrowedView then insert (def_value out) borrowed else borrowed
          | None \<Rightarrow> borrowed))"
      using result uses safe Inr o'(1) unfolding bad_def verify_block_instruction_def
      by (simp add: ensure_def)
    then show ?thesis using o'(2) by (cases bad) (auto simp: trace_may_fail_def)
  qed
qed

lemma recorded_fold:
  assumes ok: "\<And>k. k < length is \<Longrightarrow> instruction_ok is k" and small: "length is < 2 ^ 32"
    and "is": "is = block_instructions blk"
    and defs: "\<And>k v. output_at is k v \<Longrightarrow> \<exists>ty. defs v = Some (block_ident blk, Some k, ty)"
    and "k \<le> length is" "\<And>l. latest = Some l \<Longrightarrow> unat l < k"
    and "try_fold (verify_block_instruction blk defs doms) (latest, borrowed) (List.enumerate k (drop k is)) = Inl e"
  shows "trace_may_fail e"
  using assms(5-7)
proof (induction "length is - k" arbitrary: k latest borrowed)
  case (Suc n)
  then have k: "k < length is" by simp
  have drop: "drop k is = is ! k # drop (Suc k) is" using k by (simp add: Cons_nth_drop_Suc)
  obtain res where res: "verify_block_instruction blk defs doms (latest, borrowed) (k, is ! k) = res" by blast
  from recorded_instruction_verifies [OF ok [OF k] k small "is" defs Suc.prems(2) res]
  consider err where "res = Inl err" "trace_may_fail err"
    | latest' borrowed' where "res = Inr (latest', borrowed')" "\<And>l. latest' = Some l \<Longrightarrow> unat l < Suc k"
    by blast
  then show ?case
  proof cases
    case 1
    then show ?thesis using Suc.prems(3) res drop by simp
  next
    case 2
    then have "try_fold (verify_block_instruction blk defs doms) (latest', borrowed')
        (List.enumerate (Suc k) (drop (Suc k) is)) = Inl e"
      using Suc.prems(3) res drop by simp
    from Suc.hyps(1) [OF _ _ 2(2) this] show ?thesis using Suc.hyps(2) k by simp
  qed
qed simp


definition sample_trace_start :: trace_start where
  "sample_trace_start = \<lparr>start_executable = \<lparr>executable_id = 7, executable_epoch = 1\<rparr>,
     start_entry = LoopHeader 4 9 None, start_pc = 4\<rparr>"

definition sample_trace_events :: "trace_event list" where
  "sample_trace_events =
     [trace_event_new 4 (OpConstant (WxInteger 1)) [] (Some (0, WxI64)) EffPure,
      trace_event_new 5 OpIntegerAdd [0, 0] (Some (0, WxI64)) EffPure,
      trace_event_new 6 OpIntegerAdd [0, 3] (Some (1, WxI64)) EffPure,
      at_safepoint 2 (trace_event_new 7 (OpHelper 3) [0] None EffHelper)]"

definition sample_recorder :: trace_recorder where
  "sample_recorder = \<lparr>recorder_start = sample_trace_start, recorder_schema_epoch = 0, trace_limit = 256,
     trace_instructions = [], trace_terminated = False, trace_registers = Map.empty,
     trace_parameters = [], next_value = 0\<rparr>"

definition sample_recorded :: recorded_trace where
  "sample_recorded = \<lparr>recorded_executable = \<lparr>executable_id = 7, executable_epoch = 1\<rparr>,
     recorded_entry = LoopHeader 4 9 None, recorded_schema_epoch = 0,
     recorded_instructions =
       [wx_instruction_new (KAtPc 4 (KConstant (WxInteger 1))) [] (Some \<lparr>def_value = 0, def_type = WxI64\<rparr>) EffPure,
        wx_instruction_new (KAtPc 5 KIntegerAdd) [0, 0] (Some \<lparr>def_value = 1, def_type = WxI64\<rparr>) EffPure,
        wx_ordered 2 (wx_instruction_safepoint (KAtPc 7 (KHelper 3)) [1] None EffHelper 2)],
     recorded_parameters = [], recorded_terminator = TBackedge 4 2\<rparr>"

lemma sample_trace_started: "recorder_with_limit 0 sample_trace_start 256 = Inr sample_recorder"
  by (simp add: recorder_with_limit_def sample_trace_start_def sample_recorder_def)

lemma sample_trace_finished:
  "finish_trace (record_events sample_recorder sample_trace_events) (TBackedge 4 2) = Inr sample_recorded"
  by (simp add: sample_trace_events_def sample_recorder_def sample_trace_start_def sample_recorded_def
      record_event_def trace_event_new_def at_safepoint_def trace_register_def record_output_def
      recorded_instruction_def lower_op_def wx_ordered_def u32_of_len_def finish_trace_def
      wx_instruction_new_def wx_instruction_safepoint_def saturating_inc_def Let_def)

lemma sample_trace_loop: "start_entry sample_trace_start = LoopHeader 4 9 None"
  by (simp add: sample_trace_start_def)

lemma sample_trace_short: "(256 :: nat) < 2 ^ 32"
  by simp


end
