(* ===== verification/Wxir_Deopt.thy ===== *)
theory Wxir_Deopt
  imports Wxir_Verify Gc_Soundness Engine_Shapes
begin

text \<open>
  Deoptimization (\<open>adaptive_v2/wxir_v2/materialize.rs\<close>, \<open>materialize/*.rs\<close>): from a recipe and the
  values of a native frame, the frames of the interpreter are rebuilt and the objects that existed
  only virtually are allocated in the collected heap, in one batch. The values of registers and
  spill slots are association lists in the order of their keys.
\<close>

section \<open>The engine\<close>

datatype runtime_atom =
    AtomInteger i64
  | AtomFloatBits u64
  | AtomBoolean bool
  | AtomHandle stable_handle
  | AtomUndefinedDead

fun atom_type :: "runtime_atom \<Rightarrow> wx_type option" where
  "atom_type (AtomInteger v) = Some WxI64"
| "atom_type (AtomFloatBits v) = Some WxF64"
| "atom_type (AtomBoolean v) = Some WxBool"
| "atom_type (AtomHandle h) = Some WxHandle"
| "atom_type AtomUndefinedDead = None"

datatype list_strategy = StrategyEmpty | StrategyImmediateInteger | StrategyF64 | StrategyGeneric

datatype materialized_kind =
    MaterializedObject u64 u64 u64 "(u32 \<times> runtime_atom) list"
  | MaterializedList list_strategy "runtime_atom list"
  | MaterializedTuple "runtime_atom list"

record materialized_virtual =
  materialized_id :: u32
  materialized_handle :: stable_handle
  materialized_kind :: materialized_kind

record reconstructed_frame =
  rebuilt_function :: u64
  rebuilt_resume_pc :: u32
  rebuilt_registers :: "runtime_atom list"
  rebuilt_exception :: exception_state

record reconstructed_state =
  state_resume_pc :: u32
  state_mode :: resume_mode
  state_frames :: "reconstructed_frame list"
  state_virtuals :: "materialized_virtual list"

datatype deopt_error =
    StaleDeoptDependency
  | IncompleteDependency
  | InvalidConstant
  | MissingValue u32
  | MissingSpill u32
  | MissingVirtual u32
  | DuplicateVirtual u32
  | DeoptTypeMismatch u16
  | NonContiguousRegisters u64
  | StaleShape u64
  | HelperFailure u64
  | InvalidDeoptHandle gc_error

record deopt_engine =
  engine_values :: "(wx_value_id \<times> runtime_atom) list"
  engine_spills :: "(u32 \<times> runtime_atom) list"
  engine_shapes :: "shape_table option"
  forced_helper_failure :: "u64 option"

definition deopt_engine_new ::
  "(wx_value_id \<times> runtime_atom) list \<Rightarrow> (u32 \<times> runtime_atom) list \<Rightarrow> deopt_engine" where
  "deopt_engine_new vals spills =
     \<lparr>engine_values = vals, engine_spills = spills, engine_shapes = None, forced_helper_failure = None\<rparr>"

definition with_shapes :: "shape_table \<Rightarrow> deopt_engine \<Rightarrow> deopt_engine" where
  "with_shapes shapes E = E\<lparr>engine_shapes := Some shapes\<rparr>"

definition with_forced_helper_failure :: "u64 \<Rightarrow> deopt_engine \<Rightarrow> deopt_engine" where
  "with_forced_helper_failure helper E = E\<lparr>forced_helper_failure := Some helper\<rparr>"

section \<open>Values of sources\<close>

fun constant_atom :: "wx_constant \<Rightarrow> runtime_atom" where
  "constant_atom (WxInteger v) = AtomInteger v"
| "constant_atom (WxFloatBits bits) = AtomFloatBits bits"
| "constant_atom (WxBoolean v) = AtomBoolean v"
| "constant_atom _ = AtomUndefinedDead"

fun resolve_external :: "deopt_engine \<Rightarrow> register_source \<Rightarrow> deopt_error + runtime_atom" where
  "resolve_external E (SrcSsa v) = ok_or (map_of (engine_values E) v) (MissingValue v)"
| "resolve_external E (SrcConstant (WxHandleBits bits)) = Inl InvalidConstant"
| "resolve_external E (SrcConstant WxUndefinedDead) = Inl InvalidConstant"
| "resolve_external E (SrcConstant c) = Inr (constant_atom c)"
| "resolve_external E (SrcSpill slot ty) = ok_or (map_of (engine_spills E) slot) (MissingSpill slot)"
| "resolve_external E SrcUndefinedDead = Inr AtomUndefinedDead"
| "resolve_external E (SrcVirtual i) = Inl (MissingVirtual i)"

fun resolve_source ::
  "deopt_engine \<Rightarrow> (u32 \<Rightarrow> stable_handle option) \<Rightarrow> register_source \<Rightarrow> deopt_error + runtime_atom" where
  "resolve_source E handles (SrcVirtual i) = map_ok AtomHandle (ok_or (handles i) (MissingVirtual i))"
| "resolve_source E handles src = resolve_external E src"

definition list_strategy_of :: "runtime_atom list \<Rightarrow> list_strategy" where
  "list_strategy_of items =
     (if items = [] then StrategyEmpty
      else if list_all (\<lambda>a. case a of AtomInteger v \<Rightarrow> - 70368744177664 \<le> sint v \<and> sint v \<le> 70368744177663
                            | _ \<Rightarrow> False) items then StrategyImmediateInteger
      else if list_all (\<lambda>a. case a of AtomFloatBits b \<Rightarrow> True | _ \<Rightarrow> False) items then StrategyF64
      else StrategyGeneric)"

section \<open>Validation\<close>

definition index_virtual ::
  "(u32 \<Rightarrow> nat option) \<Rightarrow> nat \<times> virtual_recipe \<Rightarrow> deopt_error + (u32 \<Rightarrow> nat option)" where
  "index_virtual index = (\<lambda>(position, v).
     if index (virtual_id v) \<noteq> None then Inl (DuplicateVirtual (virtual_id v))
     else Inr (index(virtual_id v \<mapsto> position)))"

definition shape_current :: "deopt_engine \<Rightarrow> virtual_kind \<Rightarrow> deopt_error + unit" where
  "shape_current E kind =
     (case kind of
        VirtualObject shape dep layout members \<Rightarrow>
          ensure (case engine_shapes E of
                    None \<Rightarrow> False | Some shapes \<Rightarrow> serialized_key_is_current shapes shape dep layout)
            (StaleShape shape)
      | _ \<Rightarrow> Inr ())"

definition validate_source ::
  "deopt_engine \<Rightarrow> (u32 \<Rightarrow> nat option) \<Rightarrow> register_source \<Rightarrow> deopt_error + unit" where
  "validate_source E index src =
     (case src of
        SrcVirtual i \<Rightarrow> ensure (index i \<noteq> None) (MissingVirtual i)
      | _ \<Rightarrow>
          and_then (resolve_external E src) (\<lambda>atom.
          case src of
            SrcSpill slot ty \<Rightarrow> ensure (atom_type atom = Some ty) (DeoptTypeMismatch (- 1))
          | _ \<Rightarrow> Inr ()))"

definition validate_virtual ::
  "deopt_engine \<Rightarrow> (u32 \<Rightarrow> nat option) \<Rightarrow> virtual_recipe \<Rightarrow> deopt_error + unit" where
  "validate_virtual E index v =
     and_then (shape_current E (virtual_kind v)) (\<lambda>_.
     try_all (validate_source E index) (virtual_sources (virtual_kind v)))"

definition validate_virtuals ::
  "deopt_engine \<Rightarrow> deopt_recipe \<Rightarrow> deopt_error + (u32 \<Rightarrow> nat option)" where
  "validate_virtuals E r =
     and_then (try_fold index_virtual Map.empty (List.enumerate 0 (deopt_virtuals r))) (\<lambda>index.
     and_then (try_all (validate_virtual E index) (deopt_virtuals r)) (\<lambda>_. Inr index))"

definition sorted_registers :: "frame_recipe \<Rightarrow> register_recipe list" where
  "sorted_registers f = sort_key recipe_register (frame_registers f)"

definition validate_register ::
  "deopt_engine \<Rightarrow> (u32 \<Rightarrow> nat option) \<Rightarrow> register_recipe \<Rightarrow> deopt_error + unit" where
  "validate_register E index r =
     and_then (case recipe_source r of
                 SrcSpill slot ty \<Rightarrow> ensure (ty = recipe_type r) (DeoptTypeMismatch (recipe_register r))
               | _ \<Rightarrow> Inr ()) (\<lambda>_.
     case recipe_source r of
       SrcVirtual i \<Rightarrow>
         and_then (ensure (index i \<noteq> None) (MissingVirtual i)) (\<lambda>_.
         ensure (recipe_type r = WxHandle) (DeoptTypeMismatch (recipe_register r)))
     | _ \<Rightarrow>
         and_then (resolve_external E (recipe_source r)) (\<lambda>atom.
         ensure (atom_type atom = Some (recipe_type r) \<or> atom = AtomUndefinedDead)
           (DeoptTypeMismatch (recipe_register r))))"

definition validate_frame ::
  "deopt_engine \<Rightarrow> (u32 \<Rightarrow> nat option) \<Rightarrow> frame_recipe \<Rightarrow> deopt_error + unit" where
  "validate_frame E index f =
     (let registers = sorted_registers f in
      if list_ex (\<lambda>(i, r). unat (recipe_register r) \<noteq> i) (List.enumerate 0 registers)
      then Inl (NonContiguousRegisters (frame_function f))
      else if set (map recipe_register (filter (\<lambda>r. recipe_source r = SrcUndefinedDead) registers))
                \<noteq> dead_registers f
      then Inl (NonContiguousRegisters (frame_function f))
      else try_all (validate_register E index) registers)"

definition recheck_register :: "deopt_engine \<Rightarrow> register_recipe \<Rightarrow> deopt_error + unit" where
  "recheck_register E r =
     (case recipe_source r of
        SrcVirtual i \<Rightarrow> Inr ()
      | _ \<Rightarrow>
          and_then (resolve_external E (recipe_source r)) (\<lambda>atom.
          ensure (atom_type atom = Some (recipe_type r) \<or> atom = AtomUndefinedDead)
            (DeoptTypeMismatch (recipe_register r))))"

definition add_atom_root ::
  "gc_state \<Rightarrow> root_inventory \<times> (u32 \<times> u16) set \<Rightarrow> runtime_atom \<Rightarrow>
   deopt_error + root_inventory \<times> (u32 \<times> u16) set" where
  "add_atom_root st = (\<lambda>(roots, seen) atom.
     case atom of
       AtomHandle h \<Rightarrow>
         and_then (map_err InvalidDeoptHandle (object_at st h)) (\<lambda>obj.
         let k = (local_slot h, local_generation h) in
         Inr (if k \<in> seen then (roots, seen)
              else (root_insert roots DeoptMaterializationRoot h, insert k seen)))
     | _ \<Rightarrow> Inr (roots, seen))"

definition external_roots :: "deopt_engine \<Rightarrow> gc_state \<Rightarrow> deopt_recipe \<Rightarrow> deopt_error + root_inventory" where
  "external_roots E st r =
     and_then (try_fold (add_atom_root st) ([], {}) (map snd (engine_values E) @ map snd (engine_spills E)))
       (\<lambda>(roots, seen).
     and_then (try_all (\<lambda>f. try_all (recheck_register E) (frame_registers f)) (deopt_frames r)) (\<lambda>_.
     Inr roots))"

definition batch_reference_of ::
  "deopt_engine \<Rightarrow> (u32 \<Rightarrow> nat option) \<Rightarrow> register_source \<Rightarrow> deopt_error + batch_reference option" where
  "batch_reference_of E index src =
     (case src of
        SrcVirtual i \<Rightarrow> map_ok (\<lambda>p. Some (BatchObjectAt p)) (ok_or (index i) (MissingVirtual i))
      | _ \<Rightarrow> map_ok (\<lambda>atom. case atom of AtomHandle h \<Rightarrow> Some (BatchExternal h) | _ \<Rightarrow> None)
               (resolve_external E src))"

definition batch_of ::
  "deopt_engine \<Rightarrow> (u32 \<Rightarrow> nat option) \<Rightarrow> virtual_recipe \<Rightarrow> deopt_error + batch_object" where
  "batch_of E index v =
     map_ok (List.map_filter (\<lambda>x. x)) (try_map (batch_reference_of E index) (virtual_sources (virtual_kind v)))"

section \<open>Reconstruction\<close>

definition materialize ::
  "deopt_engine \<Rightarrow> (u32 \<Rightarrow> stable_handle option) \<Rightarrow> virtual_recipe \<times> stable_handle \<Rightarrow>
   deopt_error + materialized_virtual" where
  "materialize E handles = (\<lambda>(v, h).
     map_ok (\<lambda>kind. \<lparr>materialized_id = virtual_id v, materialized_handle = h, materialized_kind = kind\<rparr>)
       (case virtual_kind v of
          VirtualObject shape dep layout members \<Rightarrow>
            map_ok (MaterializedObject shape dep layout)
              (try_map (\<lambda>(name, src). map_ok (\<lambda>atom. (name, atom)) (resolve_source E handles src)) members)
        | VirtualList items \<Rightarrow>
            map_ok (\<lambda>atoms. MaterializedList (list_strategy_of atoms) atoms)
              (try_map (resolve_source E handles) items)
        | VirtualTuple items \<Rightarrow>
            map_ok MaterializedTuple (try_map (resolve_source E handles) items)))"

definition rebuild_frame ::
  "deopt_engine \<Rightarrow> (u32 \<Rightarrow> stable_handle option) \<Rightarrow> frame_recipe \<Rightarrow> deopt_error + reconstructed_frame" where
  "rebuild_frame E handles f =
     map_ok (\<lambda>registers. \<lparr>rebuilt_function = frame_function f, rebuilt_resume_pc = frame_resume_pc f,
                          rebuilt_registers = registers, rebuilt_exception = frame_exception f\<rparr>)
       (try_map (\<lambda>r. resolve_source E handles (recipe_source r)) (sorted_registers f))"

definition check_deopt_recipe :: "deopt_engine \<Rightarrow> deopt_recipe \<Rightarrow> deopt_error + unit" where
  "check_deopt_recipe E r =
     (if list_ex (\<lambda>d. \<not> is_current d) (deopt_dependencies r) then Inl StaleDeoptDependency
      else if list_ex (\<lambda>k. \<not> list_ex (\<lambda>d. dep_kind d = k) (deopt_dependencies r))
                [DepExecutable, DepSchema, DepGcAbi, DepHelperAbi] \<or>
              \<not> list_ex (\<lambda>d. dep_kind d = DepExecutable \<and>
                    dep_identity d = executable_id (deopt_executable r) \<and>
                    expected_epoch d = executable_epoch (deopt_executable r)) (deopt_dependencies r)
      then Inl IncompleteDependency
      else
        case forced_helper_failure E of
          Some helper \<Rightarrow> Inl (HelperFailure helper)
        | None \<Rightarrow> Inr ())"

definition prepare_reconstruction ::
  "deopt_engine \<Rightarrow> gc_state \<Rightarrow> deopt_recipe \<Rightarrow> deopt_error + root_inventory \<times> batch_object list" where
  "prepare_reconstruction E st r =
     and_then (check_deopt_recipe E r) (\<lambda>_.
     and_then (validate_virtuals E r) (\<lambda>index.
     and_then (try_all (validate_frame E index) (deopt_frames r)) (\<lambda>_.
     and_then (external_roots E st r) (\<lambda>roots.
     and_then (try_map (batch_of E index) (deopt_virtuals r)) (\<lambda>batches.
     Inr (roots, batches))))))"

definition handle_map :: "deopt_recipe \<Rightarrow> stable_handle list \<Rightarrow> u32 \<Rightarrow> stable_handle option" where
  "handle_map r hs = map_of (rev (zip (map virtual_id (deopt_virtuals r)) hs))"

definition finish_reconstruction ::
  "deopt_engine \<Rightarrow> deopt_recipe \<Rightarrow> stable_handle list \<Rightarrow> deopt_error + reconstructed_state" where
  "finish_reconstruction E r hs =
     and_then (try_map (materialize E (handle_map r hs)) (zip (deopt_virtuals r) hs)) (\<lambda>virtuals.
     and_then (try_map (rebuild_frame E (handle_map r hs)) (deopt_frames r)) (\<lambda>frames.
     Inr \<lparr>state_resume_pc = deopt_resume_pc r, state_mode = deopt_mode r, state_frames = frames,
          state_virtuals = virtuals\<rparr>))"

definition reconstruct ::
  "deopt_engine \<Rightarrow> gc_config \<Rightarrow> nat \<Rightarrow> deopt_recipe \<Rightarrow> gc_state \<Rightarrow>
   gc_state \<times> (deopt_error + reconstructed_state)" where
  "reconstruct E cfg elapsed r st =
     (case prepare_reconstruction E st r of
        Inl e \<Rightarrow> (st, Inl e)
      | Inr (roots, batches) \<Rightarrow>
          (case allocate_graph_with_roots cfg batches roots elapsed st of
             (st', Inl e) \<Rightarrow> (st', Inl (InvalidDeoptHandle e))
           | (st', Inr hs) \<Rightarrow> (st', finish_reconstruction E r hs)))"

end
