(* ===== verification/Wxir_Deopt_Laws.thy ===== *)
theory Wxir_Deopt_Laws
  imports Wxir_Deopt
begin

text \<open>
  What deoptimization promises: the frames it returns hold, register by register, the values their
  recipes name; the objects it builds hold the references of theirs; everything the native frame
  held is still alive, and a failure leaves nothing allocated.
\<close>

section \<open>What a recipe asks for\<close>

text \<open>The value of a source, given the handles of the virtual objects.\<close>

definition source_gives ::
  "deopt_engine \<Rightarrow> (u32 \<Rightarrow> stable_handle option) \<Rightarrow> register_source \<Rightarrow> runtime_atom \<Rightarrow> bool" where
  "source_gives E handles src a \<longleftrightarrow>
     (case src of
        SrcSsa v \<Rightarrow> map_of (engine_values E) v = Some a
      | SrcSpill slot ty \<Rightarrow> map_of (engine_spills E) slot = Some a
      | SrcConstant (WxInteger v) \<Rightarrow> a = AtomInteger v
      | SrcConstant (WxFloatBits b) \<Rightarrow> a = AtomFloatBits b
      | SrcConstant (WxBoolean b) \<Rightarrow> a = AtomBoolean b
      | SrcConstant _ \<Rightarrow> False
      | SrcUndefinedDead \<Rightarrow> a = AtomUndefinedDead
      | SrcVirtual i \<Rightarrow> (\<exists>h. handles i = Some h \<and> a = AtomHandle h))"

fun kind_built ::
  "deopt_engine \<Rightarrow> (u32 \<Rightarrow> stable_handle option) \<Rightarrow> virtual_kind \<Rightarrow> materialized_kind \<Rightarrow> bool" where
  "kind_built E handles (VirtualObject s d l ms) (MaterializedObject s' d' l' ms') \<longleftrightarrow>
     s' = s \<and> d' = d \<and> l' = l \<and>
     list_all2 (\<lambda>m m'. fst m' = fst m \<and> source_gives E handles (snd m) (snd m')) ms ms'"
| "kind_built E handles (VirtualList items) (MaterializedList strategy atoms) \<longleftrightarrow>
     strategy = list_strategy_of atoms \<and> list_all2 (source_gives E handles) items atoms"
| "kind_built E handles (VirtualTuple items) (MaterializedTuple atoms) \<longleftrightarrow>
     list_all2 (source_gives E handles) items atoms"
| "kind_built E handles _ _ \<longleftrightarrow> False"

fun built_atoms :: "materialized_kind \<Rightarrow> runtime_atom list" where
  "built_atoms (MaterializedObject s d l ms) = map snd ms"
| "built_atoms (MaterializedList strategy atoms) = atoms"
| "built_atoms (MaterializedTuple atoms) = atoms"

fun atom_handle :: "runtime_atom \<Rightarrow> stable_handle option" where
  "atom_handle (AtomHandle h) = Some h"
| "atom_handle _ = None"

definition atom_handles :: "runtime_atom list \<Rightarrow> stable_handle list" where
  "atom_handles as = List.map_filter atom_handle as"

definition virtual_built ::
  "deopt_engine \<Rightarrow> (u32 \<Rightarrow> stable_handle option) \<Rightarrow> gc_state \<Rightarrow>
   virtual_recipe \<Rightarrow> materialized_virtual \<Rightarrow> bool" where
  "virtual_built E handles st v m \<longleftrightarrow>
     materialized_id m = virtual_id v \<and> handles (virtual_id v) = Some (materialized_handle m) \<and>
     kind_built E handles (virtual_kind v) (materialized_kind m) \<and>
     gc_map st (materialized_handle m) =
       Some (with_references (atom_handles (built_atoms (materialized_kind m))))"

definition frame_rebuilt ::
  "deopt_engine \<Rightarrow> (u32 \<Rightarrow> stable_handle option) \<Rightarrow> frame_recipe \<Rightarrow> reconstructed_frame \<Rightarrow> bool" where
  "frame_rebuilt E handles f g \<longleftrightarrow>
     rebuilt_function g = frame_function f \<and> rebuilt_resume_pc g = frame_resume_pc f \<and>
     rebuilt_exception g = frame_exception f \<and>
     length (rebuilt_registers g) = length (frame_registers f) \<and>
     (\<forall>q \<in> set (frame_registers f).
        unat (recipe_register q) < length (rebuilt_registers g) \<and>
        source_gives E handles (recipe_source q) (rebuilt_registers g ! unat (recipe_register q)))"

definition held_atoms :: "deopt_engine \<Rightarrow> runtime_atom list" where
  "held_atoms E = map snd (engine_values E) @ map snd (engine_spills E)"

text \<open>A reconstructed state is faithful when every frame and object is as its recipe asks, the
  objects are distinct and new, and every handle in a register or an object is alive.\<close>

definition faithful_state ::
  "deopt_engine \<Rightarrow> deopt_recipe \<Rightarrow> gc_state \<Rightarrow> reconstructed_state \<Rightarrow> bool" where
  "faithful_state E r st s \<longleftrightarrow>
     state_resume_pc s = deopt_resume_pc r \<and> state_mode s = deopt_mode r \<and>
     (\<exists>handles.
        list_all2 (virtual_built E handles st) (deopt_virtuals r) (state_virtuals s) \<and>
        list_all2 (frame_rebuilt E handles) (deopt_frames r) (state_frames s)) \<and>
     distinct (map materialized_handle (state_virtuals s)) \<and>
     set (map materialized_handle (state_virtuals s)) \<inter> set (atom_handles (held_atoms E)) = {} \<and>
     (\<forall>g \<in> set (state_frames s). set (atom_handles (rebuilt_registers g)) \<subseteq> dom (gc_map st)) \<and>
     (\<forall>m \<in> set (state_virtuals s).
        set (atom_handles (built_atoms (materialized_kind m))) \<subseteq> dom (gc_map st))"

section \<open>Sources\<close>

lemma atom_handle_iff: "atom_handle a = Some h \<longleftrightarrow> a = AtomHandle h"
  by (cases a) auto

lemma set_atom_handles: "set (atom_handles as) = {h. AtomHandle h \<in> set as}"
  by (force simp: atom_handles_def List.map_filter_def atom_handle_iff)

lemma resolve_source_iff: "resolve_source E handles src = Inr a \<longleftrightarrow> source_gives E handles src a"
proof (cases src)
  case (SrcConstant c)
  then show ?thesis by (cases c) (auto simp: source_gives_def)
qed (auto simp: source_gives_def map_ok_Inr_iff)

text \<open>A handle a source gives is one of the frame's values or belongs to a virtual object.\<close>

lemma source_handle:
  "source_gives E handles src (AtomHandle h) \<Longrightarrow>
   h \<in> set (atom_handles (held_atoms E)) \<or> (\<exists>i. handles i = Some h)"
  by (auto simp: source_gives_def set_atom_handles held_atoms_def image_iff
      split: register_source.splits wx_constant.splits dest!: map_of_SomeD) force+

text \<open>A source is usable when it names an indexed virtual object or a value that resolves.\<close>

definition source_usable :: "deopt_engine \<Rightarrow> (u32 \<Rightarrow> nat option) \<Rightarrow> register_source \<Rightarrow> bool" where
  "source_usable E index src \<longleftrightarrow>
     (case src of SrcVirtual i \<Rightarrow> index i \<noteq> None | _ \<Rightarrow> \<exists>a. resolve_external E src = Inr a)"

lemma validate_source_usable: "validate_source E index src = Inr () \<Longrightarrow> source_usable E index src"
  by (cases src) (auto simp: validate_source_def source_usable_def and_then_Inr_iff)

lemma validate_register_usable:
  "validate_register E index r = Inr () \<Longrightarrow> source_usable E index (recipe_source r)"
  by (cases "recipe_source r") (auto simp: validate_register_def source_usable_def and_then_Inr_iff)

lemma external_gives:
  "resolve_external E src = Inr a \<Longrightarrow> source_gives E handles src a"
  using resolve_source_iff [of E handles src a] by (cases src) auto

lemma usable_gives:
  assumes "source_usable E index src" "\<forall>i. index i \<noteq> None \<longrightarrow> handles i \<noteq> None"
  shows "\<exists>a. source_gives E handles src a"
proof (cases "\<exists>i. src = SrcVirtual i")
  case True
  then show ?thesis using assms by (auto simp: source_usable_def source_gives_def)
next
  case False
  then have "\<exists>a. resolve_external E src = Inr a"
    using assms(1) by (cases src) (auto simp: source_usable_def)
  then show ?thesis by (auto dest: external_gives)
qed

section \<open>The index of the virtual objects\<close>

lemma index_virtual_iff:
  "index_virtual m (k, v) = Inr m' \<longleftrightarrow> m (virtual_id v) = None \<and> m' = m(virtual_id v \<mapsto> k)"
  by (auto simp: index_virtual_def)

lemma index_fold:
  "try_fold index_virtual m (List.enumerate k vs) = Inr index \<Longrightarrow>
   distinct (map virtual_id vs) \<and> (\<forall>v \<in> set vs. m (virtual_id v) = None) \<and>
   index = m ++ map_of (zip (map virtual_id vs) [k ..< k + length vs])"
proof (induction vs arbitrary: m k)
  case (Cons v vs)
  then have new: "m (virtual_id v) = None" and
    rest: "try_fold index_virtual (m(virtual_id v \<mapsto> k)) (List.enumerate (Suc k) vs) = Inr index"
    by (auto simp: index_virtual_iff and_then_Inr_iff)
  note IH = Cons.IH [OF rest]
  have fresh: "virtual_id v \<notin> virtual_id ` set vs"
    using IH by auto
  have keys: "[k ..< k + length (v # vs)] = k # [Suc k ..< Suc k + length vs]"
    by (simp add: upt_conv_Cons del: upt_Suc)
  have new_key: "virtual_id v \<notin> dom (map_of (zip (map virtual_id vs) [Suc k ..< Suc k + length vs]))"
    using fresh by (simp add: domIff map_of_zip_is_None del: upt_Suc)
  have index: "index = (m ++ map_of (zip (map virtual_id vs) [Suc k ..< Suc k + length vs]))(virtual_id v \<mapsto> k)"
    using IH map_add_upd_left [OF new_key] by metis
  show ?case
  proof (intro conjI)
    show "distinct (map virtual_id (v # vs))" "\<forall>w \<in> set (v # vs). m (virtual_id w) = None"
      using IH new fresh by (auto split: if_splits)
    show "index = m ++ map_of (zip (map virtual_id (v # vs)) [k ..< k + length (v # vs)])"
      unfolding keys index by simp
  qed
qed simp

definition indexes :: "(u32 \<Rightarrow> nat option) \<Rightarrow> deopt_recipe \<Rightarrow> bool" where
  "indexes index r \<longleftrightarrow> distinct (map virtual_id (deopt_virtuals r)) \<and>
     (\<forall>i p. index i = Some p \<longleftrightarrow>
        p < length (deopt_virtuals r) \<and> virtual_id (deopt_virtuals r ! p) = i)"

lemma index_indexes:
  assumes "try_fold index_virtual Map.empty (List.enumerate 0 (deopt_virtuals r)) = Inr index"
  shows "indexes index r"
proof -
  let ?ids = "map virtual_id (deopt_virtuals r)"
  have d: "distinct ?ids" and i: "index = map_of (zip ?ids [0 ..< length ?ids])"
    using index_fold [OF assms] by auto
  have "index i = Some p \<longleftrightarrow> p < length ?ids \<and> ?ids ! p = i" for i p
    using d by (auto simp: i map_of_zip_nth set_zip dest!: map_of_SomeD
        intro: map_of_zip_nth [of ?ids "[0 ..< length ?ids]", simplified])
  then show ?thesis using d by (auto simp: indexes_def)
qed

lemma handle_map_nth:
  assumes "indexes index r" "length hs = length (deopt_virtuals r)" "p < length hs"
  shows "handle_map r hs (virtual_id (deopt_virtuals r ! p)) = Some (hs ! p)"
proof -
  have "distinct (map fst (zip (map virtual_id (deopt_virtuals r)) hs))"
    using assms by (simp add: indexes_def)
  then have "handle_map r hs = map_of (zip (map virtual_id (deopt_virtuals r)) hs)"
    unfolding handle_map_def by (subst map_of_inject_set) (simp_all add: rev_map [symmetric])
  then show ?thesis
    using assms map_of_zip_nth [of "map virtual_id (deopt_virtuals r)" hs p] by (auto simp: indexes_def)
qed

lemma handle_map_index:
  assumes "indexes index r" "length hs = length (deopt_virtuals r)" "index i = Some p"
  shows "handle_map r hs i = Some (hs ! p)"
  using assms handle_map_nth [OF assms(1,2), of p] by (auto simp: indexes_def)

lemma handle_map_set: "handle_map r hs i = Some h \<Longrightarrow> h \<in> set hs"
  by (auto simp: handle_map_def dest!: map_of_SomeD set_zip_rightD)

section \<open>Roots\<close>

lemma live_handle_slot:
  "h \<in> dom (gc_map st) \<Longrightarrow> k \<in> dom (gc_map st) \<Longrightarrow> local_slot h = local_slot k \<Longrightarrow>
   local_generation h = local_generation k \<Longrightarrow> h = k"
  by (auto simp: gc_map_table bind_eq_Some_conv table_map_iff)

definition roots_cover ::
  "gc_state \<Rightarrow> stable_handle set \<Rightarrow> root_inventory \<times> (u32 \<times> u16) set \<Rightarrow> bool" where
  "roots_cover st hs acc \<longleftrightarrow>
     hs \<subseteq> dom (gc_map st) \<and> hs \<subseteq> set (root_handles (fst acc)) \<and>
     snd acc = (\<lambda>h. (local_slot h, local_generation h)) ` hs"

lemma add_atom_root_cover:
  assumes "add_atom_root st acc a = Inr acc'" "roots_cover st hs acc"
  shows "roots_cover st (hs \<union> set (atom_handles [a])) acc'"
proof (cases a)
  case (AtomHandle h)
  then have live: "h \<in> dom (gc_map st)"
    and acc': "acc' = (if (local_slot h, local_generation h) \<in> snd acc then acc
           else (root_insert (fst acc) DeoptMaterializationRoot h,
                 insert (local_slot h, local_generation h) (snd acc)))"
    using assms(1) by (auto simp: add_atom_root_def and_then_Inr_iff object_at_iff Let_def split: prod.splits)
  have "h \<in> hs" if "(local_slot h, local_generation h) \<in> snd acc"
    using that assms(2) live live_handle_slot [of h st] by (auto simp: roots_cover_def image_iff) (metis subsetD)
  then show ?thesis
    using assms(2) live acc' AtomHandle
    by (auto simp: roots_cover_def set_atom_handles root_insert_def root_handles_def)
qed (use assms in \<open>auto simp: add_atom_root_def set_atom_handles split: prod.splits\<close>)

lemma add_roots_cover:
  "try_fold (add_atom_root st) acc as = Inr acc' \<Longrightarrow> roots_cover st hs acc \<Longrightarrow>
   roots_cover st (hs \<union> set (atom_handles as)) acc'"
proof (induction as arbitrary: acc hs)
  case (Cons a as)
  then obtain mid where "add_atom_root st acc a = Inr mid" "try_fold (add_atom_root st) mid as = Inr acc'"
    by (auto simp: and_then_Inr_iff)
  then have "roots_cover st (hs \<union> set (atom_handles [a]) \<union> set (atom_handles as)) acc'"
    using Cons.IH [OF _ add_atom_root_cover] Cons.prems(2) by blast
  then show ?case by (simp add: set_atom_handles Un_assoc Collect_disj_eq)
qed (simp add: set_atom_handles)

lemma external_roots_cover:
  assumes "external_roots E st r = Inr roots" "h \<in> set (atom_handles (held_atoms E))"
  shows "h \<in> dom (gc_map st) \<and> h \<in> set (root_handles roots)"
proof -
  obtain seen where "try_fold (add_atom_root st) ([], {}) (held_atoms E) = Inr (roots, seen)"
    using assms(1) by (auto simp: external_roots_def held_atoms_def and_then_Inr_iff)
  then have "roots_cover st (set (atom_handles (held_atoms E))) (roots, seen)"
    using add_roots_cover [of st "([], {})" "held_atoms E" _ "{}"] by (simp add: roots_cover_def)
  then show ?thesis using assms(2) by (auto simp: roots_cover_def)
qed

lemma after_forced_root:
  "h \<in> set (root_handles roots) \<Longrightarrow> after_forced cfg roots st h = gc_map st h"
  by (simp add: after_forced_def restrict_map_def survives_minor_def gc_reach_def minor_seed_def reach_start)

section \<open>Objects and frames\<close>

lemma batch_reference_handle:
  assumes "batch_reference_of E index src = Inr b" "source_gives E handles src a"
    and "\<forall>i p. index i = Some p \<longrightarrow> handles i = Some (hs ! p)"
  shows "map_option (batch_target hs) b = atom_handle a"
proof (cases "\<exists>i. src = SrcVirtual i")
  case True
  then show ?thesis using assms
    by (auto simp: batch_reference_of_def source_gives_def map_ok_Inr_iff batch_target_def)
next
  case False
  then obtain c where c: "resolve_external E src = Inr c"
    "b = (case c of AtomHandle h \<Rightarrow> Some (BatchExternal h) | _ \<Rightarrow> None)"
    using assms(1) by (cases src) (auto simp: batch_reference_of_def map_ok_Inr_iff)
  then have "resolve_source E handles src = Inr c" using False by (cases src) auto
  then have "a = c" using assms(2) by (simp flip: resolve_source_iff)
  then show ?thesis using c by (cases c) (auto simp: batch_target_def)
qed

lemma batch_handles:
  assumes "list_all2 (\<lambda>src b. batch_reference_of E index src = Inr b) srcs bs"
    and "list_all2 (source_gives E handles) srcs as"
    and "\<forall>i p. index i = Some p \<longrightarrow> handles i = Some (hs ! p)"
  shows "map (batch_target hs) (List.map_filter (\<lambda>x. x) bs) = atom_handles as"
  using assms(1,2)
proof (induction srcs arbitrary: bs as)
  case (Cons src srcs)
  then obtain b bs' a as' where cons: "bs = b # bs'" "as = a # as'"
    "batch_reference_of E index src = Inr b" "source_gives E handles src a"
    "list_all2 (\<lambda>src b. batch_reference_of E index src = Inr b) srcs bs'"
    "list_all2 (source_gives E handles) srcs as'"
    by (auto simp: list_all2_Cons1)
  have "map_option (batch_target hs) b = atom_handle a"
    by (rule batch_reference_handle [OF cons(3,4) assms(3)])
  then show ?case
    using Cons.IH [OF cons(5,6)] cons(1,2)
    by (cases b; cases "atom_handle a") (simp_all add: atom_handles_def List.map_filter_simps)
qed (simp add: atom_handles_def List.map_filter_simps)

lemma kind_built_sources:
  "kind_built E handles k m \<Longrightarrow> list_all2 (source_gives E handles) (virtual_sources k) (built_atoms m)"
  by (cases "(E, handles, k, m)" rule: kind_built.cases)
     (auto simp: list_all2_conv_all_nth)

lemma materialize_built:
  assumes "materialize E handles (v, h) = Inr m"
  shows "materialized_id m = virtual_id v \<and> materialized_handle m = h \<and>
    kind_built E handles (virtual_kind v) (materialized_kind m)"
proof (cases "virtual_kind v")
  case (VirtualObject s d l ms)
  then show ?thesis using assms
    by (auto simp: materialize_def result_iffs resolve_source_iff elim!: list_all2_mono)
qed (use assms in \<open>auto simp: materialize_def result_iffs resolve_source_iff\<close>)

lemma materialize_total:
  assumes "\<forall>src \<in> set (virtual_sources (virtual_kind v)). \<exists>a. source_gives E handles src a"
  shows "\<exists>m. materialize E handles (v, h) = Inr m"
proof (cases "materialize E handles (v, h)")
  case (Inl e)
  then have "\<exists>src \<in> set (virtual_sources (virtual_kind v)). resolve_source E handles src = Inl e"
    by (force simp: materialize_def split: virtual_kind.splits prod.splits dest!: try_map_Inl)
  then show ?thesis using assms by (auto simp flip: resolve_source_iff)
qed simp

lemma set_sorted_registers [simp]: "set (sorted_registers f) = set (frame_registers f)"
  by (simp add: sorted_registers_def)

lemma validated_frame:
  assumes "validate_frame E index f = Inr ()"
  shows "(\<forall>i < length (frame_registers f). unat (recipe_register (sorted_registers f ! i)) = i) \<and>
    (\<forall>q \<in> set (frame_registers f). source_usable E index (recipe_source q))"
proof -
  have at: "\<not> list_ex (\<lambda>(i, q). unat (recipe_register q) \<noteq> i) (List.enumerate 0 (sorted_registers f))"
    and reg: "\<forall>q \<in> set (frame_registers f). validate_register E index q = Inr ()"
    using assms by (auto simp: validate_frame_def Let_def try_all_Inr_iff split: if_splits)
  have "unat (recipe_register (sorted_registers f ! i)) = i" if "i < length (frame_registers f)" for i
    using at that unfolding list_ex_iff bex_enumerate by (simp add: sorted_registers_def)
  then show ?thesis using reg validate_register_usable by blast
qed

lemma rebuild_frame_rebuilt:
  assumes "validate_frame E index f = Inr ()" "rebuild_frame E handles f = Inr g"
  shows "frame_rebuilt E handles f g"
proof -
  have at: "\<forall>i < length (frame_registers f). unat (recipe_register (sorted_registers f ! i)) = i"
    using validated_frame [OF assms(1)] by blast
  obtain as where g: "rebuilt_function g = frame_function f" "rebuilt_resume_pc g = frame_resume_pc f"
    "rebuilt_exception g = frame_exception f" "rebuilt_registers g = as"
    and as: "list_all2 (\<lambda>q a. source_gives E handles (recipe_source q) a) (sorted_registers f) as"
    using assms(2) by (auto simp: rebuild_frame_def result_iffs resolve_source_iff)
  have len: "length as = length (frame_registers f)"
    using list_all2_lengthD [OF as] by (simp add: sorted_registers_def)
  have "unat (recipe_register q) < length as \<and>
      source_gives E handles (recipe_source q) (as ! unat (recipe_register q))"
    if "q \<in> set (frame_registers f)" for q
  proof -
    have "q \<in> set (sorted_registers f)" using that by simp
    then obtain i where "i < length (sorted_registers f)" "q = sorted_registers f ! i"
      unfolding in_set_conv_nth by blast
    then have "i < length (frame_registers f)" "q = sorted_registers f ! i"
      by (simp_all add: sorted_registers_def)
    then show ?thesis using at as len by (auto simp: list_all2_conv_all_nth)
  qed
  then show ?thesis using g len by (simp add: frame_rebuilt_def)
qed

lemma rebuild_frame_total:
  assumes "\<forall>q \<in> set (frame_registers f). \<exists>a. source_gives E handles (recipe_source q) a"
  shows "\<exists>g. rebuild_frame E handles f = Inr g"
proof (cases "rebuild_frame E handles f")
  case (Inl e)
  then have "\<exists>q \<in> set (frame_registers f). resolve_source E handles (recipe_source q) = Inl e"
    by (auto simp: rebuild_frame_def dest!: try_map_Inl)
  then show ?thesis using assms by (auto simp flip: resolve_source_iff)
qed simp

section \<open>The reconstruction\<close>

definition prepared ::
  "deopt_engine \<Rightarrow> gc_state \<Rightarrow> deopt_recipe \<Rightarrow> (u32 \<Rightarrow> nat option) \<Rightarrow> root_inventory \<Rightarrow> batch_object list \<Rightarrow> bool" where
  "prepared E st r index roots batches \<longleftrightarrow>
     indexes index r \<and>
     (\<forall>v \<in> set (deopt_virtuals r). \<forall>src \<in> set (virtual_sources (virtual_kind v)). source_usable E index src) \<and>
     (\<forall>f \<in> set (deopt_frames r). validate_frame E index f = Inr ()) \<and>
     (\<forall>h \<in> set (atom_handles (held_atoms E)). h \<in> dom (gc_map st) \<and> h \<in> set (root_handles roots)) \<and>
     list_all2 (\<lambda>v b. batch_of E index v = Inr b) (deopt_virtuals r) batches"

lemma prepare_prepared:
  assumes "prepare_reconstruction E st r = Inr (roots, batches)"
  shows "\<exists>index. prepared E st r index roots batches"
proof -
  obtain index where i: "validate_virtuals E r = Inr index"
    and f: "\<forall>f \<in> set (deopt_frames r). validate_frame E index f = Inr ()"
    and roots: "external_roots E st r = Inr roots"
    and b: "list_all2 (\<lambda>v b. batch_of E index v = Inr b) (deopt_virtuals r) batches"
    using assms by (auto simp: prepare_reconstruction_def result_iffs)
  then have "indexes index r" and v: "\<forall>v \<in> set (deopt_virtuals r). validate_virtual E index v = Inr ()"
    by (auto simp: validate_virtuals_def result_iffs index_indexes)
  then have "prepared E st r index roots batches"
    using v f b external_roots_cover [OF roots]
    by (auto simp: prepared_def validate_virtual_def result_iffs validate_source_usable)
  then show ?thesis by blast
qed

lemma finish_total:
  assumes "prepared E st r index roots batches" "length hs = length (deopt_virtuals r)"
  shows "\<exists>s. finish_reconstruction E r hs = Inr s"
proof -
  have h: "\<forall>i. index i \<noteq> None \<longrightarrow> handle_map r hs i \<noteq> None"
    using handle_map_index [of index r hs] assms by (auto simp: prepared_def)
  have gives: "\<exists>a. source_gives E (handle_map r hs) src a" if "source_usable E index src" for src
    by (rule usable_gives [OF that h])
  have "\<exists>m. materialize E (handle_map r hs) (v, k) = Inr m" if "v \<in> set (deopt_virtuals r)" for v k
    using that assms(1) gives by (intro materialize_total) (auto simp: prepared_def)
  then have "\<forall>vk \<in> set (zip (deopt_virtuals r) hs). \<exists>m. materialize E (handle_map r hs) vk = Inr m"
    by (auto dest: set_zip_leftD)
  then obtain ms where ms: "try_map (materialize E (handle_map r hs)) (zip (deopt_virtuals r) hs) = Inr ms"
    using try_map_total by blast
  have "\<exists>g. rebuild_frame E (handle_map r hs) f = Inr g" if "f \<in> set (deopt_frames r)" for f
    using that assms(1) gives validated_frame [of E index f]
    by (intro rebuild_frame_total) (simp add: prepared_def)
  then have "\<exists>gs. try_map (rebuild_frame E (handle_map r hs)) (deopt_frames r) = Inr gs"
    by (intro try_map_total) simp
  then obtain gs where "try_map (rebuild_frame E (handle_map r hs)) (deopt_frames r) = Inr gs" ..
  then show ?thesis using ms by (simp add: finish_reconstruction_def)
qed

lemma batch_of_object:
  assumes "batch_of E index v = Inr b" "kind_built E handles (virtual_kind v) k"
    and "\<forall>i p. index i = Some p \<longrightarrow> handles i = Some (hs ! p)"
  shows "batch_object_of hs b = with_references (atom_handles (built_atoms k))"
  using assms(1) batch_handles [OF _ kind_built_sources [OF assms(2)] assms(3)]
  by (auto simp: batch_of_def result_iffs batch_object_of_def)

lemma rebuilt_sources:
  assumes "rebuild_frame E handles f = Inr g" "a \<in> set (rebuilt_registers g)"
  shows "\<exists>src. source_gives E handles src a"
proof -
  have "list_all2 (\<lambda>q b. source_gives E handles (recipe_source q) b) (sorted_registers f) (rebuilt_registers g)"
    using assms(1) by (auto simp: rebuild_frame_def result_iffs resolve_source_iff)
  then show ?thesis using assms(2) by (metis in_set_conv_nth list_all2_conv_all_nth)
qed

lemma built_sources:
  assumes "kind_built E handles k m" "a \<in> set (built_atoms m)"
  shows "\<exists>src. source_gives E handles src a"
  using kind_built_sources [OF assms(1)] assms(2) by (auto simp: list_all2_conv_all_nth in_set_conv_nth)

lemma sources_live:
  assumes "\<forall>a \<in> set as. \<exists>src. source_gives E (handle_map r hs) src a"
    and "set (atom_handles (held_atoms E)) \<union> set hs \<subseteq> D"
  shows "set (atom_handles as) \<subseteq> D"
proof
  fix h assume "h \<in> set (atom_handles as)"
  then obtain src where "source_gives E (handle_map r hs) src (AtomHandle h)"
    using assms(1) by (auto simp: set_atom_handles)
  then have "h \<in> set (atom_handles (held_atoms E)) \<or> h \<in> set hs"
    using source_handle handle_map_set by blast
  then show "h \<in> D" using assms(2) by auto
qed

lemma virtuals_built:
  assumes prep: "prepared E st r index roots batches"
    and hs: "length hs = length (deopt_virtuals r)" "distinct hs"
    and heap: "gc_map st' = m ++ map_of (zip hs (map (batch_object_of hs) batches))"
    and fin: "try_map (materialize E (handle_map r hs)) (zip (deopt_virtuals r) hs) = Inr ms"
  shows "list_all2 (virtual_built E (handle_map r hs) st') (deopt_virtuals r) ms \<and>
    map materialized_handle ms = hs"
proof -
  let ?vs = "deopt_virtuals r"
  have idx: "indexes index r" using prep by (simp add: prepared_def)
  have len: "length ms = length ?vs" "length batches = length ?vs"
    using list_all2_lengthD [OF fin [unfolded try_map_Inr_iff]] hs(1) prep
    by (auto simp: prepared_def dest: list_all2_lengthD)
  have H: "\<forall>i p. index i = Some p \<longrightarrow> handle_map r hs i = Some (hs ! p)"
    using handle_map_index [OF idx hs(1)] by blast
  have at: "virtual_built E (handle_map r hs) st' (?vs ! p) (ms ! p) \<and> materialized_handle (ms ! p) = hs ! p"
    if "p < length ?vs" for p
  proof -
    have "materialize E (handle_map r hs) (?vs ! p, hs ! p) = Inr (ms ! p)"
      using list_all2_nthD [OF fin [unfolded try_map_Inr_iff], of p] that hs(1) by simp
    note built = materialize_built [OF this]
    have "batch_of E index (?vs ! p) = Inr (batches ! p)"
      using prep that by (auto simp: prepared_def dest: list_all2_nthD)
    note obj = batch_of_object [OF this conjunct2 [OF conjunct2 [OF built]] H]
    have "map_of (zip hs (map (batch_object_of hs) batches)) (hs ! p) =
        Some (batch_object_of hs (batches ! p))"
      using map_of_zip_nth [of hs "map (batch_object_of hs) batches" p] that hs len by simp
    then show ?thesis
      using built obj heap handle_map_nth [OF idx hs(1), of p] that hs(1)
      by (simp add: virtual_built_def map_add_def)
  qed
  then have "map materialized_handle ms = hs"
    using len hs by (intro nth_equalityI) auto
  then show ?thesis using at len by (simp add: list_all2_conv_all_nth)
qed

lemma finish_faithful:
  assumes prep: "prepared E st r index roots batches"
    and hs: "length hs = length (deopt_virtuals r)" "distinct hs"
      "set hs \<inter> set (atom_handles (held_atoms E)) = {}"
    and heap: "gc_map st' = m ++ map_of (zip hs (map (batch_object_of hs) batches))"
    and held: "set (atom_handles (held_atoms E)) \<subseteq> dom (gc_map st')"
    and fin: "finish_reconstruction E r hs = Inr s"
  shows "faithful_state E r st' s"
proof -
  let ?H = "handle_map r hs"
  obtain ms gs where ms: "try_map (materialize E ?H) (zip (deopt_virtuals r) hs) = Inr ms"
    and gs: "list_all2 (\<lambda>f g. rebuild_frame E ?H f = Inr g) (deopt_frames r) gs"
    and s: "state_resume_pc s = deopt_resume_pc r" "state_mode s = deopt_mode r"
      "state_frames s = gs" "state_virtuals s = ms"
    using fin by (auto simp: finish_reconstruction_def and_then_Inr_iff try_map_Inr_iff)
  note built = virtuals_built [OF prep hs(1,2) heap ms]
  have "length batches = length (deopt_virtuals r)"
    using prep by (auto simp: prepared_def dest: list_all2_lengthD)
  then have live: "set (atom_handles (held_atoms E)) \<union> set hs \<subseteq> dom (gc_map st')"
    using held heap hs(1) by (auto simp: dom_map_of_zip)
  have frames: "list_all2 (frame_rebuilt E ?H) (deopt_frames r) gs"
    using gs prep unfolding prepared_def list_all2_conv_all_nth
    by (metis nth_mem rebuild_frame_rebuilt)
  have "set (atom_handles (rebuilt_registers g)) \<subseteq> dom (gc_map st')" if g: "g \<in> set gs" for g
  proof -
    obtain f where "rebuild_frame E ?H f = Inr g"
      using list_all2_right [OF gs g] by blast
    then show ?thesis by (intro sources_live [OF _ live] ballI) (rule rebuilt_sources)
  qed
  moreover have "set (atom_handles (built_atoms (materialized_kind k))) \<subseteq> dom (gc_map st')"
    if k: "k \<in> set ms" for k
  proof -
    obtain v :: virtual_recipe where "kind_built E ?H (virtual_kind v) (materialized_kind k)"
      using list_all2_right [OF conjunct1 [OF built] k] unfolding virtual_built_def by blast
    then show ?thesis by (intro sources_live [OF _ live] ballI) (rule built_sources)
  qed
  ultimately show ?thesis
    using built frames s hs by (auto simp: faithful_state_def)
qed

text \<open>C40. Deoptimization keeps the collected heap well formed and loses nothing the native frame
  holds: each of its handles names the object it named before, even when the allocation of the
  virtual objects forces a collection. When it fails, nothing was allocated; when it succeeds,
  every register of every rebuilt frame holds the value its recipe names, every virtual object of
  the recipe exists once, under a new handle, with exactly the references its members resolve to,
  and no handle in a register or an object dangles.\<close>

theorem reconstruction_exact:
  assumes "gc_ok st" "reconstruct E cfg elapsed r st = (st', res)"
  shows "gc_ok st' \<and>
    gc_map st' |` set (atom_handles (held_atoms E)) = gc_map st |` set (atom_handles (held_atoms E)) \<and>
    (case res of
       Inl e \<Rightarrow> gc_map st' \<subseteq>\<^sub>m gc_map st
     | Inr s \<Rightarrow> faithful_state E r st' s)"
proof (cases "prepare_reconstruction E st r")
  case (Inl e)
  then show ?thesis using assms by (auto simp: reconstruct_def)
next
  case (Inr rb)
  let ?held = "set (atom_handles (held_atoms E))"
  obtain roots batches where rb: "rb = (roots, batches)" by (cases rb)
  obtain index where prep: "prepared E st r index roots batches"
    using prepare_prepared Inr rb by blast
  obtain st1 q where alloc: "allocate_graph_with_roots cfg batches roots elapsed st = (st1, q)"
    by (cases "allocate_graph_with_roots cfg batches roots elapsed st")
  note laws = allocate_graph_laws [OF assms(1) alloc]
  have st': "st' = st1" using assms(2) Inr rb alloc by (auto simp: reconstruct_def split: sum.splits)
  have root: "h \<in> dom (gc_map st) \<and> after_forced cfg roots st h = gc_map st h" if "h \<in> ?held" for h
    using prep that by (auto simp: prepared_def intro: after_forced_root)
  show ?thesis
  proof (cases q)
    case Inl
    have "gc_map st1 = after_forced cfg roots st" using laws Inl by blast
    moreover have "after_forced cfg roots st \<subseteq>\<^sub>m gc_map st"
      by (auto simp: after_forced_def map_le_def)
    moreover have "\<exists>e. res = Inl e" using assms(2) \<open>prepare_reconstruction E st r = Inr rb\<close> rb alloc Inl
      by (auto simp: reconstruct_def)
    moreover have "after_forced cfg roots st |` ?held = gc_map st |` ?held"
      using root by (auto simp: restrict_map_def)
    ultimately show ?thesis using conjunct1 [OF laws] st' by auto
  next
    case (Inr hs)
    have hs: "length hs = length batches" "distinct hs" "\<forall>h \<in> set hs. after_forced cfg roots st h = None"
      and heap: "gc_map st1 = after_forced cfg roots st ++ map_of (zip hs (map (batch_object_of hs) batches))"
      using laws Inr by blast+
    have len: "length hs = length (deopt_virtuals r)"
      using hs(1) prep by (auto simp: prepared_def dest: list_all2_lengthD)
    have fresh: "set hs \<inter> ?held = {}" using hs(3) root by fastforce
    have same: "gc_map st1 h = gc_map st h" if "h \<in> ?held" for h
    proof -
      have "map_of (zip hs (map (batch_object_of hs) batches)) h = None"
        using that fresh hs(1) by (auto simp: map_of_zip_is_None)
      then show ?thesis using heap root [OF that] by (simp add: map_add_def)
    qed
    obtain s where s: "finish_reconstruction E r hs = Inr s" using finish_total [OF prep len] by blast
    then have res: "res = Inr s"
      using assms(2) \<open>prepare_reconstruction E st r = Inr rb\<close> rb alloc Inr by (auto simp: reconstruct_def)
    have "?held \<subseteq> dom (gc_map st1)" using same root by (metis domD domIff subsetI)
    then have "faithful_state E r st1 s" by (rule finish_faithful [OF prep len hs(2) fresh heap _ s])
    then show ?thesis using laws same res st' by (auto simp: restrict_map_def fun_eq_iff)
  qed
qed

definition sample_deopt :: deopt_recipe where
  "sample_deopt =
     \<lparr>deopt_id = 0, deopt_executable = \<lparr>executable_id = 9, executable_epoch = 2\<rparr>,
      deopt_resume_pc = 4, deopt_mode = ReplayBeforePc,
      deopt_frames =
        [\<lparr>frame_function = 1, frame_resume_pc = 4,
          frame_registers =
            [\<lparr>recipe_register = 1, recipe_source = SrcVirtual 6, recipe_type = WxHandle\<rparr>,
             \<lparr>recipe_register = 0, recipe_source = SrcSsa 3, recipe_type = WxHandle\<rparr>],
          dead_registers = {}, frame_exception = ExcClear\<rparr>],
      deopt_virtuals =
        [\<lparr>virtual_id = 5, virtual_kind = VirtualTuple [SrcVirtual 6, SrcConstant (WxInteger 8)]\<rparr>,
         \<lparr>virtual_id = 6, virtual_kind = VirtualList [SrcSsa 3, SrcVirtual 5]\<rparr>],
      root_point = 0, explicit_roots = [],
      deopt_dependencies =
        map (\<lambda>(k, i, e). \<lparr>dep_kind = k, dep_identity = i, expected_epoch = e, observed_epoch = e\<rparr>)
          [(DepExecutable, 9, 2), (DepSchema, 0, 0), (DepGcAbi, 0, 0), (DepHelperAbi, 0, 0)]\<rparr>"

definition sample_engine :: deopt_engine where
  "sample_engine = deopt_engine_new [(3, AtomHandle sample_second)] []"

lemma sample_prepared:
  "prepare_reconstruction sample_engine sample_pair sample_deopt =
     Inr ([(DeoptMaterializationRoot, sample_second)],
          [[BatchObjectAt 1], [BatchExternal sample_second, BatchObjectAt 0]])"
proof -
  have "object_at sample_pair sample_second = Inr (with_references [sample_first])"
    by (simp add: object_at_iff sample_pair_map)
  then show ?thesis
    by (simp add: prepare_reconstruction_def check_deopt_recipe_def sample_engine_def deopt_engine_new_def sample_deopt_def
        is_current_def validate_virtuals_def index_virtual_def validate_virtual_def shape_current_def
        validate_source_def ensure_def validate_frame_def sorted_registers_def Let_def
        validate_register_def external_roots_def add_atom_root_def root_insert_def recheck_register_def
        batch_of_def batch_reference_of_def List.map_filter_simps)
qed

lemma sample_batches_allocated:
  "\<exists>st' hs. allocate_graph_with_roots default_config
     [[BatchObjectAt 1], [BatchExternal sample_second, BatchObjectAt 0]]
     [(DeoptMaterializationRoot, sample_second)] 0 sample_pair = (st', Inr hs)"
  by (simp add: sample_eval Let_def ensure_def gc_resolve_def handle_resolve_def handle_index_def)

theorem reconstruction_exact_witness:
  "\<exists>st' s. reconstruct sample_engine default_config 0 sample_deopt sample_pair = (st', Inr s) \<and>
     gc_map st' sample_second = Some (with_references [sample_first]) \<and>
     faithful_state sample_engine sample_deopt st' s"
proof -
  let ?q = "reconstruct sample_engine default_config 0 sample_deopt sample_pair"
  obtain st' hs where alloc: "allocate_graph_with_roots default_config
     [[BatchObjectAt 1], [BatchExternal sample_second, BatchObjectAt 0]]
     [(DeoptMaterializationRoot, sample_second)] 0 sample_pair = (st', Inr hs)"
    using sample_batches_allocated by blast
  obtain index where prep: "prepared sample_engine sample_pair sample_deopt index
      [(DeoptMaterializationRoot, sample_second)]
      [[BatchObjectAt 1], [BatchExternal sample_second, BatchObjectAt 0]]"
    using prepare_prepared [OF sample_prepared] by blast
  have "length hs = length (deopt_virtuals sample_deopt)"
    using allocate_graph_laws [OF sample_pair_ok alloc] by (simp add: sample_deopt_def)
  then obtain s where "finish_reconstruction sample_engine sample_deopt hs = Inr s"
    using finish_total [OF prep] by blast
  then have result: "?q = (st', Inr s)"
    unfolding reconstruct_def sample_prepared by (simp only: alloc sum.case prod.case)
  have "sample_second \<in> set (atom_handles (held_atoms sample_engine))"
    by (simp add: set_atom_handles held_atoms_def sample_engine_def deopt_engine_new_def)
  then have "gc_map st' sample_second = gc_map sample_pair sample_second"
    using reconstruction_exact [OF sample_pair_ok result] by (metis restrict_in)
  then show ?thesis
    using reconstruction_exact [OF sample_pair_ok result] result by (auto simp: sample_pair_map)
qed

end
