(* ===== verification/Spec2Isabelle.thy ===== *)
theory Spec2Isabelle
  imports Heap_Laws Arithmetic_Laws Object_Ops_Laws Definite_Assignment_Laws Verifier_Laws
    Vm_Leaf Attribute_Cache Value_Word Safepoint Engine_Shapes Adaptive_Profile Wxir_Trace
    Wxir_Deopt_Laws
begin

text \<open>
  A verification development for Wustite, a register-based virtual machine for a Python subset
  with a structure map and just-in-time backends, written in Rust (\<open>src/src\<close>).

  \<^bold>\<open>The parts.\<close> A frontend lowers source text to bytecode (\<open>bytecode.rs\<close>) together with a
  structure map of operation sites, blocks, regions and value facts (\<open>structure_map.rs\<close>). The
  verifier (\<open>verifier.rs\<close>) checks both once per function. The virtual machine (\<open>wvm.rs\<close>) runs
  verified functions on a heap of objects (\<open>object/heap.rs\<close>), whose lists and tuples choose their
  storage by content (\<open>object/sequence.rs\<close>).

  \<^bold>\<open>The theories.\<close>
  \<^item> \<open>Wustite_Prelude\<close>: results as sums, checked and saturating machine integers, list edits.
  \<^item> \<open>Float64\<close>: binary64 as bit patterns with exact decoding and correct rounding.
  \<^item> \<open>Bytecode\<close>, \<open>Structure_Facts\<close>: the instruction set and the structure map with its builder.
  \<^item> \<open>Runtime_Value\<close>, \<open>Sequence_Object\<close>, \<open>Wvm_Object\<close>: values, sequences and objects. The
    locale \<open>sequence_adt\<close> states what a sequence promises its clients.
  \<^item> \<open>Object_Heap\<close>, \<open>Heap_Laws\<close>: slots, generations, shapes, attributes and snapshot
    transactions. The locale \<open>object_store\<close> states what the heap promises.
  \<^item> \<open>Numeric_Semantics\<close>, \<open>Equality\<close>, \<open>Arithmetic\<close>, \<open>Arithmetic_Laws\<close>: the operators.
  \<^item> \<open>Object_Ops\<close>, \<open>Object_Ops_Laws\<close>: construction, indexing, slicing and list methods.
  \<^item> \<open>Definite_Assignment\<close>, \<open>Definite_Assignment_Laws\<close>: the worklist analysis of the verifier and
    its exactness; the locale \<open>must_analysis\<close> states its contract.
  \<^item> \<open>Verifier\<close>, \<open>Verifier_Laws\<close>: the verifier and what its acceptance guarantees.
  \<^item> \<open>Vm_State\<close>, \<open>Quickening\<close>, \<open>Vm_Interpreter\<close>: frames, function runtimes, inline caches and the
    dispatch loop of \<open>wvm.rs\<close>, \<open>wvm/interpreter.rs\<close>, \<open>wvm/callables.rs\<close> and
    \<open>wvm/runtime_dispatch.rs\<close>, with an effect of every instruction on machine, runtime and frame.
  \<^item> \<open>Heap_Values\<close>, \<open>Heap_Values_Ops\<close>, \<open>Vm_Calls\<close>, \<open>Vm_Safety\<close>, \<open>Vm_Run\<close>, \<open>Vm_Soundness\<close>: a verified
    program never goes wrong. The invariant of heap, caches, runtimes and frames is kept by every
    heap operation, call, instruction and run.
  \<^item> \<open>Vm_Fuel\<close>, \<open>Vm_Leaf\<close>: the fuel of the dispatch loop never changes an answer, and prepared
    leaves need no more of it than they have instructions.
  \<^item> \<open>Quickening_Laws\<close>, \<open>Attribute_Cache\<close>: quickened code and attribute caches change nothing.
  \<^item> \<open>Stable_Handles\<close>: the handle table of the adaptive engine (\<open>adaptive_v2/handles.rs\<close>) as a
    finite map whose released keys never return.
  \<^item> \<open>Gc_Heap\<close>, \<open>Gc_Collection\<close>: the adaptive heap (\<open>adaptive_v2/heap.rs\<close>, \<open>heap/*.rs\<close>,
    \<open>roots.rs\<close>). \<open>Gc_Trace_Laws\<close> shows with the locale \<open>marking_loop\<close> that its traces compute
    reachability; \<open>Gc_Laws\<close>, \<open>Gc_Major_Laws\<close> and \<open>Gc_Soundness\<close> show the collections to be
    restrictions of the map from handles to objects and every operation to keep the heap well formed.
  \<^item> \<open>Value_Word\<close>: the tagged 64-bit words of \<open>adaptive_v2/value_word.rs\<close>.
  \<^item> \<open>Safepoint\<close>: the coordinator that stops the mutators (\<open>adaptive_v2/safepoint.rs\<close>) as a
    transition system of its critical sections: an operation runs while every peer is parked, and a
    request can starve.
  \<^item> \<open>Engine_Shapes\<close>: interned names, classes and shapes of the adaptive engine
    (\<open>adaptive_v2/symbols.rs\<close>, \<open>shapes.rs\<close>), whose keys go stale for good with their class.
  \<^item> \<open>Adaptive_Profile\<close>: inline caches and the profile that decides when to record and to compile
    (\<open>adaptive_v2/pic.rs\<close>, \<open>profile.rs\<close>).
  \<^item> \<open>Wxir_Snapshot\<close>, \<open>Wxir_Verify\<close>: the second intermediate representation
    (\<open>adaptive_v2/wxir_v2\<close>) and its verifier. \<open>Wxir_Dominators\<close> shows its dominators to be exact.
  \<^item> \<open>Wxir_Replay\<close>, \<open>Wxir_Replay_Laws\<close>: the reference execution of snapshots, at most 4096 blocks
    as in the source, and its safety on verified ones through the locale \<open>dominance\<close>.
  \<^item> \<open>Wxir_Trace\<close>: the recorder of traces (\<open>adaptive_v2/trace.rs\<close>), whose drafts are in static
    single assignment form.
  \<^item> \<open>Wxir_Deopt\<close>, \<open>Wxir_Deopt_Laws\<close>: deoptimization (\<open>adaptive_v2/wxir_v2/materialize.rs\<close>), which
    rebuilds frames and virtual objects in the adaptive heap without losing a handle.
  \<^item> \<open>Evaluation\<close>: concrete programs run by the simplifier.
\<close>

end
